(* ===== verification/Prelude.thy ===== *)
theory Prelude
  imports Complex_Main "HOL-Library.Monad_Syntax"
begin

text \<open>
  Shared vocabulary of the development: SQL tables as lists of records, SQL and
  JavaScript treatment of null, loops that may throw, and the two interfaces
  every stateful component is an instance of: a table inside a store
  (\<open>row_store\<close>) and a transition system with an invariant (\<open>step_system\<close>).
  Times are integers, in milliseconds since the epoch, as \<open>Date.getTime()\<close>
  gives them.
\<close>

type_synonym uuid = string
type_synonym millis = int

named_theorems sql_simps \<open>unfolding of the SQL and null helpers\<close>
named_theorems row_simps \<open>what an update leaves of a table\<close>

section \<open>Null\<close>

text \<open>An SQL comparison with a null operand is not true, so the row is not selected.\<close>

definition sql_lt :: "int option \<Rightarrow> int option \<Rightarrow> bool" where
  "sql_lt a b = (case (a, b) of (Some x, Some y) \<Rightarrow> x < y | _ \<Rightarrow> False)"

definition sql_le :: "int option \<Rightarrow> int option \<Rightarrow> bool" where
  "sql_le a b = (case (a, b) of (Some x, Some y) \<Rightarrow> x \<le> y | _ \<Rightarrow> False)"

text \<open>\<open>coalesce (a, b)\<close> of SQL, and \<open>a ?? b\<close> of JavaScript with a default that is a value.\<close>

definition coalesce :: "'a option \<Rightarrow> 'a option \<Rightarrow> 'a option" where
  "coalesce a b = (case a of None \<Rightarrow> b | Some x \<Rightarrow> Some x)"

definition nullish :: "'a option \<Rightarrow> 'a \<Rightarrow> 'a" where
  "nullish a b = (case a of None \<Rightarrow> b | Some x \<Rightarrow> x)"

text \<open>\<open>greatest (a, b)\<close> of SQL ignores nulls.\<close>

definition sql_greatest :: "int option \<Rightarrow> int option \<Rightarrow> int option" where
  "sql_greatest a b =
     (case (a, b) of
        (Some x, Some y) \<Rightarrow> Some (max x y)
      | (Some x, None) \<Rightarrow> Some x
      | (None, y) \<Rightarrow> y)"

lemma sql_lt_Some [simp]: "sql_lt (Some x) (Some y) \<longleftrightarrow> x < y"
  by (simp add: sql_lt_def)

lemma sql_lt_None [simp]: "\<not> sql_lt None b" "\<not> sql_lt a None"
  by (auto simp: sql_lt_def split: option.splits)

lemma sql_le_Some [simp]: "sql_le (Some x) (Some y) \<longleftrightarrow> x \<le> y"
  by (simp add: sql_le_def)

lemma sql_le_None [simp]: "\<not> sql_le None b" "\<not> sql_le a None"
  by (auto simp: sql_le_def split: option.splits)

lemma sql_ltE: "sql_lt a b \<Longrightarrow> (\<And>x y. a = Some x \<Longrightarrow> b = Some y \<Longrightarrow> x < y \<Longrightarrow> P) \<Longrightarrow> P"
  by (cases a; cases b) auto

lemma sql_leE: "sql_le a b \<Longrightarrow> (\<And>x y. a = Some x \<Longrightarrow> b = Some y \<Longrightarrow> x \<le> y \<Longrightarrow> P) \<Longrightarrow> P"
  by (cases a; cases b) auto

lemma coalesce_simps [simp]: "coalesce None b = b" "coalesce (Some x) b = Some x"
  by (simp_all add: coalesce_def)

lemma nullish_simps [simp]: "nullish None b = b" "nullish (Some x) b = x"
  by (simp_all add: nullish_def)

lemma sql_greatest_simps [simp]:
  "sql_greatest None b = b" "sql_greatest (Some x) None = Some x"
  "sql_greatest (Some x) (Some y) = Some (max x y)"
  by (cases b, simp_all add: sql_greatest_def)

section \<open>JavaScript numbers and arrays\<close>

text \<open>
  \<open>Math.round\<close> rounds halves up. Fractions are exact rationals here; the code
  computes them as doubles.
\<close>

definition js_round :: "rat \<Rightarrow> int" where
  "js_round x = \<lfloor>x + 1 / 2\<rfloor>"

lemma js_round_of_int [simp]: "js_round (of_int n) = n"
proof -
  have "\<lfloor>of_int n + (1 / 2 :: rat)\<rfloor> = n"
    by (rule floor_unique) auto
  then show ?thesis by (simp add: js_round_def)
qed

lemma js_round_error: "\<bar>of_int (js_round x) - x\<bar> \<le> 1 / 2"
proof -
  have "of_int \<lfloor>x + 1 / 2\<rfloor> \<le> x + 1 / 2" and "x + 1 / 2 < of_int \<lfloor>x + 1 / 2\<rfloor> + 1"
    using floor_correct [of "x + 1 / 2"] by simp_all
  then show ?thesis unfolding js_round_def by linarith
qed

lemma js_round_mono: "x \<le> y \<Longrightarrow> js_round x \<le> js_round y"
  by (simp add: js_round_def floor_mono)

text \<open>\<open>xs[i]\<close> is undefined out of range.\<close>

definition nth_opt :: "'a list \<Rightarrow> nat \<Rightarrow> 'a option" where
  "nth_opt xs i = (if i < length xs then Some (xs ! i) else None)"

lemma nth_opt_Cons [simp]:
  "nth_opt [] i = None" "nth_opt (x # xs) 0 = Some x" "nth_opt (x # xs) (Suc i) = nth_opt xs i"
  by (simp_all add: nth_opt_def)

lemma nth_opt_eq_None [simp]: "nth_opt xs i = None \<longleftrightarrow> length xs \<le> i"
  by (auto simp: nth_opt_def)

lemma nth_opt_Some: "nth_opt xs i = Some x \<longleftrightarrow> i < length xs \<and> xs ! i = x"
  by (auto simp: nth_opt_def)

text \<open>A loop over an array whose body may throw (\<open>None\<close>).\<close>

fun foldM :: "('a \<Rightarrow> 's \<Rightarrow> 's option) \<Rightarrow> 'a list \<Rightarrow> 's \<Rightarrow> 's option" where
  "foldM f [] s = Some s"
| "foldM f (x # xs) s = f x s \<bind> foldM f xs"

lemma foldM_append: "foldM f (xs @ ys) s = foldM f xs s \<bind> foldM f ys"
  by (induction xs arbitrary: s) (auto split: Option.bind_splits)

lemma foldM_invariant:
  assumes "foldM f xs s = Some t" and "I s"
    and "\<And>x s t. x \<in> set xs \<Longrightarrow> I s \<Longrightarrow> f x s = Some t \<Longrightarrow> I t"
  shows "I t"
  using assms
proof (induction xs arbitrary: s)
  case (Cons x xs)
  then obtain u where "f x s = Some u" and "foldM f xs u = Some t"
    by (auto split: Option.bind_splits)
  with Cons show ?case by (metis list.set_intros(1,2))
qed simp

section \<open>Tables\<close>

text \<open>
  \<open>UPDATE t SET \<dots> WHERE P\<close> is \<open>upd_where P f\<close>: each row that satisfies \<open>P\<close> is
  rewritten by \<open>f\<close>, every \<open>SET\<close> expression reading the old row.
\<close>

definition upd_where :: "('r \<Rightarrow> bool) \<Rightarrow> ('r \<Rightarrow> 'r) \<Rightarrow> 'r list \<Rightarrow> 'r list" where
  "upd_where P f xs = map (\<lambda>r. if P r then f r else r) xs"

definition find_row :: "('r \<Rightarrow> 'k) \<Rightarrow> 'k \<Rightarrow> 'r list \<Rightarrow> 'r option" where
  "find_row key k xs = find (\<lambda>r. key r = k) xs"

lemma length_upd_where [simp]: "length (upd_where P f xs) = length xs"
  by (simp add: upd_where_def)

lemma upd_where_Nil [simp]: "upd_where P f [] = []"
  by (simp add: upd_where_def)

lemma upd_where_Cons [simp]:
  "upd_where P f (x # xs) = (if P x then f x else x) # upd_where P f xs"
  by (simp add: upd_where_def)

lemma set_upd_where: "set (upd_where P f xs) = (\<lambda>r. if P r then f r else r) ` set xs"
  by (simp add: upd_where_def)

lemma upd_where_none: "(\<And>r. r \<in> set xs \<Longrightarrow> \<not> P r) \<Longrightarrow> upd_where P f xs = xs"
  by (induction xs) auto

lemma map_upd_where_frame:
  "(\<And>r. P r \<Longrightarrow> g (f r) = g r) \<Longrightarrow> map g (upd_where P f xs) = map g xs"
  by (induction xs) auto

lemma upd_where_list_all2:
  assumes "\<And>r. r \<in> set xs \<Longrightarrow> P r \<Longrightarrow> R r (f r)" and "\<And>r. r \<in> set xs \<Longrightarrow> \<not> P r \<Longrightarrow> R r r"
  shows "list_all2 R xs (upd_where P f xs)"
  using assms by (induction xs) auto

lemma find_row_Some_iff:
  "distinct (map key xs) \<Longrightarrow> find_row key k xs = Some r \<longleftrightarrow> r \<in> set xs \<and> key r = k"
  by (induction xs) (auto simp: find_row_def)

lemma find_row_Some: "find_row key k xs = Some r \<Longrightarrow> r \<in> set xs \<and> key r = k"
  by (auto simp: find_row_def find_Some_iff)

lemma find_row_None: "find_row key k xs = None \<longleftrightarrow> k \<notin> key ` set xs"
  by (auto simp: find_row_def find_None_iff)

lemma find_row_single: "find_row key k [r] = (if key r = k then Some r else None)"
  by (simp add: find_row_def)

lemma find_row_append:
  "find_row key k (xs @ ys) = (case find_row key k xs of None \<Rightarrow> find_row key k ys | Some r \<Rightarrow> Some r)"
  by (induction xs) (auto simp: find_row_def)

lemma find_row_upd_where:
  assumes "\<And>r. P r \<Longrightarrow> key (f r) = key r"
  shows "find_row key k (upd_where P f xs) =
    map_option (\<lambda>r. if P r then f r else r) (find_row key k xs)"
  using assms by (induction xs) (auto simp: find_row_def)

text \<open>A store that holds a table: the get/put laws are what every update relies on.\<close>

locale row_store =
  fixes get :: "'d \<Rightarrow> 'r list" and put :: "'r list \<Rightarrow> 'd \<Rightarrow> 'd" and key :: "'r \<Rightarrow> 'k"
  assumes get_put: "get (put xs d) = xs"
    and put_get: "put (get d) d = d"
    and put_put: "put ys (put xs d) = put ys d"
begin

lemma update_frame:
  assumes "\<And>r. P r \<Longrightarrow> g (f r) = g r"
  shows "map g (get (put (upd_where P f (get d)) d)) = map g (get d)"
  using assms by (simp add: get_put map_upd_where_frame)

lemma lookup_update:
  assumes "\<And>r. P r \<Longrightarrow> key (f r) = key r"
  shows "find_row key k (get (put (upd_where P f (get d)) d)) =
    map_option (\<lambda>r. if P r then f r else r) (find_row key k (get d))"
  using assms by (simp add: get_put find_row_upd_where)

lemma lookup_update_other:
  assumes "\<And>r. P r \<Longrightarrow> key (f r) = key r" and "\<And>r. key r = k \<Longrightarrow> \<not> P r"
  shows "find_row key k (get (put (upd_where P f (get d)) d)) = find_row key k (get d)"
  using assms by (auto simp: lookup_update map_option_case dest: find_row_Some split: option.splits)

lemma update_nothing:
  assumes "\<And>r. r \<in> set (get d) \<Longrightarrow> \<not> P r"
  shows "put (upd_where P f (get d)) d = d"
  using assms by (simp add: upd_where_none put_get)

end

section \<open>Transition systems\<close>

text \<open>
  A component whose behaviour is a step relation: an invariant that holds at
  the start and is kept by each step holds in every reachable state.
\<close>

locale step_system =
  fixes start :: "'s \<Rightarrow> bool" and step :: "'s \<Rightarrow> 's \<Rightarrow> bool" and inv :: "'s \<Rightarrow> bool"
  assumes inv_start: "start s \<Longrightarrow> inv s"
    and inv_step: "inv s \<Longrightarrow> step s t \<Longrightarrow> inv t"
begin

lemma inv_steps: "step\<^sup>*\<^sup>* s t \<Longrightarrow> inv s \<Longrightarrow> inv t"
  by (induction rule: rtranclp_induct) (auto intro: inv_step)

lemma inv_reachable: "start s \<Longrightarrow> step\<^sup>*\<^sup>* s t \<Longrightarrow> inv t"
  by (blast intro: inv_steps inv_start)

end

end
