(* ===== verification/Js_Text.thy ===== *)
theory Js_Text
  imports Prelude "HOL-Library.Char_ord" "HOL-Library.List_Lexorder" "HOL-Library.Sublist"
begin

text \<open>
  The JavaScript string operations the components use. A string is a list of
  characters with codes 0 to 255, so \<open>trim\<close> and \<open>toLowerCase\<close> are given on the
  Latin-1 range; every name, address and label the code accepts is ASCII.
\<close>

abbreviation char_code :: "char \<Rightarrow> nat" where "char_code c \<equiv> of_char c"

definition is_digit :: "char \<Rightarrow> bool" where
  "is_digit c \<longleftrightarrow> 48 \<le> char_code c \<and> char_code c \<le> 57"

definition is_lower :: "char \<Rightarrow> bool" where
  "is_lower c \<longleftrightarrow> 97 \<le> char_code c \<and> char_code c \<le> 122"

definition is_space :: "char \<Rightarrow> bool" where
  "is_space c \<longleftrightarrow> (9 \<le> char_code c \<and> char_code c \<le> 13) \<or> char_code c = 32 \<or> char_code c = 160"

definition lower_char :: "char \<Rightarrow> char" where
  "lower_char c =
     (if (65 \<le> char_code c \<and> char_code c \<le> 90) \<or> (192 \<le> char_code c \<and> char_code c \<le> 222 \<and> char_code c \<noteq> 215)
      then char_of (char_code c + 32) else c)"

definition toLowerCase :: "string \<Rightarrow> string" where
  "toLowerCase s = map lower_char s"

definition trim :: "string \<Rightarrow> string" where
  "trim s = rev (dropWhile is_space (rev (dropWhile is_space s)))"

definition startsWith :: "string \<Rightarrow> string \<Rightarrow> bool" where
  "startsWith s p = prefix p s"

definition endsWith :: "string \<Rightarrow> string \<Rightarrow> bool" where
  "endsWith s p = suffix p s"

text \<open>\<open>s.split(sep)\<close> for a one-character separator: never the empty array.\<close>

fun split :: "char \<Rightarrow> string \<Rightarrow> string list" where
  "split sep [] = [] # []"
| "split sep (c # cs) =
     (if c = sep then [] # split sep cs
      else (case split sep cs of [] \<Rightarrow> [c] # [] | p # ps \<Rightarrow> (c # p) # ps))"

text \<open>\<open>ps.join(sep)\<close>.\<close>

fun join :: "string \<Rightarrow> string list \<Rightarrow> string" where
  "join sep [] = []"
| "join sep [p] = p"
| "join sep (p # q # ps) = p @ sep @ join sep (q # ps)"

text \<open>\<open>Number(s)\<close> for a string of decimal digits.\<close>

definition digit_val :: "char \<Rightarrow> nat" where
  "digit_val c = char_code c - 48"

definition number_of_digits :: "string \<Rightarrow> nat" where
  "number_of_digits s = foldl (\<lambda>n c. 10 * n + digit_val c) 0 s"

text \<open>\<open>String(n)\<close> of a natural number.\<close>

fun show_nat :: "nat \<Rightarrow> string" where
  "show_nat n =
     (if n < 10 then [char_of (48 + n)] else show_nat (n div 10) @ [char_of (48 + n mod 10)])"

declare show_nat.simps [simp del]

section \<open>Splitting and joining\<close>

lemma split_not_Nil [simp]: "split sep s \<noteq> []"
  by (induction s) (auto split: list.splits)

lemma join_Cons: "ps \<noteq> [] \<Longrightarrow> join sep (p # ps) = p @ sep @ join sep ps"
  by (cases ps) auto

lemma join_split [simp]: "join [sep] (split sep s) = s"
proof (induction s)
  case (Cons c s)
  obtain p ps where sp: "split sep s = p # ps" by (cases "split sep s") auto
  show ?case
  proof (cases "c = sep")
    case True
    with Cons sp show ?thesis by (simp add: join_Cons)
  next
    case False
    with Cons sp show ?thesis by (cases ps) (auto simp: join_Cons)
  qed
qed simp

lemma split_no_sep: "sep \<notin> set s \<Longrightarrow> split sep s = [s]"
  by (induction s) auto

lemma split_append: "sep \<notin> set p \<Longrightarrow> split sep (p @ sep # s) = p # split sep s"
  by (induction p) auto

lemma in_split_no_sep: "p \<in> set (split sep s) \<Longrightarrow> sep \<notin> set p"
  by (induction s arbitrary: p) (auto split: list.splits if_splits)

lemma split_join:
  assumes "ps \<noteq> []" and "\<And>p. p \<in> set ps \<Longrightarrow> sep \<notin> set p"
  shows "split sep (join [sep] ps) = ps"
  using assms
proof (induction ps rule: list_nonempty_induct)
  case (cons p ps)
  then show ?case by (simp add: join_Cons split_append)
qed (simp add: split_no_sep)

lemma split_inject: "split sep s = split sep t \<longleftrightarrow> s = t"
  by (metis join_split)

section \<open>Decimal numbers\<close>

lemma digit_char: "n < 10 \<Longrightarrow> is_digit (char_of (48 + n :: nat))"
  by (simp add: is_digit_def)

lemma show_nat_digits: "show_nat n \<noteq> [] \<and> list_all is_digit (show_nat n)"
proof (induction n rule: show_nat.induct)
  case (1 n)
  then show ?case by (subst show_nat.simps, subst (2) show_nat.simps) (auto simp: digit_char)
qed

lemma number_of_digits_Nil [simp]: "number_of_digits [] = 0"
  by (simp add: number_of_digits_def)

lemma number_of_digits_snoc [simp]:
  "number_of_digits (s @ [c]) = 10 * number_of_digits s + digit_val c"
  by (simp add: number_of_digits_def)

lemma digit_val_less: "is_digit c \<Longrightarrow> digit_val c < 10"
  unfolding is_digit_def digit_val_def by linarith

lemma digit_val_inject: "is_digit c \<Longrightarrow> is_digit d \<Longrightarrow> digit_val c = digit_val d \<longleftrightarrow> c = d"
  by (auto simp: is_digit_def digit_val_def)
    (metis le_add_diff_inverse of_char_eq_iff)

lemma number_of_digits_bound:
  "list_all is_digit s \<Longrightarrow> number_of_digits s < 10 ^ length s"
proof (induction s rule: rev_induct)
  case (snoc c s)
  then have "number_of_digits s < 10 ^ length s" "digit_val c < 10"
    by (auto dest: digit_val_less)
  then show ?case by simp
qed simp

lemma number_of_digits_pos:
  "list_all is_digit (c # s) \<Longrightarrow> c \<noteq> CHR ''0'' \<Longrightarrow> 10 ^ length s \<le> number_of_digits (c # s)"
proof (induction s rule: rev_induct)
  case Nil
  have "digit_val CHR ''0'' = 0" "is_digit CHR ''0''"
    by (simp_all add: digit_val_def is_digit_def)
  with Nil show ?case
    by (metis One_nat_def Suc_leI append_Nil digit_val_inject list.pred_inject(2) list.size(3)
        mult_0_right gr0I number_of_digits_Nil number_of_digits_snoc plus_nat.add_0 power_0)
next
  case (snoc d s)
  then have "10 ^ length s \<le> number_of_digits (c # s)" by simp
  moreover have "number_of_digits (c # s @ [d]) = 10 * number_of_digits (c # s) + digit_val d"
    using number_of_digits_snoc [of "c # s" d] by simp
  ultimately show ?case by simp
qed

text \<open>A decimal numeral as the code's patterns accept it: no leading zero.\<close>

definition canonical_decimal :: "string \<Rightarrow> bool" where
  "canonical_decimal s \<longleftrightarrow>
     list_all is_digit s \<and> s \<noteq> [] \<and> (hd s = CHR ''0'' \<longrightarrow> length s = 1)"

lemma number_of_digits_inject_same_length:
  assumes "list_all is_digit s" "list_all is_digit t" "length s = length t"
    and "number_of_digits s = number_of_digits t"
  shows "s = t"
  using assms
proof (induction s arbitrary: t rule: rev_induct)
  case (snoc c s)
  then obtain t' d where t: "t = t' @ [d]" by (cases t rule: rev_cases) auto
  with snoc.prems have dig: "is_digit c" "is_digit d"
    and eq: "10 * number_of_digits s + digit_val c = 10 * number_of_digits t' + digit_val d"
    by auto
  from dig have "digit_val c < 10" "digit_val d < 10" by (simp_all add: digit_val_less)
  with eq have "number_of_digits s = number_of_digits t'" "digit_val c = digit_val d" by arith+
  with snoc dig t show ?case by (auto simp: digit_val_inject)
qed simp

lemma canonical_decimal_inject:
  assumes "canonical_decimal s" "canonical_decimal t" "number_of_digits s = number_of_digits t"
  shows "s = t"
proof -
  have len: "length s = length t" if cs: "canonical_decimal s" and ct: "canonical_decimal t"
    and eq: "number_of_digits s = number_of_digits t" and le: "length s \<le> length t" for s t
  proof (rule ccontr)
    assume "length s \<noteq> length t"
    with le have lt: "length s < length t" by simp
    from ct obtain c t' where t: "t = c # t'" by (cases t) (auto simp: canonical_decimal_def)
    from cs have "s \<noteq> []" by (simp add: canonical_decimal_def)
    with lt t ct have "c \<noteq> CHR ''0''" by (auto simp: canonical_decimal_def)
    with ct t have "10 ^ length t' \<le> number_of_digits t"
      by (auto simp: canonical_decimal_def intro: number_of_digits_pos)
    moreover have "number_of_digits s < 10 ^ length s"
      using cs by (simp add: canonical_decimal_def number_of_digits_bound)
    moreover have "(10::nat) ^ length s \<le> 10 ^ length t'"
      using lt t by (intro power_increasing) auto
    ultimately show False using eq by linarith
  qed
  have "length s = length t"
    using len [of s t] len [of t s] assms by (cases "length s \<le> length t") auto
  with assms show ?thesis
    by (auto simp: canonical_decimal_def intro: number_of_digits_inject_same_length)
qed

end
