(* ===== verification/Egress.thy ===== *)
theory Egress
  imports Js_Text
begin

text \<open>
  The workspace egress policy, \<open>packages/contracts/src/egress.ts\<close>: host names, IPv4
  addresses and ranges as the code parses them, why a host is or is not reachable
  (\<open>explainHost\<close>), the expanded policy the worker hands to the controller
  (\<open>expandEgressPolicy\<close>) and the schema that policy is checked against, with the
  Docker start configuration of \<open>apps/worker/src/docker-start.ts\<close> that reads it.
\<close>

section \<open>Data\<close>

datatype egress_mode = OpenMode | AllowList

datatype egress_preset_id = Npm | Python | Apt | DockerHub | Github | Gitlab | Claude | Codex

datatype egress_entry_kind = HostEntry | RangeEntry

record egress_entry =
  entry_kind :: egress_entry_kind
  entry_value :: string
  entry_label :: string

record blocked_site =
  site_value :: string
  site_label :: string

record egress_policy =
  policy_mode :: egress_mode
  policy_presets :: "egress_preset_id list"
  policy_ports :: "nat list"
  policy_entries :: "egress_entry list"
  policy_blockedSites :: "blocked_site list"

record egress_preset =
  preset_id :: egress_preset_id
  preset_label :: string
  preset_hosts :: "string list"

definition EGRESS_PRESETS :: "egress_preset list" where
  "EGRESS_PRESETS =
    [\<lparr>preset_id = Npm, preset_label = ''npm and Node.js'',
       preset_hosts = [''npmjs.org'', ''yarnpkg.com'', ''nodejs.org'']\<rparr>,
     \<lparr>preset_id = Python, preset_label = ''Python packages'',
       preset_hosts = [''pypi.org'', ''pythonhosted.org'']\<rparr>,
     \<lparr>preset_id = Apt, preset_label = ''Debian and the image's apt repositories'',
       preset_hosts = [''deb.debian.org'', ''security.debian.org'', ''download.docker.com'',
         ''deb.nodesource.com'', ''cli.github.com'']\<rparr>,
     \<lparr>preset_id = DockerHub, preset_label = ''Docker Hub'',
       preset_hosts = [''docker.io'', ''docker.com'']\<rparr>,
     \<lparr>preset_id = Github, preset_label = ''GitHub'',
       preset_hosts = [''github.com'', ''githubusercontent.com'', ''ghcr.io'']\<rparr>,
     \<lparr>preset_id = Gitlab, preset_label = ''GitLab'', preset_hosts = [''gitlab.com'']\<rparr>,
     \<lparr>preset_id = Claude, preset_label = ''Claude (Anthropic)'',
       preset_hosts = [''anthropic.com'', ''claude.ai'', ''claude.com'']\<rparr>,
     \<lparr>preset_id = Codex, preset_label = ''Codex (OpenAI)'',
       preset_hosts = [''openai.com'', ''chatgpt.com'']\<rparr>]"

definition EGRESS_DENIED_RANGES_V4 :: "string list" where
  "EGRESS_DENIED_RANGES_V4 =
    [''0.0.0.0/8'', ''10.0.0.0/8'', ''100.64.0.0/10'', ''127.0.0.0/8'', ''169.254.0.0/16'',
     ''172.16.0.0/12'', ''192.168.0.0/16'', ''224.0.0.0/4'', ''240.0.0.0/4'']"

definition LIMIT_HOSTS :: nat where "LIMIT_HOSTS = 500"
definition LIMIT_BLOCKED_SITES :: nat where "LIMIT_BLOCKED_SITES = 500"
definition LIMIT_RANGES :: nat where "LIMIT_RANGES = 100"
definition LIMIT_PORTS :: nat where "LIMIT_PORTS = 20"
definition LIMIT_LABEL :: nat where "LIMIT_LABEL = 80"
definition LIMIT_HOST_LENGTH :: nat where "LIMIT_HOST_LENGTH = 253"

lemmas egress_limits [simp] =
  LIMIT_HOSTS_def LIMIT_BLOCKED_SITES_def LIMIT_RANGES_def LIMIT_PORTS_def LIMIT_LABEL_def
  LIMIT_HOST_LENGTH_def

section \<open>Names, addresses, ranges\<close>

definition alnum :: "char \<Rightarrow> bool" where
  "alnum c \<longleftrightarrow> is_lower c \<or> is_digit c"

text \<open>\<open>/^[a-z0-9](?:[a-z0-9-]{0,61}[a-z0-9])?$/\<close>\<close>

definition LABEL_RE :: "string \<Rightarrow> bool" where
  "LABEL_RE l \<longleftrightarrow>
     l \<noteq> [] \<and> length l \<le> 63 \<and> alnum (hd l) \<and> alnum (last l) \<and>
     list_all (\<lambda>c. alnum c \<or> c = CHR ''-'') l"

definition isEgressHostName :: "string \<Rightarrow> bool" where
  "isEgressHostName value =
     (if length value = 0 \<or> LIMIT_HOST_LENGTH < length value then False
      else let labels = split CHR ''.'' value in
        if length labels < 2 then False
        else if \<not> list_all LABEL_RE labels then False
        else \<not> list_all is_digit (last labels))"

text \<open>\<open>/^(0|[1-9][0-9]{0,2})$/\<close> is a canonical decimal of at most three digits.\<close>

fun parseIpv4_parts :: "string list \<Rightarrow> nat \<Rightarrow> nat option" where
  "parseIpv4_parts [] out = Some out"
| "parseIpv4_parts (p # ps) out =
     (if \<not> (canonical_decimal p \<and> length p \<le> 3) then None
      else let n = number_of_digits p in
        if 255 < n then None else parseIpv4_parts ps (out * 256 + n))"

definition parseIpv4 :: "string \<Rightarrow> nat option" where
  "parseIpv4 value =
     (let parts = split CHR ''.'' value in
      if length parts \<noteq> 4 then None else parseIpv4_parts parts 0)"

record ipv4_range =
  first :: nat
  last_addr :: nat

text \<open>\<open>/^([0-9.]+)\/(0|[1-9][0-9]?)$/\<close>: one slash, digits and dots before it, a
  canonical decimal of at most two digits after it.\<close>

definition parseIpv4Cidr :: "string \<Rightarrow> ipv4_range option" where
  "parseIpv4Cidr value =
     (case split CHR ''/'' value of
        [m1, m2] \<Rightarrow>
          if \<not> (m1 \<noteq> [] \<and> list_all (\<lambda>c. is_digit c \<or> c = CHR ''.'') m1
                 \<and> canonical_decimal m2 \<and> length m2 \<le> 2) then None
          else (let bits = number_of_digits m2 in
            case parseIpv4 m1 of
              None \<Rightarrow> None
            | Some base \<Rightarrow>
                if 32 < bits then None
                else let size = 2 ^ (32 - bits) in
                  if base mod size \<noteq> 0 then None
                  else Some \<lparr>first = base, last_addr = base + size - 1\<rparr>)
      | _ \<Rightarrow> None)"

definition DENIED :: "(string \<times> ipv4_range option) list" where
  "DENIED = map (\<lambda>r. (r, parseIpv4Cidr r)) EGRESS_DENIED_RANGES_V4"

fun deniedOverlap_in :: "(string \<times> ipv4_range option) list \<Rightarrow> ipv4_range \<Rightarrow> string option" where
  "deniedOverlap_in [] rng = None"
| "deniedOverlap_in ((r, Some d) # ds) rng =
     (if first rng \<le> last_addr d \<and> first d \<le> last_addr rng then Some r
      else deniedOverlap_in ds rng)"
| "deniedOverlap_in ((r, None) # ds) rng = deniedOverlap_in ds rng"

definition deniedOverlap :: "ipv4_range \<Rightarrow> string option" where
  "deniedOverlap rng = deniedOverlap_in DENIED rng"

definition normalize :: "string \<Rightarrow> string" where
  "normalize value = toLowerCase (trim value)"

text \<open>The request schemas: \<open>None\<close> when the value is refused.\<close>

definition EgressHost :: "string \<Rightarrow> string option" where
  "EgressHost v =
     (if 300 < length v then None
      else if isEgressHostName (normalize v) then Some (normalize v) else None)"

definition EgressRange :: "string \<Rightarrow> string option" where
  "EgressRange v =
     (if 30 < length v then None
      else let value = trim v in
        case parseIpv4Cidr value of
          None \<Rightarrow> None
        | Some parsed \<Rightarrow> if deniedOverlap parsed = None then Some value else None)"

definition EgressLabel :: "string \<Rightarrow> string option" where
  "EgressLabel v = (let l = trim v in if LIMIT_LABEL < length l then None else Some l)"

definition EgressEntryRequest :: "egress_entry \<Rightarrow> egress_entry option" where
  "EgressEntryRequest e = do {
     value \<leftarrow> (case entry_kind e of
       HostEntry \<Rightarrow> EgressHost (entry_value e) | RangeEntry \<Rightarrow> EgressRange (entry_value e));
     label \<leftarrow> EgressLabel (entry_label e);
     Some \<lparr>entry_kind = entry_kind e, entry_value = value, entry_label = label\<rparr> }"

definition EgressPorts :: "nat list \<Rightarrow> bool" where
  "EgressPorts ports \<longleftrightarrow>
     list_all (\<lambda>p. 1 \<le> p \<and> p \<le> 65535) ports \<and> 1 \<le> length ports \<and>
     length ports \<le> LIMIT_PORTS \<and> distinct ports"

section \<open>Explaining and expanding a policy\<close>

datatype egress_explanation =
    ExOpen
  | ExPreset egress_preset_id string string
  | ExEntry string string
  | ExRange string string
  | ExDenied string
  | ExAddress
  | ExNotListed
  | ExBlocked string string
  | ExInvalid

fun ex_allowed :: "egress_explanation \<Rightarrow> bool" where
  "ex_allowed ExOpen = True"
| "ex_allowed (ExPreset p l e) = True"
| "ex_allowed (ExEntry e l) = True"
| "ex_allowed (ExRange r l) = True"
| "ex_allowed (ExDenied r) = False"
| "ex_allowed ExAddress = False"
| "ex_allowed ExNotListed = False"
| "ex_allowed (ExBlocked e l) = False"
| "ex_allowed ExInvalid = False"

definition covers :: "string \<Rightarrow> string \<Rightarrow> bool" where
  "covers entry host \<longleftrightarrow> host = entry \<or> endsWith host (CHR ''.'' # entry)"

fun explain_ranges :: "egress_entry list \<Rightarrow> nat \<Rightarrow> egress_explanation" where
  "explain_ranges [] address = ExAddress"
| "explain_ranges (e # es) address =
     (if entry_kind e \<noteq> RangeEntry then explain_ranges es address
      else case parseIpv4Cidr (entry_value e) of
        Some r \<Rightarrow>
          if first r \<le> address \<and> address \<le> last_addr r
          then ExRange (entry_value e) (entry_label e)
          else explain_ranges es address
      | None \<Rightarrow> explain_ranges es address)"

fun explain_presets ::
  "egress_preset list \<Rightarrow> egress_preset_id list \<Rightarrow> string \<Rightarrow> egress_explanation option" where
  "explain_presets [] chosen value = None"
| "explain_presets (preset # ps) chosen value =
     (if preset_id preset \<notin> set chosen then explain_presets ps chosen value
      else case find (\<lambda>h. covers h value) (preset_hosts preset) of
        Some hit \<Rightarrow> Some (ExPreset (preset_id preset) (preset_label preset) hit)
      | None \<Rightarrow> explain_presets ps chosen value)"

fun explain_entries :: "egress_entry list \<Rightarrow> string \<Rightarrow> egress_explanation" where
  "explain_entries [] value = ExNotListed"
| "explain_entries (e # es) value =
     (if entry_kind e = HostEntry \<and> covers (entry_value e) value
      then ExEntry (entry_value e) (entry_label e)
      else explain_entries es value)"

definition explainHost :: "egress_policy \<Rightarrow> string \<Rightarrow> egress_explanation" where
  "explainHost policy input =
     (let value = normalize input in
      case parseIpv4 value of
        Some address \<Rightarrow>
          (case deniedOverlap \<lparr>first = address, last_addr = address\<rparr> of
             Some denied \<Rightarrow> ExDenied denied
           | None \<Rightarrow>
               if policy_mode policy = OpenMode then ExOpen
               else explain_ranges (policy_entries policy) address)
      | None \<Rightarrow>
          if \<not> isEgressHostName value then ExInvalid
          else if policy_mode policy = OpenMode then
            (case find (\<lambda>b. covers (site_value b) value) (policy_blockedSites policy) of
               Some block \<Rightarrow> ExBlocked (site_value block) (site_label block)
             | None \<Rightarrow> ExOpen)
          else
            (case explain_presets EGRESS_PRESETS (policy_presets policy) value of
               Some ex \<Rightarrow> ex
             | None \<Rightarrow> explain_entries (policy_entries policy) value))"

record expanded_policy =
  x_mode :: egress_mode
  x_names :: "string list"
  x_ranges :: "string list"
  x_ports :: "nat list"
  x_blocked :: "string list"

definition expandEgressPolicy :: "egress_policy \<Rightarrow> expanded_policy" where
  "expandEgressPolicy policy =
     (let presetNames =
        concat (map preset_hosts
          (filter (\<lambda>p. preset_id p \<in> set (policy_presets policy)) EGRESS_PRESETS));
        hostNames =
          map entry_value (filter (\<lambda>e. entry_kind e = HostEntry) (policy_entries policy));
        ranges =
          map entry_value (filter (\<lambda>e. entry_kind e \<noteq> HostEntry) (policy_entries policy))
      in \<lparr>x_mode = policy_mode policy,
          x_names = sort (remdups (presetNames @ hostNames)),
          x_ranges = sort ranges,
          x_ports = sort (policy_ports policy),
          x_blocked = (if policy_mode policy = OpenMode
            then sort (map site_value (policy_blockedSites policy)) else [])\<rparr>)"

definition PRESET_HOST_COUNT :: nat where
  "PRESET_HOST_COUNT = foldl (\<lambda>n p. n + length (preset_hosts p)) 0 EGRESS_PRESETS"

definition EgressApplyPolicy :: "nat \<Rightarrow> expanded_policy \<Rightarrow> bool" where
  "EgressApplyPolicy version p \<longleftrightarrow>
     version \<le> 2147483647 \<and>
     list_all isEgressHostName (x_names p) \<and>
     length (x_names p) \<le> LIMIT_HOSTS + PRESET_HOST_COUNT \<and> distinct (x_names p) \<and>
     list_all (\<lambda>r. case parseIpv4Cidr r of
        None \<Rightarrow> False | Some parsed \<Rightarrow> deniedOverlap parsed = None) (x_ranges p) \<and>
     length (x_ranges p) \<le> LIMIT_RANGES \<and> distinct (x_ranges p) \<and>
     EgressPorts (x_ports p) \<and>
     list_all isEgressHostName (x_blocked p) \<and>
     length (x_blocked p) \<le> LIMIT_BLOCKED_SITES \<and> distinct (x_blocked p) \<and>
     (x_mode p = OpenMode \<or> length (x_blocked p) = 0)"

section \<open>The Docker configuration of one start\<close>

record docker_config =
  hubMirror :: bool
  ghcr :: bool

definition HUB_UPSTREAM_NAMES :: "string list" where
  "HUB_UPSTREAM_NAMES =
     [''registry-1.docker.io'', ''auth.docker.io'', ''production.cloudflare.docker.com'']"

definition GHCR_UPSTREAM_NAMES :: "string list" where
  "GHCR_UPSTREAM_NAMES = [''ghcr.io'', ''pkg-containers.githubusercontent.com'']"

definition dockerConfigFor :: "egress_policy \<Rightarrow> bool \<Rightarrow> docker_config" where
  "dockerConfigFor policy ghcrEnabled =
     (let allows = list_all (\<lambda>name. ex_allowed (explainHost policy name)) in
      \<lparr>hubMirror = allows HUB_UPSTREAM_NAMES,
       ghcr = ghcrEnabled \<and> allows GHCR_UPSTREAM_NAMES\<rparr>)"

section \<open>Addresses\<close>

lemma parseIpv4_parts_Cons:
  "parseIpv4_parts (p # ps) out = Some a \<longleftrightarrow>
     canonical_decimal p \<and> length p \<le> 3 \<and> number_of_digits p \<le> 255 \<and>
     parseIpv4_parts ps (out * 256 + number_of_digits p) = Some a"
  by (auto simp: Let_def not_less)

declare parseIpv4_parts.simps(2) [simp del]

lemma parseIpv4_parts_bound:
  "parseIpv4_parts ps out = Some a \<Longrightarrow>
     out * 256 ^ length ps \<le> a \<and> a < (out + 1) * 256 ^ length ps"
proof (induction ps arbitrary: out)
  case (Cons p ps)
  let ?n = "number_of_digits p"
  from Cons.prems have n: "?n \<le> 255" and r: "parseIpv4_parts ps (out * 256 + ?n) = Some a"
    by (simp_all add: parseIpv4_parts_Cons)
  from Cons.IH [OF r]
  have lo: "(out * 256 + ?n) * 256 ^ length ps \<le> a"
    and hi: "a < (out * 256 + ?n + 1) * 256 ^ length ps" by simp_all
  have "out * 256 ^ length (p # ps) \<le> (out * 256 + ?n) * 256 ^ length ps"
    by (simp add: algebra_simps)
  moreover have "(out * 256 + ?n + 1) * 256 ^ length ps \<le> (out + 1) * 256 ^ length (p # ps)"
  proof -
    have "(out * 256 + ?n + 1) * 256 ^ length ps \<le> (out * 256 + 256) * 256 ^ length ps"
      using n by (intro mult_le_mono1) simp
    then show ?thesis by (simp add: algebra_simps)
  qed
  ultimately show ?case using lo hi by linarith
qed simp

lemma octet_inject:
  fixes x y m n :: nat
  assumes "x * 256 + m = y * 256 + n" "m \<le> 255" "n \<le> 255"
  shows "m = n"
proof -
  have "(m + 256 * x) mod 256 = (n + 256 * y) mod 256" using assms(1) by (simp add: ac_simps)
  then show ?thesis using assms(2,3) by (simp add: mod_mult_self1)
qed

lemma parseIpv4_parts_inject:
  assumes "parseIpv4_parts ps out = Some a" "parseIpv4_parts qs out' = Some a"
    and "length ps = length qs"
  shows "ps = qs \<and> out = out'"
  using assms
proof (induction ps arbitrary: out out' qs)
  case (Cons p ps)
  then obtain q qs' where qs: "qs = q # qs'" by (cases qs) auto
  from Cons.prems qs have c: "canonical_decimal p" "canonical_decimal q"
    and b: "number_of_digits p \<le> 255" "number_of_digits q \<le> 255"
    and r: "parseIpv4_parts ps (out * 256 + number_of_digits p) = Some a"
      "parseIpv4_parts qs' (out' * 256 + number_of_digits q) = Some a"
    by (simp_all add: parseIpv4_parts_Cons)
  have "length ps = length qs'" using Cons.prems(3) qs by simp
  from Cons.IH [OF r this]
  have eq: "ps = qs'" "out * 256 + number_of_digits p = out' * 256 + number_of_digits q"
    by blast+
  have digits: "number_of_digits p = number_of_digits q" by (rule octet_inject [OF eq(2) b])
  with eq(2) have "out = out'" by simp
  with canonical_decimal_inject [OF c digits] eq(1) qs show ?case by simp
qed simp

text \<open>An address is below \<open>2 ^ 32\<close> and has one spelling: no octal, padded or short forms.\<close>

lemma parseIpv4_spelling:
  assumes "parseIpv4 s = Some a"
  shows "a < 2 ^ 32 \<and> (parseIpv4 t = Some a \<longrightarrow> t = s)"
proof -
  from assms have s: "length (split CHR ''.'' s) = 4" "parseIpv4_parts (split CHR ''.'' s) 0 = Some a"
    by (auto simp: parseIpv4_def Let_def split: if_splits)
  from parseIpv4_parts_bound [OF s(2)] s(1) have "a < 2 ^ 32" by simp
  moreover have "t = s" if "parseIpv4 t = Some a"
  proof -
    from that have t: "length (split CHR ''.'' t) = 4"
      "parseIpv4_parts (split CHR ''.'' t) 0 = Some a"
      by (auto simp: parseIpv4_def Let_def split: if_splits)
    from parseIpv4_parts_inject [OF t(2) s(2)] s(1) t(1) show ?thesis by (simp add: split_inject)
  qed
  ultimately show ?thesis by blast
qed

lemma parseIpv4_parts_all:
  "parseIpv4_parts ps out = Some a \<Longrightarrow> p \<in> set ps \<Longrightarrow> canonical_decimal p \<and> length p \<le> 3"
  by (induction ps arbitrary: out) (auto simp: parseIpv4_parts_Cons)

text \<open>A name is never an address: its last label is not all digits.\<close>

lemma host_name_not_address:
  assumes "isEgressHostName v"
  shows "parseIpv4 v = None"
proof (rule ccontr)
  assume "parseIpv4 v \<noteq> None"
  then obtain a where a: "parseIpv4_parts (split CHR ''.'' v) 0 = Some a"
    by (auto simp: parseIpv4_def Let_def split: if_splits)
  have "list_all is_digit (last (split CHR ''.'' v))"
    using parseIpv4_parts_all [OF a last_in_set] by (simp add: canonical_decimal_def)
  with assms show False by (auto simp: isEgressHostName_def Let_def split: if_splits)
qed

section \<open>Ranges\<close>

lemma parseIpv4CidrE:
  assumes "parseIpv4Cidr v = Some r"
  obtains m1 m2 where "split CHR ''/'' v = [m1, m2]" "parseIpv4 m1 = Some (first r)"
    "number_of_digits m2 \<le> 32" "2 ^ (32 - number_of_digits m2) dvd first r"
    "last_addr r = first r + 2 ^ (32 - number_of_digits m2) - 1"
  using assms
  by (auto simp: parseIpv4Cidr_def Let_def dvd_eq_mod_eq_0 split: list.splits option.splits if_splits)

lemma aligned_block_below:
  fixes a k n :: nat
  assumes "k dvd a" "k dvd n" "a < n"
  shows "a + k \<le> n"
proof -
  from assms obtain x y where xy: "a = k * x" "n = k * y" by (auto elim!: dvdE)
  with assms have "x < y" by simp
  then have "k * (x + 1) \<le> k * y" by (intro mult_le_mono2) simp
  with xy show ?thesis by (simp add: algebra_simps)
qed

lemma parseIpv4Cidr_block:
  assumes "parseIpv4Cidr v = Some r"
  shows "first r \<le> last_addr r \<and> last_addr r < 2 ^ 32 \<and>
    (\<exists>k\<le>32. last_addr r + 1 - first r = 2 ^ k \<and> 2 ^ k dvd first r)"
proof -
  from assms obtain m1 m2 where p: "parseIpv4 m1 = Some (first r)"
    and d: "2 ^ (32 - number_of_digits m2) dvd first r"
    and l: "last_addr r = first r + 2 ^ (32 - number_of_digits m2) - 1"
    by (rule parseIpv4CidrE)
  let ?k = "32 - number_of_digits m2"
  have pos: "(1::nat) \<le> 2 ^ ?k" by simp
  from parseIpv4_spelling [OF p] have "first r < 2 ^ 32" by (rule conjunct1)
  moreover have "(2::nat) ^ ?k dvd 2 ^ 32" by (intro le_imp_power_dvd) simp
  ultimately have "first r + 2 ^ ?k \<le> 2 ^ 32" using d by (intro aligned_block_below) auto
  moreover have "last_addr r + 1 = first r + 2 ^ ?k" using l pos by linarith
  ultimately show ?thesis using d pos
    by (intro conjI exI [of _ ?k]) (linarith | simp)+
qed

definition in_range :: "nat \<Rightarrow> ipv4_range \<Rightarrow> bool" where
  "in_range a r \<longleftrightarrow> first r \<le> a \<and> a \<le> last_addr r"

definition denied_address :: "nat \<Rightarrow> bool" where
  "denied_address a \<longleftrightarrow>
     list_ex (\<lambda>r. case parseIpv4Cidr r of None \<Rightarrow> False | Some d \<Rightarrow> in_range a d)
       EGRESS_DENIED_RANGES_V4"

lemma deniedOverlap_in_None:
  "deniedOverlap_in ds r = None \<longleftrightarrow>
     (\<forall>s d. (s, Some d) \<in> set ds \<longrightarrow> \<not> (first r \<le> last_addr d \<and> first d \<le> last_addr r))"
  by (induction ds r rule: deniedOverlap_in.induct) auto

lemma deniedOverlap_None:
  "deniedOverlap r = None \<longleftrightarrow>
     (\<forall>s\<in>set EGRESS_DENIED_RANGES_V4. \<forall>d. parseIpv4Cidr s = Some d \<longrightarrow>
        \<not> (first r \<le> last_addr d \<and> first d \<le> last_addr r))"
  by (auto simp: deniedOverlap_def deniedOverlap_in_None DENIED_def image_iff) metis+

lemma deniedOverlap_point:
  "deniedOverlap \<lparr>first = a, last_addr = a\<rparr> = None \<longleftrightarrow> \<not> denied_address a"
  by (auto simp: deniedOverlap_None denied_address_def in_range_def list_ex_iff
      split: option.splits)

lemma admitted_range_avoids_denied:
  assumes "EgressRange v = Some w" and "parseIpv4Cidr w = Some r" and "in_range a r"
  shows "\<not> denied_address a"
proof
  assume "denied_address a"
  then obtain s d where "s \<in> set EGRESS_DENIED_RANGES_V4" "parseIpv4Cidr s = Some d" "in_range a d"
    by (auto simp: denied_address_def list_ex_iff split: option.splits)
  moreover from assms have "deniedOverlap r = None"
    by (auto simp: EgressRange_def Let_def split: option.splits if_splits)
  ultimately show False using assms(3) unfolding deniedOverlap_None in_range_def
    by (meson le_trans)
qed

section \<open>The explanation and the expanded policy agree\<close>

text \<open>
  What an expanded policy lets through, stated independently of the search \<open>explainHost\<close>
  does: a denied address never; in open mode every other address and every name no blocked
  site covers; in allow-list mode the addresses of a range and the names an entry covers.
\<close>

definition enforced :: "expanded_policy \<Rightarrow> string \<Rightarrow> bool" where
  "enforced x value =
     (case parseIpv4 value of
        Some a \<Rightarrow>
          \<not> denied_address a \<and>
          (x_mode x = OpenMode \<or>
           list_ex (\<lambda>s. case parseIpv4Cidr s of None \<Rightarrow> False | Some r \<Rightarrow> in_range a r) (x_ranges x))
      | None \<Rightarrow>
          isEgressHostName value \<and>
          (if x_mode x = OpenMode then \<not> list_ex (\<lambda>b. covers b value) (x_blocked x)
           else list_ex (\<lambda>n. covers n value) (x_names x)))"

lemma explain_ranges_allowed:
  "ex_allowed (explain_ranges es a) \<longleftrightarrow>
     (\<exists>e\<in>set es. entry_kind e \<noteq> HostEntry \<and>
        (case parseIpv4Cidr (entry_value e) of None \<Rightarrow> False | Some r \<Rightarrow> in_range a r))"
  by (induction es a rule: explain_ranges.induct)
     (auto simp: in_range_def split: option.splits, (metis egress_entry_kind.exhaust)+)

lemma explain_presets_allowed:
  "explain_presets ps chosen v = Some ex \<Longrightarrow> ex_allowed ex"
  by (induction ps chosen v rule: explain_presets.induct) (auto split: if_splits option.splits)

lemma explain_presets_None:
  "explain_presets ps chosen v = None \<longleftrightarrow>
     (\<forall>p\<in>set ps. preset_id p \<in> set chosen \<longrightarrow> (\<forall>h\<in>set (preset_hosts p). \<not> covers h v))"
  by (induction ps chosen v rule: explain_presets.induct)
     (auto simp: find_None_iff find_Some_iff split: option.splits)

lemma explain_entries_allowed:
  "ex_allowed (explain_entries es v) \<longleftrightarrow>
     (\<exists>e\<in>set es. entry_kind e = HostEntry \<and> covers (entry_value e) v)"
  by (induction es v rule: explain_entries.induct) auto

lemma expand_simps [simp]:
  "x_mode (expandEgressPolicy p) = policy_mode p"
  "set (x_ranges (expandEgressPolicy p)) =
     {entry_value e | e. e \<in> set (policy_entries p) \<and> entry_kind e \<noteq> HostEntry}"
  "set (x_names (expandEgressPolicy p)) =
     {h. \<exists>q\<in>set EGRESS_PRESETS. preset_id q \<in> set (policy_presets p) \<and> h \<in> set (preset_hosts q)} \<union>
     {entry_value e | e. e \<in> set (policy_entries p) \<and> entry_kind e = HostEntry}"
  "set (x_blocked (expandEgressPolicy p)) =
     (if policy_mode p = OpenMode then site_value ` set (policy_blockedSites p) else {})"
  by (auto simp: expandEgressPolicy_def Let_def)

lemma explain_address:
  assumes "parseIpv4 (normalize i) = Some a"
  shows "ex_allowed (explainHost p i) \<longleftrightarrow> enforced (expandEgressPolicy p) (normalize i)"
proof (cases "deniedOverlap \<lparr>first = a, last_addr = a\<rparr>")
  case None
  then have "\<not> denied_address a" by (simp add: deniedOverlap_point)
  then show ?thesis using assms None
    by (simp add: explainHost_def enforced_def Let_def explain_ranges_allowed list_ex_iff) blast
next
  case (Some d)
  then have "denied_address a" by (metis deniedOverlap_point option.distinct(1))
  then show ?thesis using assms Some by (simp add: explainHost_def enforced_def Let_def)
qed

lemma explain_open_name:
  assumes "parseIpv4 (normalize i) = None" "policy_mode p = OpenMode"
  shows "ex_allowed (explainHost p i) \<longleftrightarrow> enforced (expandEgressPolicy p) (normalize i)"
proof (cases "find (\<lambda>b. covers (site_value b) (normalize i)) (policy_blockedSites p)")
  case None
  then have "\<forall>b\<in>set (policy_blockedSites p). \<not> covers (site_value b) (normalize i)"
    by (auto simp: find_None_iff)
  then show ?thesis using assms None
    by (simp add: explainHost_def enforced_def Let_def list_ex_iff)
next
  case (Some b)
  then have "b \<in> set (policy_blockedSites p)" "covers (site_value b) (normalize i)"
    by (auto simp: find_Some_iff)
  then show ?thesis using assms Some
    by (auto simp: explainHost_def enforced_def Let_def list_ex_iff)
qed

lemma explain_listed_name:
  assumes "parseIpv4 (normalize i) = None" "policy_mode p \<noteq> OpenMode"
  shows "ex_allowed (explainHost p i) \<longleftrightarrow> enforced (expandEgressPolicy p) (normalize i)"
proof (cases "explain_presets EGRESS_PRESETS (policy_presets p) (normalize i)")
  case None
  then have "\<not> covers h (normalize i)"
    if "q \<in> set EGRESS_PRESETS" "preset_id q \<in> set (policy_presets p)" "h \<in> set (preset_hosts q)"
    for q h using that by (auto simp: explain_presets_None)
  then show ?thesis using assms None
    by (auto simp: explainHost_def enforced_def Let_def list_ex_iff explain_entries_allowed)
next
  case (Some ex)
  then have "explain_presets EGRESS_PRESETS (policy_presets p) (normalize i) \<noteq> None" by simp
  then obtain q h where "q \<in> set EGRESS_PRESETS" "preset_id q \<in> set (policy_presets p)"
    "h \<in> set (preset_hosts q)" "covers h (normalize i)"
    unfolding explain_presets_None by blast
  then show ?thesis using assms Some explain_presets_allowed [OF Some]
    by (auto simp: explainHost_def enforced_def Let_def list_ex_iff)
qed

lemmas address_eval =
  parseIpv4Cidr_def parseIpv4_def parseIpv4_parts.simps canonical_decimal_def is_digit_def
  number_of_digits_def digit_val_def Let_def

lemma denied_ranges_parse:
  "parseIpv4Cidr ''0.0.0.0/8'' = Some \<lparr>first = 0, last_addr = 16777215\<rparr>"
  "parseIpv4Cidr ''10.0.0.0/8'' = Some \<lparr>first = 167772160, last_addr = 184549375\<rparr>"
  "parseIpv4Cidr ''100.64.0.0/10'' = Some \<lparr>first = 1681915904, last_addr = 1686110207\<rparr>"
  "parseIpv4Cidr ''127.0.0.0/8'' = Some \<lparr>first = 2130706432, last_addr = 2147483647\<rparr>"
  "parseIpv4Cidr ''169.254.0.0/16'' = Some \<lparr>first = 2851995648, last_addr = 2852061183\<rparr>"
  "parseIpv4Cidr ''172.16.0.0/12'' = Some \<lparr>first = 2886729728, last_addr = 2887778303\<rparr>"
  "parseIpv4Cidr ''192.168.0.0/16'' = Some \<lparr>first = 3232235520, last_addr = 3232301055\<rparr>"
  "parseIpv4Cidr ''224.0.0.0/4'' = Some \<lparr>first = 3758096384, last_addr = 4026531839\<rparr>"
  "parseIpv4Cidr ''240.0.0.0/4'' = Some \<lparr>first = 4026531840, last_addr = 4294967295\<rparr>"
  by (simp_all add: address_eval)

lemma preset_hosts_valid:
  "list_all (\<lambda>q. list_all isEgressHostName (preset_hosts q)) EGRESS_PRESETS"
  by code_simp

text \<open>The denied ranges by their leading bits.\<close>

definition private_address :: "nat \<Rightarrow> bool" where
  "private_address a \<longleftrightarrow>
     a div 2 ^ 24 = 0 \<or> a div 2 ^ 24 = 10 \<or> a div 2 ^ 24 = 127 \<or> 224 \<le> a div 2 ^ 24 \<or>
     a div 2 ^ 22 = 100 * 4 + 1 \<or> a div 2 ^ 20 = 172 * 16 + 1 \<or>
     a div 2 ^ 16 = 169 * 256 + 254 \<or> a div 2 ^ 16 = 192 * 256 + 168"

lemma denied_address_private:
  assumes "a < 2 ^ 32"
  shows "denied_address a \<longleftrightarrow> private_address a"
proof -
  have blocks:
    "a div 16777216 = 0 \<longleftrightarrow> a \<le> 16777215"
    "a div 16777216 = 10 \<longleftrightarrow> 167772160 \<le> a \<and> a \<le> 184549375"
    "a div 16777216 = 127 \<longleftrightarrow> 2130706432 \<le> a \<and> a \<le> 2147483647"
    "224 \<le> a div 16777216 \<longleftrightarrow> 3758096384 \<le> a"
    "a div 4194304 = 401 \<longleftrightarrow> 1681915904 \<le> a \<and> a \<le> 1686110207"
    "a div 1048576 = 2753 \<longleftrightarrow> 2886729728 \<le> a \<and> a \<le> 2887778303"
    "a div 65536 = 43518 \<longleftrightarrow> 2851995648 \<le> a \<and> a \<le> 2852061183"
    "a div 65536 = 49320 \<longleftrightarrow> 3232235520 \<le> a \<and> a \<le> 3232301055"
    by linarith+
  have "denied_address a \<longleftrightarrow>
    (a \<le> 16777215) \<or>
    (167772160 \<le> a \<and> a \<le> 184549375) \<or>
    (2130706432 \<le> a \<and> a \<le> 2147483647) \<or>
    (1681915904 \<le> a \<and> a \<le> 1686110207) \<or>
    (2886729728 \<le> a \<and> a \<le> 2887778303) \<or>
    (2851995648 \<le> a \<and> a \<le> 2852061183) \<or>
    (3232235520 \<le> a \<and> a \<le> 3232301055) \<or>
    (3758096384 \<le> a \<and> a \<le> 4026531839) \<or> (4026531840 \<le> a \<and> a \<le> 4294967295)"
    by (simp add: denied_address_def EGRESS_DENIED_RANGES_V4_def denied_ranges_parse in_range_def)
      blast
  moreover have "a \<le> 4294967295" using assms by simp
  moreover have "(3758096384 \<le> a \<and> a \<le> 4026531839) \<or> 4026531840 \<le> a \<longleftrightarrow> 3758096384 \<le> a"
    by linarith
  ultimately show ?thesis by (simp add: private_address_def blocks) blast
qed

lemma allowed_iff_enforced:
  "ex_allowed (explainHost p i) \<longleftrightarrow> enforced (expandEgressPolicy p) (normalize i)"
  using explain_address explain_open_name explain_listed_name
  by (cases "parseIpv4 (normalize i)") blast+


text \<open>
  C6: A private, loopback, link-local, multicast or reserved address is refused in both modes,
  whatever an administrator listed, and no other address is refused as denied.
\<close>

theorem private_addresses_denied:
  assumes "parseIpv4 (normalize i) = Some a"
  shows "(\<exists>r. explainHost p i = ExDenied r) \<longleftrightarrow> private_address a"
proof -
  have "a < 2 ^ 32" using parseIpv4_spelling [OF assms] by blast
  note denied_iff = denied_address_private [OF this]
  have no_deny: "explain_ranges es a \<noteq> ExDenied r" for es r
    by (induction es a rule: explain_ranges.induct) (auto split: option.splits)
  show ?thesis
  proof (cases "deniedOverlap \<lparr>first = a, last_addr = a\<rparr>")
    case None
    then have "\<not> private_address a" using denied_iff by (simp add: deniedOverlap_point)
    then show ?thesis using assms None no_deny by (simp add: explainHost_def Let_def)
  next
    case (Some d)
    then have "denied_address a" by (metis deniedOverlap_point option.distinct(1))
    then show ?thesis using assms Some denied_iff by (simp add: explainHost_def Let_def)
  qed
qed

lemma private_addresses_denied_witness:
  "(\<exists>r. explainHost \<lparr>policy_mode = AllowList, policy_presets = [], policy_ports = [443],
        policy_entries = [], policy_blockedSites = []\<rparr> ''10.0.0.7'' = ExDenied r)
     \<longleftrightarrow> private_address 167772167"
  by (rule private_addresses_denied)
     (simp add: normalize_def trim_def toLowerCase_def lower_char_def is_space_def address_eval)

end
