(* ===== verification/Guard_Policy.thy ===== *)
theory Guard_Policy
  imports Js_Text
begin

text \<open>
  The resource guard's pure rules, \<open>packages/contracts/src/guard.ts\<close>: the values one
  workspace runs with, the idle lift, the throttle hold, the CPU time slice, the count of
  an Incus CPU set, the cap on a "keep running until" hold, and the restart test between
  two usage samples.
\<close>

section \<open>Platform values and overrides\<close>

record guard_config =
  gc_cpuThresholdPercent :: "int option"
  gc_memoryThresholdPercent :: "int option"
  gc_windowMinutes :: "int option"
  gc_throttleSharePercent :: "int option"
  gc_idleStopMinutes :: "int option"
  gc_keepRunningMaxHours :: "int option"

record guard_platform =
  cpu_guard_threshold_percent :: int
  memory_guard_threshold_percent :: int
  guard_window_minutes :: int
  cpu_throttle_share_percent :: int
  idle_stop_minutes :: int
  cpu_idle_lift_minutes :: int
  cpu_idle_lift_percent :: int
  cpu_throttle_hold_after :: int
  cpu_throttle_hold_hours :: int

record effective_guard =
  cpuThresholdPercent :: int
  memoryThresholdPercent :: int
  windowMinutes :: int
  throttleSharePercent :: int
  idleStopMinutes :: int

text \<open>\<open>overrides?.key\<close> of a config that may be null.\<close>

definition override :: "('a \<Rightarrow> 'b option) \<Rightarrow> 'a option \<Rightarrow> 'b option" where
  "override key c = Option.bind c key"

lemma override_simps [simp]: "override k None = None" "override k (Some c) = k c"
  by (simp_all add: override_def)

definition effectiveGuard :: "guard_platform \<Rightarrow> guard_config option \<Rightarrow> effective_guard" where
  "effectiveGuard platform overrides =
     \<lparr>cpuThresholdPercent =
        nullish (override gc_cpuThresholdPercent overrides) (cpu_guard_threshold_percent platform),
      memoryThresholdPercent =
        nullish (override gc_memoryThresholdPercent overrides)
          (memory_guard_threshold_percent platform),
      windowMinutes =
        nullish (override gc_windowMinutes overrides) (guard_window_minutes platform),
      throttleSharePercent =
        nullish (override gc_throttleSharePercent overrides) (cpu_throttle_share_percent platform),
      idleStopMinutes =
        nullish (override gc_idleStopMinutes overrides) (idle_stop_minutes platform)\<rparr>"

record idle_lift =
  lift_minutes :: int
  lift_percent :: int

definition idleLift :: "guard_platform \<Rightarrow> idle_lift option" where
  "idleLift platform =
     (if cpu_idle_lift_percent platform = 0 then None
      else Some \<lparr>lift_minutes = cpu_idle_lift_minutes platform,
                lift_percent = cpu_idle_lift_percent platform\<rparr>)"

section \<open>The throttle hold\<close>

record held_info =
  held_count :: nat
  held_hours :: int

definition throttleHold ::
  "guard_platform \<Rightarrow> millis list \<Rightarrow> millis \<Rightarrow> millis list \<times> held_info option" where
  "throttleHold platform recent thr_at =
     (let hours = cpu_throttle_hold_hours platform;
          since = thr_at - hours * 3600000;
          kept = filter (\<lambda>t. since < t) recent @ [thr_at];
          after = cpu_throttle_hold_after platform;
          held = (if 0 < after \<and> after \<le> int (length kept)
                  then Some \<lparr>held_count = length kept, held_hours = hours\<rparr> else None)
      in (kept, held))"

section \<open>The CPU time slice\<close>

text \<open>The number of milliseconds in each 100 ms period, and its Incus spelling.\<close>

definition allowance_ms :: "int \<Rightarrow> int \<Rightarrow> int" where
  "allowance_ms sharePercent cpuLimit =
     max 1 (js_round (rat_of_int sharePercent / 100 * rat_of_int cpuLimit * 100))"

definition allowanceFor :: "int \<Rightarrow> int \<Rightarrow> string" where
  "allowanceFor sharePercent cpuLimit =
     show_nat (nat (allowance_ms sharePercent cpuLimit)) @ ''ms/100ms''"

section \<open>CPU sets\<close>

text \<open>\<open>/^(\d+)(?:-(\d+))?$/\<close> on one trimmed part, as the two captured numbers.\<close>

definition digits :: "string \<Rightarrow> bool" where
  "digits s \<longleftrightarrow> s \<noteq> [] \<and> list_all is_digit s"

definition cpu_part :: "string \<Rightarrow> (nat \<times> nat) option" where
  "cpu_part part =
     (case split CHR ''-'' part of
        [a] \<Rightarrow> if digits a then Some (number_of_digits a, number_of_digits a) else None
      | [a, b] \<Rightarrow>
          if digits a \<and> digits b then Some (number_of_digits a, number_of_digits b) else None
      | _ \<Rightarrow> None)"

fun count_parts :: "string list \<Rightarrow> nat \<Rightarrow> nat option" where
  "count_parts [] n = Some n"
| "count_parts (part # parts) n =
     (case cpu_part (trim part) of
        None \<Rightarrow> None
      | Some (a, b) \<Rightarrow> if b < a then None else count_parts parts (n + (b - a + 1)))"

text \<open>\<open>None\<close> as the argument is a value that is not a string.\<close>

definition countIncusCpus :: "string option \<Rightarrow> nat option" where
  "countIncusCpus value =
     (case value of
        None \<Rightarrow> None
      | Some v \<Rightarrow>
          if trim v = [] then None
          else let txt = trim v in
            if digits txt then
              (let n = number_of_digits txt in if 0 < n then Some n else None)
            else count_parts (split CHR '','' txt) 0)"

section \<open>The keep-running cap\<close>

definition keepRunningMaxHours :: "int \<Rightarrow> guard_config option \<Rightarrow> int" where
  "keepRunningMaxHours platformHours overrides =
     nullish (override gc_keepRunningMaxHours overrides) platformHours"

definition DEFAULT_KEEP_RUNNING_MAX_HOURS :: int where "DEFAULT_KEEP_RUNNING_MAX_HOURS = 12"

definition KEEP_RUNNING_SKEW_MS :: millis where "KEEP_RUNNING_SKEW_MS = 5 * 60000"

datatype keep_running_refusal = RefuseOff | RefusePast | RefuseTooFar

definition keepRunningRefusal :: "millis \<Rightarrow> millis \<Rightarrow> int \<Rightarrow> keep_running_refusal option" where
  "keepRunningRefusal until now maxHours =
     (if maxHours = 0 then Some RefuseOff
      else if until \<le> now then Some RefusePast
      else if now + maxHours * 3600000 + KEEP_RUNNING_SKEW_MS < until then Some RefuseTooFar
      else None)"

section \<open>Sampling\<close>

definition GUARD_SAMPLE_SECONDS :: int where "GUARD_SAMPLE_SECONDS = 60"
definition MAX_GUARD_WINDOW_MINUTES :: int where "MAX_GUARD_WINDOW_MINUTES = 240"
definition SAMPLE_RETENTION_MINUTES :: int where
  "SAMPLE_RETENTION_MINUTES = MAX_GUARD_WINDOW_MINUTES + 5"

record usage_sample =
  observed_at :: millis
  bootMarker :: "int option"
  cpuUsageNs :: int
  cpu_limit :: int
  memory_bytes :: int
  memory_limit_bytes :: int

definition restartedBetween :: "usage_sample \<Rightarrow> usage_sample \<Rightarrow> bool" where
  "restartedBetween prev cur \<longleftrightarrow>
     (bootMarker prev \<noteq> None \<and> bootMarker cur \<noteq> None \<and> bootMarker prev \<noteq> bootMarker cur) \<or>
     cpuUsageNs cur < cpuUsageNs prev"

section \<open>What the rules give\<close>

lemma throttleHold_kept:
  "fst (throttleHold p recent thr_at) =
     filter (\<lambda>t. thr_at - cpu_throttle_hold_hours p * 3600000 < t) recent @ [thr_at]"
  by (simp add: throttleHold_def Let_def)

lemma throttleHold_held:
  "snd (throttleHold p recent thr_at) \<noteq> None \<longleftrightarrow>
     0 < cpu_throttle_hold_after p \<and>
     cpu_throttle_hold_after p \<le> int (length (fst (throttleHold p recent thr_at)))"
  by (simp add: throttleHold_def Let_def)

lemma throttleHold_info:
  "snd (throttleHold p recent thr_at) = Some h \<Longrightarrow>
     held_count h = length (fst (throttleHold p recent thr_at)) \<and>
     held_hours h = cpu_throttle_hold_hours p"
  by (auto simp: throttleHold_def Let_def split: if_splits)

lemma allowance_ms_exact: "allowance_ms s c = max 1 (s * c)"
proof -
  have "rat_of_int s / 100 * rat_of_int c * 100 = rat_of_int (s * c)" by simp
  then show ?thesis unfolding allowance_ms_def by (simp only: js_round_of_int)
qed

lemma count_parts_grows: "count_parts ps n = Some m \<Longrightarrow> n + length ps \<le> m"
proof (induction ps arbitrary: n)
  case (Cons p ps)
  then obtain a b where "cpu_part (trim p) = Some (a, b)" "count_parts ps (n + (b - a + 1)) = Some m"
    by (auto split: option.splits if_splits)
  from Cons.IH [OF this(2)] show ?case by simp
qed simp

text \<open>
  A CPU set that is read counts at least one CPU, so the share and the average the guard
  computes from it never divide by zero or give an empty time slice.
\<close>

theorem cpu_count_positive:
  assumes "countIncusCpus v = Some n"
  shows "0 < n"
proof -
  have "0 < m" if "count_parts (split c s) 0 = Some m" for c s m
    using count_parts_grows [OF that] by (cases "split c s") auto
  then show ?thesis using assms
    by (auto simp: countIncusCpus_def Let_def split: option.splits if_splits)
qed

lemma cpu_count_positive_witness:
  "countIncusCpus (Some ''0,2-4, 7-8'') = Some 6 \<and> 0 < (6::nat)"
proof -
  have "countIncusCpus (Some ''0,2-4, 7-8'') = Some 6"
    by (simp add: countIncusCpus_def cpu_part_def trim_def is_space_def digits_def is_digit_def
        number_of_digits_def digit_val_def)
  then show ?thesis by (intro conjI cpu_count_positive)
qed

text \<open>
  A "keep running until" time is accepted exactly when holds are on, it lies ahead of now and
  at most the cap plus the clock skew ahead; the cap is the workspace's override where it has one.
\<close>

theorem keep_running_window:
  "keepRunningRefusal until now (keepRunningMaxHours hours c) = None \<longleftrightarrow>
     keepRunningMaxHours hours c \<noteq> 0 \<and> now < until \<and>
     until - now \<le> keepRunningMaxHours hours c * 3600000 + 300000 \<and>
     (override gc_keepRunningMaxHours c = None \<longrightarrow> keepRunningMaxHours hours c = hours) \<and>
     (\<forall>h. override gc_keepRunningMaxHours c = Some h \<longrightarrow> keepRunningMaxHours hours c = h)"
  by (auto simp: keepRunningRefusal_def keepRunningMaxHours_def KEEP_RUNNING_SKEW_MS_def)

end
