(* ===== verification/Db.thy ===== *)
theory Db
  imports Egress Guard_Policy "HOL-Library.Product_Lexorder"
begin

text \<open>
  The control plane's database, \<open>packages/db/src/schema.ts\<close>: the tables the modelled
  services read and write, one record type per table with the columns they use, and the
  shared writes of \<open>packages/db/src/index.ts\<close> (audit rows and notifications). A table is
  a list of rows, a nullable column an option; JSON columns are records. Ids and
  timestamps the database generates are arguments of the operation that inserts.
\<close>

section \<open>Enumerations\<close>

datatype workspace_state = Provisioning | Starting | Running | Stopping | Stopped | Error

datatype desired_state = WantRunning | WantStopped | WantRestarting

datatype pending_operation = ResetDocker | Rebuild | RebuildResetDocker | ReplaceHome

datatype controller_error_code =
    BAD_REQUEST | INVALID_NAME | NOT_FOUND | ALREADY_EXISTS | IMAGE_NOT_FOUND | STORAGE_FULL
  | POOL_FULL | OPERATION_FAILED | TIMEOUT | INCUS_UNAVAILABLE | UNAUTHORIZED

text \<open>What \<open>workspaces.error_code\<close> holds: a controller code or one the worker writes.\<close>

datatype error_code = Controller controller_error_code | STOP_FAILED | INSTANCE_MISSING

datatype user_role = Student | Instructor | Administrator

section \<open>Rows\<close>

record quota =
  homeGiB :: nat
  dockerGiB :: nat
  recoveryGiB :: "nat option"

record cpu_throttle =
  thr_at :: millis
  thr_averagePercent :: rat
  thr_thresholdPercent :: int
  thr_windowMinutes :: int
  thr_sharePercent :: int
  thr_allowance :: string
  thr_held :: "held_info option"

record memory_flag =
  mem_at :: millis
  mem_averagePercent :: rat
  mem_thresholdPercent :: int
  mem_windowMinutes :: int

text \<open>The arguments of a pending \<open>replace-home\<close>.\<close>

record replace_args =
  restoreRequestId :: "uuid option"
  importRequestId :: "uuid option"

text \<open>A missing key of the stored limits means the instance's profile decides.\<close>

record limits =
  lim_cpu :: "nat option"
  lim_memoryMiB :: "nat option"
  lim_processes :: "nat option"

record workspace =
  ws_id :: uuid
  owner_user_id :: uuid
  ws_label :: string
  incus_instance_name :: "string option"
  ws_state :: workspace_state
  ws_desired :: desired_state
  image_version :: "string option"
  quota_config :: "quota option"
  ws_error_code :: "error_code option"
  ws_error_message :: "string option"
  last_active_connection_at :: "millis option"
  shutdown_deadline :: "millis option"
  disconnected_at :: "millis option"
  agent_token :: "string option"
  agent_address :: "string option"
  pending_op :: "pending_operation option"
  pending_operation_args :: "replace_args option"
  pending_operation_at :: "millis option"
  pending_operation_by :: "uuid option"
  archived_at :: "millis option"
  quota_applied :: "quota option"
  guard_config :: "guard_config option"
  cpu_throttle :: "cpu_throttle option"
  cpu_throttle_recent :: "millis list"
  memory_flag :: "memory_flag option"
  limits_config :: "limits option"
  limits_applied :: "limits option"
  last_activity_at :: "millis option"
  idle_stop_at :: "millis option"
  keep_running_until :: "millis option"
  start_retries :: nat
  updated_at :: millis

record connection =
  conn_id :: uuid
  conn_workspace_id :: uuid
  last_seen_at :: millis

record terminal =
  term_id :: uuid
  term_workspace_id :: uuid
  ended_at :: "millis option"

record project =
  proj_id :: uuid
  proj_workspace_id :: uuid
  proj_active :: bool
  recovery_checked_at :: "millis option"

record user =
  user_id :: uuid
  oidc_issuer :: string
  oidc_subject :: string
  email :: "string option"
  display_name :: string
  preferred_username :: "string option"
  user_role :: user_role
  provider_role :: user_role
  granted_role :: "user_role option"
  disabled_at :: "millis option"
  must_change_password :: bool
  accepted_use_version :: "nat option"
  last_login_at :: "millis option"
  user_shutdown_grace_seconds :: "int option"
  editor_timezone :: "string option"

record settings =
  set_shutdown_grace_seconds :: int
  guard_values :: guard_platform
  set_keep_running_max_hours :: int
  set_acceptable_use_version :: nat
  controller_checked_at :: "millis option"
  egress_mode :: egress_mode
  egress_presets :: "egress_preset_id list"
  egress_ports :: "nat list"
  egress_version :: nat
  egress_applied_version :: "nat option"
  egress_applied_at :: "millis option"
  egress_apply_error :: "string option"
  docker_ghcr_enabled :: bool

datatype audit_result = ResOk | ResFailed | ResRefused

text \<open>Audit metadata is a JSON object: its keys and values, in order.\<close>

datatype json =
    JNull | JBool bool | JNum rat | JStr string | JArr "json list" | JObj "(string \<times> json) list"

record audit_event =
  actor :: string
  target :: string
  action :: string
  audit_result :: audit_result
  metadata :: "(string \<times> json) list option"

datatype notification_tone = Neutral | Success | Warning | Danger

record notification =
  notif_id :: uuid
  notif_user_id :: uuid
  notif_tone :: notification_tone
  notif_title :: string
  notif_body :: string
  notif_created_at :: millis
  notif_site_alert :: bool
  notif_kept :: bool
  notif_read_at :: "millis option"

record egress_entry_row =
  ent_id :: uuid
  ent_entry :: egress_entry

record egress_blocked_row =
  blk_id :: uuid
  blk_site :: blocked_site

datatype request_state = ReqPending | ReqClaimed | ReqDone | ReqFailed

datatype request_kind = RestoreCopy | ImportHome | OtherRequest

text \<open>A backup request; \<open>req_stamp\<close> and \<open>req_instance\<close> are the keys of its JSON arguments.\<close>

record backup_request =
  req_id :: uuid
  req_kind :: request_kind
  req_stamp :: "string option"
  req_instance :: "string option"
  req_state :: request_state
  req_requested_by :: "uuid option"
  req_workspace_id :: "uuid option"
  req_error :: "string option"

record db =
  workspaces :: "workspace list"
  workspace_connections :: "connection list"
  terminals :: "terminal list"
  projects :: "project list"
  users :: "user list"
  db_settings :: "settings option"
  audit_events :: "audit_event list"
  usage_samples :: "(uuid \<times> usage_sample) list"
  notifications :: "notification list"
  egress_entries :: "egress_entry_row list"
  egress_blocked_entries :: "egress_blocked_row list"
  backup_requests :: "backup_request list"

section \<open>Reading and updating tables\<close>

definition find_workspace :: "uuid \<Rightarrow> db \<Rightarrow> workspace option" where
  "find_workspace i d = find_row ws_id i (workspaces d)"

definition find_user :: "uuid \<Rightarrow> db \<Rightarrow> user option" where
  "find_user i d = find_row user_id i (users d)"

text \<open>\<open>UPDATE workspaces SET \<dots> WHERE \<dots>\<close>, and the rows it returns.\<close>

definition update_workspaces :: "(workspace \<Rightarrow> bool) \<Rightarrow> (workspace \<Rightarrow> workspace) \<Rightarrow> db \<Rightarrow> db" where
  "update_workspaces P f d = d\<lparr>workspaces := upd_where P f (workspaces d)\<rparr>"

definition rows_where :: "(workspace \<Rightarrow> bool) \<Rightarrow> db \<Rightarrow> workspace list" where
  "rows_where P d = filter P (workspaces d)"

interpretation ws_table: row_store workspaces "\<lambda>xs. workspaces_update (\<lambda>_. xs)" ws_id
  by unfold_locales simp_all

interpretation term_table: row_store terminals "\<lambda>xs. terminals_update (\<lambda>_. xs)" term_id
  by unfold_locales simp_all

interpretation conn_table:
  row_store workspace_connections "\<lambda>xs. workspace_connections_update (\<lambda>_. xs)" conn_id
  by unfold_locales simp_all

interpretation user_table: row_store users "\<lambda>xs. users_update (\<lambda>_. xs)" user_id
  by unfold_locales simp_all

section \<open>Audit rows\<close>

definition audit ::
  "string \<Rightarrow> string \<Rightarrow> string \<Rightarrow> audit_result \<Rightarrow> (string \<times> json) list option \<Rightarrow> audit_event" where
  "audit who what act res meta =
     \<lparr>actor = who, target = what, action = act, audit_result = res, metadata = meta\<rparr>"

definition recordAudit :: "audit_event \<Rightarrow> db \<Rightarrow> db" where
  "recordAudit event d = d\<lparr>audit_events := audit_events d @ [event]\<rparr>"

abbreviation workerAudit ::
  "string \<Rightarrow> string \<Rightarrow> audit_result \<Rightarrow> (string \<times> json) list option \<Rightarrow> db \<Rightarrow> db" where
  "workerAudit what act res meta \<equiv> recordAudit (audit ''worker'' what act res meta)"

section \<open>Notifications\<close>

definition MAX_NOTIFICATIONS_PER_USER :: nat where "MAX_NOTIFICATIONS_PER_USER = 200"
definition MAX_KEPT_NOTIFICATIONS_PER_USER :: nat where "MAX_KEPT_NOTIFICATIONS_PER_USER = 50"

record notice =
  notice_tone :: notification_tone
  notice_title :: string
  notice_body :: string

text \<open>\<open>ORDER BY created_at DESC, id DESC LIMIT n\<close>, as the ids it selects.\<close>

definition newest_ids :: "nat \<Rightarrow> notification list \<Rightarrow> uuid list" where
  "newest_ids n xs =
     map notif_id (take n (rev (sort_key (\<lambda>x. (notif_created_at x, notif_id x)) xs)))"

definition recordNotification ::
  "uuid \<Rightarrow> millis \<Rightarrow> uuid \<Rightarrow> notice \<Rightarrow> bool \<Rightarrow> bool \<Rightarrow> db \<Rightarrow> db" where
  "recordNotification new_id created userId notice siteAlert kept d =
     (let row = \<lparr>notif_id = new_id, notif_user_id = userId, notif_tone = notice_tone notice,
                 notif_title = notice_title notice, notif_body = notice_body notice,
                 notif_created_at = created, notif_site_alert = siteAlert, notif_kept = kept,
                 notif_read_at = None\<rparr>;
          all1 = notifications d @ [row];
          keep1 = newest_ids MAX_NOTIFICATIONS_PER_USER
            (filter (\<lambda>n. notif_user_id n = userId) all1);
          all2 = filter (\<lambda>n. \<not> (notif_user_id n = userId \<and> \<not> notif_kept n \<and>
                                  notif_id n \<notin> set keep1)) all1;
          keep2 = newest_ids MAX_KEPT_NOTIFICATIONS_PER_USER
            (filter (\<lambda>n. notif_user_id n = userId \<and> notif_kept n) all2);
          all3 = (if kept then
                    filter (\<lambda>n. \<not> (notif_user_id n = userId \<and> notif_kept n \<and>
                                    notif_id n \<notin> set keep2)) all2
                  else all2)
      in d\<lparr>notifications := all3\<rparr>)"

text \<open>One notification for every enabled administrator; the database gives the new ids.\<close>

definition administrators :: "db \<Rightarrow> user list" where
  "administrators d = filter (\<lambda>u. user_role u = Administrator \<and> disabled_at u = None) (users d)"

definition notifyAdministrators :: "(nat \<Rightarrow> uuid) \<Rightarrow> millis \<Rightarrow> notice \<Rightarrow> db \<Rightarrow> db" where
  "notifyAdministrators new_id created notice d =
     fst (foldl (\<lambda>(d, i) admin.
       (recordNotification (new_id i) created (user_id admin) notice True False d, i + 1))
       (d, 0) (administrators d))"

section \<open>Frames\<close>

lemma find_workspace_update [row_simps]:
  assumes "\<And>w. P w \<Longrightarrow> ws_id (f w) = ws_id w"
  shows "find_workspace i (update_workspaces P f d) =
    map_option (\<lambda>w. if P w then f w else w) (find_workspace i d)"
  using ws_table.lookup_update [of P f i d] assms
  by (simp add: find_workspace_def update_workspaces_def)

lemma update_workspaces_frame [simp]:
  "workspace_connections (update_workspaces P f d) = workspace_connections d"
  "terminals (update_workspaces P f d) = terminals d"
  "projects (update_workspaces P f d) = projects d"
  "users (update_workspaces P f d) = users d"
  "db_settings (update_workspaces P f d) = db_settings d"
  "audit_events (update_workspaces P f d) = audit_events d"
  "usage_samples (update_workspaces P f d) = usage_samples d"
  "notifications (update_workspaces P f d) = notifications d"
  "egress_entries (update_workspaces P f d) = egress_entries d"
  "egress_blocked_entries (update_workspaces P f d) = egress_blocked_entries d"
  "backup_requests (update_workspaces P f d) = backup_requests d"
  "workspaces (update_workspaces P f d) = upd_where P f (workspaces d)"
  by (simp_all add: update_workspaces_def)

lemma recordAudit_frame [simp]:
  "workspaces (recordAudit e d) = workspaces d"
  "workspace_connections (recordAudit e d) = workspace_connections d"
  "terminals (recordAudit e d) = terminals d"
  "projects (recordAudit e d) = projects d"
  "users (recordAudit e d) = users d"
  "db_settings (recordAudit e d) = db_settings d"
  "usage_samples (recordAudit e d) = usage_samples d"
  "notifications (recordAudit e d) = notifications d"
  "egress_entries (recordAudit e d) = egress_entries d"
  "egress_blocked_entries (recordAudit e d) = egress_blocked_entries d"
  "backup_requests (recordAudit e d) = backup_requests d"
  "audit_events (recordAudit e d) = audit_events d @ [e]"
  by (simp_all add: recordAudit_def)

lemma find_workspace_recordAudit [simp]: "find_workspace i (recordAudit e d) = find_workspace i d"
  by (simp add: find_workspace_def)

lemma recordNotification_frame [simp]:
  "workspaces (recordNotification n c u t a k d) = workspaces d"
  "users (recordNotification n c u t a k d) = users d"
  "db_settings (recordNotification n c u t a k d) = db_settings d"
  "usage_samples (recordNotification n c u t a k d) = usage_samples d"
  "terminals (recordNotification n c u t a k d) = terminals d"
  "projects (recordNotification n c u t a k d) = projects d"
  "workspace_connections (recordNotification n c u t a k d) = workspace_connections d"
  "audit_events (recordNotification n c u t a k d) = audit_events d"
  "egress_entries (recordNotification n c u t a k d) = egress_entries d"
  "egress_blocked_entries (recordNotification n c u t a k d) = egress_blocked_entries d"
  "backup_requests (recordNotification n c u t a k d) = backup_requests d"
  by (simp_all add: recordNotification_def Let_def)

lemma find_workspace_recordNotification [simp]:
  "find_workspace i (recordNotification n c u t a k d) = find_workspace i d"
  by (simp add: find_workspace_def)

end
