(* ===== verification/Lifecycle.thy ===== *)
theory Lifecycle
  imports Db
begin

text \<open>
  One workspace's lifecycle calls, \<open>apps/worker/src/lifecycle.ts\<close> and
  \<open>start-backoff.ts\<close>: the compare-and-set update every transition goes through, what a
  create, start, stop or maintenance operation writes before and after its controller
  call, and the bookkeeping of the calls in flight with the cap on concurrent ones. A call
  to the controller is an argument: what it returned or threw. A call that waits on the
  controller is split there, into the writes before it (\<open>_begin\<close>) and after it (\<open>_end\<close>).
\<close>

section \<open>Errors\<close>

text \<open>What a controller client may throw: its own error, or anything else.\<close>

datatype thrown = ClientError controller_error_code string | OtherError string

type_synonym 'a call_result = "thrown + 'a"

record controller_error =
  err_code :: controller_error_code
  err_message :: string

definition userMessage :: "controller_error_code \<Rightarrow> string" where
  "userMessage code =
     (case code of
        STORAGE_FULL \<Rightarrow> ''Your workspace could not start because its storage is full.''
      | POOL_FULL \<Rightarrow>
          ''There is no room for a new workspace right now. Your administrator has been told.''
      | IMAGE_NOT_FOUND \<Rightarrow>
          ''The workspace image is not available. Please contact your administrator.''
      | TIMEOUT \<Rightarrow> ''The operation timed out. Please try again.''
      | INCUS_UNAVAILABLE \<Rightarrow>
          ''The workspace infrastructure is temporarily unavailable. Please try again later.''
      | _ \<Rightarrow> ''An unexpected error occurred. Please try again or contact your administrator.'')"

definition toControllerError :: "thrown \<Rightarrow> controller_error" where
  "toControllerError e =
     (case e of
        ClientError c m \<Rightarrow> \<lparr>err_code = c, err_message = m\<rparr>
      | OtherError m \<Rightarrow> \<lparr>err_code = OPERATION_FAILED, err_message = m\<rparr>)"

text \<open>The spelling of a code in audit metadata.\<close>

fun code_name :: "controller_error_code \<Rightarrow> string" where
  "code_name BAD_REQUEST = ''BAD_REQUEST''"
| "code_name INVALID_NAME = ''INVALID_NAME''"
| "code_name NOT_FOUND = ''NOT_FOUND''"
| "code_name ALREADY_EXISTS = ''ALREADY_EXISTS''"
| "code_name IMAGE_NOT_FOUND = ''IMAGE_NOT_FOUND''"
| "code_name STORAGE_FULL = ''STORAGE_FULL''"
| "code_name POOL_FULL = ''POOL_FULL''"
| "code_name OPERATION_FAILED = ''OPERATION_FAILED''"
| "code_name TIMEOUT = ''TIMEOUT''"
| "code_name INCUS_UNAVAILABLE = ''INCUS_UNAVAILABLE''"
| "code_name UNAUTHORIZED = ''UNAUTHORIZED''"

fun operation_name :: "pending_operation \<Rightarrow> string" where
  "operation_name ResetDocker = ''reset-docker''"
| "operation_name Rebuild = ''rebuild''"
| "operation_name RebuildResetDocker = ''rebuild-reset-docker''"
| "operation_name ReplaceHome = ''replace-home''"

definition json_opt :: "string option \<Rightarrow> json" where
  "json_opt s = (case s of None \<Rightarrow> JNull | Some x \<Rightarrow> JStr x)"

section \<open>Configuration\<close>

record reconcile_config =
  PRESENCE_TTL_SECONDS :: int
  SHUTDOWN_GRACE_SECONDS :: int
  START_TIMEOUT_SECONDS :: int
  STOP_TIMEOUT_SECONDS :: int
  STATUS_REFRESH_SECONDS :: int
  WORKSPACE_HOME_SIZE_GIB :: nat
  WORKSPACE_DOCKER_SIZE_GIB :: nat
  WORKSPACE_RECOVERY_SIZE_GIB :: nat
  PREVIEW_SUFFIX :: string

definition RETRY_WAITS_MS :: "millis list" where
  "RETRY_WAITS_MS = [10000, 30000, 60000, 120000, 300000]"

definition MAX_START_RETRIES :: nat where
  "MAX_START_RETRIES = length RETRY_WAITS_MS"

definition retryWaitMs :: "nat \<Rightarrow> millis option" where
  "retryWaitMs retries = nth_opt RETRY_WAITS_MS retries"

text \<open>A nullable text that JavaScript counts as true, so neither null nor empty.\<close>

fun truthy :: "string option \<Rightarrow> string option" where
  "truthy (Some (c # cs)) = Some (c # cs)"
| "truthy _ = None"

section \<open>Writes shared by the calls\<close>

definition settleRestarting :: "workspace \<Rightarrow> desired_state" where
  "settleRestarting w = (if ws_desired w = WantRestarting then WantRunning else ws_desired w)"

definition casUpdate ::
  "uuid \<Rightarrow> workspace_state \<Rightarrow> (workspace \<Rightarrow> workspace) \<Rightarrow> millis \<Rightarrow> db \<Rightarrow> db \<times> bool" where
  "casUpdate i fromState updates now d =
     (let hit = (\<lambda>w. ws_id w = i \<and> ws_state w = fromState) in
      (update_workspaces hit (\<lambda>w. (updates w)\<lparr>updated_at := now\<rparr>) d,
       rows_where hit d \<noteq> []))"

definition rotateAgentToken :: "uuid \<Rightarrow> string \<Rightarrow> db \<Rightarrow> db" where
  "rotateAgentToken i token d =
     update_workspaces (\<lambda>w. ws_id w = i) (\<lambda>w. w\<lparr>agent_token := Some token\<rparr>) d"

definition endOpenTerminals :: "uuid \<Rightarrow> millis \<Rightarrow> db \<Rightarrow> db" where
  "endOpenTerminals i now d =
     d\<lparr>terminals := upd_where (\<lambda>t. term_workspace_id t = i \<and> ended_at t = None)
        (\<lambda>t. t\<lparr>ended_at := Some now\<rparr>) (terminals d)\<rparr>"

definition throttle_held :: "workspace \<Rightarrow> bool" where
  "throttle_held w \<longleftrightarrow> (\<exists>t. cpu_throttle w = Some t \<and> thr_held t \<noteq> None)"

lemma throttle_held_code [code]:
  "throttle_held w \<longleftrightarrow> (case cpu_throttle w of None \<Rightarrow> False | Some t \<Rightarrow> thr_held t \<noteq> None)"
  by (auto simp: throttle_held_def split: option.splits)

definition clearGuardAtStop :: "uuid \<Rightarrow> db \<Rightarrow> db" where
  "clearGuardAtStop i d =
     (let prior = find_workspace i d;
          held = (case prior of None \<Rightarrow> False | Some w \<Rightarrow> throttle_held w);
          d1 = update_workspaces (\<lambda>w. ws_id w = i)
            (\<lambda>w. w\<lparr>cpu_throttle := (if held then cpu_throttle w else None),
                   memory_flag := None, idle_stop_at := None\<rparr>) d;
          d2 = (case Option.bind prior cpu_throttle of
              None \<Rightarrow> d1
            | Some t \<Rightarrow>
                if held then d1
                else workerAudit i ''workspace.cpu_throttle_lifted'' ResOk
                  (Some [(''reason'', JStr ''stopped'')])
                  (d1\<lparr>usage_samples := filter
                    (\<lambda>(j, s). \<not> (j = i \<and> observed_at s \<le> thr_at t)) (usage_samples d1)\<rparr>))
      in case Option.bind prior memory_flag of
           None \<Rightarrow> d2
         | Some f \<Rightarrow> workerAudit i ''workspace.memory_flag_cleared'' ResOk
             (Some [(''reason'', JStr ''stopped'')]) d2)"

definition heldAllowance :: "uuid \<Rightarrow> db \<Rightarrow> string option" where
  "heldAllowance i d =
     (case Option.bind (find_workspace i d) cpu_throttle of
        None \<Rightarrow> None
      | Some t \<Rightarrow> if thr_held t \<noteq> None then Some (thr_allowance t) else None)"

definition startedNow :: "millis \<Rightarrow> workspace \<Rightarrow> workspace" where
  "startedNow now w = w\<lparr>last_activity_at := Some now, idle_stop_at := None, start_retries := 0\<rparr>"

definition DEFAULT_TIMEZONE :: string where "DEFAULT_TIMEZONE = ''America/New_York''"

text \<open>\<open>isSystemTimezone\<close> asks the JavaScript engine's time zone database: an argument.\<close>

definition ownerTimezone :: "(string \<Rightarrow> bool) \<Rightarrow> uuid \<Rightarrow> db \<Rightarrow> string" where
  "ownerTimezone isSystemTimezone i d =
     (case Option.bind (Option.bind (find_workspace i d) (\<lambda>w. find_user (owner_user_id w) d))
             editor_timezone of
        None \<Rightarrow> DEFAULT_TIMEZONE
      | Some stored \<Rightarrow> if isSystemTimezone stored then stored else DEFAULT_TIMEZONE)"

definition dockerGiBOf :: "quota option \<Rightarrow> reconcile_config \<Rightarrow> nat" where
  "dockerGiBOf q config = nullish (map_option dockerGiB q) (WORKSPACE_DOCKER_SIZE_GIB config)"

definition recoveryGiBOf :: "quota option \<Rightarrow> reconcile_config \<Rightarrow> nat" where
  "recoveryGiBOf q config = nullish (Option.bind q recoveryGiB) (WORKSPACE_RECOVERY_SIZE_GIB config)"

definition isTransient :: "controller_error \<Rightarrow> bool" where
  "isTransient e \<longleftrightarrow> err_code e = INCUS_UNAVAILABLE"

section \<open>Creating an instance\<close>

record create_request =
  cr_name :: string
  cr_homeGiB :: nat
  cr_dockerGiB :: nat
  cr_recoveryGiB :: nat

record create_result =
  cres_imageFingerprint :: string
  cres_quota :: quota
  cres_created :: bool

definition create_request_of :: "reconcile_config \<Rightarrow> string \<Rightarrow> workspace \<Rightarrow> create_request" where
  "create_request_of config name w =
     \<lparr>cr_name = name,
      cr_homeGiB =
        nullish (map_option homeGiB (quota_config w)) (WORKSPACE_HOME_SIZE_GIB config),
      cr_dockerGiB =
        nullish (map_option dockerGiB (quota_config w)) (WORKSPACE_DOCKER_SIZE_GIB config),
      cr_recoveryGiB =
        nullish (Option.bind (quota_config w) recoveryGiB) (WORKSPACE_RECOVERY_SIZE_GIB config)\<rparr>"

text \<open>One turn of the loop: go round again after a wait, or return.\<close>

datatype create_turn = CreateRetry millis | CreateDone db "string option"

definition create_succeeded ::
  "reconcile_config \<Rightarrow> string \<Rightarrow> workspace \<Rightarrow> nat \<Rightarrow> create_result \<Rightarrow> millis \<Rightarrow> db \<Rightarrow>
   db \<times> string option" where
  "create_succeeded config name ws attempt result now d =
     (let (d1, updated) = casUpdate (ws_id ws) Provisioning
        (\<lambda>w. w\<lparr>ws_state := Stopped,
               image_version := Some (cres_imageFingerprint result),
               quota_config := Some ((cres_quota result)
                 \<lparr>recoveryGiB := Some (cr_recoveryGiB (create_request_of config name ws))\<rparr>),
               quota_applied := Some (cres_quota result),
               ws_error_code := None, ws_error_message := None\<rparr>) now d
      in if \<not> updated then (d1, None)
         else (workerAudit (ws_id ws) ''workspace.provisioned'' ResOk
                 (Some [(''imageFingerprint'', JStr (cres_imageFingerprint result)),
                        (''created'', JBool (cres_created result)),
                        (''attempts'', JNum (of_nat (attempt + 1)))]) d1,
               Some (if cres_created result then ''created'' else ''adopted existing instance'')))"

definition create_refused :: "workspace \<Rightarrow> controller_error \<Rightarrow> millis \<Rightarrow> db \<Rightarrow> db \<times> string option" where
  "create_refused ws err now d =
     (if ws_error_code ws = Some (Controller POOL_FULL) then (d, None)
      else let (d1, refused) = casUpdate (ws_id ws) Provisioning
        (\<lambda>w. w\<lparr>ws_error_code := Some (Controller (err_code err)),
               ws_error_message := Some (userMessage (err_code err))\<rparr>) now d
      in if \<not> refused then (d1, None)
         else (workerAudit (ws_id ws) ''workspace.provision_refused'' ResRefused
                 (Some [(''errorCode'', JStr (code_name (err_code err)))]) d1,
               Some ''create refused: storage pool full''))"

definition create_failed ::
  "workspace \<Rightarrow> nat \<Rightarrow> controller_error \<Rightarrow> millis \<Rightarrow> db \<Rightarrow> db \<times> string option" where
  "create_failed ws attempt err now d =
     (let (d1, updated) = casUpdate (ws_id ws) Provisioning
        (\<lambda>w. w\<lparr>ws_state := Error, ws_error_code := Some (Controller (err_code err)),
               ws_error_message := Some (userMessage (err_code err))\<rparr>) now d
      in if \<not> updated then (d1, None)
         else (workerAudit (ws_id ws) ''workspace.provision_failed'' ResFailed
                 (Some [(''errorCode'', JStr (code_name (err_code err))),
                        (''message'', JStr (err_message err)),
                        (''attempts'', JNum (of_nat (attempt + 1)))]) d1,
               Some ''create failed''))"

definition createWorkspace_turn ::
  "reconcile_config \<Rightarrow> string \<Rightarrow> workspace \<Rightarrow> millis list \<Rightarrow> nat \<Rightarrow> create_result call_result \<Rightarrow>
   millis \<Rightarrow> db \<Rightarrow> create_turn" where
  "createWorkspace_turn config name ws retryDelaysMs attempt outcome now d =
     (case outcome of
        Inr result \<Rightarrow>
          (case create_succeeded config name ws attempt result now d of (d', r) \<Rightarrow> CreateDone d' r)
      | Inl e \<Rightarrow>
          (let err = toControllerError e; delay = nth_opt retryDelaysMs attempt in
           if isTransient err \<and> delay \<noteq> None then CreateRetry (the delay)
           else if err_code err = POOL_FULL then
             (case create_refused ws err now d of (d', r) \<Rightarrow> CreateDone d' r)
           else
             (case create_failed ws attempt err now d of (d', r) \<Rightarrow> CreateDone d' r)))"

text \<open>
  The whole loop, for a controller that answers attempt \<open>n\<close> with \<open>answer n\<close> while the clock
  shows \<open>clock n\<close>. It ends because a wait is looked up at each retry and the list of waits
  is finite.
\<close>

lemma createWorkspace_turn_retry:
  "createWorkspace_turn config name ws delays attempt outcome now d = CreateRetry w \<Longrightarrow>
     attempt < length delays"
  by (auto simp: createWorkspace_turn_def Let_def nth_opt_Some
      split: sum.splits if_splits prod.splits)

function createWorkspace ::
  "reconcile_config \<Rightarrow> string \<Rightarrow> workspace \<Rightarrow> millis list \<Rightarrow>
   (nat \<Rightarrow> create_result call_result) \<Rightarrow> (nat \<Rightarrow> millis) \<Rightarrow> nat \<Rightarrow> db \<Rightarrow> db \<times> string option" where
  "createWorkspace config name ws delays answer clock attempt d =
     (case createWorkspace_turn config name ws delays attempt (answer attempt) (clock attempt) d of
        CreateDone d' r \<Rightarrow> (d', r)
      | CreateRetry delay \<Rightarrow> createWorkspace config name ws delays answer clock (attempt + 1) d)"
  by pat_completeness auto

termination
  by (relation "measure (\<lambda>(_, _, _, delays, _, _, attempt, _). length delays - attempt)")
     (auto dest: createWorkspace_turn_retry)

declare createWorkspace.simps [simp del]

section \<open>Starting an instance\<close>

definition moveToStarting :: "uuid \<Rightarrow> workspace_state \<Rightarrow> millis \<Rightarrow> db \<Rightarrow> db \<times> bool" where
  "moveToStarting i fromState now d =
     casUpdate i fromState
       (\<lambda>w. w\<lparr>ws_state := Starting,
              start_retries := (if fromState = Error then start_retries w + 1 else 0),
              ws_error_code := None, ws_error_message := None,
              ws_desired := settleRestarting w,
              disconnected_at := None, shutdown_deadline := None\<rparr>) now d"

record start_request =
  sr_name :: string
  sr_timeoutSeconds :: int
  sr_agentToken :: string
  sr_hostname :: string
  sr_previewHostSuffix :: string
  sr_timezone :: string
  sr_dockerGiB :: nat
  sr_recoveryGiB :: nat
  sr_cpuAllowance :: "string option"
  sr_docker :: docker_config

definition dockerStartConfig :: "db \<Rightarrow> docker_config" where
  "dockerStartConfig d =
     dockerConfigFor
       \<lparr>policy_mode = (case db_settings d of None \<Rightarrow> OpenMode | Some s \<Rightarrow> egress_mode s),
        policy_presets = (case db_settings d of None \<Rightarrow> [] | Some s \<Rightarrow> egress_presets s),
        policy_ports = [],
        policy_entries = map ent_entry (egress_entries d),
        policy_blockedSites = map blk_site (egress_blocked_entries d)\<rparr>
       (case db_settings d of None \<Rightarrow> True | Some s \<Rightarrow> docker_ghcr_enabled s)"

definition startInstance_begin ::
  "(string \<Rightarrow> bool) \<Rightarrow> reconcile_config \<Rightarrow> string \<Rightarrow> workspace \<Rightarrow> string \<Rightarrow> db \<Rightarrow> db \<times> start_request" where
  "startInstance_begin isSystemTimezone config name ws token d =
     (let d1 = rotateAgentToken (ws_id ws) token d in
      (d1,
       \<lparr>sr_name = name,
        sr_timeoutSeconds = START_TIMEOUT_SECONDS config,
        sr_agentToken = token,
        sr_hostname = ws_label ws,
        sr_previewHostSuffix = PREVIEW_SUFFIX config,
        sr_timezone = ownerTimezone isSystemTimezone (ws_id ws) d1,
        sr_dockerGiB = dockerGiBOf (quota_config ws) config,
        sr_recoveryGiB = recoveryGiBOf (quota_config ws) config,
        sr_cpuAllowance = heldAllowance (ws_id ws) d1,
        sr_docker = dockerStartConfig d1\<rparr>))"

text \<open>The controller answers a start with the instance's address.\<close>

definition startInstance_end :: "workspace \<Rightarrow> string call_result \<Rightarrow> millis \<Rightarrow> db \<Rightarrow> db" where
  "startInstance_end ws outcome now d =
     (case outcome of
        Inr ipv4 \<Rightarrow>
          (let (d1, updated) = casUpdate (ws_id ws) Starting
             (\<lambda>w. startedNow now (w\<lparr>ws_state := Running, agent_address := Some ipv4\<rparr>)) now d
           in if updated
              then workerAudit (ws_id ws) ''workspace.start'' ResOk
                     (Some [(''ipv4'', JStr ipv4)]) d1
              else d1)
      | Inl e \<Rightarrow>
          (let err = toControllerError e;
               (d1, failed) = casUpdate (ws_id ws) Starting
                 (\<lambda>w. w\<lparr>ws_state := Error, ws_error_code := Some (Controller (err_code err)),
                        ws_error_message := Some (userMessage (err_code err))\<rparr>) now d
           in workerAudit (ws_id ws) ''workspace.start_failed'' ResFailed
                (Some [(''errorCode'', JStr (code_name (err_code err))),
                       (''message'', JStr (err_message err))]) d1))"

section \<open>Stopping an instance\<close>

text \<open>The controller answers a stop with whether it had to force it.\<close>

definition doStop :: "workspace \<Rightarrow> bool call_result \<Rightarrow> millis \<Rightarrow> db \<Rightarrow> db" where
  "doStop ws outcome now d =
     (if truthy (incus_instance_name ws) = None then d
      else case outcome of
        Inr forced \<Rightarrow>
          (let (d1, _) = casUpdate (ws_id ws) Stopping
             (\<lambda>w. w\<lparr>ws_state := Stopped, shutdown_deadline := None,
                    ws_desired := settleRestarting w, disconnected_at := None\<rparr>) now d;
               d2 = workerAudit (ws_id ws) ''workspace.stop'' ResOk
                 (Some [(''forced'', JBool forced)]) d1;
               d3 = clearGuardAtStop (ws_id ws) d2
           in if forced then workerAudit (ws_id ws) ''workspace.force_stop'' ResOk None d3 else d3)
      | Inl e \<Rightarrow>
          (let err = toControllerError e;
               (d1, _) = casUpdate (ws_id ws) Stopping
                 (\<lambda>w. w\<lparr>ws_state := Error, ws_error_code := Some STOP_FAILED,
                        ws_error_message := Some (userMessage (err_code err))\<rparr>) now d
           in workerAudit (ws_id ws) ''workspace.stop_failed'' ResFailed
                (Some [(''errorCode'', JStr (code_name (err_code err))),
                       (''message'', JStr (err_message err))]) d1))"

section \<open>Maintenance operations\<close>

record operation =
  op_id :: uuid
  op_instance :: string
  op_state :: workspace_state
  op_operation :: pending_operation
  op_by :: "uuid option"
  op_dockerGiB :: nat

fun OPERATION_FAILED_MESSAGE :: "pending_operation \<Rightarrow> string" where
  "OPERATION_FAILED_MESSAGE ResetDocker =
     ''Docker could not be reset. Please try again or contact your administrator.''"
| "OPERATION_FAILED_MESSAGE Rebuild =
     ''The workspace could not be rebuilt. Please contact your administrator.''"
| "OPERATION_FAILED_MESSAGE RebuildResetDocker =
     ''The workspace could not be rebuilt. Please contact your administrator.''"
| "OPERATION_FAILED_MESSAGE ReplaceHome =
     ''Your home folder could not be replaced. Please contact your administrator.''"

definition clear_operation :: "workspace \<Rightarrow> workspace" where
  "clear_operation w =
     w\<lparr>pending_op := None, pending_operation_at := None, pending_operation_by := None\<rparr>"

text \<open>
  \<open>resetDocker\<close> answers nothing and \<open>rebuild\<close> an image fingerprint; the empty string is no
  fingerprint, as JavaScript reads it.
\<close>

definition runOperation :: "operation \<Rightarrow> string option call_result \<Rightarrow> millis \<Rightarrow> db \<Rightarrow> db" where
  "runOperation ws outcome now d =
     (let isReset = (op_operation ws = ResetDocker);
          meta = [(''operation'', JStr (operation_name (op_operation ws))),
                  (''requestedBy'', json_opt (op_by ws))]
      in case outcome of
        Inr answer \<Rightarrow>
          (let imageFingerprint = (if isReset then None else truthy answer);
               (d1, _) = casUpdate (op_id ws) (op_state ws)
                 (\<lambda>w. (clear_operation w)\<lparr>ws_state := Stopped, ws_error_code := None,
                    ws_error_message := None,
                    image_version := coalesce imageFingerprint (image_version w)\<rparr>) now d
           in workerAudit (op_id ws)
                (if isReset then ''workspace.docker_reset'' else ''workspace.rebuilt'') ResOk
                (Some (meta @ (case imageFingerprint of None \<Rightarrow> []
                               | Some f \<Rightarrow> [(''imageFingerprint'', JStr f)]))) d1)
      | Inl e \<Rightarrow>
          (let err = toControllerError e;
               (d1, _) = casUpdate (op_id ws) (op_state ws)
                 (\<lambda>w. (clear_operation w)\<lparr>ws_state := Error,
                    ws_error_code := Some (Controller (err_code err)),
                    ws_error_message := Some (OPERATION_FAILED_MESSAGE (op_operation ws))\<rparr>) now d
           in workerAudit (op_id ws)
                (if isReset then ''workspace.docker_reset_failed'' else ''workspace.rebuild_failed'')
                ResFailed (Some (meta @ [(''errorCode'', JStr (code_name (err_code err)))])) d1))"

end
