(* ===== verification/Calls.thy ===== *)
theory Calls
  imports Lifecycle
begin

text \<open>
  The controller calls the worker has queued or running (\<open>withSlot\<close>, \<open>track\<close>,
  \<open>runInBackground\<close>, \<open>stopInBackground\<close> of \<open>apps/worker/src/lifecycle.ts\<close>): at most one per
  workspace, at most six creates, starts and operations at once, stops outside that cap.
\<close>

section \<open>Calls in flight\<close>

text \<open>
  A background call and where it stands: waiting for a slot, or running. A running start is
  \<open>StartCall\<close> until its writes before the controller call are done, then \<open>StartCalled\<close>.
\<close>

datatype call =
    CreateCall string workspace nat
  | StartCall string workspace bool
  | StartCalled workspace bool start_request
  | StopCall workspace
  | OperationCall operation
  | ReplaceHomeCall string workspace millis

datatype phase = Waiting | Active

record in_flight =
  fl_id :: uuid
  fl_call :: call
  fl_phase :: phase
  fl_slot :: bool

record calls =
  inFlight :: "in_flight list"
  activeCalls :: nat
  waitingForSlot :: "uuid list"

definition CONTROLLER_CONCURRENCY :: nat where "CONTROLLER_CONCURRENCY = 6"

definition no_calls :: calls where
  "no_calls = \<lparr>inFlight = [], activeCalls = 0, waitingForSlot = []\<rparr>"

definition inFlightIds :: "calls \<Rightarrow> uuid list" where
  "inFlightIds cs = map fl_id (inFlight cs)"

text \<open>\<open>track\<close> throws (\<open>None\<close>) when the workspace already has a call in flight.\<close>

definition track :: "uuid \<Rightarrow> call \<Rightarrow> phase \<Rightarrow> bool \<Rightarrow> calls \<Rightarrow> calls option" where
  "track i c ph slot cs =
     (if i \<in> set (inFlightIds cs) then None
      else Some (cs\<lparr>inFlight := inFlight cs @
        [\<lparr>fl_id = i, fl_call = c, fl_phase = ph, fl_slot = slot\<rparr>]\<rparr>))"

definition runInBackground :: "uuid \<Rightarrow> call \<Rightarrow> calls \<Rightarrow> calls option" where
  "runInBackground i c cs =
     (if activeCalls cs < CONTROLLER_CONCURRENCY
      then map_option (\<lambda>cs. cs\<lparr>activeCalls := activeCalls cs + 1\<rparr>) (track i c Active True cs)
      else map_option (\<lambda>cs. cs\<lparr>waitingForSlot := waitingForSlot cs @ [i]\<rparr>)
             (track i c Waiting True cs))"

definition stopInBackground :: "workspace \<Rightarrow> calls \<Rightarrow> calls option" where
  "stopInBackground ws cs = track (ws_id ws) (StopCall ws) Active False cs"

text \<open>The end of \<open>withSlot\<close>: the slot goes to the next waiter, or the count drops.\<close>

definition leaveSlot :: "calls \<Rightarrow> calls" where
  "leaveSlot cs =
     (case waitingForSlot cs of
        next # rest \<Rightarrow> cs\<lparr>waitingForSlot := rest,
          inFlight := upd_where (\<lambda>f. fl_id f = next) (\<lambda>f. f\<lparr>fl_phase := Active\<rparr>) (inFlight cs)\<rparr>
      | [] \<Rightarrow> cs\<lparr>activeCalls := activeCalls cs - 1\<rparr>)"

definition finishCall :: "in_flight \<Rightarrow> calls \<Rightarrow> calls" where
  "finishCall f cs =
     (let cs1 = (if fl_slot f then leaveSlot cs else cs)
      in cs1\<lparr>inFlight := filter (\<lambda>g. fl_id g \<noteq> fl_id f) (inFlight cs1)\<rparr>)"

section \<open>The slots are accounted for\<close>

definition holding :: "in_flight \<Rightarrow> bool" where
  "holding f \<longleftrightarrow> fl_slot f \<and> fl_phase f = Active"

definition calls_ok :: "calls \<Rightarrow> bool" where
  "calls_ok cs \<longleftrightarrow>
     distinct (inFlightIds cs) \<and>
     activeCalls cs = length (filter holding (inFlight cs)) \<and>
     waitingForSlot cs = map fl_id (filter (\<lambda>f. fl_phase f = Waiting) (inFlight cs)) \<and>
     (\<forall>f\<in>set (inFlight cs). fl_phase f = Waiting \<longrightarrow> fl_slot f) \<and>
     activeCalls cs \<le> CONTROLLER_CONCURRENCY \<and>
     (waitingForSlot cs \<noteq> [] \<longrightarrow> activeCalls cs = CONTROLLER_CONCURRENCY)"

lemma calls_ok_no_calls: "calls_ok no_calls"
  by (simp add: calls_ok_def no_calls_def inFlightIds_def)

lemma track_Some_iff:
  "track i c ph s cs = Some cs' \<longleftrightarrow>
     i \<notin> set (inFlightIds cs) \<and>
     cs' = cs\<lparr>inFlight := inFlight cs @ [\<lparr>fl_id = i, fl_call = c, fl_phase = ph, fl_slot = s\<rparr>]\<rparr>"
  by (auto simp: track_def)

lemma track_None_iff [simp]: "track i c ph s cs = None \<longleftrightarrow> i \<in> set (inFlightIds cs)"
  by (simp add: track_def)

lemma runInBackground_ok:
  assumes "calls_ok cs" "runInBackground i c cs = Some cs'"
  shows "calls_ok cs'"
  using assms
  by (auto simp: runInBackground_def calls_ok_def track_Some_iff inFlightIds_def holding_def
      split: if_splits)

lemma stopInBackground_ok:
  assumes "calls_ok cs" "stopInBackground ws cs = Some cs'"
  shows "calls_ok cs'"
  using assms
  by (auto simp: stopInBackground_def calls_ok_def track_Some_iff inFlightIds_def holding_def)

lemma runInBackground_total:
  "i \<notin> set (inFlightIds cs) \<Longrightarrow> \<exists>cs'. runInBackground i c cs = Some cs'"
  by (simp add: runInBackground_def track_def)

lemma inFlightIds_runInBackground:
  "runInBackground i c cs = Some cs' \<Longrightarrow> inFlightIds cs' = inFlightIds cs @ [i]"
  by (auto simp: runInBackground_def track_Some_iff inFlightIds_def split: if_splits)

lemma inFlightIds_stopInBackground:
  "stopInBackground ws cs = Some cs' \<Longrightarrow> inFlightIds cs' = inFlightIds cs @ [ws_id ws]"
  by (auto simp: stopInBackground_def track_Some_iff inFlightIds_def)

lemma inFlightIds_finishCall:
  "inFlightIds (finishCall f cs) = filter (\<lambda>i. i \<noteq> fl_id f) (inFlightIds cs)"
  by (auto simp: finishCall_def leaveSlot_def inFlightIds_def Let_def filter_map o_def
      upd_where_def split: list.splits intro!: map_cong filter_cong)

lemma distinct_key:
  "distinct (map k xs) \<Longrightarrow> x \<in> set xs \<Longrightarrow> y \<in> set xs \<Longrightarrow> k x = k y \<Longrightarrow> x = y"
  by (simp add: distinct_map inj_on_def)

lemma count_without:
  assumes "distinct (map fl_id xs)" "f \<in> set xs" "P f"
  shows "length (filter P xs) = Suc (length (filter P (filter (\<lambda>g. fl_id g \<noteq> fl_id f) xs)))"
  using assms
proof (induction xs)
  case (Cons x xs)
  show ?case
  proof (cases "x = f")
    case True
    have "filter (\<lambda>g. fl_id g \<noteq> fl_id f) xs = xs"
      using Cons.prems(1) True by (auto simp: filter_id_conv image_iff)
    then show ?thesis using True Cons.prems(3) by simp
  next
    case False
    then have "f \<in> set xs" using Cons.prems(2) by simp
    moreover from this False Cons.prems(1) have "fl_id x \<noteq> fl_id f" by (auto simp: image_iff)
    ultimately show ?thesis using Cons by simp
  qed
qed simp

text \<open>The list without the finished call, the slot returned to the pool.\<close>

lemma finishCall_drop_ok:
  assumes "calls_ok cs" "f \<in> set (inFlight cs)" "fl_phase f = Active"
    "\<not> fl_slot f \<or> waitingForSlot cs = []"
  shows "calls_ok (finishCall f cs)"
proof -
  let ?drop = "filter (\<lambda>g. fl_id g \<noteq> fl_id f)"
  have ids: "distinct (map fl_id (inFlight cs))"
    using assms(1) by (simp add: calls_ok_def inFlightIds_def)
  have inj: "g = f" if "g \<in> set (inFlight cs)" "fl_id g = fl_id f" for g
    using distinct_key [OF ids that(1) assms(2) that(2)] .
  have same: "filter Q (?drop (inFlight cs)) = filter Q (inFlight cs)" if "\<not> Q f" for Q
    using that inj by (auto simp: intro!: filter_cong)
  have waiting: "filter (\<lambda>f. fl_phase f = Waiting) (?drop (inFlight cs)) =
      filter (\<lambda>f. fl_phase f = Waiting) (inFlight cs)"
    using assms(3) by (intro same) simp
  show ?thesis
  proof (cases "fl_slot f")
    case True
    then have "holding f" using assms(3) by (simp add: holding_def)
    from count_without [of "inFlight cs" f holding, OF ids assms(2) this] True assms waiting
    show ?thesis
      by (auto simp: calls_ok_def finishCall_def leaveSlot_def inFlightIds_def
          distinct_map_filter Let_def)
  next
    case False
    then have "\<not> holding f" by (simp add: holding_def)
    from same [of holding, OF this] False assms waiting show ?thesis
      by (auto simp: calls_ok_def finishCall_def inFlightIds_def distinct_map_filter Let_def)
  qed
qed

text \<open>A waiter that takes over a slot.\<close>

abbreviation activate :: "uuid \<Rightarrow> in_flight list \<Rightarrow> in_flight list" where
  "activate i \<equiv> upd_where (\<lambda>f. fl_id f = i) (\<lambda>f. f\<lparr>fl_phase := Active\<rparr>)"

lemma activate_ids: "map fl_id (activate i xs) = map fl_id xs"
  by (rule map_upd_where_frame) simp

lemma activate_first:
  assumes "distinct (map fl_id xs)" "filter (\<lambda>f. fl_phase f = Waiting) xs = g # gs" "fl_slot g"
  shows "filter (\<lambda>f. fl_phase f = Waiting) (activate (fl_id g) xs) = gs"
    and "length (filter holding (activate (fl_id g) xs)) = Suc (length (filter holding xs))"
  using assms
proof (induction xs)
  case (Cons x xs)
  { case 1 then show ?case
      using Cons.IH(1) upd_where_none [of xs "\<lambda>f. fl_id f = fl_id x"]
      by (auto split: if_splits simp: image_iff)
    (force simp: image_iff filter_eq_Cons_iff)+ }
  { case 2 then show ?case
      using Cons.IH(2) upd_where_none [of xs "\<lambda>f. fl_id f = fl_id x"]
      by (auto split: if_splits simp: image_iff holding_def)
    (force simp: image_iff filter_eq_Cons_iff)+ }
qed simp_all

lemma finishCall_handover_ok:
  assumes ok: "calls_ok cs" and f: "f \<in> set (inFlight cs)" "fl_phase f = Active" "fl_slot f"
    and w: "waitingForSlot cs = n # rest"
  shows "calls_ok (finishCall f cs)"
proof -
  let ?W = "\<lambda>f. fl_phase f = Waiting"
  have ids: "distinct (map fl_id (inFlight cs))" using ok by (simp add: calls_ok_def inFlightIds_def)
  from ok w obtain g gs where g: "filter ?W (inFlight cs) = g # gs" "fl_id g = n" "map fl_id gs = rest"
    by (auto simp: calls_ok_def map_eq_Cons_conv)
  have gin: "g \<in> set (inFlight cs)" "?W g" using g(1) by (auto simp: filter_eq_Cons_iff)
  have slot: "fl_slot g" using ok gin by (simp add: calls_ok_def)
  let ?xs = "activate (fl_id g) (inFlight cs)"
  note act = activate_first [OF ids g(1) slot]
  have ne: "fl_id f \<noteq> fl_id g" using distinct_key [OF ids f(1) gin(1)] f(2) gin(2) by auto
  have fin: "f \<in> set ?xs" using f(1) ne by (force simp: set_upd_where)
  have ids': "distinct (map fl_id ?xs)" using ids by (simp add: activate_ids)
  have hold: "holding f" using f by (simp add: holding_def)
  have eq_f: "fl_phase h = Active" if "h \<in> set ?xs" "fl_id h = fl_id f" for h
    using distinct_key [OF ids' that(1) fin that(2)] f(2) by simp
  have waiting: "filter ?W (filter (\<lambda>h. fl_id h \<noteq> fl_id f) ?xs) = gs"
  proof -
    have "filter ?W (filter (\<lambda>h. fl_id h \<noteq> fl_id f) ?xs) = filter ?W ?xs"
      using eq_f by (auto intro!: filter_cong)
    then show ?thesis using act(1) by simp
  qed
  have count: "length (filter holding (filter (\<lambda>h. fl_id h \<noteq> fl_id f) ?xs)) =
      length (filter holding (inFlight cs))"
    using count_without [OF ids' fin, of holding] hold act(2) by simp
  have slots: "\<forall>h\<in>set ?xs. ?W h \<longrightarrow> fl_slot h"
    using ok by (auto simp: calls_ok_def set_upd_where)
  have fields: "inFlight (finishCall f cs) = filter (\<lambda>h. fl_id h \<noteq> fl_id f) ?xs"
    "waitingForSlot (finishCall f cs) = rest" "activeCalls (finishCall f cs) = activeCalls cs"
    using w f(3) g(2) by (simp_all add: finishCall_def leaveSlot_def)
  have cap: "activeCalls cs = length (filter holding (inFlight cs))"
    "activeCalls cs = CONTROLLER_CONCURRENCY"
    using ok w by (auto simp: calls_ok_def)
  show ?thesis unfolding calls_ok_def fields inFlightIds_def waiting count
    using cap g(3) slots ids' by (simp add: distinct_map_filter)
qed

lemma finishCall_ok:
  assumes "calls_ok cs" "f \<in> set (inFlight cs)" "fl_phase f = Active"
  shows "calls_ok (finishCall f cs)"
  using assms finishCall_drop_ok finishCall_handover_ok
  by (cases "fl_slot f"; cases "waitingForSlot cs") auto

text \<open>Replacing a call by its next stage changes no account.\<close>

definition setCall :: "uuid \<Rightarrow> call \<Rightarrow> calls \<Rightarrow> calls" where
  "setCall i c cs =
     cs\<lparr>inFlight := upd_where (\<lambda>f. fl_id f = i) (\<lambda>f. f\<lparr>fl_call := c\<rparr>) (inFlight cs)\<rparr>"

lemma filter_upd_call:
  assumes "\<And>f. Q (f\<lparr>fl_call := c\<rparr>) = Q f"
  shows "map fl_id (filter Q (upd_where P (\<lambda>f. f\<lparr>fl_call := c\<rparr>) xs)) = map fl_id (filter Q xs)"
    and "length (filter Q (upd_where P (\<lambda>f. f\<lparr>fl_call := c\<rparr>) xs)) = length (filter Q xs)"
  using assms by (induction xs) auto

lemma inFlightIds_setCall [simp]: "inFlightIds (setCall i c cs) = inFlightIds cs"
  unfolding inFlightIds_def setCall_def by (simp add: map_upd_where_frame)

lemma setCall_ok: "calls_ok cs \<Longrightarrow> calls_ok (setCall i c cs)"
  unfolding calls_ok_def inFlightIds_setCall
  by (auto simp: setCall_def set_upd_where holding_def filter_upd_call [where Q = holding]
      filter_upd_call(1) [where Q = "\<lambda>f. fl_phase f = Waiting"] simp flip: map_is_Nil_conv)

end
