(* ===== verification/Reconcile.thy ===== *)
theory Reconcile
  imports Calls
begin

text \<open>
  Steps 1 to 3 of a reconciliation sweep, \<open>apps/worker/src/reconcile.ts\<close>: stale presence,
  "keep running until" holds, shutdown deadlines, and the transitions the sweep drives.
  A step that reads rows and then acts on each is given as the query (\<open>_rows\<close>) and the
  body for one row it returned (\<open>_row\<close>), which may be stale by then; the step itself is
  the loop over both. \<open>None\<close> is the exception of \<open>track\<close>.
\<close>

record worker =
  wdb :: db
  wcalls :: calls
  transitions :: nat

record sweep_ctx =
  config :: reconcile_config
  now :: millis
  createRetryDelaysMs :: "millis list"

abbreviation on_db :: "(db \<Rightarrow> db) \<Rightarrow> worker \<Rightarrow> worker" where
  "on_db f s \<equiv> s\<lparr>wdb := f (wdb s)\<rparr>"

definition IDLE_WARNING_MS :: millis where "IDLE_WARNING_MS = 5 * 60000"

definition CREATE_RETRY_DELAYS_MS :: "millis list" where
  "CREATE_RETRY_DELAYS_MS = [1000, 2000, 4000, 8000]"

definition notInFlight :: "calls \<Rightarrow> workspace \<Rightarrow> bool" where
  "notInFlight cs w \<longleftrightarrow> ws_id w \<notin> set (inFlightIds cs)"

definition hasConnections :: "db \<Rightarrow> workspace \<Rightarrow> bool" where
  "hasConnections d w \<longleftrightarrow>
     filter (\<lambda>c. conn_workspace_id c = ws_id w) (workspace_connections d) \<noteq> []"

section \<open>Timers\<close>

definition keep_cap :: "db \<Rightarrow> workspace \<Rightarrow> int" where
  "keep_cap d w =
     nullish (coalesce (override gc_keepRunningMaxHours (guard_config w))
                       (map_option set_keep_running_max_hours (db_settings d)))
       DEFAULT_KEEP_RUNNING_MAX_HOURS"

text \<open>\<open>UPDATE \<dots> RETURNING\<close>: the new rows, in table order.\<close>

definition update_returning ::
  "(workspace \<Rightarrow> bool) \<Rightarrow> (workspace \<Rightarrow> workspace) \<Rightarrow> db \<Rightarrow> db \<times> workspace list" where
  "update_returning P f d = (update_workspaces P f d, map f (rows_where P d))"

definition audit_rows :: "(workspace \<Rightarrow> audit_event) \<Rightarrow> workspace list \<Rightarrow> db \<Rightarrow> db" where
  "audit_rows e ws d = foldl (\<lambda>d w. recordAudit (e w) d) d ws"

definition settleKeepRunning_off :: "millis \<Rightarrow> db \<Rightarrow> db" where
  "settleKeepRunning_off at_ms d =
     (let (d1, off) = update_returning
        (\<lambda>w. sql_lt (Some at_ms) (keep_running_until w) \<and> keep_cap d w = 0)
        (\<lambda>w. w\<lparr>keep_running_until := None, last_activity_at := Some at_ms, idle_stop_at := None,
               disconnected_at := (if disconnected_at w = None then None else Some at_ms)\<rparr>) d
      in audit_rows (\<lambda>w. audit ''worker'' (ws_id w) ''workspace.keep_running_ended'' ResOk
           (Some [(''reason'', JStr ''cut_by_cap'')])) off d1)"

definition settleKeepRunning_cut :: "millis \<Rightarrow> db \<Rightarrow> db" where
  "settleKeepRunning_cut at_ms d =
     (let (d1, cut) = update_returning
        (\<lambda>w. sql_lt (Some (at_ms + keep_cap d w * 3600000)) (keep_running_until w))
        (\<lambda>w. w\<lparr>keep_running_until := Some (at_ms + keep_cap d w * 3600000)\<rparr>) d
      in audit_rows (\<lambda>w. audit ''worker'' (ws_id w) ''workspace.keep_running_set'' ResOk
           (Some [(''until'', JNum (of_int (at_ms + keep_cap d w * 3600000))),
                  (''reason'', JStr ''cut_by_cap''),
                  (''maxHours'', JNum (of_int (keep_cap d w)))])) cut d1)"

definition settleKeepRunning_expired :: "millis \<Rightarrow> db \<Rightarrow> db" where
  "settleKeepRunning_expired at_ms d =
     (let (d1, expired) = update_returning
        (\<lambda>w. sql_le (keep_running_until w) (Some at_ms))
        (\<lambda>w. w\<lparr>keep_running_until := None, idle_stop_at := None,
               last_activity_at := sql_greatest (last_activity_at w) (keep_running_until w),
               disconnected_at := (if disconnected_at w = None then None
                 else sql_greatest (disconnected_at w) (keep_running_until w))\<rparr>) d
      in audit_rows (\<lambda>w. audit ''worker'' (ws_id w) ''workspace.keep_running_ended'' ResOk
           (Some [(''reason'', JStr ''expired'')])) expired d1)"

definition settleKeepRunning :: "millis \<Rightarrow> db \<Rightarrow> db" where
  "settleKeepRunning at_ms d =
     settleKeepRunning_expired at_ms (settleKeepRunning_cut at_ms (settleKeepRunning_off at_ms d))"

definition expireConnections :: "sweep_ctx \<Rightarrow> db \<Rightarrow> db" where
  "expireConnections ctx d =
     (let ttlCutoff = now ctx - PRESENCE_TTL_SECONDS (config ctx) * 1000 in
      d\<lparr>workspace_connections :=
          filter (\<lambda>c. \<not> last_seen_at c < ttlCutoff) (workspace_connections d)\<rparr>)"

definition grace_of :: "sweep_ctx \<Rightarrow> db \<Rightarrow> user \<Rightarrow> int" where
  "grace_of ctx d u =
     nullish (coalesce (user_shutdown_grace_seconds u)
                       (map_option set_shutdown_grace_seconds (db_settings d)))
       (SHUTDOWN_GRACE_SECONDS (config ctx))"

definition new_deadline :: "sweep_ctx \<Rightarrow> db \<Rightarrow> user \<Rightarrow> workspace \<Rightarrow> millis option" where
  "new_deadline ctx d u w =
     (if grace_of ctx d u = 0 \<or> keep_running_until w \<noteq> None then None
      else map_option (\<lambda>t. t + grace_of ctx d u * 1000) (disconnected_at w))"

definition markDisconnected :: "sweep_ctx \<Rightarrow> db \<Rightarrow> db" where
  "markDisconnected ctx d =
     update_workspaces
       (\<lambda>w. ws_state w = Running \<and> disconnected_at w = None \<and> \<not> hasConnections d w)
       (\<lambda>w. w\<lparr>disconnected_at := Some (now ctx), updated_at := now ctx\<rparr>) d"

definition unmarkConnected :: "sweep_ctx \<Rightarrow> db \<Rightarrow> db" where
  "unmarkConnected ctx d =
     update_workspaces
       (\<lambda>w. ws_state w = Running \<and> (disconnected_at w \<noteq> None \<or> shutdown_deadline w \<noteq> None) \<and>
            hasConnections d w)
       (\<lambda>w. w\<lparr>disconnected_at := None, shutdown_deadline := None, updated_at := now ctx\<rparr>) d"

definition recomputeDeadlines :: "sweep_ctx \<Rightarrow> db \<Rightarrow> db" where
  "recomputeDeadlines ctx d =
     (let deadline = (\<lambda>w. case find_user (owner_user_id w) d of
            None \<Rightarrow> shutdown_deadline w | Some u \<Rightarrow> new_deadline ctx d u w)
      in update_workspaces
       (\<lambda>w. ws_state w = Running \<and> disconnected_at w \<noteq> None \<and> deadline w \<noteq> shutdown_deadline w)
       (\<lambda>w. w\<lparr>shutdown_deadline := deadline w, updated_at := now ctx\<rparr>) d)"

definition trackDisconnections :: "sweep_ctx \<Rightarrow> db \<Rightarrow> db" where
  "trackDisconnections ctx d = recomputeDeadlines ctx (unmarkConnected ctx (markDisconnected ctx d))"

section \<open>Creating and starting\<close>

definition createProvisioning_rows :: "worker \<Rightarrow> workspace list" where
  "createProvisioning_rows s =
     rows_where (\<lambda>w. ws_state w = Provisioning \<and> notInFlight (wcalls s) w) (wdb s)"

text \<open>Put a call into the background.\<close>

definition launch :: "(calls \<Rightarrow> calls option) \<Rightarrow> worker \<Rightarrow> worker option" where
  "launch f s = map_option (\<lambda>cs. s\<lparr>wcalls := cs\<rparr>) (f (wcalls s))"

definition createProvisioning_row :: "workspace \<Rightarrow> worker \<Rightarrow> worker option" where
  "createProvisioning_row ws s =
     (case truthy (incus_instance_name ws) of
        None \<Rightarrow> Some s
      | Some name \<Rightarrow> launch (runInBackground (ws_id ws) (CreateCall name ws 0)) s)"

definition createProvisioning :: "worker \<Rightarrow> worker option" where
  "createProvisioning s = foldM createProvisioning_row (createProvisioning_rows s) s"

definition startInBackground ::
  "sweep_ctx \<Rightarrow> workspace \<Rightarrow> workspace_state \<Rightarrow> bool \<Rightarrow> worker \<Rightarrow> worker option" where
  "startInBackground ctx ws fromState lastRetry s =
     (case truthy (incus_instance_name ws) of
        None \<Rightarrow> Some s
      | Some name \<Rightarrow>
          (let (d1, moved) = moveToStarting (ws_id ws) fromState (now ctx) (wdb s);
               s1 = s\<lparr>wdb := d1\<rparr>
           in if \<not> moved then Some s1
              else launch (runInBackground (ws_id ws) (StartCall name ws lastRetry))
                     (s1\<lparr>transitions := transitions s1 + 1\<rparr>)))"

definition wants_up :: "workspace \<Rightarrow> bool" where
  "wants_up w \<longleftrightarrow> ws_desired w = WantRunning \<or> ws_desired w = WantRestarting"

definition startStopped_rows :: "worker \<Rightarrow> workspace list" where
  "startStopped_rows s =
     rows_where (\<lambda>w. ws_state w = Stopped \<and> wants_up w \<and> pending_op w = None \<and>
       archived_at w = None \<and> notInFlight (wcalls s) w) (wdb s)"

definition startStopped_row :: "sweep_ctx \<Rightarrow> workspace \<Rightarrow> worker \<Rightarrow> worker option" where
  "startStopped_row ctx ws s = startInBackground ctx ws Stopped False s"

definition startStopped :: "sweep_ctx \<Rightarrow> worker \<Rightarrow> worker option" where
  "startStopped ctx s = foldM (startStopped_row ctx) (startStopped_rows s) s"

definition retryErrored_rows :: "worker \<Rightarrow> workspace list" where
  "retryErrored_rows s =
     rows_where (\<lambda>w. ws_state w = Error \<and> wants_up w \<and> start_retries w < MAX_START_RETRIES \<and>
       pending_op w = None \<and> archived_at w = None \<and> notInFlight (wcalls s) w) (wdb s)"

definition retryErrored_row :: "sweep_ctx \<Rightarrow> workspace \<Rightarrow> worker \<Rightarrow> worker option" where
  "retryErrored_row ctx ws s =
     (case retryWaitMs (start_retries ws) of
        None \<Rightarrow> Some s
      | Some wait \<Rightarrow>
          if now ctx < updated_at ws + wait then Some s
          else let attempt = start_retries ws + 1 in
            startInBackground ctx ws Error (attempt = MAX_START_RETRIES) s)"

definition retryErrored :: "sweep_ctx \<Rightarrow> worker \<Rightarrow> worker option" where
  "retryErrored ctx s = foldM (retryErrored_row ctx) (retryErrored_rows s) s"

section \<open>Stopping\<close>

text \<open>\<open>rebuildPointsDone\<close> of \<open>apps/worker/src/recovery.ts\<close>.\<close>

definition rebuildPointsDone :: "uuid \<Rightarrow> millis \<Rightarrow> db \<Rightarrow> bool" where
  "rebuildPointsDone i since d \<longleftrightarrow>
     filter (\<lambda>p. proj_workspace_id p = i \<and> proj_active p \<and>
                 (recovery_checked_at p = None \<or> sql_lt (recovery_checked_at p) (Some since)))
       (projects d) = []"

text \<open>Move one running row to stopping, end its terminals and stop its instance.\<close>

definition stop_row :: "sweep_ctx \<Rightarrow> workspace \<Rightarrow> worker \<Rightarrow> worker option" where
  "stop_row ctx ws s =
     (let (d1, moved) = casUpdate (ws_id ws) Running (\<lambda>w. w\<lparr>ws_state := Stopping\<rparr>) (now ctx) (wdb s);
          s1 = s\<lparr>wdb := d1\<rparr>
      in if \<not> moved then Some s1
         else launch (stopInBackground ws)
                (s1\<lparr>transitions := transitions s1 + 1,
                    wdb := endOpenTerminals (ws_id ws) (now ctx) d1\<rparr>))"

definition stopExplicit_rows :: "worker \<Rightarrow> workspace list" where
  "stopExplicit_rows s =
     rows_where (\<lambda>w. ws_state w = Running \<and>
       (ws_desired w = WantStopped \<or> ws_desired w = WantRestarting \<or> archived_at w \<noteq> None) \<and>
       notInFlight (wcalls s) w) (wdb s)"

definition stopExplicit_row :: "sweep_ctx \<Rightarrow> workspace \<Rightarrow> worker \<Rightarrow> worker option" where
  "stopExplicit_row ctx ws s =
     (if truthy (incus_instance_name ws) = None then Some s else stop_row ctx ws s)"

definition stopForOperation_rows :: "worker \<Rightarrow> workspace list" where
  "stopForOperation_rows s =
     rows_where (\<lambda>w. ws_state w = Running \<and> pending_op w \<noteq> None \<and> notInFlight (wcalls s) w) (wdb s)"

definition stopForOperation_row :: "sweep_ctx \<Rightarrow> workspace \<Rightarrow> worker \<Rightarrow> worker option" where
  "stopForOperation_row ctx ws s =
     (if truthy (incus_instance_name ws) = None then Some s
      else if pending_op ws \<noteq> Some ResetDocker \<and>
              \<not> rebuildPointsDone (ws_id ws) (nullish (pending_operation_at ws) (now ctx)) (wdb s)
           then Some s
      else stop_row ctx ws s)"

text \<open>The two statements that stop on a timer also set what the workspace should be.\<close>

definition timer_desired :: "workspace \<Rightarrow> desired_state" where
  "timer_desired w = (if ws_desired w = WantRestarting then WantRunning else WantStopped)"

definition stopDeadline_update :: "sweep_ctx \<Rightarrow> worker \<Rightarrow> db \<times> workspace list" where
  "stopDeadline_update ctx s =
     update_returning
       (\<lambda>w. ws_state w = Running \<and> sql_le (shutdown_deadline w) (Some (now ctx)) \<and>
            notInFlight (wcalls s) w \<and> \<not> hasConnections (wdb s) w)
       (\<lambda>w. w\<lparr>ws_state := Stopping, ws_desired := timer_desired w, updated_at := now ctx\<rparr>) (wdb s)"

definition stopDeadline_row :: "sweep_ctx \<Rightarrow> workspace \<Rightarrow> worker \<Rightarrow> worker option" where
  "stopDeadline_row ctx ws s =
     (let s1 = s\<lparr>transitions := transitions s + 1,
                 wdb := endOpenTerminals (ws_id ws) (now ctx) (wdb s)\<rparr>
      in if truthy (incus_instance_name ws) = None then Some s1
         else launch (stopInBackground ws) s1)"

definition stopRunning :: "sweep_ctx \<Rightarrow> worker \<Rightarrow> worker option" where
  "stopRunning ctx s = do {
     s1 \<leftarrow> foldM (stopExplicit_row ctx) (stopExplicit_rows s) s;
     s2 \<leftarrow> foldM (stopForOperation_row ctx) (stopForOperation_rows s1) s1;
     (let (d, rows) = stopDeadline_update ctx s2
      in foldM (stopDeadline_row ctx) rows (s2\<lparr>wdb := d\<rparr>)) }"

section \<open>Idle stop\<close>

text \<open>\<open>coalesce(guard_config->>'idleStopMinutes', idle_stop_minutes)\<close>: null without settings.\<close>

definition idle_minutes :: "db \<Rightarrow> workspace \<Rightarrow> int option" where
  "idle_minutes d w =
     coalesce (override gc_idleStopMinutes (guard_config w))
       (map_option (\<lambda>s. idle_stop_minutes (guard_values s)) (db_settings d))"

definition withdrawIdle :: "db \<Rightarrow> db" where
  "withdrawIdle d =
     update_workspaces
       (\<lambda>w. idle_stop_at w \<noteq> None \<and>
            (nullish (idle_minutes d w) 0 = 0 \<or> keep_running_until w \<noteq> None))
       (\<lambda>w. w\<lparr>idle_stop_at := None\<rparr>) d"

definition warnIdle :: "sweep_ctx \<Rightarrow> db \<Rightarrow> db" where
  "warnIdle ctx d =
     update_workspaces
       (\<lambda>w. ws_state w = Running \<and> idle_stop_at w = None \<and> keep_running_until w = None \<and>
            sql_lt (Some 0) (idle_minutes d w) \<and>
            sql_le (case (last_activity_at w, idle_minutes d w) of
                      (Some t, Some m) \<Rightarrow> Some (t + m * 60000) | _ \<Rightarrow> None) (Some (now ctx)))
       (\<lambda>w. w\<lparr>idle_stop_at := Some (now ctx + IDLE_WARNING_MS)\<rparr>) d"

definition stopIdle_update :: "sweep_ctx \<Rightarrow> worker \<Rightarrow> db \<times> (workspace \<times> int option) list" where
  "stopIdle_update ctx s =
     (let (d, rows) = update_returning
        (\<lambda>w. ws_state w = Running \<and> sql_le (idle_stop_at w) (Some (now ctx)) \<and>
             notInFlight (wcalls s) w)
        (\<lambda>w. w\<lparr>ws_state := Stopping, ws_desired := timer_desired w, updated_at := now ctx\<rparr>) (wdb s)
      in (d, map (\<lambda>w. (w, idle_minutes (wdb s) w)) rows))"

definition stopIdle_row :: "sweep_ctx \<Rightarrow> workspace \<times> int option \<Rightarrow> worker \<Rightarrow> worker option" where
  "stopIdle_row ctx row s =
     (let (ws, idle) = row;
          d1 = workerAudit (ws_id ws) ''workspace.idle_stopped'' ResOk
            (Some [(''idleMinutes'', case idle of None \<Rightarrow> JNull | Some m \<Rightarrow> JNum (of_int m))]) (wdb s)
      in stopDeadline_row ctx ws (s\<lparr>wdb := d1\<rparr>))"

definition stopIdle :: "sweep_ctx \<Rightarrow> worker \<Rightarrow> worker option" where
  "stopIdle ctx s =
     (let s1 = on_db (warnIdle ctx) (on_db withdrawIdle s);
          (d, rows) = stopIdle_update ctx s1
      in foldM (stopIdle_row ctx) rows (s1\<lparr>wdb := d\<rparr>))"

section \<open>Maintenance\<close>

definition runMaintenance_rows :: "worker \<Rightarrow> workspace list" where
  "runMaintenance_rows s =
     rows_where (\<lambda>w. (ws_state w = Stopped \<or> ws_state w = Error) \<and> pending_op w \<noteq> None \<and>
       notInFlight (wcalls s) w) (wdb s)"

definition runMaintenance_row :: "sweep_ctx \<Rightarrow> workspace \<Rightarrow> worker \<Rightarrow> worker option" where
  "runMaintenance_row ctx ws s =
     (case (truthy (incus_instance_name ws), pending_op ws) of
        (Some name, Some operation) \<Rightarrow>
          launch (runInBackground (ws_id ws)
            (if operation = ReplaceHome then ReplaceHomeCall name ws (now ctx)
             else OperationCall \<lparr>op_id = ws_id ws, op_instance = name, op_state = ws_state ws,
                   op_operation = operation, op_by = pending_operation_by ws,
                   op_dockerGiB = dockerGiBOf (quota_config ws) (config ctx)\<rparr>)) s
      | _ \<Rightarrow> Some s)"

definition runMaintenance :: "sweep_ctx \<Rightarrow> worker \<Rightarrow> worker option" where
  "runMaintenance ctx s = foldM (runMaintenance_row ctx) (runMaintenance_rows s) s"

section \<open>Steps 1 to 3 of a sweep\<close>

definition sweep_timers :: "sweep_ctx \<Rightarrow> db \<Rightarrow> db" where
  "sweep_timers ctx d =
     trackDisconnections ctx (settleKeepRunning (now ctx) (expireConnections ctx d))"

definition sweep_drive :: "sweep_ctx \<Rightarrow> worker \<Rightarrow> worker option" where
  "sweep_drive ctx s = do {
     s1 \<leftarrow> createProvisioning s;
     s2 \<leftarrow> startStopped ctx s1;
     s3 \<leftarrow> stopRunning ctx s2;
     s4 \<leftarrow> stopIdle ctx s3;
     s5 \<leftarrow> retryErrored ctx s4;
     runMaintenance ctx s5 }"

end
