(* ===== verification/Drift.thy ===== *)
theory Drift
  imports Reconcile
begin

text \<open>
  Steps 4 and 5 of a sweep, \<open>apps/worker/src/reconcile-drift.ts\<close>: the controller's list of
  instances decides rows that disagree with it and stale starting and stopping rows; and
  the whole sweep, \<open>reconcile\<close>.
\<close>

datatype instance_status = InstRunning | InstStopped | InstOther

record listed_instance =
  inst_name :: string
  inst_status :: instance_status
  inst_ipv4 :: "string option"

definition INSTANCE_MISSING_MESSAGE :: string where
  "INSTANCE_MISSING_MESSAGE =
     ''Your workspace instance no longer exists. Please contact your administrator.''"

definition bump :: "worker \<Rightarrow> worker" where
  "bump s = s\<lparr>transitions := transitions s + 1\<rparr>"

text \<open>A row is written by compare-and-set; what follows happens only if it matched.\<close>

definition cas_then ::
  "uuid \<Rightarrow> workspace_state \<Rightarrow> (workspace \<Rightarrow> workspace) \<Rightarrow> millis \<Rightarrow> (db \<Rightarrow> db) \<Rightarrow> worker \<Rightarrow> worker" where
  "cas_then i fromState updates t after s =
     (let (d1, updated) = casUpdate i fromState updates t (wdb s)
      in if updated then bump (s\<lparr>wdb := after d1\<rparr>) else s\<lparr>wdb := d1\<rparr>)"

definition resolveMissingInstance :: "sweep_ctx \<Rightarrow> workspace \<Rightarrow> string \<Rightarrow> worker \<Rightarrow> worker" where
  "resolveMissingInstance ctx ws name s =
     (if ws_state ws = Error then
        (if agent_address ws \<noteq> None
         then on_db (update_workspaces (\<lambda>w. ws_id w = ws_id ws) (\<lambda>w. w\<lparr>agent_address := None\<rparr>)) s
         else s)
      else cas_then (ws_id ws) (ws_state ws)
        (\<lambda>w. w\<lparr>ws_state := Error, ws_error_code := Some INSTANCE_MISSING,
               ws_error_message := Some INSTANCE_MISSING_MESSAGE,
               shutdown_deadline := None, disconnected_at := None\<rparr>) (now ctx)
        (\<lambda>d. workerAudit (ws_id ws) ''workspace.instance_missing'' ResFailed
               (Some [(''instanceName'', JStr name)])
               (clearGuardAtStop (ws_id ws) (endOpenTerminals (ws_id ws) (now ctx) d))) s)"

definition synced_address :: "workspace \<Rightarrow> listed_instance \<Rightarrow> string option" where
  "synced_address ws inst =
     coalesce (inst_ipv4 inst)
       (if inst_status inst = InstRunning \<and> ws_state ws \<noteq> Error then agent_address ws else None)"

definition syncAgentAddress :: "workspace \<Rightarrow> listed_instance \<Rightarrow> db \<Rightarrow> db" where
  "syncAgentAddress ws inst d =
     (if synced_address ws inst \<noteq> agent_address ws
      then update_workspaces (\<lambda>w. ws_id w = ws_id ws)
             (\<lambda>w. w\<lparr>agent_address := synced_address ws inst\<rparr>) d
      else d)"

definition driftStopped :: "sweep_ctx \<Rightarrow> workspace \<Rightarrow> listed_instance \<Rightarrow> worker \<Rightarrow> worker" where
  "driftStopped ctx ws inst s =
     (if ws_state ws = Running \<and> inst_status inst = InstStopped then
        cas_then (ws_id ws) Running
          (\<lambda>w. w\<lparr>ws_state := Stopped, shutdown_deadline := None, disconnected_at := None\<rparr>) (now ctx)
          (\<lambda>d. workerAudit (ws_id ws) ''workspace.observed_stopped'' ResOk None
                 (clearGuardAtStop (ws_id ws) (endOpenTerminals (ws_id ws) (now ctx) d))) s
      else s)"

definition driftRunning :: "sweep_ctx \<Rightarrow> workspace \<Rightarrow> listed_instance \<Rightarrow> worker \<Rightarrow> worker" where
  "driftRunning ctx ws inst s =
     (if ws_state ws = Stopped \<and> inst_status inst = InstRunning then
        cas_then (ws_id ws) Stopped (\<lambda>w. startedNow (now ctx) (w\<lparr>ws_state := Running\<rparr>)) (now ctx)
          (workerAudit (ws_id ws) ''workspace.observed_running'' ResOk None) s
      else s)"

definition driftErrored ::
  "sweep_ctx \<Rightarrow> workspace \<Rightarrow> listed_instance \<Rightarrow> worker \<Rightarrow> worker option" where
  "driftErrored ctx ws inst s =
     (if ws_state ws = Error \<and> ws_desired ws = WantStopped \<and>
         ws_error_code ws \<noteq> Some STOP_FAILED \<and> inst_status inst = InstRunning then
        (let hit = (\<lambda>w. ws_id w = ws_id ws \<and> ws_state w = Error \<and> ws_desired w = WantStopped);
             d1 = update_workspaces hit
               (\<lambda>w. w\<lparr>ws_state := Stopping, ws_error_code := None, ws_error_message := None,
                      updated_at := now ctx\<rparr>) (wdb s)
         in if rows_where hit (wdb s) = [] then Some (s\<lparr>wdb := d1\<rparr>)
            else launch (stopInBackground ws)
                   (bump (s\<lparr>wdb := endOpenTerminals (ws_id ws) (now ctx) d1\<rparr>)))
      else Some s)"

definition resolveDrift ::
  "sweep_ctx \<Rightarrow> workspace \<Rightarrow> listed_instance \<Rightarrow> worker \<Rightarrow> worker option" where
  "resolveDrift ctx ws inst s =
     driftErrored ctx ws inst (driftRunning ctx ws inst (driftStopped ctx ws inst s))"

definition resolveStarting :: "sweep_ctx \<Rightarrow> workspace \<Rightarrow> listed_instance \<Rightarrow> worker \<Rightarrow> worker" where
  "resolveStarting ctx ws inst s =
     (case inst_status inst of
        InstRunning \<Rightarrow>
          cas_then (ws_id ws) Starting (\<lambda>w. startedNow (now ctx) (w\<lparr>ws_state := Running\<rparr>)) (now ctx)
            (workerAudit (ws_id ws) ''workspace.start'' ResOk
               (Some [(''resolvedFromList'', JBool True)])) s
      | InstStopped \<Rightarrow>
          cas_then (ws_id ws) Starting
            (\<lambda>w. w\<lparr>ws_state := Error, ws_error_code := Some (Controller OPERATION_FAILED),
                   ws_error_message := Some (userMessage OPERATION_FAILED)\<rparr>) (now ctx)
            (\<lambda>d. workerAudit (ws_id ws) ''workspace.start_failed'' ResFailed
                   (Some [(''resolvedFromList'', JBool True)])
                   (endOpenTerminals (ws_id ws) (now ctx) d)) s
      | InstOther \<Rightarrow> s)"

definition resolveStopping :: "sweep_ctx \<Rightarrow> workspace \<Rightarrow> listed_instance \<Rightarrow> worker \<Rightarrow> worker" where
  "resolveStopping ctx ws inst s =
     (case inst_status inst of
        InstStopped \<Rightarrow>
          cas_then (ws_id ws) Stopping
            (\<lambda>w. w\<lparr>ws_state := Stopped, shutdown_deadline := None, disconnected_at := None\<rparr>) (now ctx)
            (\<lambda>d. workerAudit (ws_id ws) ''workspace.stop'' ResOk
                   (Some [(''resolvedFromList'', JBool True)])
                   (clearGuardAtStop (ws_id ws) (endOpenTerminals (ws_id ws) (now ctx) d))) s
      | InstRunning \<Rightarrow>
          cas_then (ws_id ws) Stopping (\<lambda>w. w\<lparr>ws_state := Running\<rparr>) (now ctx)
            (workerAudit (ws_id ws) ''workspace.observed_running'' ResOk
               (Some [(''resolvedFromList'', JBool True)])) s
      | InstOther \<Rightarrow> s)"

text \<open>\<open>new Map(instances.map(i => [i.name, i]))\<close>: the last instance of a name wins.\<close>

definition instance_named :: "string \<Rightarrow> listed_instance list \<Rightarrow> listed_instance option" where
  "instance_named n instances = find_row inst_name n (rev instances)"

definition reconcileTracked ::
  "sweep_ctx \<Rightarrow> listed_instance list \<Rightarrow> workspace \<Rightarrow> string \<Rightarrow> worker \<Rightarrow> worker option" where
  "reconcileTracked ctx instances ws name s =
     (case instance_named name instances of
        None \<Rightarrow> Some (resolveMissingInstance ctx ws name s)
      | Some inst \<Rightarrow>
          map_option
            (\<lambda>s2. let s3 = (if ws_state ws = Starting then resolveStarting ctx ws inst s2 else s2)
                  in if ws_state ws = Stopping then resolveStopping ctx ws inst s3 else s3)
            (resolveDrift ctx ws inst (on_db (syncAgentAddress ws inst) s)))"

section \<open>The refresh\<close>

record refresh_state =
  lastRefreshAt :: "millis option"
  controllerUnreachable :: bool

definition refresh_due :: "sweep_ctx \<Rightarrow> millis option \<Rightarrow> bool" where
  "refresh_due ctx last_at =
     (case last_at of
        None \<Rightarrow> True
      | Some t \<Rightarrow> now ctx - t < 0 \<or> STATUS_REFRESH_SECONDS (config ctx) * 1000 \<le> now ctx - t)"

definition tracked_rows :: "db \<Rightarrow> workspace list" where
  "tracked_rows d =
     rows_where (\<lambda>w. incus_instance_name w \<noteq> None \<and> ws_state w \<noteq> Provisioning) d"

definition tracked_row ::
  "sweep_ctx \<Rightarrow> listed_instance list \<Rightarrow> uuid list \<Rightarrow> workspace \<Rightarrow> worker \<Rightarrow> worker option" where
  "tracked_row ctx instances inFlightDuringList ws s =
     (case truthy (incus_instance_name ws) of
        None \<Rightarrow> Some s
      | Some name \<Rightarrow>
          if ws_id ws \<in> set inFlightDuringList then Some s
          else reconcileTracked ctx instances ws name s)"

definition list_failed :: "bool \<Rightarrow> thrown \<Rightarrow> db \<Rightarrow> db" where
  "list_failed wasUnreachable e d =
     (if wasUnreachable then d
      else workerAudit ''controller'' ''controller.unreachable'' ResFailed
             (Some [(''errorCode'', JStr (code_name (err_code (toControllerError e))))]) d)"

definition controller_checked :: "sweep_ctx \<Rightarrow> db \<Rightarrow> db" where
  "controller_checked ctx d =
     d\<lparr>db_settings := map_option (\<lambda>s. s\<lparr>controller_checked_at := Some (now ctx)\<rparr>) (db_settings d)\<rparr>"

definition refreshFromList ::
  "sweep_ctx \<Rightarrow> refresh_state \<Rightarrow> listed_instance list call_result \<Rightarrow> worker \<Rightarrow>
   (worker \<times> refresh_state) option" where
  "refreshFromList ctx r listed s =
     (if \<not> refresh_due ctx (lastRefreshAt r) then Some (s, r)
      else case listed of
        Inl e \<Rightarrow>
          Some (on_db (list_failed (controllerUnreachable r) e) s,
                r\<lparr>controllerUnreachable := True\<rparr>)
      | Inr instances \<Rightarrow>
          (let during = inFlightIds (wcalls s);
               s1 = on_db (controller_checked ctx) s
           in map_option (\<lambda>s2. (s2, \<lparr>lastRefreshAt = Some (now ctx), controllerUnreachable = False\<rparr>))
                (foldM (tracked_row ctx instances during) (tracked_rows (wdb s1)) s1)))"

section \<open>The sweep\<close>

definition reconcile ::
  "sweep_ctx \<Rightarrow> refresh_state \<Rightarrow> listed_instance list call_result \<Rightarrow> worker \<Rightarrow>
   (worker \<times> refresh_state) option" where
  "reconcile ctx r listed s =
     sweep_drive ctx (on_db (sweep_timers ctx) (s\<lparr>transitions := 0\<rparr>)) \<bind>
       refreshFromList ctx r listed"

end
