(* ===== verification/Replace_Home.thy ===== *)
theory Replace_Home
  imports Calls
begin

text \<open>
  One step of a pending \<open>replace-home\<close> (\<open>runReplaceHome\<close> of \<open>apps/worker/src/backups.ts\<close>): it
  records an import request for the host, waits for it over several sweeps, then has the
  controller swap the volumes and finishes the operation in one transaction.
\<close>

section \<open>Text\<close>

definition slice :: "nat \<Rightarrow> nat \<Rightarrow> string \<Rightarrow> string" where
  "slice a b s = take (b - a) (drop a s)"

definition MONTHS :: "string list" where
  "MONTHS = [''January'', ''February'', ''March'', ''April'', ''May'', ''June'', ''July'',
     ''August'', ''September'', ''October'', ''November'', ''December'']"

definition describeStamp :: "string \<Rightarrow> string" where
  "describeStamp stamp =
     (let day = number_of_digits (slice 6 8 stamp);
          m = number_of_digits (slice 4 6 stamp);
          month = nullish (if m = 0 then None else nth_opt MONTHS (m - 1)) ''undefined''
      in show_nat day @ '' '' @ month @ '' '' @ slice 0 4 stamp @ '', '' @ slice 9 11 stamp @ '':''
         @ slice 11 13 stamp)"

definition all_digits :: "string \<Rightarrow> bool" where
  "all_digits s \<longleftrightarrow> list_all is_digit s"

text \<open>\<open>/^[0-9]{8}T[0-9]{6}Z$/\<close> and \<open>/^ws-[0-9a-f]{24}$/\<close>.\<close>

definition BACKUP_STAMP :: "string \<Rightarrow> bool" where
  "BACKUP_STAMP s \<longleftrightarrow>
     length s = 16 \<and> all_digits (slice 0 8 s) \<and> s ! 8 = CHR ''T'' \<and> all_digits (slice 9 15 s) \<and>
     s ! 15 = CHR ''Z''"

definition hex_digit :: "char \<Rightarrow> bool" where
  "hex_digit c \<longleftrightarrow> is_digit c \<or> (97 \<le> char_code c \<and> char_code c \<le> 102)"

definition BACKUP_INSTANCE :: "string \<Rightarrow> bool" where
  "BACKUP_INSTANCE s \<longleftrightarrow> startsWith s ''ws-'' \<and> length s = 27 \<and> list_all hex_digit (drop 3 s)"

section \<open>Finishing\<close>

datatype replace_outcome = Kept string | ReplaceFailed string bool

fun outcome_failed :: "replace_outcome \<Rightarrow> bool" where
  "outcome_failed (Kept k) = False"
| "outcome_failed (ReplaceFailed e t) = True"

fun outcome_touched :: "replace_outcome \<Rightarrow> bool" where
  "outcome_touched (Kept k) = False"
| "outcome_touched (ReplaceFailed e t) = t"

definition REPLACE_FAILED_MESSAGE :: string where
  "REPLACE_FAILED_MESSAGE =
     ''Your home folder could not be replaced. Please contact your administrator.''"

definition replaceErrorFields :: "bool \<Rightarrow> bool \<Rightarrow> workspace \<Rightarrow> workspace" where
  "replaceErrorFields failed touched w =
     (if \<not> failed then w\<lparr>ws_error_code := None, ws_error_message := None\<rparr>
      else if touched then w\<lparr>ws_error_code := Some (Controller OPERATION_FAILED),
                             ws_error_message := Some REPLACE_FAILED_MESSAGE\<rparr>
      else w)"

definition replaceNotice :: "bool \<Rightarrow> bool \<Rightarrow> string option \<Rightarrow> notice" where
  "replaceNotice failed touched stamp =
     (let at_time = (case truthy stamp of None \<Rightarrow> [] | Some s \<Rightarrow> '' from '' @ describeStamp s) in
      if \<not> failed then
        \<lparr>notice_tone = Success, notice_title = ''Your home folder was replaced'',
         notice_body = ''An administrator replaced your home folder with the backup'' @ at_time @
           ''. Your previous home folder is kept, and your projects have recovery points from just before.''\<rparr>
      else
        \<lparr>notice_tone = Danger, notice_title = ''Your home folder was not replaced'',
         notice_body =
           (if touched then REPLACE_FAILED_MESSAGE
            else ''An administrator tried to replace your home folder with the backup'' @ at_time @
              '', but it did not work. Your files are unchanged.'')\<rparr>)"

definition notifyOwner :: "uuid \<Rightarrow> millis \<Rightarrow> uuid \<Rightarrow> notice \<Rightarrow> db \<Rightarrow> db" where
  "notifyOwner new_id created i notice d =
     (case find_workspace i d of
        None \<Rightarrow> d
      | Some w \<Rightarrow> recordNotification new_id created (owner_user_id w) notice False False d)"

definition replace_next_state :: "workspace \<Rightarrow> replace_outcome \<Rightarrow> workspace_state" where
  "replace_next_state ws outcome =
     (if \<not> outcome_failed outcome then Stopped
      else if outcome_touched outcome then Error else ws_state ws)"

definition replace_finish ::
  "uuid \<Rightarrow> millis \<Rightarrow> workspace \<Rightarrow> string option \<Rightarrow> millis \<Rightarrow> replace_outcome \<Rightarrow> db \<Rightarrow> db" where
  "replace_finish new_id created ws stamp now outcome d =
     (let failed = outcome_failed outcome;
          touched = outcome_touched outcome;
          hit = (\<lambda>w. ws_id w = ws_id ws \<and> pending_op w = Some ReplaceHome);
          d1 = update_workspaces hit
            (\<lambda>w. (replaceErrorFields failed touched w)
               \<lparr>pending_op := None, pending_operation_args := None, pending_operation_at := None,
                pending_operation_by := None, ws_state := replace_next_state ws outcome,
                updated_at := now\<rparr>) d
      in if rows_where hit d = [] then d1
         else notifyOwner new_id created (ws_id ws) (replaceNotice failed touched stamp)
           (workerAudit (ws_id ws)
              (if failed then ''workspace.home_replace_failed'' else ''workspace.home_replaced'')
              (if failed then ResFailed else ResOk)
              (Some [(''restoreRequestId'',
                        json_opt (Option.bind (pending_operation_args ws) restoreRequestId)),
                     (''stamp'', json_opt stamp),
                     (''requestedBy'', json_opt (pending_operation_by ws)),
                     (case outcome of ReplaceFailed e t \<Rightarrow> (''error'', JStr e)
                      | Kept k \<Rightarrow> (''kept'', JStr k))]) d1))"

section \<open>One step\<close>

record kept_home =
  kh_volume :: string
  kh_instance :: string

definition keptSince :: "kept_home list \<Rightarrow> string \<Rightarrow> millis option \<Rightarrow> string option" where
  "keptSince homes inst since =
     (let floor_s = (case since of None \<Rightarrow> 0 | Some t \<Rightarrow> t div 1000);
          at_of = (\<lambda>k. let p = last (split CHR ''-'' (kh_volume k)) in
             if all_digits p then Some (int (number_of_digits p)) else None);
          mine = filter (\<lambda>k. kh_instance k = inst \<and> sql_le (Some floor_s) (at_of k)) homes
      in case sort_key (\<lambda>k. case at_of k of None \<Rightarrow> 0 | Some t \<Rightarrow> - t) mine of
           [] \<Rightarrow> None
         | k # ks \<Rightarrow> Some (kh_volume k))"

text \<open>What the controller answered to the swap, and to the listing made after a \<open>NOT_FOUND\<close>.\<close>

definition replace_swapped ::
  "string \<Rightarrow> workspace \<Rightarrow> string call_result \<Rightarrow> kept_home list call_result \<Rightarrow> replace_outcome option" where
  "replace_swapped inst ws swap listing =
     (case swap of
        Inr kept \<Rightarrow> Some (Kept kept)
      | Inl e \<Rightarrow>
          (let err = toControllerError e in
           if err_code err = INCUS_UNAVAILABLE \<or> err_code err = TIMEOUT then None
           else if err_code err = NOT_FOUND then
             (case listing of
                Inl _ \<Rightarrow> None
              | Inr homes \<Rightarrow>
                  (case truthy (keptSince homes inst (pending_operation_at ws)) of
                     Some kept \<Rightarrow> Some (Kept kept)
                   | None \<Rightarrow> Some (ReplaceFailed (take 300 (err_message err)) False)))
           else Some (ReplaceFailed (take 300 (err_message err)) True)))"

text \<open>
  The step reads its requests, then either records the import request, waits, finishes, or
  makes the swap. \<open>None\<close> is the exception of \<open>BackupRequestArgs.import_home.parse\<close>.
\<close>

datatype replace_plan = PlanImport string | PlanWait | PlanFinish "string option" replace_outcome | PlanSwap string

definition find_request :: "uuid option \<Rightarrow> db \<Rightarrow> backup_request option" where
  "find_request i d =
     (case truthy i of None \<Rightarrow> None | Some j \<Rightarrow> find_row req_id j (backup_requests d))"

definition restore_stamp :: "workspace \<Rightarrow> db \<Rightarrow> string option" where
  "restore_stamp ws d =
     (case find_request (Option.bind (pending_operation_args ws) restoreRequestId) d of
        None \<Rightarrow> None
      | Some r \<Rightarrow> if req_kind r = RestoreCopy then truthy (req_stamp r) else None)"

definition replace_plan :: "string \<Rightarrow> workspace \<Rightarrow> db \<Rightarrow> replace_plan option" where
  "replace_plan inst ws d =
     (case restore_stamp ws d of
        None \<Rightarrow> Some (PlanFinish None (ReplaceFailed ''the restore request is missing'' False))
      | Some stamp \<Rightarrow>
          (let imp = Option.bind (pending_operation_args ws) importRequestId in
           if truthy imp = None then
             (if BACKUP_STAMP stamp \<and> BACKUP_INSTANCE inst then Some (PlanImport stamp) else None)
           else case find_request imp d of
             None \<Rightarrow>
               Some (PlanFinish (Some stamp) (ReplaceFailed ''the import request is missing'' False))
           | Some r \<Rightarrow>
               (case req_state r of
                  ReqPending \<Rightarrow> Some PlanWait
                | ReqClaimed \<Rightarrow> Some PlanWait
                | ReqFailed \<Rightarrow> Some (PlanFinish (Some stamp)
                    (ReplaceFailed (''the host could not import the home: '' @
                       nullish (req_error r) ''failed'') False))
                | ReqDone \<Rightarrow> Some (PlanSwap stamp))))"

definition replace_import :: "uuid \<Rightarrow> string \<Rightarrow> string \<Rightarrow> workspace \<Rightarrow> db \<Rightarrow> db" where
  "replace_import new_id inst stamp ws d =
     update_workspaces (\<lambda>w. ws_id w = ws_id ws \<and> pending_op w = Some ReplaceHome)
       (\<lambda>w. w\<lparr>pending_operation_args :=
          Some \<lparr>restoreRequestId = Option.bind (pending_operation_args ws) restoreRequestId,
                importRequestId = Some new_id\<rparr>\<rparr>)
       (d\<lparr>backup_requests := backup_requests d @
          [\<lparr>req_id = new_id, req_kind = ImportHome, req_stamp = Some stamp,
            req_instance = Some inst, req_state = ReqPending,
            req_requested_by = pending_operation_by ws,
            req_workspace_id = Some (ws_id ws), req_error = None\<rparr>]\<rparr>)"

definition runReplaceHome ::
  "uuid \<Rightarrow> millis \<Rightarrow> string \<Rightarrow> workspace \<Rightarrow> millis \<Rightarrow> string call_result \<Rightarrow>
   kept_home list call_result \<Rightarrow> db \<Rightarrow> db" where
  "runReplaceHome new_id created inst ws now swap listing d =
     (case replace_plan inst ws d of
        None \<Rightarrow> d
      | Some PlanWait \<Rightarrow> d
      | Some (PlanImport stamp) \<Rightarrow> replace_import new_id inst stamp ws d
      | Some (PlanFinish stamp outcome) \<Rightarrow> replace_finish new_id created ws stamp now outcome d
      | Some (PlanSwap stamp) \<Rightarrow>
          (case replace_swapped inst ws swap listing of
             None \<Rightarrow> d
           | Some outcome \<Rightarrow> replace_finish new_id created ws (Some stamp) now outcome d))"

end
