(* ===== verification/Labels.thy ===== *)
theory Labels
  imports Egress
begin

text \<open>
  Workspace labels: \<open>deriveWorkspaceLabel\<close> of \<open>packages/contracts/src/workspace.ts\<close> and the
  suffixes of \<open>apps/api/src/routes/workspaces.ts\<close>. The label names the container's host and
  every preview host, so it must be a DNS label.
\<close>

definition MAX_WORKSPACE_LABEL_LENGTH :: nat where "MAX_WORKSPACE_LABEL_LENGTH = 40"

text \<open>\<open>s.replace(/P+/g, c)\<close> for a character class \<open>P\<close>.\<close>

function replace_runs :: "(char \<Rightarrow> bool) \<Rightarrow> char \<Rightarrow> string \<Rightarrow> string" where
  "replace_runs P c [] = []"
| "replace_runs P c (x # xs) =
     (if P x then c # replace_runs P c (dropWhile P xs) else x # replace_runs P c xs)"
  by pat_completeness auto

termination
  by (relation "measure (\<lambda>(P, c, s). length s)") (auto simp: le_imp_less_Suc length_dropWhile_le)

abbreviation dash :: "char \<Rightarrow> bool" where "dash c \<equiv> c = CHR ''-''"

text \<open>\<open>s.replace(/-+$/, "")\<close>.\<close>

definition strip_right :: "string \<Rightarrow> string" where
  "strip_right s = rev (dropWhile dash (rev s))"

definition label_char :: "char \<Rightarrow> bool" where
  "label_char c \<longleftrightarrow> alnum c \<or> dash c"

definition reduce_label :: "string \<Rightarrow> string" where
  "reduce_label name =
     strip_right (take MAX_WORKSPACE_LABEL_LENGTH
       (strip_right (dropWhile dash
         (replace_runs dash CHR ''-''
           (replace_runs (\<lambda>c. \<not> label_char c) CHR ''-'' (toLowerCase name))))))"

definition deriveWorkspaceLabel :: "string option \<Rightarrow> string \<Rightarrow> string" where
  "deriveWorkspaceLabel preferredUsername fallbackHex =
     (let fallback = ''ws-'' @ fallbackHex in
      case preferredUsername of
        None \<Rightarrow> fallback
      | Some name \<Rightarrow>
          (let reduced = reduce_label name in
           if reduced = [] then fallback
           else let safe = (if is_digit (hd reduced)
               then take MAX_WORKSPACE_LABEL_LENGTH (CHR ''u'' # reduced) else reduced)
             in strip_right safe))"

text \<open>\<open>base\<close> with \<open>-attempt\<close> appended, the whole within the cap.\<close>

definition suffixedLabel :: "string \<Rightarrow> nat \<Rightarrow> string" where
  "suffixedLabel base attempt =
     (if attempt = 1 then base
      else let suffix = CHR ''-'' # show_nat attempt;
               head = strip_right (take (MAX_WORKSPACE_LABEL_LENGTH - length suffix) base)
           in head @ suffix)"

definition MAX_LABEL_ATTEMPTS :: nat where "MAX_LABEL_ATTEMPTS = 20"

section \<open>A derived label is a DNS label\<close>

lemma strip_right_prefix: "\<exists>n. strip_right s = take n s"
proof -
  have "prefix (strip_right s) s"
    unfolding strip_right_def by (metis rev_rev_ident suffix_dropWhile suffix_to_prefix)
  then show ?thesis by (metis append_eq_conv_conj prefix_def)
qed

lemma strip_right_last: "strip_right s \<noteq> [] \<Longrightarrow> \<not> dash (last (strip_right s))"
  using hd_dropWhile [of dash "rev s"]
  by (simp add: strip_right_def last_rev del: dropWhile_eq_Nil_conv)

lemma strip_right_hd: "strip_right s \<noteq> [] \<Longrightarrow> hd (strip_right s) = hd s"
  using strip_right_prefix [of s] by (metis hd_take list.size(3) not_gr_zero take_eq_Nil)

lemma strip_right_set: "set (strip_right s) \<subseteq> set s"
  by (metis set_take_subset strip_right_prefix)

lemma strip_right_length: "length (strip_right s) \<le> length s"
  by (simp add: strip_right_def length_dropWhile_le [of dash "rev s", simplified])

lemma strip_right_Cons: "\<not> dash x \<Longrightarrow> strip_right (x # xs) \<noteq> []"
  by (simp add: strip_right_def dropWhile_eq_Nil_conv)

lemma replace_runs_set: "set (replace_runs P c s) \<subseteq> insert c {x \<in> set s. \<not> P x}"
proof (induction P c s rule: replace_runs.induct)
  case (2 P c x xs)
  then show ?case using set_dropWhileD [of _ P xs] by (cases "P x") auto
qed simp

lemma reduce_label_props:
  assumes "reduce_label name \<noteq> []"
  shows "list_all label_char (reduce_label name)" "length (reduce_label name) \<le> 40"
    "\<not> dash (hd (reduce_label name))" "\<not> dash (last (reduce_label name))"
proof -
  let ?a = "replace_runs dash CHR ''-'' (replace_runs (\<lambda>c. \<not> label_char c) CHR ''-'' (toLowerCase name))"
  let ?b = "strip_right (dropWhile dash ?a)"
  let ?c = "take MAX_WORKSPACE_LABEL_LENGTH ?b"
  have r: "reduce_label name = strip_right ?c" by (simp add: reduce_label_def)
  have "set ?a \<subseteq> {c. label_char c}"
    using replace_runs_set [of dash "CHR ''-''"] replace_runs_set [of "\<lambda>c. \<not> label_char c" "CHR ''-''"]
    by (fastforce simp: label_char_def)
  moreover have "set (reduce_label name) \<subseteq> set ?a"
    unfolding r using strip_right_set [of ?c] set_take_subset [of MAX_WORKSPACE_LABEL_LENGTH ?b]
      strip_right_set [of "dropWhile dash ?a"] set_dropWhileD [of _ dash ?a] by blast
  ultimately show "list_all label_char (reduce_label name)" by (auto simp: list_all_iff)
  show "length (reduce_label name) \<le> 40"
    unfolding r using strip_right_length [of ?c] by (simp add: MAX_WORKSPACE_LABEL_LENGTH_def)
  show "\<not> dash (last (reduce_label name))"
    using strip_right_last assms unfolding r .
  have Nil: "strip_right [] = []" by (simp add: strip_right_def)
  have c: "?c \<noteq> []"
  proof
    assume "?c = []"
    then show False using assms Nil unfolding r by (simp only:)
  qed
  then have b: "?b \<noteq> []" using take_Nil [of MAX_WORKSPACE_LABEL_LENGTH] by (metis (lifting))
  have "hd (reduce_label name) = hd ?b"
    using strip_right_hd [of ?c] assms c unfolding r by (simp add: MAX_WORKSPACE_LABEL_LENGTH_def)
  also have "\<dots> = hd (dropWhile dash ?a)" using strip_right_hd b by blast
  finally show "\<not> dash (hd (reduce_label name))"
    using b hd_dropWhile [of dash ?a]
    by (cases "dropWhile dash ?a = []") (simp_all add: strip_right_def del: dropWhile_eq_Nil_conv)
qed

lemma digit_u: "alnum CHR ''u''" "\<not> is_digit CHR ''u''" "alnum CHR ''w''" "\<not> is_digit CHR ''w''"
  "alnum CHR ''s''" "\<not> is_digit CHR ''-''" "\<not> alnum CHR ''-''"
  by (simp_all add: alnum_def is_lower_def is_digit_def)

lemma label_re_intro:
  assumes "l \<noteq> []" "length l \<le> 40" "list_all label_char l" "\<not> dash (hd l)" "\<not> dash (last l)"
  shows "LABEL_RE l"
proof -
  have "hd l \<in> set l" "last l \<in> set l" using assms(1) by simp_all
  then show ?thesis using assms by (auto simp: LABEL_RE_def label_char_def list_all_iff)
qed

definition hex8 :: "string \<Rightarrow> bool" where
  "hex8 h \<longleftrightarrow> length h = 8 \<and> list_all (\<lambda>c. is_digit c \<or> (97 \<le> char_code c \<and> char_code c \<le> 102)) h"

lemma hex8_alnum: "hex8 h \<Longrightarrow> list_all alnum h"
  by (auto simp: hex8_def list_all_iff alnum_def is_lower_def)

lemma fallback_label:
  assumes "hex8 h"
  shows "LABEL_RE (''ws-'' @ h)" "length (''ws-'' @ h) \<le> 40" "\<not> is_digit (hd (''ws-'' @ h))"
proof -
  have h: "h \<noteq> []" "length h = 8" using assms by (auto simp: hex8_def)
  have "alnum (last h)" using hex8_alnum [OF assms] h(1) by (auto simp: list_all_iff)
  then have "\<not> dash (last h)" using digit_u(7) by auto
  then show "LABEL_RE (''ws-'' @ h)"
    using hex8_alnum [OF assms] h digit_u
    by (intro label_re_intro) (auto simp: label_char_def list_all_iff)
  show "length (''ws-'' @ h) \<le> 40" "\<not> is_digit (hd (''ws-'' @ h))" using h digit_u by simp_all
qed

lemma derived_label:
  assumes "hex8 h"
  shows "LABEL_RE (deriveWorkspaceLabel u h) \<and> length (deriveWorkspaceLabel u h) \<le> 40 \<and>
    \<not> is_digit (hd (deriveWorkspaceLabel u h))"
proof (cases u)
  case None
  then show ?thesis using fallback_label [OF assms] by (simp add: deriveWorkspaceLabel_def)
next
  case (Some name)
  show ?thesis
  proof (cases "reduce_label name = []")
    case True
    then show ?thesis using Some fallback_label [OF assms] by (simp add: deriveWorkspaceLabel_def)
  next
    case False
    note r = reduce_label_props [OF False]
    let ?r = "reduce_label name"
    let ?safe = "if is_digit (hd ?r) then take MAX_WORKSPACE_LABEL_LENGTH (CHR ''u'' # ?r) else ?r"
    let ?l = "strip_right ?safe"
    have l: "deriveWorkspaceLabel u h = ?l" using Some False by (simp add: deriveWorkspaceLabel_def)
    have len: "length ?safe \<le> 40" using r(2) by (simp add: MAX_WORKSPACE_LABEL_LENGTH_def)
    have set_safe: "list_all label_char ?safe"
      using r(1) digit_u by (auto simp: list_all_iff label_char_def dest!: in_set_takeD)
    have hd_safe: "?safe \<noteq> []" "\<not> dash (hd ?safe)" "\<not> is_digit (hd ?safe)"
      using False r(3) digit_u by (auto simp: MAX_WORKSPACE_LABEL_LENGTH_def)
    then have ne: "?l \<noteq> []" using strip_right_Cons [of "hd ?safe" "tl ?safe"] by (metis list.collapse)
    have hd_l: "hd ?l = hd ?safe" by (rule strip_right_hd [OF ne])
    have "LABEL_RE ?l"
    proof (rule label_re_intro [OF ne])
      show "length ?l \<le> 40" using strip_right_length [of ?safe] len by linarith
      show "list_all label_char ?l" using set_safe strip_right_set [of ?safe] by (auto simp: list_all_iff)
      show "\<not> dash (hd ?l)" using hd_l hd_safe(2) by simp
      show "\<not> dash (last ?l)" by (rule strip_right_last [OF ne])
    qed
    moreover have "length ?l \<le> 40" using strip_right_length [of ?safe] len by linarith
    moreover have "\<not> is_digit (hd ?l)" using hd_l hd_safe(3) by (simp only: simp_thms)
    ultimately show ?thesis unfolding l by blast
  qed
qed

section \<open>Suffixes\<close>

lemma show_nat_short: "n < 100 \<Longrightarrow> length (show_nat n) \<le> 2"
  by (subst show_nat.simps) (simp add: show_nat.simps [of "n div 10"])

lemma suffixed_label:
  assumes base: "LABEL_RE b" "length b \<le> 40" and k: "k < 100"
  shows "LABEL_RE (suffixedLabel b k) \<and> length (suffixedLabel b k) \<le> 40"
proof (cases "k = 1")
  case True
  then show ?thesis using base by (simp add: suffixedLabel_def)
next
  case False
  let ?suf = "CHR ''-'' # show_nat k"
  let ?t = "take (40 - length ?suf) b"
  let ?l = "strip_right ?t @ ?suf"
  have l: "suffixedLabel b k = ?l"
    using False by (simp add: suffixedLabel_def Let_def MAX_WORKSPACE_LABEL_LENGTH_def)
  have suf: "length ?suf \<le> 3" using show_nat_short [OF k] by simp
  have b: "b \<noteq> []" "alnum (hd b)" "list_all label_char b"
    using base(1) by (auto simp: LABEL_RE_def label_char_def list_all_iff)
  have t: "?t \<noteq> []" "hd ?t = hd b" using b(1) suf by auto
  have nd: "\<not> dash (hd b)" using b(2) digit_u(7) by auto
  have ne: "strip_right ?t \<noteq> []"
    using strip_right_Cons [of "hd ?t" "tl ?t"] t nd by (metis list.collapse)
  have hd_l: "hd ?l = hd b" using ne strip_right_hd [OF ne] t by simp
  have len: "length ?l \<le> 40"
    using strip_right_length [of ?t] suf by simp arith
  have digs: "show_nat k \<noteq> []" "\<forall>c\<in>set (show_nat k). alnum c"
    using show_nat_digits [of k] by (auto simp: list_all_iff alnum_def)
  have "LABEL_RE ?l"
  proof (rule label_re_intro)
    show "list_all label_char ?l"
      using b(3) digs(2) strip_right_set [of ?t] set_take_subset [of "40 - length ?suf" b]
      by (auto simp: list_all_iff label_char_def)
    have "last ?l \<in> set (show_nat k)" using digs(1) by simp
    then show "\<not> dash (last ?l)" using digs(2) digit_u(7) by auto
    show "\<not> dash (hd ?l)" using hd_l nd by simp
  qed (use len in simp_all)
  then show ?thesis using l len by simp
qed

text \<open>
  Whatever login name a student has, the label their workspace is given, with any suffix the
  API tries for it, is a DNS label of at most 40 characters, so container host names and preview
  host names are always well formed.
\<close>

theorem workspace_label_valid:
  assumes "hex8 h" "k \<le> MAX_LABEL_ATTEMPTS"
  shows "LABEL_RE (suffixedLabel (deriveWorkspaceLabel u h) k) \<and>
    length (suffixedLabel (deriveWorkspaceLabel u h) k) \<le> MAX_WORKSPACE_LABEL_LENGTH"
  using suffixed_label [of "deriveWorkspaceLabel u h" k] derived_label [OF assms(1), of u] assms(2)
  by (simp add: MAX_LABEL_ATTEMPTS_def MAX_WORKSPACE_LABEL_LENGTH_def)

lemma workspace_label_valid_witness:
  "LABEL_RE (suffixedLabel (deriveWorkspaceLabel (Some ''2nd. Student_'') ''0a1b2c3d'') 2) \<and>
    length (suffixedLabel (deriveWorkspaceLabel (Some ''2nd. Student_'') ''0a1b2c3d'') 2)
      \<le> MAX_WORKSPACE_LABEL_LENGTH"
  by (rule workspace_label_valid) (simp_all add: hex8_def is_digit_def MAX_LABEL_ATTEMPTS_def)

end
