(* ===== verification/Api_Workspaces.thy ===== *)
theory Api_Workspaces
  imports Calls Labels
begin

text \<open>
  What the API writes to a workspace row: create, Start, Stop and Restart and the
  "keep running until" hold (\<open>apps/api/src/routes/workspaces.ts\<close>), browser presence
  (\<open>apps/api/src/workspaces/presence.ts\<close>), maintenance requests
  (\<open>apps/api/src/workspaces/pending-operation.ts\<close>) and the administrator's archive,
  re-provision, guard and quota writes (\<open>apps/api/src/routes/admin-workspaces.ts\<close>). A refusal
  is the status and code the route answers with; the schema checks of the bodies and the
  views sent back are not modelled.
\<close>

datatype api_code =
    WORKSPACE_NOT_FOUND | WORKSPACE_ARCHIVED | KEEP_RUNNING_OFF | VALIDATION_FAILED
  | OPERATION_IN_PROGRESS | OPERATION_PENDING | NOT_IN_ERROR | NOT_THROTTLED | NOT_FLAGGED
  | TOO_MANY_CONNECTIONS | EGRESS_VERSION_STALE | EGRESS_ENTRY_EXISTS | EGRESS_LIMIT_REACHED
  | ENTRY_NOT_FOUND | INTERNAL_ERROR

record api_error =
  status :: nat
  code :: api_code

type_synonym 'a api = "api_error + 'a"

abbreviation refuse :: "nat \<Rightarrow> api_code \<Rightarrow> 'a api" where
  "refuse s c \<equiv> Inl \<lparr>status = s, code = c\<rparr>"

record auth_user =
  auth_id :: uuid
  auth_role :: user_role

definition user_actor :: "auth_user \<Rightarrow> string" where
  "user_actor u = ''user:'' @ auth_id u"

section \<open>Who may see a workspace\<close>

definition findOwnedWorkspace :: "auth_user \<Rightarrow> uuid \<Rightarrow> db \<Rightarrow> workspace option" where
  "findOwnedWorkspace u i d =
     (case find_workspace i d of
        None \<Rightarrow> None
      | Some w \<Rightarrow> if auth_role u \<noteq> Administrator \<and> owner_user_id w \<noteq> auth_id u then None else Some w)"

definition findWorkspaceOwnedBy :: "uuid \<Rightarrow> uuid \<Rightarrow> db \<Rightarrow> workspace option" where
  "findWorkspaceOwnedBy i userId d =
     (case find_workspace i d of
        None \<Rightarrow> None | Some w \<Rightarrow> if owner_user_id w = userId then Some w else None)"

section \<open>Creating a workspace\<close>

definition isCourseIssuer :: "string \<Rightarrow> bool" where
  "isCourseIssuer issuer = startsWith issuer ''lti:''"

text \<open>
  The labels tried in turn: the base with suffixes, then the last resorts. The owner's row
  gives a username, and for a course account the mail name and the course's user id.
\<close>

definition label_base :: "user option \<Rightarrow> string \<Rightarrow> string \<times> string list" where
  "label_base owner hex =
     (let hexLabel = ''ws-'' @ hex;
          isCourse = (case owner of None \<Rightarrow> False | Some u \<Rightarrow> isCourseIssuer (oidc_issuer u));
          subLabel = (if isCourse then deriveWorkspaceLabel (map_option oidc_subject owner) hex
                      else hexLabel);
          emailLocal = (if isCourse
            then map_option (\<lambda>e. hd (split CHR ''@'' e)) (Option.bind owner email) else None);
          emailLabel = deriveWorkspaceLabel emailLocal hex;
          username = deriveWorkspaceLabel (Option.bind owner preferred_username) hex;
          baseLabel = nullish (find (\<lambda>l. l \<noteq> hexLabel) [username, emailLabel, subLabel]) hexLabel
      in (baseLabel, filter (\<lambda>l. l \<noteq> baseLabel) (rev (remdups [hexLabel, subLabel, emailLabel]))))"

definition labels_to_try :: "string \<times> string list \<Rightarrow> string list" where
  "labels_to_try b =
     map (suffixedLabel (fst b)) [1..<MAX_LABEL_ATTEMPTS + 1] @ snd b"

definition new_workspace :: "uuid \<Rightarrow> uuid \<Rightarrow> string \<Rightarrow> string \<Rightarrow> quota \<Rightarrow> millis \<Rightarrow> workspace" where
  "new_workspace i owner label name q t =
     \<lparr>ws_id = i, owner_user_id = owner, ws_label = label, incus_instance_name = Some name,
      ws_state = Provisioning, ws_desired = WantStopped, image_version = None,
      quota_config = Some q, ws_error_code = None, ws_error_message = None,
      last_active_connection_at = None, shutdown_deadline = None, disconnected_at = None,
      agent_token = None, agent_address = None, pending_op = None, pending_operation_args = None,
      pending_operation_at = None, pending_operation_by = None, archived_at = None,
      quota_applied = None, guard_config = None, cpu_throttle = None, cpu_throttle_recent = [],
      memory_flag = None, limits_config = None, limits_applied = None, last_activity_at = None,
      idle_stop_at = None, keep_running_until = None,
      start_retries = 0, updated_at = t\<rparr>"

text \<open>The unique index over \<open>workspaces.label\<close> decides; \<open>None\<close> when no label was free.\<close>

definition insertWithLabel ::
  "string list \<Rightarrow> (string \<Rightarrow> workspace) \<Rightarrow> db \<Rightarrow> db option" where
  "insertWithLabel labels row d =
     (case find (\<lambda>l. l \<notin> set (map ws_label (workspaces d))) labels of
        None \<Rightarrow> None
      | Some label \<Rightarrow> Some (d\<lparr>workspaces := workspaces d @ [row label]\<rparr>))"

text \<open>\<open>POST /workspaces\<close>: one workspace per owner; \<open>Inl ()\<close> is the exception of no free label.\<close>

definition create_workspace ::
  "auth_user \<Rightarrow> quota \<Rightarrow> uuid \<Rightarrow> string \<Rightarrow> millis \<Rightarrow> db \<Rightarrow> unit + db" where
  "create_workspace u q i hex t d =
     (if find (\<lambda>w. owner_user_id w = auth_id u) (workspaces d) \<noteq> None then Inr d
      else let name = ''ws-'' @ take 24 (filter (\<lambda>c. c \<noteq> CHR ''-'') i);
               labels = labels_to_try (label_base (find_user (auth_id u) d) hex)
           in case insertWithLabel labels (\<lambda>l. new_workspace i (auth_id u) l name q t) d of
                None \<Rightarrow> Inl ()
              | Some d1 \<Rightarrow> Inr (recordAudit
                  (audit (user_actor u) i ''workspace.provision_requested'' ResOk None) d1))"

section \<open>The student's controls\<close>

fun desired_action :: "desired_state \<Rightarrow> string" where
  "desired_action WantRunning = ''workspace.start_requested''"
| "desired_action WantStopped = ''workspace.stop_requested''"
| "desired_action WantRestarting = ''workspace.restart_requested''"

definition setDesired :: "auth_user \<Rightarrow> uuid \<Rightarrow> desired_state \<Rightarrow> millis \<Rightarrow> db \<Rightarrow> db api" where
  "setDesired u i desired t d =
     (case findOwnedWorkspace u i d of
        None \<Rightarrow> refuse 404 WORKSPACE_NOT_FOUND
      | Some row \<Rightarrow>
          if desired \<noteq> WantStopped \<and> archived_at row \<noteq> None then refuse 409 WORKSPACE_ARCHIVED
          else Inr (recordAudit (audit (user_actor u) i (desired_action desired) ResOk None)
            (update_workspaces (\<lambda>w. ws_id w = i)
              (\<lambda>w. w\<lparr>ws_desired := desired, start_retries := 0,
                     ws_error_code := (if desired = WantStopped \<and> ws_error_code w = Some STOP_FAILED
                                       then None else ws_error_code w),
                     updated_at := t\<rparr>) d)))"

definition put_keep_running :: "auth_user \<Rightarrow> uuid \<Rightarrow> millis \<Rightarrow> millis \<Rightarrow> db \<Rightarrow> db api" where
  "put_keep_running u i requested t d =
     (case findWorkspaceOwnedBy i (auth_id u) d of
        None \<Rightarrow> refuse 404 WORKSPACE_NOT_FOUND
      | Some row \<Rightarrow>
          (let maxHours = keepRunningMaxHours
                 (nullish (map_option set_keep_running_max_hours (db_settings d))
                   DEFAULT_KEEP_RUNNING_MAX_HOURS) (guard_config row)
           in case keepRunningRefusal requested t maxHours of
             Some RefuseOff \<Rightarrow> refuse 409 KEEP_RUNNING_OFF
           | Some RefusePast \<Rightarrow> refuse 400 VALIDATION_FAILED
           | Some RefuseTooFar \<Rightarrow> refuse 400 VALIDATION_FAILED
           | None \<Rightarrow>
               (let until = min requested (t + maxHours * 3600000);
                    previous = keep_running_until row
                in Inr (recordAudit (audit (user_actor u) i ''workspace.keep_running_set'' ResOk
                     (Some [(''until'', JNum (of_int until)),
                            (''previousUntil'', if sql_lt (Some t) previous
                               then JNum (of_int (the previous)) else JNull)]))
                   (update_workspaces (\<lambda>w. ws_id w = i)
                     (\<lambda>w. w\<lparr>keep_running_until := Some until, last_activity_at := Some t,
                            idle_stop_at := None, updated_at := t\<rparr>) d)))))"

definition delete_keep_running :: "auth_user \<Rightarrow> uuid \<Rightarrow> millis \<Rightarrow> db \<Rightarrow> db api" where
  "delete_keep_running u i t d =
     (case findWorkspaceOwnedBy i (auth_id u) d of
        None \<Rightarrow> refuse 404 WORKSPACE_NOT_FOUND
      | Some row \<Rightarrow>
          (let hit = (\<lambda>w. ws_id w = i \<and> sql_lt (Some t) (keep_running_until w));
               d1 = update_workspaces hit
                 (\<lambda>w. w\<lparr>keep_running_until := None, last_activity_at := Some t, idle_stop_at := None,
                        disconnected_at := (if disconnected_at w = None then None else Some t),
                        updated_at := t\<rparr>) d
           in if rows_where hit d = [] then Inr d1
              else Inr (recordAudit (audit (user_actor u) i ''workspace.keep_running_ended'' ResOk
                     (Some [(''reason'', JStr ''ended_early'')])) d1)))"

section \<open>Presence\<close>

definition openPresence :: "uuid \<Rightarrow> uuid \<Rightarrow> millis \<Rightarrow> db \<Rightarrow> db" where
  "openPresence i connectionId t d =
     update_workspaces (\<lambda>w. ws_id w = i \<and> archived_at w = None)
       (\<lambda>w. w\<lparr>ws_desired := WantRunning, last_active_connection_at := Some t, updated_at := t\<rparr>)
       (d\<lparr>workspace_connections := workspace_connections d @
          [\<lparr>conn_id = connectionId, conn_workspace_id = i, last_seen_at = t\<rparr>]\<rparr>)"

definition dropPresence :: "uuid \<Rightarrow> db \<Rightarrow> db" where
  "dropPresence connectionId d =
     d\<lparr>workspace_connections := filter (\<lambda>c. conn_id c \<noteq> connectionId) (workspace_connections d)\<rparr>"

definition touchPresence :: "uuid \<Rightarrow> millis \<Rightarrow> db \<Rightarrow> db" where
  "touchPresence connectionId t d =
     d\<lparr>workspace_connections := upd_where (\<lambda>c. conn_id c = connectionId)
        (\<lambda>c. c\<lparr>last_seen_at := t\<rparr>) (workspace_connections d)\<rparr>"

section \<open>Maintenance requests\<close>

text \<open>\<open>busy\<close> is whether a project operation holds the workspace's long-operation slot.\<close>

definition requestPendingOperation ::
  "bool \<Rightarrow> uuid \<Rightarrow> uuid \<Rightarrow> pending_operation \<Rightarrow> replace_args option \<Rightarrow> string \<Rightarrow>
   (string \<times> json) list \<Rightarrow> millis \<Rightarrow> db \<Rightarrow> db api" where
  "requestPendingOperation busy i userId operation args act meta t d =
     (if busy then refuse 409 OPERATION_IN_PROGRESS
      else let hit = (\<lambda>w. ws_id w = i \<and> pending_op w = None) in
        if rows_where hit d = [] then refuse 409 OPERATION_PENDING
        else Inr (recordAudit (audit (''user:'' @ userId) i act ResOk (Some meta))
          (update_workspaces hit
            (\<lambda>w. w\<lparr>pending_op := Some operation,
                   pending_operation_args :=
                     (case args of None \<Rightarrow> pending_operation_args w | Some a \<Rightarrow> Some a),
                   pending_operation_at := Some t, pending_operation_by := Some userId,
                   updated_at := t\<rparr>) d)))"

section \<open>The administrator's writes\<close>

definition setArchived :: "auth_user \<Rightarrow> uuid \<Rightarrow> bool \<Rightarrow> millis \<Rightarrow> db \<Rightarrow> db api" where
  "setArchived admin i archive t d =
     (case find_workspace i d of
        None \<Rightarrow> refuse 404 WORKSPACE_NOT_FOUND
      | Some row \<Rightarrow>
          if (archived_at row \<noteq> None) = archive then Inr d
          else Inr (recordAudit (audit (user_actor admin) i
              (if archive then ''workspace.archived'' else ''workspace.unarchived'') ResOk None)
            (update_workspaces (\<lambda>w. ws_id w = i)
              (\<lambda>w. if archive
                   then w\<lparr>archived_at := Some t, ws_desired := WantStopped, updated_at := t\<rparr>
                   else w\<lparr>archived_at := None, updated_at := t\<rparr>) d)))"

definition reprovision :: "auth_user \<Rightarrow> uuid \<Rightarrow> millis \<Rightarrow> db \<Rightarrow> db api" where
  "reprovision admin i t d =
     (let hit = (\<lambda>w. ws_id w = i \<and> ws_state w = Error) in
      if rows_where hit d = [] then
        (if find_workspace i d = None then refuse 404 WORKSPACE_NOT_FOUND else refuse 409 NOT_IN_ERROR)
      else Inr (recordAudit
        (audit (user_actor admin) i ''workspace.reprovision_requested'' ResOk None)
        (update_workspaces hit
          (\<lambda>w. w\<lparr>ws_state := Provisioning, ws_error_code := None, ws_error_message := None,
                 limits_applied := None, updated_at := t\<rparr>) d)))"

datatype guard_mark = CpuThrottleMark | MemoryFlagMark

fun mark_set :: "guard_mark \<Rightarrow> workspace \<Rightarrow> bool" where
  "mark_set CpuThrottleMark w \<longleftrightarrow> cpu_throttle w \<noteq> None"
| "mark_set MemoryFlagMark w \<longleftrightarrow> memory_flag w \<noteq> None"

fun unset_mark :: "guard_mark \<Rightarrow> workspace \<Rightarrow> workspace" where
  "unset_mark CpuThrottleMark w = w\<lparr>cpu_throttle := None\<rparr>"
| "unset_mark MemoryFlagMark w = w\<lparr>memory_flag := None\<rparr>"

definition THROTTLE_LIFTED_TITLE :: string where
  "THROTTLE_LIFTED_TITLE = ''Your workspace is back to full speed''"

definition clearGuardMark ::
  "auth_user \<Rightarrow> uuid \<Rightarrow> guard_mark \<Rightarrow> uuid \<Rightarrow> millis \<Rightarrow> db \<Rightarrow> db api" where
  "clearGuardMark admin i mark new_id t d =
     (case rows_where (\<lambda>w. ws_id w = i \<and> mark_set mark w) d of
        [] \<Rightarrow>
          (if find_workspace i d = None then refuse 404 WORKSPACE_NOT_FOUND
           else refuse 409 (case mark of CpuThrottleMark \<Rightarrow> NOT_THROTTLED | MemoryFlagMark \<Rightarrow> NOT_FLAGGED))
      | cleared # _ \<Rightarrow>
          (let d1 = update_workspaces (\<lambda>w. ws_id w = i \<and> mark_set mark w)
                 (\<lambda>w. (unset_mark mark w)\<lparr>updated_at := t\<rparr>) d;
               d2 = d1\<lparr>usage_samples := filter (\<lambda>(j, s). j \<noteq> i) (usage_samples d1)\<rparr>;
               d3 = recordAudit (audit (user_actor admin) i
                 (case mark of CpuThrottleMark \<Rightarrow> ''workspace.cpu_throttle_lifted''
                  | MemoryFlagMark \<Rightarrow> ''workspace.memory_flag_cleared'') ResOk
                 (Some [(''reason'', JStr ''administrator'')])) d2
           in Inr (case mark of
                CpuThrottleMark \<Rightarrow> recordNotification new_id t (owner_user_id cleared)
                  \<lparr>notice_tone = Success, notice_title = THROTTLE_LIFTED_TITLE,
                   notice_body = ''An administrator lifted its processor limit.''\<rparr> False False d3
              | MemoryFlagMark \<Rightarrow> d3)))"

end
