(* ===== verification/Admin_Limits.thy ===== *)
theory Admin_Limits
  imports Api_Workspaces
begin

text \<open>
  What an administrator sets for one workspace (\<open>apps/api/src/routes/admin-workspaces.ts\<close>): the
  sizes of its volumes, its guard overrides, and its CPU, memory and process limits. The API only
  writes the row; the worker's loops (\<open>Config_Sync\<close>) apply it.
\<close>

section \<open>Volume sizes\<close>

definition MAX_QUOTA_GIB :: nat where
  "MAX_QUOTA_GIB = 1024"

type_synonym sizes = "nat \<times> nat"

definition quota_sizes :: "quota \<Rightarrow> sizes" where
  "quota_sizes q = (homeGiB q, dockerGiB q)"

definition QuotaConfig :: "sizes \<Rightarrow> bool" where
  "QuotaConfig s \<longleftrightarrow> 0 < fst s \<and> fst s \<le> MAX_QUOTA_GIB \<and> 0 < snd s \<and> snd s \<le> MAX_QUOTA_GIB"

definition isQuotaGrowOnly :: "sizes \<Rightarrow> sizes \<Rightarrow> bool" where
  "isQuotaGrowOnly a b \<longleftrightarrow> fst a \<le> fst b \<and> snd a \<le> snd b"

definition sizes_json :: "sizes \<Rightarrow> json" where
  "sizes_json s = JObj [(''homeGiB'', JNum (of_nat (fst s))), (''dockerGiB'', JNum (of_nat (snd s)))]"

text \<open>\<open>coalesce (quota_config, '{}') || to\<close>: the other keys of the column survive.\<close>

definition merge_sizes :: "sizes \<Rightarrow> quota option \<Rightarrow> quota" where
  "merge_sizes s q = \<lparr>homeGiB = fst s, dockerGiB = snd s, recoveryGiB = Option.bind q recoveryGiB\<rparr>"

text \<open>
  The route reads the row and writes in a later transaction: \<open>quota_wanted\<close> is what it read and
  decided, \<open>quota_write\<close> the transaction, which lands only on the sizes that were read.
\<close>

definition quota_wanted :: "sizes \<Rightarrow> uuid \<Rightarrow> sizes \<Rightarrow> db \<Rightarrow> (quota option \<times> sizes) api" where
  "quota_wanted defaults i to d =
     (if \<not> QuotaConfig to then refuse 400 VALIDATION_FAILED
      else (case find_workspace i d of
        None \<Rightarrow> refuse 404 WORKSPACE_NOT_FOUND
      | Some row \<Rightarrow>
          if ws_state row = Provisioning then refuse 409 OPERATION_IN_PROGRESS
          else (let sizes_from = (case quota_config row of None \<Rightarrow> defaults | Some q \<Rightarrow> quota_sizes q) in
            if \<not> isQuotaGrowOnly sizes_from to then refuse 400 VALIDATION_FAILED
            else Inr (quota_config row, sizes_from))))"

definition quota_write ::
  "auth_user \<Rightarrow> uuid \<Rightarrow> quota option \<Rightarrow> sizes \<Rightarrow> sizes \<Rightarrow> millis \<Rightarrow> db \<Rightarrow> db api" where
  "quota_write admin i stored sizes_from to t d =
     (if sizes_from = to then Inr d
      else (let hit = (\<lambda>w. ws_id w = i \<and> map_option quota_sizes (quota_config w) =
                (case stored of None \<Rightarrow> None | Some _ \<Rightarrow> Some sizes_from)) in
        if rows_where hit d = [] then refuse 409 OPERATION_IN_PROGRESS
        else Inr (recordAudit (audit (user_actor admin) i ''workspace.quota_updated'' ResOk
               (Some [(''from'', sizes_json sizes_from), (''to'', sizes_json to)]))
             (update_workspaces hit
               (\<lambda>w. w\<lparr>quota_config := Some (merge_sizes to (quota_config w)), updated_at := t\<rparr>) d))))"

section \<open>Guard overrides\<close>

text \<open>A key of the request body: left out, null (the override goes) or a value.\<close>

datatype 'a patch = Absent | Null | Set 'a

fun patched :: "'a patch \<Rightarrow> 'a option \<Rightarrow> 'a option" where
  "patched Absent v = v"
| "patched Null v = None"
| "patched (Set x) v = Some x"

record guard_patch =
  gp_cpuThresholdPercent :: "int patch"
  gp_memoryThresholdPercent :: "int patch"
  gp_windowMinutes :: "int patch"
  gp_throttleSharePercent :: "int patch"
  gp_idleStopMinutes :: "int patch"
  gp_keepRunningMaxHours :: "int patch"

fun patch_in :: "(int \<Rightarrow> bool) \<Rightarrow> int patch \<Rightarrow> bool" where
  "patch_in ok (Set x) = ok x"
| "patch_in ok p = True"

definition UpdateGuardRequest :: "guard_patch \<Rightarrow> bool" where
  "UpdateGuardRequest b \<longleftrightarrow>
     patch_in (\<lambda>x. 1 \<le> x \<and> x \<le> 100) (gp_cpuThresholdPercent b) \<and>
     patch_in (\<lambda>x. 1 \<le> x \<and> x \<le> 100) (gp_memoryThresholdPercent b) \<and>
     patch_in (\<lambda>x. 5 \<le> x \<and> x \<le> MAX_GUARD_WINDOW_MINUTES) (gp_windowMinutes b) \<and>
     patch_in (\<lambda>x. 5 \<le> x \<and> x \<le> 100) (gp_throttleSharePercent b) \<and>
     patch_in (\<lambda>x. x = 0 \<or> 10 \<le> x \<and> x \<le> 1440) (gp_idleStopMinutes b) \<and>
     patch_in (\<lambda>x. 0 \<le> x \<and> x \<le> 168) (gp_keepRunningMaxHours b) \<and>
     \<not> (gp_cpuThresholdPercent b = Absent \<and> gp_memoryThresholdPercent b = Absent \<and>
        gp_windowMinutes b = Absent \<and> gp_throttleSharePercent b = Absent \<and>
        gp_idleStopMinutes b = Absent \<and> gp_keepRunningMaxHours b = Absent)"

definition no_overrides :: guard_config where
  "no_overrides =
     \<lparr>gc_cpuThresholdPercent = None, gc_memoryThresholdPercent = None, gc_windowMinutes = None,
      gc_throttleSharePercent = None, gc_idleStopMinutes = None, gc_keepRunningMaxHours = None\<rparr>"

definition apply_patch :: "guard_patch \<Rightarrow> guard_config \<Rightarrow> guard_config" where
  "apply_patch b c =
     \<lparr>gc_cpuThresholdPercent = patched (gp_cpuThresholdPercent b) (gc_cpuThresholdPercent c),
      gc_memoryThresholdPercent = patched (gp_memoryThresholdPercent b) (gc_memoryThresholdPercent c),
      gc_windowMinutes = patched (gp_windowMinutes b) (gc_windowMinutes c),
      gc_throttleSharePercent = patched (gp_throttleSharePercent b) (gc_throttleSharePercent c),
      gc_idleStopMinutes = patched (gp_idleStopMinutes b) (gc_idleStopMinutes c),
      gc_keepRunningMaxHours = patched (gp_keepRunningMaxHours b) (gc_keepRunningMaxHours c)\<rparr>"

definition opt_json :: "string \<Rightarrow> int option \<Rightarrow> (string \<times> json) list" where
  "opt_json key v = (case v of None \<Rightarrow> [] | Some x \<Rightarrow> [(key, JNum (of_int x))])"

definition guard_json :: "guard_config \<Rightarrow> json" where
  "guard_json c = JObj (opt_json ''cpuThresholdPercent'' (gc_cpuThresholdPercent c) @
     opt_json ''memoryThresholdPercent'' (gc_memoryThresholdPercent c) @
     opt_json ''windowMinutes'' (gc_windowMinutes c) @
     opt_json ''throttleSharePercent'' (gc_throttleSharePercent c) @
     opt_json ''idleStopMinutes'' (gc_idleStopMinutes c) @
     opt_json ''keepRunningMaxHours'' (gc_keepRunningMaxHours c))"

definition put_guard :: "auth_user \<Rightarrow> uuid \<Rightarrow> guard_patch \<Rightarrow> millis \<Rightarrow> db \<Rightarrow> db api" where
  "put_guard admin i body t d =
     (if \<not> UpdateGuardRequest body then refuse 400 VALIDATION_FAILED
      else (case find_workspace i d of
        None \<Rightarrow> refuse 404 WORKSPACE_NOT_FOUND
      | Some row \<Rightarrow>
          (let old = nullish (guard_config row) no_overrides; new = apply_patch body old in
            if old = new then Inr d
            else Inr (recordAudit (audit (user_actor admin) i ''workspace.guard_updated'' ResOk
                   (Some [(''from'', guard_json old), (''to'', guard_json new)]))
                 (update_workspaces (\<lambda>w. ws_id w = i)
                   (\<lambda>w. w\<lparr>guard_config := (if new = no_overrides then None else Some new),
                          updated_at := t\<rparr>) d)))))"

section \<open>Limits\<close>

text \<open>An optional key: left out, or an integer within the bounds.\<close>

definition optional_in :: "nat \<Rightarrow> nat \<Rightarrow> nat option \<Rightarrow> bool" where
  "optional_in least most v = (case v of None \<Rightarrow> True | Some n \<Rightarrow> least \<le> n \<and> n \<le> most)"

definition WorkspaceLimits :: "limits \<Rightarrow> bool" where
  "WorkspaceLimits l \<longleftrightarrow> optional_in 1 64 (lim_cpu l) \<and>
     optional_in 512 262144 (lim_memoryMiB l) \<and> optional_in 500 32768 (lim_processes l)"

definition no_limits :: limits where
  "no_limits = \<lparr>lim_cpu = None, lim_memoryMiB = None, lim_processes = None\<rparr>"

definition limits_json :: "limits \<Rightarrow> json" where
  "limits_json l = JObj (opt_json ''cpu'' (map_option int (lim_cpu l)) @
     opt_json ''memoryMiB'' (map_option int (lim_memoryMiB l)) @
     opt_json ''processes'' (map_option int (lim_processes l)))"

text \<open>The newest host sample: its CPU count, and the profile's \<open>limits.cpu\<close> as Incus spells it.\<close>

record host_cpu =
  cpuCount :: nat
  profileCpu :: nat

definition loadHostCpu :: "(nat \<times> string option) option \<Rightarrow> host_cpu option" where
  "loadHostCpu host =
     map_option (\<lambda>(n, profile). \<lparr>cpuCount = n, profileCpu = nullish (countIncusCpus profile) n\<rparr>) host"

definition put_limits ::
  "auth_user \<Rightarrow> uuid \<Rightarrow> limits \<Rightarrow> host_cpu option \<Rightarrow> millis \<Rightarrow> db \<Rightarrow> db api" where
  "put_limits admin i to host t d =
     (if \<not> WorkspaceLimits to then refuse 400 VALIDATION_FAILED
      else if (case (lim_cpu to, host) of (Some n, Some h) \<Rightarrow> cpuCount h < n | _ \<Rightarrow> False)
      then refuse 400 VALIDATION_FAILED
      else (case find_workspace i d of
        None \<Rightarrow> refuse 404 WORKSPACE_NOT_FOUND
      | Some row \<Rightarrow>
          (let old = nullish (limits_config row) no_limits;
               cpu = coalesce (lim_cpu to) (map_option profileCpu host);
               throttle = (case (cpu_throttle row, cpu) of
                   (Some thr, Some n) \<Rightarrow>
                     if lim_cpu old \<noteq> lim_cpu to
                     then Some (thr\<lparr>thr_allowance := allowanceFor (thr_sharePercent thr) (int n)\<rparr>)
                     else Some thr
                 | (thr, _) \<Rightarrow> thr)
           in if old = to then Inr d
              else Inr (recordAudit (audit (user_actor admin) i ''workspace.limits_updated'' ResOk
                     (Some [(''from'', limits_json old), (''to'', limits_json to)]))
                   (update_workspaces (\<lambda>w. ws_id w = i)
                     (\<lambda>w. w\<lparr>limits_config := (if to = no_limits then None else Some to),
                            cpu_throttle := throttle, updated_at := t\<rparr>) d)))))"

end
