(* ===== verification/Guard_Loop.thy ===== *)
theory Guard_Loop
  imports Admin_Limits
begin

text \<open>
  The resource guard (\<open>apps/worker/src/guard.ts\<close>). A tick reads every instance's usage, and for each
  running workspace stores a sample, judges its CPU and memory averages and makes the instance's CPU
  allowance match the row. Each function here is one statement or transaction of the tick, as a
  reader or writer of the database; \<open>checkWorkspace\<close> and \<open>guard_tick\<close> run them in the code's order.
  Averages are exact rationals, where the code divides doubles.
\<close>

section \<open>What the controller reports, and what is stored\<close>

record instance_usage =
  iu_name :: string
  iu_cpuUsageNs :: int
  iu_bootMarker :: "int option"
  iu_cpuLimit :: int
  iu_memoryBytes :: int
  iu_memoryLimitBytes :: int
  iu_cpuAllowance :: "string option"

text \<open>\<open>new Map(usage.map(...))\<close>: the last entry of a name wins.\<close>

definition byName :: "instance_usage list \<Rightarrow> string \<Rightarrow> instance_usage option" where
  "byName usage = map_of (rev (map (\<lambda>u. (iu_name u, u)) usage))"

definition round1 :: "rat \<Rightarrow> rat" where
  "round1 value = of_int (js_round (value * 10)) / 10"

definition sample_of :: "instance_usage \<Rightarrow> millis \<Rightarrow> usage_sample" where
  "sample_of inst t =
     \<lparr>observed_at = t, bootMarker = iu_bootMarker inst, cpuUsageNs = iu_cpuUsageNs inst,
      cpu_limit = iu_cpuLimit inst, memory_bytes = iu_memoryBytes inst,
      memory_limit_bytes = iu_memoryLimitBytes inst\<rparr>"

definition recordSample :: "uuid \<Rightarrow> instance_usage \<Rightarrow> millis \<Rightarrow> db \<Rightarrow> db" where
  "recordSample i inst t d = d\<lparr>usage_samples := usage_samples d @ [(i, sample_of inst t)]\<rparr>"

text \<open>The rows are kept in the order of their ids, so sorting by time is by time and id.\<close>

definition samples_where :: "uuid \<Rightarrow> (usage_sample \<Rightarrow> bool) \<Rightarrow> db \<Rightarrow> usage_sample list" where
  "samples_where i P d =
     sort_key observed_at (map snd (filter (\<lambda>(j, s). j = i \<and> P s) (usage_samples d)))"

section \<open>The CPU average\<close>

definition cpu_anchor :: "uuid \<Rightarrow> millis option \<Rightarrow> millis \<Rightarrow> db \<Rightarrow> millis option" where
  "cpu_anchor i since windowStart d =
     (case rev (samples_where i (\<lambda>s. observed_at s \<le> windowStart \<and>
         (case since of None \<Rightarrow> True | Some t \<Rightarrow> t < observed_at s)) d) of
        [] \<Rightarrow> None
      | s # _ \<Rightarrow> Some (observed_at s))"

text \<open>What one pair of neighbouring samples adds to the used nanoseconds.\<close>

definition pair_used :: "usage_sample \<Rightarrow> usage_sample \<Rightarrow> int" where
  "pair_used prev cur =
     (let after = cpuUsageNs cur in
      if restartedBetween prev cur then
        (let gapMs = observed_at cur - observed_at prev;
             tailMs = min (max gapMs 0) (GUARD_SAMPLE_SECONDS * 1000)
         in after + tailMs * 1000000 * cpu_limit cur)
      else after - cpuUsageNs prev)"

fun used_loop :: "usage_sample list \<Rightarrow> int \<Rightarrow> int" where
  "used_loop (prev # cur # rest) usedNs = used_loop (cur # rest) (usedNs + pair_used prev cur)"
| "used_loop _ usedNs = usedNs"

definition averageCpu ::
  "uuid \<Rightarrow> int \<Rightarrow> millis option \<Rightarrow> millis \<Rightarrow> millis \<Rightarrow> db \<Rightarrow> rat option" where
  "averageCpu i cpuLimit since windowStart t d =
     (case cpu_anchor i since windowStart d of
        None \<Rightarrow> None
      | Some anchor \<Rightarrow>
          (let samples = samples_where i (\<lambda>s. anchor \<le> observed_at s \<and> observed_at s \<le> t) d;
               usedNs = used_loop samples 0;
               elapsedNs = (t - anchor) * 1000000
           in if elapsedNs \<le> 0 then None
              else Some (of_int usedNs / of_int (elapsedNs * cpuLimit) * 100)))"

section \<open>Lifting a throttle\<close>

text \<open>The average when the workspace has been quiet since the throttle, or null.\<close>

definition lift_average ::
  "uuid \<Rightarrow> instance_usage \<Rightarrow> cpu_throttle \<Rightarrow> idle_lift \<Rightarrow> millis \<Rightarrow> db \<Rightarrow> rat option" where
  "lift_average i inst throttle lift t d =
     (let windowStart = t - lift_minutes lift * 60000;
          quiet = min (of_int (lift_percent lift)) (of_int (thr_sharePercent throttle) / 2)
      in case averageCpu i (iu_cpuLimit inst) (Some (thr_at throttle)) windowStart t d of
           None \<Rightarrow> None
         | Some average \<Rightarrow> if average < quiet then Some average else None)"

definition lift_write :: "uuid \<Rightarrow> cpu_throttle \<Rightarrow> rat \<Rightarrow> uuid \<Rightarrow> millis \<Rightarrow> db \<Rightarrow> bool \<times> db" where
  "lift_write i throttle average new_id created d =
     (let hit = (\<lambda>w. ws_id w = i \<and> map_option thr_at (cpu_throttle w) = Some (thr_at throttle)) in
      case rows_where hit d of
        [] \<Rightarrow> (False, d)
      | updated # _ \<Rightarrow>
          (let d1 = update_workspaces hit (\<lambda>w. w\<lparr>cpu_throttle := None\<rparr>) d;
               d2 = d1\<lparr>usage_samples :=
                 filter (\<lambda>(j, s). \<not> (j = i \<and> observed_at s \<le> thr_at throttle)) (usage_samples d1)\<rparr>;
               d3 = workerAudit i ''workspace.cpu_throttle_lifted'' ResOk
                 (Some [(''reason'', JStr ''idle''), (''averagePercent'', JNum (round1 average))]) d2
           in (True, recordNotification new_id created (owner_user_id updated)
                \<lparr>notice_tone = Success, notice_title = THROTTLE_LIFTED_TITLE,
                 notice_body = ''It was quiet long enough, so its processor limit was lifted.''\<rparr>
                False False d3)))"

definition judgeLift ::
  "uuid \<Rightarrow> instance_usage \<Rightarrow> cpu_throttle \<Rightarrow> idle_lift \<Rightarrow> millis \<Rightarrow> uuid \<Rightarrow> db \<Rightarrow> bool \<times> db" where
  "judgeLift i inst throttle lift t new_id d =
     (case lift_average i inst throttle lift t d of
        None \<Rightarrow> (False, d)
      | Some average \<Rightarrow> lift_write i throttle average new_id t d)"

section \<open>Throttling\<close>

definition cpu_over ::
  "uuid \<Rightarrow> instance_usage \<Rightarrow> effective_guard \<Rightarrow> millis \<Rightarrow> db \<Rightarrow> cpu_throttle option" where
  "cpu_over i inst effective t d =
     (let windowStart = t - windowMinutes effective * 60000 in
      case averageCpu i (iu_cpuLimit inst) None windowStart t d of
        None \<Rightarrow> None
      | Some average \<Rightarrow>
          if \<not> of_int (cpuThresholdPercent effective) < average then None
          else Some \<lparr>thr_at = t, thr_averagePercent = round1 average,
            thr_thresholdPercent = cpuThresholdPercent effective,
            thr_windowMinutes = windowMinutes effective,
            thr_sharePercent = throttleSharePercent effective,
            thr_allowance = allowanceFor (throttleSharePercent effective) (iu_cpuLimit inst),
            thr_held = None\<rparr>)"

definition recordHold :: "uuid \<Rightarrow> held_info \<Rightarrow> (nat \<Rightarrow> uuid) \<Rightarrow> millis \<Rightarrow> db \<Rightarrow> db" where
  "recordHold i held new_ids created d =
     (let d1 = workerAudit i ''workspace.cpu_throttle_held'' ResOk
            (Some [(''count'', JNum (of_nat (held_count held))),
                   (''hours'', JNum (of_int (held_hours held)))]) d;
          owner = Option.bind (find_workspace i d1) (\<lambda>w. find_user (owner_user_id w) d1)
      in notifyAdministrators new_ids created
        \<lparr>notice_tone = Warning,
         notice_title = nullish (map_option display_name owner) ''A student'' @
           CHR 0x27 # ''s workspace stays slowed after a restart'',
         notice_body = ''It was slowed '' @ show_nat (held_count held) @ '' times in the last '' @
           show_nat (nat (held_hours held)) @
           '' hours. The Health tab shows it, and its detail panel can lift the throttle.''\<rparr> d1)"

definition throttle_write ::
  "uuid \<Rightarrow> cpu_throttle \<Rightarrow> guard_platform \<Rightarrow> millis \<Rightarrow> (nat \<Rightarrow> uuid) \<Rightarrow> db \<Rightarrow>
   cpu_throttle option \<times> db" where
  "throttle_write i throttle0 hold t new_ids d =
     (let stored = (case find_workspace i d of None \<Rightarrow> [] | Some w \<Rightarrow> cpu_throttle_recent w);
          (recent, held) = throttleHold hold stored t;
          throttle = throttle0\<lparr>thr_held := held\<rparr>;
          hit = (\<lambda>w. ws_id w = i \<and> ws_state w = Running \<and> cpu_throttle w = None)
      in if rows_where hit d = [] then (None, d)
         else
          (let d1 = update_workspaces hit
                 (\<lambda>w. w\<lparr>cpu_throttle := Some throttle, cpu_throttle_recent := recent\<rparr>) d;
               d2 = workerAudit i ''workspace.cpu_throttled'' ResOk
                 (Some [(''averagePercent'', JNum (thr_averagePercent throttle)),
                        (''thresholdPercent'', JNum (of_int (thr_thresholdPercent throttle))),
                        (''windowMinutes'', JNum (of_int (thr_windowMinutes throttle))),
                        (''sharePercent'', JNum (of_int (thr_sharePercent throttle))),
                        (''allowance'', JStr (thr_allowance throttle))]) d1
           in (Some throttle, case held of None \<Rightarrow> d2 | Some h \<Rightarrow> recordHold i h new_ids t d2)))"

definition judgeCpu ::
  "uuid \<Rightarrow> instance_usage \<Rightarrow> effective_guard \<Rightarrow> guard_platform \<Rightarrow> millis \<Rightarrow> (nat \<Rightarrow> uuid) \<Rightarrow> db \<Rightarrow>
   cpu_throttle option \<times> db" where
  "judgeCpu i inst effective hold t new_ids d =
     (case cpu_over i inst effective t d of
        None \<Rightarrow> (None, d)
      | Some throttle \<Rightarrow> throttle_write i throttle hold t new_ids d)"

section \<open>Memory\<close>

text \<open>The samples of the last run: those from the newest restart or gap on.\<close>

fun run_start :: "usage_sample list \<Rightarrow> usage_sample list \<Rightarrow> usage_sample list" where
  "run_start (prev # cur # rest) run =
     run_start (cur # rest)
       (if restartedBetween prev cur \<or>
           2 * GUARD_SAMPLE_SECONDS * 1000 < observed_at cur - observed_at prev
        then cur # rest else run)"
| "run_start _ run = run"

definition memory_average :: "usage_sample list \<Rightarrow> rat" where
  "memory_average samples =
     sum_list (map (\<lambda>s. of_int (memory_bytes s) / of_int (memory_limit_bytes s)) samples) /
       of_nat (length samples) * 100"

definition memory_over ::
  "uuid \<Rightarrow> effective_guard \<Rightarrow> millis \<Rightarrow> db \<Rightarrow> memory_flag option" where
  "memory_over i effective t d =
     (let windowStart = t - windowMinutes effective * 60000;
          all1 = samples_where i (\<lambda>s. windowStart < observed_at s \<and> observed_at s \<le> t) d;
          samples = run_start all1 all1
      in if length samples = 0 \<or> 2 * int (length samples) < windowMinutes effective then None
         else let average = memory_average samples in
           if \<not> of_int (memoryThresholdPercent effective) < average then None
           else Some \<lparr>mem_at = t, mem_averagePercent = round1 average,
             mem_thresholdPercent = memoryThresholdPercent effective,
             mem_windowMinutes = windowMinutes effective\<rparr>)"

definition flag_write :: "uuid \<Rightarrow> memory_flag \<Rightarrow> db \<Rightarrow> db" where
  "flag_write i flag d =
     (let hit = (\<lambda>w. ws_id w = i \<and> ws_state w = Running \<and> memory_flag w = None) in
      if rows_where hit d = [] then d
      else workerAudit i ''workspace.memory_flagged'' ResOk
        (Some [(''averagePercent'', JNum (mem_averagePercent flag)),
               (''thresholdPercent'', JNum (of_int (mem_thresholdPercent flag))),
               (''windowMinutes'', JNum (of_int (mem_windowMinutes flag)))])
        (update_workspaces hit (\<lambda>w. w\<lparr>memory_flag := Some flag\<rparr>) d))"

definition judgeMemory :: "uuid \<Rightarrow> effective_guard \<Rightarrow> millis \<Rightarrow> db \<Rightarrow> db" where
  "judgeMemory i effective t d =
     (case memory_over i effective t d of None \<Rightarrow> d | Some flag \<Rightarrow> flag_write i flag d)"

section \<open>The allowance\<close>

type_synonym failures = "uuid \<rightharpoonup> string option"

text \<open>
  What Incus holds for each instance is the controller's state, so it is passed along: a call that
  succeeds sets it. The outcome of a call is the error code of the controller, or none.
\<close>

type_synonym allowances = "string \<rightharpoonup> string"

definition syncAllowance ::
  "uuid \<Rightarrow> instance_usage \<Rightarrow> string option \<Rightarrow> string option \<Rightarrow> failures \<times> allowances \<times> db \<Rightarrow>
   failures \<times> allowances \<times> db" where
  "syncAllowance i inst wanted refusal s =
     (case s of (failures, incus, d) \<Rightarrow>
        if iu_cpuAllowance inst = wanted then (failures(i := None), incus, d)
        else (case refusal of
          None \<Rightarrow> (failures(i := None), incus(iu_name inst := wanted), d)
        | Some errorCode \<Rightarrow>
            if failures i = Some wanted then (failures, incus, d)
            else (failures(i \<mapsto> wanted), incus,
                  workerAudit i ''workspace.cpu_throttle_failed'' ResFailed
                    (Some [(''errorCode'', JStr errorCode),
                           (''allowance'', case wanted of None \<Rightarrow> JNull | Some a \<Rightarrow> JStr a)]) d)))"

section \<open>The tick\<close>

definition loadRunning :: "db \<Rightarrow> workspace list" where
  "loadRunning = rows_where (\<lambda>w. ws_state w = Running \<and> incus_instance_name w \<noteq> None)"

text \<open>What the judgements leave: the throttle the tick goes on with, and the database.\<close>

definition judge ::
  "workspace \<Rightarrow> instance_usage \<Rightarrow> guard_platform option \<Rightarrow> millis \<Rightarrow> (nat \<Rightarrow> uuid) \<Rightarrow> db \<Rightarrow>
   cpu_throttle option \<times> db" where
  "judge row inst settings t new_ids d =
     (case settings of
        None \<Rightarrow> (cpu_throttle row, d)
      | Some s \<Rightarrow>
          (let effective = effectiveGuard s (guard_config row);
               (throttle, d1) =
                 (case cpu_throttle row of
                    Some thr \<Rightarrow>
                      (case idleLift s of
                         None \<Rightarrow> (Some thr, d)
                       | Some lift \<Rightarrow>
                           (case judgeLift (ws_id row) inst thr lift t (new_ids 0) d of
                              (lifted, d') \<Rightarrow> (if lifted then None else Some thr, d')))
                  | None \<Rightarrow> judgeCpu (ws_id row) inst effective s t new_ids d)
           in (throttle,
               if memory_flag row = None then judgeMemory (ws_id row) effective t d1 else d1)))"

definition checkWorkspace ::
  "workspace \<Rightarrow> instance_usage \<Rightarrow> guard_platform option \<Rightarrow> millis \<Rightarrow> (nat \<Rightarrow> uuid) \<Rightarrow> string option \<Rightarrow>
   failures \<times> allowances \<times> db \<Rightarrow> failures \<times> allowances \<times> db" where
  "checkWorkspace row inst settings t new_ids refusal s =
     (case s of (failures, incus, d) \<Rightarrow>
        let (throttle, d1) = judge row inst settings t new_ids (recordSample (ws_id row) inst t d)
        in syncAllowance (ws_id row) inst (map_option thr_allowance throttle) refusal
             (failures, incus, d1))"

text \<open>The loop over the running rows; the answers and new ids are given by the row's id.\<close>

fun check_rows ::
  "workspace list \<Rightarrow> (string \<Rightarrow> instance_usage option) \<Rightarrow> guard_platform option \<Rightarrow> millis \<Rightarrow>
   (uuid \<Rightarrow> nat \<Rightarrow> uuid) \<Rightarrow> (uuid \<Rightarrow> string option) \<Rightarrow> failures \<times> allowances \<times> db \<Rightarrow>
   failures \<times> allowances \<times> db" where
  "check_rows [] usage settings t new_ids refusals s = s"
| "check_rows (row # rows) usage settings t new_ids refusals s =
     check_rows rows usage settings t new_ids refusals
       (case Option.bind (truthy (incus_instance_name row)) usage of
          None \<Rightarrow> s
        | Some inst \<Rightarrow>
            checkWorkspace row inst settings t (new_ids (ws_id row)) (refusals (ws_id row)) s)"

definition prune_samples :: "millis \<Rightarrow> db \<Rightarrow> db" where
  "prune_samples t d =
     (let cutoff = t - SAMPLE_RETENTION_MINUTES * 60000
      in d\<lparr>usage_samples := filter (\<lambda>(j, s). \<not> observed_at s < cutoff) (usage_samples d)\<rparr>)"

definition guard_tick ::
  "instance_usage list option \<Rightarrow> millis \<Rightarrow> (uuid \<Rightarrow> nat \<Rightarrow> uuid) \<Rightarrow> (uuid \<Rightarrow> string option) \<Rightarrow>
   failures \<times> allowances \<times> db \<Rightarrow> failures \<times> allowances \<times> db" where
  "guard_tick usage t new_ids refusals s =
     (case (usage, s) of
        (None, _) \<Rightarrow> s
      | (Some us, (failures, incus, d)) \<Rightarrow>
          (case check_rows (loadRunning d) (byName us) (map_option guard_values (db_settings d))
                  t new_ids refusals s of
             (failures1, incus1, d1) \<Rightarrow> (failures1, incus1, prune_samples t d1)))"

end
