(* ===== verification/Config_Sync.thy ===== *)
theory Config_Sync
  imports Admin_Limits
begin

text \<open>
  The loops that apply what an administrator set for one workspace: the volume sizes
  (\<open>apps/worker/src/quota.ts\<close>) and the CPU, memory and process limits (\<open>apps/worker/src/limits.ts\<close>).
  A tick reads the rows whose wanted value differs from the applied one, and for each asks the
  controller and records the outcome. The two share the rule that a failed call rests, and one shape
  of query, filter and record, over different columns.
\<close>

section \<open>Failures that rest\<close>

definition QUOTA_RETRY_SECONDS :: int where
  "QUOTA_RETRY_SECONDS = 300"

definition LIMITS_RETRY_SECONDS :: int where
  "LIMITS_RETRY_SECONDS = 300"

type_synonym 'a sync_failures = "uuid \<rightharpoonup> 'a \<times> millis"

definition resting :: "int \<Rightarrow> 'a sync_failures \<Rightarrow> uuid \<Rightarrow> 'a \<Rightarrow> millis \<Rightarrow> bool" where
  "resting retry failures i wanted t =
     (case failures i of None \<Rightarrow> False | Some (w, failed_at) \<Rightarrow> w = wanted \<and> t - failed_at < retry * 1000)"

section \<open>Volume sizes\<close>

definition quota_rows :: "db \<Rightarrow> workspace list" where
  "quota_rows = rows_where (\<lambda>w. incus_instance_name w \<noteq> None \<and> image_version w \<noteq> None \<and>
     ws_state w \<noteq> Provisioning \<and>
     (case quota_config w of
        None \<Rightarrow> False
      | Some q \<Rightarrow> Some (quota_sizes q) \<noteq> map_option quota_sizes (quota_applied w)))"

text \<open>What the tick asks for a row: the wanted sizes, unless they are refused by the schema or rest.\<close>

definition quota_due :: "(sizes sync_failures) \<Rightarrow> millis \<Rightarrow> workspace \<Rightarrow> sizes option" where
  "quota_due failures t row =
     (case quota_config row of
        None \<Rightarrow> None
      | Some q \<Rightarrow>
          if \<not> QuotaConfig (quota_sizes q) \<or> truthy (incus_instance_name row) = None then None
          else if resting QUOTA_RETRY_SECONDS failures (ws_id row) (quota_sizes q) t then None
          else Some (quota_sizes q))"

definition quota_of :: "sizes \<Rightarrow> quota" where
  "quota_of s = \<lparr>homeGiB = fst s, dockerGiB = snd s, recoveryGiB = None\<rparr>"

definition applyOne_quota ::
  "uuid \<Rightarrow> sizes \<Rightarrow> quota option \<Rightarrow> string option \<Rightarrow> millis \<Rightarrow> sizes sync_failures \<times> db \<Rightarrow>
   sizes sync_failures \<times> db" where
  "applyOne_quota i wanted applied refusal t s =
     (case (s, refusal) of
        ((failures, d), Some errorCode) \<Rightarrow>
          (failures(i \<mapsto> (wanted, t)),
           if map_option fst (failures i) = Some wanted then d
           else workerAudit i ''workspace.quota_apply_failed'' ResFailed
             (Some [(''errorCode'', JStr errorCode), (''to'', sizes_json wanted)]) d)
      | ((failures, d), None) \<Rightarrow>
          (let hit = (\<lambda>w. ws_id w = i \<and> map_option quota_sizes (quota_config w) = Some wanted) in
           (failures(i := None),
            if rows_where hit d = [] then d
            else workerAudit i ''workspace.quota_applied'' ResOk
              (Some [(''from'', case applied of None \<Rightarrow> JNull | Some q \<Rightarrow> sizes_json (quota_sizes q)),
                     (''to'', sizes_json wanted)])
              (update_workspaces hit (\<lambda>w. w\<lparr>quota_applied := Some (quota_of wanted)\<rparr>) d))))"

section \<open>Limits\<close>

definition limits_rows :: "db \<Rightarrow> workspace list" where
  "limits_rows = rows_where (\<lambda>w. incus_instance_name w \<noteq> None \<and>
     ws_state w \<notin> {Provisioning, Error} \<and>
     nullish (limits_config w) no_limits \<noteq> nullish (limits_applied w) no_limits)"

definition limits_due :: "(limits sync_failures) \<Rightarrow> millis \<Rightarrow> workspace \<Rightarrow> limits option" where
  "limits_due failures t row =
     (let wanted = nullish (limits_config row) no_limits in
      if \<not> WorkspaceLimits wanted \<or> truthy (incus_instance_name row) = None then None
      else if resting LIMITS_RETRY_SECONDS failures (ws_id row) wanted t then None
      else Some wanted)"

definition applyOne_limits ::
  "uuid \<Rightarrow> limits \<Rightarrow> limits option \<Rightarrow> string option \<Rightarrow> millis \<Rightarrow> limits sync_failures \<times> db \<Rightarrow>
   limits sync_failures \<times> db" where
  "applyOne_limits i wanted applied refusal t s =
     (case (s, refusal) of
        ((failures, d), Some errorCode) \<Rightarrow>
          (failures(i \<mapsto> (wanted, t)),
           if map_option fst (failures i) = Some wanted then d
           else workerAudit i ''workspace.limits_apply_failed'' ResFailed
             (Some [(''errorCode'', JStr errorCode), (''to'', limits_json wanted)]) d)
      | ((failures, d), None) \<Rightarrow>
          (let hit = (\<lambda>w. ws_id w = i \<and> nullish (limits_config w) no_limits = wanted) in
           (failures(i := None),
            if rows_where hit d = [] then d
            else workerAudit i ''workspace.limits_applied'' ResOk
              (Some [(''from'', limits_json (nullish applied no_limits)), (''to'', limits_json wanted)])
              (update_workspaces hit (\<lambda>w. w\<lparr>limits_applied := Some wanted\<rparr>) d))))"

end
