(* ===== verification/Worker.thy ===== *)
theory Worker
  imports Drift Replace_Home Guard_Loop Config_Sync
begin

text \<open>
  The worker and the API as one transition system. A sweep (\<open>reconcile\<close>) is an agenda of
  tasks run one at a time, a query leaving one task per row it returned; between any two
  tasks a background call may begin or end, the API may write, and the worker may be
  restarted. One task, one half of a call and one API write are atomic.
\<close>

section \<open>Tasks of a sweep\<close>

datatype task =
    ExpireConnections | KeepRunningOff | KeepRunningCut | KeepRunningExpired
  | MarkDisconnected | UnmarkConnected | RecomputeDeadlines
  | SelectCreate | RowCreate workspace
  | SelectStart | RowStart workspace
  | SelectStop | RowStop workspace
  | SelectStopForOperation | RowStopForOperation workspace
  | StopDeadline | RowDeadline workspace
  | WithdrawIdle | WarnIdle | StopIdle | RowIdle workspace "int option"
  | SelectRetry | RowRetry workspace
  | SelectMaintenance | RowMaintenance workspace
  | Refresh
  | AwaitList "uuid list"
  | SelectTracked "listed_instance list" "uuid list"
  | RowTracked "listed_instance list" "uuid list" workspace

definition sweep_tasks :: "task list" where
  "sweep_tasks =
     [ExpireConnections, KeepRunningOff, KeepRunningCut, KeepRunningExpired, MarkDisconnected,
      UnmarkConnected, RecomputeDeadlines, SelectCreate, SelectStart, SelectStop,
      SelectStopForOperation, StopDeadline, WithdrawIdle, WarnIdle, StopIdle, SelectRetry,
      SelectMaintenance, Refresh]"

text \<open>
  What one task does: the tasks that take its place, and the worker after it; \<open>None\<close> when
  \<open>track\<close> throws. \<open>AwaitList\<close> waits for the controller and has no step of its own.
\<close>

definition no_tasks :: "worker option \<Rightarrow> (task list \<times> worker) option" where
  "no_tasks r = map_option (Pair []) r"

fun run_task ::
  "sweep_ctx \<Rightarrow> refresh_state \<Rightarrow> task \<Rightarrow> worker \<Rightarrow> (task list \<times> worker) option" where
  "run_task ctx r ExpireConnections s = no_tasks (Some (on_db (expireConnections ctx) s))"
| "run_task ctx r KeepRunningOff s = no_tasks (Some (on_db (settleKeepRunning_off (now ctx)) s))"
| "run_task ctx r KeepRunningCut s = no_tasks (Some (on_db (settleKeepRunning_cut (now ctx)) s))"
| "run_task ctx r KeepRunningExpired s =
     no_tasks (Some (on_db (settleKeepRunning_expired (now ctx)) s))"
| "run_task ctx r MarkDisconnected s = no_tasks (Some (on_db (markDisconnected ctx) s))"
| "run_task ctx r UnmarkConnected s = no_tasks (Some (on_db (unmarkConnected ctx) s))"
| "run_task ctx r RecomputeDeadlines s = no_tasks (Some (on_db (recomputeDeadlines ctx) s))"
| "run_task ctx r SelectCreate s = Some (map RowCreate (createProvisioning_rows s), s)"
| "run_task ctx r (RowCreate w) s = no_tasks (createProvisioning_row w s)"
| "run_task ctx r SelectStart s = Some (map RowStart (startStopped_rows s), s)"
| "run_task ctx r (RowStart w) s = no_tasks (startStopped_row ctx w s)"
| "run_task ctx r SelectStop s = Some (map RowStop (stopExplicit_rows s), s)"
| "run_task ctx r (RowStop w) s = no_tasks (stopExplicit_row ctx w s)"
| "run_task ctx r SelectStopForOperation s =
     Some (map RowStopForOperation (stopForOperation_rows s), s)"
| "run_task ctx r (RowStopForOperation w) s = no_tasks (stopForOperation_row ctx w s)"
| "run_task ctx r StopDeadline s =
     (case stopDeadline_update ctx s of (d, rows) \<Rightarrow> Some (map RowDeadline rows, s\<lparr>wdb := d\<rparr>))"
| "run_task ctx r (RowDeadline w) s = no_tasks (stopDeadline_row ctx w s)"
| "run_task ctx r WithdrawIdle s = no_tasks (Some (on_db withdrawIdle s))"
| "run_task ctx r WarnIdle s = no_tasks (Some (on_db (warnIdle ctx) s))"
| "run_task ctx r StopIdle s =
     (case stopIdle_update ctx s of
        (d, rows) \<Rightarrow> Some (map (\<lambda>(w, m). RowIdle w m) rows, s\<lparr>wdb := d\<rparr>))"
| "run_task ctx r (RowIdle w m) s = no_tasks (stopIdle_row ctx (w, m) s)"
| "run_task ctx r SelectRetry s = Some (map RowRetry (retryErrored_rows s), s)"
| "run_task ctx r (RowRetry w) s = no_tasks (retryErrored_row ctx w s)"
| "run_task ctx r SelectMaintenance s = Some (map RowMaintenance (runMaintenance_rows s), s)"
| "run_task ctx r (RowMaintenance w) s = no_tasks (runMaintenance_row ctx w s)"
| "run_task ctx r Refresh s =
     Some (if refresh_due ctx (lastRefreshAt r) then [AwaitList (inFlightIds (wcalls s))] else [], s)"
| "run_task ctx r (AwaitList during) s = Some ([AwaitList during], s)"
| "run_task ctx r (SelectTracked instances during) s =
     Some (map (RowTracked instances during) (tracked_rows (wdb s)), s)"
| "run_task ctx r (RowTracked instances during w) s =
     no_tasks (tracked_row ctx instances during w s)"

text \<open>The row a task is for; the empty string where it is for none.\<close>

fun task_id :: "task \<Rightarrow> uuid" where
  "task_id (RowCreate w) = ws_id w"
| "task_id (RowStart w) = ws_id w"
| "task_id (RowStop w) = ws_id w"
| "task_id (RowStopForOperation w) = ws_id w"
| "task_id (RowDeadline w) = ws_id w"
| "task_id (RowIdle w m) = ws_id w"
| "task_id (RowRetry w) = ws_id w"
| "task_id (RowMaintenance w) = ws_id w"
| "task_id (RowTracked instances during w) = ws_id w"
| "task_id _ = []"

section \<open>Steps\<close>

record system =
  worker :: worker
  ctx :: sweep_ctx
  agenda :: "task list"
  refresh :: refresh_state

text \<open>What a background call that runs may still do: its first half, or its end.\<close>

definition call_ends :: "in_flight \<Rightarrow> (db \<Rightarrow> db) \<Rightarrow> worker \<Rightarrow> worker" where
  "call_ends f g s = s\<lparr>wdb := g (wdb s), wcalls := finishCall f (wcalls s)\<rparr>"

inductive call_step :: "sweep_ctx \<Rightarrow> worker \<Rightarrow> worker \<Rightarrow> bool" for cx :: sweep_ctx where
  create_again:
    "\<lbrakk>f \<in> set (inFlight (wcalls s)); fl_phase f = Active; fl_call f = CreateCall name ws n;
      createWorkspace_turn (config cx) name ws (createRetryDelaysMs cx) n outcome t (wdb s) =
        CreateRetry delay\<rbrakk> \<Longrightarrow>
     call_step cx s (s\<lparr>wcalls := setCall (fl_id f) (CreateCall name ws (n + 1)) (wcalls s)\<rparr>)"
| create_ends:
    "\<lbrakk>f \<in> set (inFlight (wcalls s)); fl_phase f = Active; fl_call f = CreateCall name ws n;
      createWorkspace_turn (config cx) name ws (createRetryDelaysMs cx) n outcome t (wdb s) =
        CreateDone d' msg\<rbrakk> \<Longrightarrow>
     call_step cx s (call_ends f (\<lambda>_. d') s)"
| start_begins:
    "\<lbrakk>f \<in> set (inFlight (wcalls s)); fl_phase f = Active; fl_call f = StartCall name ws lastRetry;
      startInstance_begin isTz (config cx) name ws token (wdb s) = (d', req)\<rbrakk> \<Longrightarrow>
     call_step cx s (s\<lparr>wdb := d',
       wcalls := setCall (fl_id f) (StartCalled ws lastRetry req) (wcalls s)\<rparr>)"
| start_ends:
    "\<lbrakk>f \<in> set (inFlight (wcalls s)); fl_phase f = Active; fl_call f = StartCalled ws lastRetry req\<rbrakk> \<Longrightarrow>
     call_step cx s (call_ends f (startInstance_end ws outcome t) s)"
| stop_ends:
    "\<lbrakk>f \<in> set (inFlight (wcalls s)); fl_phase f = Active; fl_call f = StopCall ws\<rbrakk> \<Longrightarrow>
     call_step cx s (call_ends f (doStop ws outcome t) s)"
| operation_ends:
    "\<lbrakk>f \<in> set (inFlight (wcalls s)); fl_phase f = Active; fl_call f = OperationCall op\<rbrakk> \<Longrightarrow>
     call_step cx s (call_ends f (runOperation op outcome t) s)"
| replace_home_ends:
    "\<lbrakk>f \<in> set (inFlight (wcalls s)); fl_phase f = Active; fl_call f = ReplaceHomeCall name ws t0\<rbrakk> \<Longrightarrow>
     call_step cx s (call_ends f (runReplaceHome new_id t name ws t0 swap listing) s)"

text \<open>A write of the API, by the route that makes it.\<close>

inductive api_step :: "db \<Rightarrow> db \<Rightarrow> bool" where
  set_desired: "setDesired u i desired t d = Inr d' \<Longrightarrow> api_step d d'"
| put_hold: "put_keep_running u i requested t d = Inr d' \<Longrightarrow> api_step d d'"
| delete_hold: "delete_keep_running u i t d = Inr d' \<Longrightarrow> api_step d d'"
| open_presence: "api_step d (openPresence i c t d)"
| drop_presence: "api_step d (dropPresence c d)"
| touch_presence: "api_step d (touchPresence c t d)"
| request_operation:
    "requestPendingOperation busy i userId operation args act meta t d = Inr d' \<Longrightarrow> api_step d d'"
| set_archived: "setArchived admin i archive t d = Inr d' \<Longrightarrow> api_step d d'"
| reprovisions: "reprovision admin i t d = Inr d' \<Longrightarrow> api_step d d'"
| clear_mark: "clearGuardMark admin i mark new_id t d = Inr d' \<Longrightarrow> api_step d d'"
| set_quota: "quota_write admin i stored sizes_from to t d = Inr d' \<Longrightarrow> api_step d d'"
| set_guard: "put_guard admin i body t d = Inr d' \<Longrightarrow> api_step d d'"
| set_limits: "put_limits admin i l host t d = Inr d' \<Longrightarrow> api_step d d'"

text \<open>A write of another loop of the worker: the resource guard, the quota or the limits sync.\<close>

inductive loop_step :: "db \<Rightarrow> db \<Rightarrow> bool" where
  stores_sample: "loop_step d (recordSample i inst t d)"
| lifts_throttle: "loop_step d (snd (lift_write i throttle average new_id t d))"
| throttles: "loop_step d (snd (throttle_write i throttle hold t new_ids d))"
| flags_memory: "loop_step d (flag_write i flag d)"
| syncs_allowance: "loop_step d (snd (snd (syncAllowance i inst wanted refusal (failures, incus, d))))"
| prunes_samples: "loop_step d (prune_samples t d)"
| grows_volumes: "loop_step d (snd (applyOne_quota i sizes applied refusal t (quota_failures, d)))"
| sets_limits: "loop_step d (snd (applyOne_limits i l limits refusal t (limits_failures, d)))"

text \<open>
  Steps of the whole system. A new workspace's id is a random UUID: no call or pending task
  has it. \<open>restarts\<close> is a crash or deploy of the worker: the calls it
  waited for are abandoned, their rows left as they are.
\<close>

inductive sys_step :: "system \<Rightarrow> system \<Rightarrow> bool" where
  sweep_begins:
    "agenda s = [] \<Longrightarrow>
     sys_step s (s\<lparr>agenda := sweep_tasks, ctx := (ctx s)\<lparr>now := t\<rparr>\<rparr>)"
| task_runs:
    "\<lbrakk>agenda s = tk # ts; run_task (ctx s) (refresh s) tk (worker s) = Some (new, w')\<rbrakk> \<Longrightarrow>
     sys_step s (s\<lparr>agenda := new @ ts, worker := w'\<rparr>)"
| task_throws:
    "\<lbrakk>agenda s = tk # ts; run_task (ctx s) (refresh s) tk (worker s) = None\<rbrakk> \<Longrightarrow>
     sys_step s (s\<lparr>agenda := []\<rparr>)"
| list_answers:
    "agenda s = AwaitList during # ts \<Longrightarrow>
     sys_step s (s\<lparr>agenda := SelectTracked instances during # ts,
       worker := on_db (controller_checked (ctx s)) (worker s),
       refresh := \<lparr>lastRefreshAt = Some (now (ctx s)), controllerUnreachable = False\<rparr>\<rparr>)"
| list_fails:
    "agenda s = AwaitList during # ts \<Longrightarrow>
     sys_step s (s\<lparr>agenda := ts,
       worker := on_db (list_failed (controllerUnreachable (refresh s)) e) (worker s),
       refresh := (refresh s)\<lparr>controllerUnreachable := True\<rparr>\<rparr>)"
| call_steps:
    "call_step (ctx s) (worker s) w' \<Longrightarrow> sys_step s (s\<lparr>worker := w'\<rparr>)"
| api_writes:
    "api_step (wdb (worker s)) d' \<Longrightarrow> sys_step s (s\<lparr>worker := (worker s)\<lparr>wdb := d'\<rparr>\<rparr>)"
| loop_writes:
    "loop_step (wdb (worker s)) d' \<Longrightarrow> sys_step s (s\<lparr>worker := (worker s)\<lparr>wdb := d'\<rparr>\<rparr>)"
| workspace_created:
    "\<lbrakk>create_workspace u q i hex t (wdb (worker s)) = Inr d';
      find_workspace i (wdb (worker s)) = None; i \<notin> set (inFlightIds (wcalls (worker s)));
      i \<notin> task_id ` set (agenda s)\<rbrakk> \<Longrightarrow>
     sys_step s (s\<lparr>worker := (worker s)\<lparr>wdb := d'\<rparr>\<rparr>)"
| restarts:
    "sys_step s (s\<lparr>agenda := [], worker := (worker s)\<lparr>wcalls := no_calls\<rparr>,
       refresh := \<lparr>lastRefreshAt = None, controllerUnreachable = False\<rparr>\<rparr>)"

end
