(* ===== verification/Worker_States.thy ===== *)
theory Worker_States
  imports Worker
begin

text \<open>
  The lifecycle view of the database: each workspace's state and how many start retries it
  has spent. Most writes leave it alone; the others change it through a compare-and-set.
\<close>

named_theorems abs_simps \<open>what an operation leaves of the lifecycle view\<close>

definition view :: "workspace \<Rightarrow> workspace_state \<times> nat" where
  "view w = (ws_state w, start_retries w)"

definition lifecycle :: "db \<Rightarrow> uuid \<Rightarrow> (workspace_state \<times> nat) option" where
  "lifecycle d i = map_option view (find_workspace i d)"

definition pk :: "db \<Rightarrow> bool" where
  "pk d \<longleftrightarrow> distinct (map ws_id (workspaces d))"

section \<open>Writes that leave the view\<close>

lemma same_workspaces:
  assumes "workspaces d' = workspaces d"
  shows "lifecycle d' = lifecycle d" "pk d' = pk d" "find_workspace i d' = find_workspace i d"
  using assms by (auto simp: lifecycle_def pk_def find_workspace_def fun_eq_iff)

lemma pk_update_workspaces [abs_simps]:
  "(\<And>w. P w \<Longrightarrow> ws_id (f w) = ws_id w) \<Longrightarrow> pk (update_workspaces P f d) = pk d"
  by (simp add: pk_def map_upd_where_frame)

lemma lifecycle_update_workspaces:
  assumes "\<And>w. P w \<Longrightarrow> ws_id (f w) = ws_id w"
  shows "lifecycle (update_workspaces P f d) i =
    map_option (\<lambda>w. view (if P w then f w else w)) (find_workspace i d)"
  by (simp add: lifecycle_def find_workspace_update [OF assms] option.map_comp o_def)

lemma lifecycle_update_frame [abs_simps]:
  assumes "\<And>w. P w \<Longrightarrow> ws_id (f w) = ws_id w" "\<And>w. P w \<Longrightarrow> view (f w) = view w"
  shows "lifecycle (update_workspaces P f d) = lifecycle d"
proof
  fix i
  have "view (if P w then f w else w) = view w" for w using assms(2) by simp
  then show "lifecycle (update_workspaces P f d) i = lifecycle d i"
    by (simp add: lifecycle_def find_workspace_update [OF assms(1)] option.map_comp o_def)
qed

lemma recordAudit_abs [abs_simps]:
  "lifecycle (recordAudit e d) = lifecycle d" "pk (recordAudit e d) = pk d"
  by (rule same_workspaces, simp)+

lemma recordNotification_abs [abs_simps]:
  "lifecycle (recordNotification n c u t a k d) = lifecycle d"
  "pk (recordNotification n c u t a k d) = pk d"
  by (rule same_workspaces, simp)+

lemma audit_rows_workspaces [simp]: "workspaces (audit_rows e ws d) = workspaces d"
  unfolding audit_rows_def by (induction ws arbitrary: d) auto

lemma audit_rows_abs [abs_simps]:
  "lifecycle (audit_rows e ws d) = lifecycle d" "pk (audit_rows e ws d) = pk d"
  by (rule same_workspaces, simp)+

lemma endOpenTerminals_abs [abs_simps]:
  "lifecycle (endOpenTerminals i t d) = lifecycle d" "pk (endOpenTerminals i t d) = pk d"
  by (rule same_workspaces, simp add: endOpenTerminals_def)+

lemma expireConnections_abs [abs_simps]:
  "lifecycle (expireConnections cx d) = lifecycle d" "pk (expireConnections cx d) = pk d"
  by (rule same_workspaces, simp add: expireConnections_def Let_def)+

lemma controller_checked_abs [abs_simps]:
  "lifecycle (controller_checked cx d) = lifecycle d" "pk (controller_checked cx d) = pk d"
  by (rule same_workspaces, simp add: controller_checked_def)+

lemma list_failed_abs [abs_simps]:
  "lifecycle (list_failed b e d) = lifecycle d" "pk (list_failed b e d) = pk d"
  by (rule same_workspaces, simp add: list_failed_def)+

lemma rotateAgentToken_abs [abs_simps]:
  "lifecycle (rotateAgentToken i token d) = lifecycle d" "pk (rotateAgentToken i token d) = pk d"
  by (simp_all add: rotateAgentToken_def abs_simps view_def)

lemma syncAgentAddress_abs [abs_simps]:
  "lifecycle (syncAgentAddress ws inst d) = lifecycle d" "pk (syncAgentAddress ws inst d) = pk d"
  by (simp_all add: syncAgentAddress_def abs_simps view_def)

lemma settleKeepRunning_abs [abs_simps]:
  "lifecycle (settleKeepRunning_off t d) = lifecycle d" "pk (settleKeepRunning_off t d) = pk d"
  "lifecycle (settleKeepRunning_cut t d) = lifecycle d" "pk (settleKeepRunning_cut t d) = pk d"
  "lifecycle (settleKeepRunning_expired t d) = lifecycle d"
  "pk (settleKeepRunning_expired t d) = pk d"
  by (simp_all add: settleKeepRunning_off_def settleKeepRunning_cut_def
      settleKeepRunning_expired_def update_returning_def abs_simps view_def)

lemma trackDisconnections_abs [abs_simps]:
  "lifecycle (markDisconnected cx d) = lifecycle d" "pk (markDisconnected cx d) = pk d"
  "lifecycle (unmarkConnected cx d) = lifecycle d" "pk (unmarkConnected cx d) = pk d"
  "lifecycle (recomputeDeadlines cx d) = lifecycle d" "pk (recomputeDeadlines cx d) = pk d"
  by (simp_all add: markDisconnected_def unmarkConnected_def recomputeDeadlines_def Let_def
      abs_simps view_def)

lemma idle_abs [abs_simps]:
  "lifecycle (withdrawIdle d) = lifecycle d" "pk (withdrawIdle d) = pk d"
  "lifecycle (warnIdle cx d) = lifecycle d" "pk (warnIdle cx d) = pk d"
  by (simp_all add: withdrawIdle_def warnIdle_def abs_simps view_def)

lemma clearGuardAtStop_workspaces:
  "workspaces (clearGuardAtStop i d) =
     upd_where (\<lambda>w. ws_id w = i)
       (\<lambda>w. w\<lparr>cpu_throttle := (if (case find_workspace i d of None \<Rightarrow> False | Some w \<Rightarrow> throttle_held w)
                               then cpu_throttle w else None),
              memory_flag := None, idle_stop_at := None\<rparr>) (workspaces d)"
  by (simp add: clearGuardAtStop_def Let_def split: option.splits)

lemma clearGuardAtStop_abs [abs_simps]:
  "lifecycle (clearGuardAtStop i d) = lifecycle d" "pk (clearGuardAtStop i d) = pk d"
proof -
  let ?f = "\<lambda>w. w\<lparr>cpu_throttle := (if (case find_workspace i d of None \<Rightarrow> False
      | Some w \<Rightarrow> throttle_held w) then cpu_throttle w else None),
      memory_flag := None, idle_stop_at := None\<rparr>"
  have "workspaces (clearGuardAtStop i d) = workspaces (update_workspaces (\<lambda>w. ws_id w = i) ?f d)"
    by (simp add: clearGuardAtStop_workspaces)
  note same = same_workspaces [OF this]
  show "lifecycle (clearGuardAtStop i d) = lifecycle d" "pk (clearGuardAtStop i d) = pk d"
    unfolding same by (simp_all add: abs_simps view_def)
qed

section \<open>Compare-and-set\<close>

lemma rows_where_by_id:
  "pk d \<Longrightarrow> rows_where (\<lambda>w. ws_id w = i \<and> Q w) d = [] \<longleftrightarrow>
     (\<forall>w. find_workspace i d = Some w \<longrightarrow> \<not> Q w)"
  by (auto simp: rows_where_def filter_empty_conv find_workspace_def find_row_Some_iff pk_def)

text \<open>
  A compare-and-set that sets the state to \<open>to\<close> and the retries by \<open>g\<close> moves the row if it
  is in the expected state, and nothing else.
\<close>

definition moved :: "uuid \<Rightarrow> workspace_state \<Rightarrow> workspace_state \<Rightarrow> (nat \<Rightarrow> nat) \<Rightarrow>
  (uuid \<Rightarrow> (workspace_state \<times> nat) option) \<Rightarrow> (uuid \<Rightarrow> (workspace_state \<times> nat) option)" where
  "moved i fr to g m =
     (case m i of Some (x, n) \<Rightarrow> if x = fr then m(i \<mapsto> (to, g n)) else m | None \<Rightarrow> m)"

lemma moved_simps:
  "m i = Some (fr, n) \<Longrightarrow> moved i fr to g m = m(i \<mapsto> (to, g n))"
  "m i = Some (x, n) \<Longrightarrow> x \<noteq> fr \<Longrightarrow> moved i fr to g m = m"
  "m i = None \<Longrightarrow> moved i fr to g m = m"
  "j \<noteq> i \<Longrightarrow> moved i fr to g m j = m j"
  by (auto simp: moved_def split: option.splits)

lemma lifecycle_update_by_id:
  assumes "\<And>w. ws_id (f w) = ws_id w" "\<And>w. Q w \<Longrightarrow> view (f w) = (to, g (start_retries w))"
    and "\<And>w. find_workspace i d = Some w \<Longrightarrow> Q w \<longleftrightarrow> ws_state w = fr"
  shows "lifecycle (update_workspaces (\<lambda>w. ws_id w = i \<and> Q w) f d) = moved i fr to g (lifecycle d)"
proof
  fix j
  let ?P = "\<lambda>w. ws_id w = i \<and> Q w"
  have new: "lifecycle (update_workspaces ?P f d) j =
      map_option (\<lambda>w. view (if ?P w then f w else w)) (find_workspace j d)"
    by (rule lifecycle_update_workspaces) (simp add: assms(1))
  show "lifecycle (update_workspaces ?P f d) j = moved i fr to g (lifecycle d) j"
  proof (cases "find_workspace j d")
    case None
    then have "lifecycle d j = None" by (simp add: lifecycle_def)
    with None show ?thesis unfolding new by (cases "j = i") (simp_all add: moved_simps)
  next
    case (Some w)
    then have j: "ws_id w = j" by (auto simp: find_workspace_def dest: find_row_Some)
    show ?thesis
    proof (cases "j = i")
      case True
      then show ?thesis unfolding new using Some j assms(2) [of w] assms(3) [of w]
        by (cases "Q w") (simp_all add: lifecycle_def moved_def view_def)
    next
      case False
      then show ?thesis unfolding new using Some j by (simp add: lifecycle_def moved_simps(4))
    qed
  qed
qed

lemma casUpdate_abs:
  assumes cas: "casUpdate i fr f t d = (d', b)" and "pk d"
    and f: "\<And>w. ws_id (f w) = ws_id w" "\<And>w. view (f w) = (to, g (start_retries w))"
  shows "pk d'"
    and "b \<longleftrightarrow> (\<exists>n. lifecycle d i = Some (fr, n))"
    and "lifecycle d' = moved i fr to g (lifecycle d)"
proof -
  let ?hit = "\<lambda>w. ws_id w = i \<and> ws_state w = fr"
  let ?f = "\<lambda>w. (f w)\<lparr>updated_at := t\<rparr>"
  from cas have d': "d' = update_workspaces ?hit ?f d" and b: "b \<longleftrightarrow> rows_where ?hit d \<noteq> []"
    by (auto simp: casUpdate_def Let_def)
  show "pk d'" using assms(2) f(1) by (simp add: d' abs_simps)
  show "b \<longleftrightarrow> (\<exists>n. lifecycle d i = Some (fr, n))"
    using rows_where_by_id [OF assms(2), of i "\<lambda>w. ws_state w = fr"] b
    by (auto simp: lifecycle_def view_def)
  have "view (?f w) = (to, g (start_retries w))" for w using f(2) [of w] by (simp add: view_def)
  then show "lifecycle d' = moved i fr to g (lifecycle d)"
    unfolding d' using f(1) by (intro lifecycle_update_by_id) auto
qed

lemma cas_view:
  assumes "pk d" "\<And>w. ws_id (f w) = ws_id w" "\<And>w. view (f w) = (to, g (start_retries w))"
  shows cas_lifecycle: "lifecycle (fst (casUpdate i fr f t d)) = moved i fr to g (lifecycle d)"
    and cas_hit: "snd (casUpdate i fr f t d) \<longleftrightarrow> (\<exists>n. lifecycle d i = Some (fr, n))"
  using casUpdate_abs [where to = to and g = g, OF prod.collapse [symmetric] assms] by blast+

lemma cas_pk [abs_simps]:
  "pk d \<Longrightarrow> (\<And>w. ws_id (f w) = ws_id w) \<Longrightarrow> pk (fst (casUpdate i fr f t d))"
  by (simp add: casUpdate_def Let_def abs_simps)

lemma moved_same [simp]: "moved i fr fr id m = m" "moved i fr fr (\<lambda>n. n) m = m"
  by (auto simp: moved_def fun_eq_iff split: option.splits)

section \<open>The calls\<close>

lemma moveToStarting_abs:
  assumes "pk d"
  shows "lifecycle (fst (moveToStarting i fr t d)) =
      moved i fr Starting (\<lambda>n. if fr = Error then n + 1 else 0) (lifecycle d)"
    and "pk (fst (moveToStarting i fr t d))"
    and "snd (moveToStarting i fr t d) \<longleftrightarrow> (\<exists>n. lifecycle d i = Some (fr, n))"
  unfolding moveToStarting_def using assms
  by (subst cas_lifecycle cas_hit [where to = Starting and g = "\<lambda>n. if fr = Error then n + 1 else 0"],
      simp_all add: view_def abs_simps)+

lemma create_turn_abs:
  assumes "pk d" "createWorkspace_turn cfg name ws delays n outcome t d = CreateDone d' note"
  shows "pk d' \<and> (\<exists>to. (to = Provisioning \<or> to = Stopped \<or> to = Error) \<and>
    lifecycle d' = moved (ws_id ws) Provisioning to id (lifecycle d))"
proof (cases outcome)
  case (Inr result)
  with assms have "d' = fst (create_succeeded cfg name ws n result t d)"
    by (auto simp: createWorkspace_turn_def split: prod.splits)
  then show ?thesis using assms(1)
    by (intro conjI exI [of _ Stopped])
       (simp_all add: create_succeeded_def Let_def case_prod_beta abs_simps view_def
         cas_lifecycle [where to = Stopped and g = id])
next
  case (Inl e)
  let ?err = "toControllerError e"
  from Inl assms consider "d' = fst (create_refused ws ?err t d)" | "d' = fst (create_failed ws n ?err t d)"
    by (auto simp: createWorkspace_turn_def Let_def split: prod.splits if_splits)
  then show ?thesis
  proof cases
    case 1
    then show ?thesis using assms(1)
      by (intro conjI exI [of _ Provisioning])
         (auto simp: create_refused_def Let_def case_prod_beta abs_simps view_def casUpdate_def)
  next
    case 2
    then show ?thesis using assms(1)
      by (intro conjI exI [of _ Error])
         (simp_all add: create_failed_def Let_def case_prod_beta abs_simps view_def
           cas_lifecycle [where to = Error and g = id])
  qed
qed

lemma startInstance_end_abs:
  assumes "pk d"
  shows "pk (startInstance_end ws outcome t d)"
    and "lifecycle (startInstance_end ws outcome t d) =
      (case outcome of Inr _ \<Rightarrow> moved (ws_id ws) Starting Running (\<lambda>_. 0) (lifecycle d)
       | Inl _ \<Rightarrow> moved (ws_id ws) Starting Error id (lifecycle d))"
  using assms
  by (simp_all add: startInstance_end_def Let_def case_prod_beta abs_simps view_def startedNow_def
      cas_lifecycle [where to = Running and g = "\<lambda>_. 0"] cas_lifecycle [where to = Error and g = id]
      split: sum.splits)

lemma doStop_abs:
  assumes "pk d"
  shows "pk (doStop ws outcome t d)"
    and "lifecycle (doStop ws outcome t d) =
      (if truthy (incus_instance_name ws) = None then lifecycle d
       else case outcome of Inr _ \<Rightarrow> moved (ws_id ws) Stopping Stopped id (lifecycle d)
       | Inl _ \<Rightarrow> moved (ws_id ws) Stopping Error id (lifecycle d))"
  using assms
  by (simp_all add: doStop_def Let_def case_prod_beta abs_simps view_def
      cas_lifecycle [where to = Stopped and g = id] cas_lifecycle [where to = Error and g = id]
      split: sum.splits)

lemma runOperation_abs:
  assumes "pk d"
  shows "pk (runOperation op outcome t d)"
    and "lifecycle (runOperation op outcome t d) =
      (case outcome of Inr _ \<Rightarrow> moved (op_id op) (op_state op) Stopped id (lifecycle d)
       | Inl _ \<Rightarrow> moved (op_id op) (op_state op) Error id (lifecycle d))"
  using assms
  by (simp_all add: runOperation_def clear_operation_def Let_def case_prod_beta abs_simps view_def
      cas_lifecycle [where to = Stopped and g = id] cas_lifecycle [where to = Error and g = id]
      split: sum.splits)

lemma notifyOwner_abs [abs_simps]:
  "lifecycle (notifyOwner n c i nt d) = lifecycle d" "pk (notifyOwner n c i nt d) = pk d"
  by (simp_all add: notifyOwner_def abs_simps split: option.splits)

text \<open>The swap's end writes the state without comparing it.\<close>

lemma replace_finish_abs:
  assumes "pk d"
  shows "pk (replace_finish n c ws stamp t outcome d)"
    and "j \<noteq> ws_id ws \<Longrightarrow> lifecycle (replace_finish n c ws stamp t outcome d) j = lifecycle d j"
    and "lifecycle (replace_finish n c ws stamp t outcome d) (ws_id ws) \<in>
      {lifecycle d (ws_id ws),
       map_option (\<lambda>(x, k). (replace_next_state ws outcome, k)) (lifecycle d (ws_id ws))}"
proof -
  let ?hit = "\<lambda>w. ws_id w = ws_id ws \<and> pending_op w = Some ReplaceHome"
  let ?f = "\<lambda>w. (replaceErrorFields (outcome_failed outcome) (outcome_touched outcome) w)
     \<lparr>pending_op := None, pending_operation_args := None, pending_operation_at := None,
      pending_operation_by := None, ws_state := replace_next_state ws outcome, updated_at := t\<rparr>"
  let ?d = "update_workspaces ?hit ?f d"
  have id_f: "ws_id (?f w) = ws_id w" for w by (simp add: replaceErrorFields_def)
  have view_f: "view (?f w) = (replace_next_state ws outcome, start_retries w)" for w
    by (simp add: replaceErrorFields_def view_def)
  have life: "lifecycle (replace_finish n c ws stamp t outcome d) = lifecycle ?d"
    by (simp add: replace_finish_def Let_def abs_simps)
  have new: "lifecycle ?d j = map_option (\<lambda>w. view (if ?hit w then ?f w else w)) (find_workspace j d)" for j
    by (rule lifecycle_update_workspaces) (simp add: id_f)
  show "pk (replace_finish n c ws stamp t outcome d)"
    using assms by (simp add: replace_finish_def Let_def abs_simps id_f)
  show "lifecycle (replace_finish n c ws stamp t outcome d) j = lifecycle d j" if "j \<noteq> ws_id ws"
    unfolding life new using that
    by (auto simp: lifecycle_def find_workspace_def dest!: find_row_Some intro!: map_option_cong)
  show "lifecycle (replace_finish n c ws stamp t outcome d) (ws_id ws) \<in>
      {lifecycle d (ws_id ws),
       map_option (\<lambda>(x, k). (replace_next_state ws outcome, k)) (lifecycle d (ws_id ws))}"
    unfolding life new
    by (cases "find_workspace (ws_id ws) d") (auto simp: lifecycle_def view_f, simp add: view_def)
qed

end
