(* ===== verification/Worker_Rows.thy ===== *)
theory Worker_Rows
  imports Worker_States
begin

text \<open>
  What one row task of a sweep may do: move its own row along an allowed edge, and put at
  most one call for that row in flight, whose kind fits the state it leaves the row in.
  The call never clashes with another, so \<open>track\<close> does not throw.
\<close>

section \<open>The lifecycle\<close>

text \<open>The moves a sweep or a finished call makes between states (\<open>WorkspaceState\<close>).\<close>

fun worker_edge :: "workspace_state \<Rightarrow> workspace_state \<Rightarrow> bool" where
  "worker_edge Provisioning y \<longleftrightarrow> y = Stopped \<or> y = Error"
| "worker_edge Stopped y \<longleftrightarrow> y = Starting \<or> y = Running \<or> y = Error"
| "worker_edge Starting y \<longleftrightarrow> y = Running \<or> y = Error"
| "worker_edge Running y \<longleftrightarrow> y = Stopping \<or> y = Stopped \<or> y = Error"
| "worker_edge Stopping y \<longleftrightarrow> y = Stopped \<or> y = Running \<or> y = Error"
| "worker_edge Error y \<longleftrightarrow> y = Starting \<or> y = Stopping \<or> y = Stopped"

type_synonym lifecycle_map = "uuid \<Rightarrow> (workspace_state \<times> nat) option"

text \<open>One row's change: none, or along an edge; only a retry of a start (\<open>up\<close>) spends one more.\<close>

definition edge_at :: "bool \<Rightarrow> lifecycle_map \<Rightarrow> lifecycle_map \<Rightarrow> uuid \<Rightarrow> bool" where
  "edge_at up m m' i \<longleftrightarrow>
     m' i = m i \<or>
     (\<exists>x n y k. m i = Some (x, n) \<and> m' i = Some (y, k) \<and> (x = y \<or> worker_edge x y) \<and>
        (k \<le> n \<or> (up \<and> x = Error \<and> y = Starting \<and> k = n + 1)))"

lemma edge_at_refl [simp]: "edge_at up m m i"
  by (simp add: edge_at_def)

lemma edge_at_moved:
  assumes "worker_edge fr to \<or> fr = to" "\<And>n. g n \<le> n \<or> (up \<and> fr = Error \<and> to = Starting \<and> g n = n + 1)"
  shows "edge_at up m (moved i fr to g m) i"
  using assms by (auto simp: edge_at_def moved_def split: option.splits)

section \<open>Calls and the states they belong to\<close>

fun call_target :: "call \<Rightarrow> uuid" where
  "call_target (CreateCall name ws n) = ws_id ws"
| "call_target (StartCall name ws l) = ws_id ws"
| "call_target (StartCalled ws l req) = ws_id ws"
| "call_target (StopCall ws) = ws_id ws"
| "call_target (OperationCall op) = op_id op"
| "call_target (ReplaceHomeCall name ws t) = ws_id ws"

definition maintains :: "workspace_state \<Rightarrow> workspace_state \<Rightarrow> bool" where
  "maintains from x \<longleftrightarrow>
     (from = Stopped \<or> from = Error) \<and> (x = from \<or> (from = Error \<and> x = Provisioning))"

fun matches :: "call \<Rightarrow> workspace_state \<Rightarrow> bool" where
  "matches (CreateCall name ws n) x \<longleftrightarrow> x = Provisioning"
| "matches (StartCall name ws l) x \<longleftrightarrow> x = Starting"
| "matches (StartCalled ws l req) x \<longleftrightarrow> x = Starting"
| "matches (StopCall ws) x \<longleftrightarrow> x = Stopping"
| "matches (OperationCall op) x \<longleftrightarrow> maintains (op_state op) x"
| "matches (ReplaceHomeCall name ws t) x \<longleftrightarrow> maintains (ws_state ws) x"

definition fits :: "lifecycle_map \<Rightarrow> uuid \<Rightarrow> call \<Rightarrow> bool" where
  "fits m i c \<longleftrightarrow> call_target c = i \<and> (\<forall>x n. m i = Some (x, n) \<longrightarrow> matches c x)"

definition launched :: "uuid \<Rightarrow> call \<Rightarrow> calls \<Rightarrow> calls \<Rightarrow> bool" where
  "launched i c cs cs' \<longleftrightarrow>
     runInBackground i c cs = Some cs' \<or> track i c Active False cs = Some cs'"

definition row_post :: "bool \<Rightarrow> uuid \<Rightarrow> worker \<Rightarrow> worker \<Rightarrow> bool" where
  "row_post up i s s' \<longleftrightarrow>
     pk (wdb s') \<and>
     (\<forall>j. j \<noteq> i \<longrightarrow> lifecycle (wdb s') j = lifecycle (wdb s) j) \<and>
     edge_at up (lifecycle (wdb s)) (lifecycle (wdb s')) i \<and>
     (wcalls s' = wcalls s \<or>
      (\<exists>c. launched i c (wcalls s) (wcalls s') \<and> fits (lifecycle (wdb s')) i c))"

lemma launch_background:
  assumes "i \<notin> set (inFlightIds (wcalls s))"
  obtains cs' where "launch (runInBackground i c) s = Some (s\<lparr>wcalls := cs'\<rparr>)"
    "launched i c (wcalls s) cs'"
  using runInBackground_total [OF assms, of c] by (auto simp: launch_def launched_def)

lemma launch_stop:
  assumes "ws_id ws \<notin> set (inFlightIds (wcalls s))"
  obtains cs' where "launch (stopInBackground ws) s = Some (s\<lparr>wcalls := cs'\<rparr>)"
    "launched (ws_id ws) (StopCall ws) (wcalls s) cs'"
  using assms by (auto simp: launch_def launched_def stopInBackground_def track_def)

lemma row_post_same:
  assumes "pk (wdb s)" "lifecycle (wdb s') = lifecycle (wdb s)" "pk (wdb s') = pk (wdb s)"
    "wcalls s' = wcalls s"
  shows "row_post up i s s'"
  using assms by (simp add: row_post_def)

section \<open>Starting\<close>

lemma startInBackground_post:
  assumes "pk (wdb s)" "ws_id ws \<notin> set (inFlightIds (wcalls s))" "fr = Stopped \<or> (fr = Error \<and> up)"
  shows "\<exists>s'. startInBackground cx ws fr lastRetry s = Some s' \<and> row_post up (ws_id ws) s s'"
proof (cases "truthy (incus_instance_name ws)")
  case None
  then show ?thesis using assms by (simp add: startInBackground_def row_post_same)
next
  case (Some name)
  let ?i = "ws_id ws"
  let ?r = "moveToStarting ?i fr (now cx) (wdb s)"
  note abs = moveToStarting_abs [OF assms(1), of ?i fr "now cx"]
  have edge: "edge_at up (lifecycle (wdb s)) (lifecycle (fst ?r)) ?i"
    unfolding abs(1) using assms(3) by (intro edge_at_moved) auto
  have others: "lifecycle (fst ?r) j = lifecycle (wdb s) j" if "j \<noteq> ?i" for j
    using that by (simp add: abs(1) moved_simps)
  show ?thesis
  proof (cases "snd ?r")
    case False
    then show ?thesis using Some abs(2) edge others
      by (simp add: startInBackground_def Let_def case_prod_beta row_post_def)
  next
    case True
    then obtain n where n: "lifecycle (wdb s) ?i = Some (fr, n)" using abs(3) by blast
    let ?s1 = "s\<lparr>wdb := fst ?r, transitions := transitions s + 1\<rparr>"
    have free: "?i \<notin> set (inFlightIds (wcalls ?s1))" using assms(2) by simp
    obtain cs' where l: "launch (runInBackground ?i (StartCall name ws lastRetry)) ?s1 =
        Some (?s1\<lparr>wcalls := cs'\<rparr>)" "launched ?i (StartCall name ws lastRetry) (wcalls ?s1) cs'"
      by (rule launch_background [OF free])
    have "startInBackground cx ws fr lastRetry s = Some (?s1\<lparr>wcalls := cs'\<rparr>)"
      using Some True l(1) by (simp add: startInBackground_def Let_def case_prod_beta)
    moreover have "fits (lifecycle (fst ?r)) ?i (StartCall name ws lastRetry)"
      using n by (simp add: fits_def abs(1) moved_simps)
    ultimately show ?thesis using l(2) abs(2) edge others by (auto simp: row_post_def)
  qed
qed

lemma retryErrored_post:
  assumes "pk (wdb s)" "ws_id ws \<notin> set (inFlightIds (wcalls s))"
  shows "\<exists>s'. retryErrored_row cx ws s = Some s' \<and> row_post True (ws_id ws) s s'"
  using startInBackground_post [of s ws Error True] assms
  by (auto simp: retryErrored_row_def Let_def row_post_same split: option.splits)

lemma createProvisioning_post:
  assumes "pk (wdb s)" "ws_id ws \<notin> set (inFlightIds (wcalls s))"
    and "\<And>x n. lifecycle (wdb s) (ws_id ws) = Some (x, n) \<Longrightarrow> x = Provisioning"
  shows "\<exists>s'. createProvisioning_row ws s = Some s' \<and> row_post up (ws_id ws) s s'"
proof (cases "truthy (incus_instance_name ws)")
  case None
  then show ?thesis using assms by (simp add: createProvisioning_row_def row_post_same)
next
  case (Some name)
  obtain cs' where l: "launch (runInBackground (ws_id ws) (CreateCall name ws 0)) s =
      Some (s\<lparr>wcalls := cs'\<rparr>)" "launched (ws_id ws) (CreateCall name ws 0) (wcalls s) cs'"
    by (rule launch_background [OF assms(2)])
  have "fits (lifecycle (wdb s)) (ws_id ws) (CreateCall name ws 0)"
    using assms(3) by (auto simp: fits_def)
  then show ?thesis using assms(1) Some l by (auto simp: createProvisioning_row_def row_post_def)
qed

section \<open>Stopping\<close>

lemma stop_row_post:
  assumes "pk (wdb s)" "ws_id ws \<notin> set (inFlightIds (wcalls s))"
  shows "\<exists>s'. stop_row cx ws s = Some s' \<and> row_post up (ws_id ws) s s'"
proof -
  let ?i = "ws_id ws"
  let ?r = "casUpdate ?i Running (\<lambda>w. w\<lparr>ws_state := Stopping\<rparr>) (now cx) (wdb s)"
  have life: "lifecycle (fst ?r) = moved ?i Running Stopping id (lifecycle (wdb s))"
    using assms(1) by (intro cas_lifecycle) (simp_all add: view_def)
  have hit: "snd ?r \<longleftrightarrow> (\<exists>n. lifecycle (wdb s) ?i = Some (Running, n))"
    using assms(1) by (intro cas_hit [where to = Stopping and g = id]) (simp_all add: view_def)
  have pk: "pk (fst ?r)" using assms(1) by (simp add: abs_simps)
  have edge: "edge_at up (lifecycle (wdb s)) (lifecycle (fst ?r)) ?i"
    unfolding life by (intro edge_at_moved) auto
  have others: "lifecycle (fst ?r) j = lifecycle (wdb s) j" if "j \<noteq> ?i" for j
    using that by (simp add: life moved_simps)
  show ?thesis
  proof (cases "snd ?r")
    case False
    then show ?thesis using pk edge others
      by (simp add: stop_row_def Let_def case_prod_beta row_post_def)
  next
    case True
    then obtain n where n: "lifecycle (wdb s) ?i = Some (Running, n)" using hit by blast
    let ?s1 = "s\<lparr>transitions := transitions s + 1, wdb := endOpenTerminals ?i (now cx) (fst ?r)\<rparr>"
    have free: "?i \<notin> set (inFlightIds (wcalls ?s1))" using assms(2) by simp
    obtain cs' where l: "launch (stopInBackground ws) ?s1 = Some (?s1\<lparr>wcalls := cs'\<rparr>)"
      "launched ?i (StopCall ws) (wcalls ?s1) cs'"
      by (rule launch_stop [OF free])
    have "stop_row cx ws s = Some (?s1\<lparr>wcalls := cs'\<rparr>)"
      using True l(1) by (simp add: stop_row_def Let_def case_prod_beta)
    moreover have "fits (lifecycle (fst ?r)) ?i (StopCall ws)"
      using n by (simp add: fits_def life moved_simps)
    ultimately show ?thesis using l(2) pk edge others by (auto simp: row_post_def abs_simps)
  qed
qed

lemma stopDeadline_row_post:
  assumes "pk (wdb s)" "ws_id ws \<notin> set (inFlightIds (wcalls s))"
    and "\<And>x n. lifecycle (wdb s) (ws_id ws) = Some (x, n) \<Longrightarrow> x = Stopping"
  shows "\<exists>s'. stopDeadline_row cx ws s = Some s' \<and> row_post up (ws_id ws) s s'"
proof -
  let ?s1 = "s\<lparr>transitions := transitions s + 1,
    wdb := endOpenTerminals (ws_id ws) (now cx) (wdb s)\<rparr>"
  have free: "ws_id ws \<notin> set (inFlightIds (wcalls ?s1))" using assms(2) by simp
  obtain cs' where l: "launch (stopInBackground ws) ?s1 = Some (?s1\<lparr>wcalls := cs'\<rparr>)"
    "launched (ws_id ws) (StopCall ws) (wcalls ?s1) cs'"
    by (rule launch_stop [OF free])
  have "fits (lifecycle (wdb s)) (ws_id ws) (StopCall ws)" using assms(3) by (auto simp: fits_def)
  then show ?thesis using assms(1) l
    by (auto simp: stopDeadline_row_def Let_def row_post_def abs_simps)
qed

lemma stopExplicit_post:
  assumes "pk (wdb s)" "ws_id ws \<notin> set (inFlightIds (wcalls s))"
  shows "\<exists>s'. stopExplicit_row cx ws s = Some s' \<and> row_post up (ws_id ws) s s'"
  using stop_row_post [OF assms] assms(1)
  by (simp add: stopExplicit_row_def row_post_same)

lemma stopForOperation_post:
  assumes "pk (wdb s)" "ws_id ws \<notin> set (inFlightIds (wcalls s))"
  shows "\<exists>s'. stopForOperation_row cx ws s = Some s' \<and> row_post up (ws_id ws) s s'"
  using stop_row_post [OF assms] assms(1)
  by (simp add: stopForOperation_row_def row_post_same)

lemma row_post_trans:
  assumes "row_post up i s1 s'" "lifecycle (wdb s1) = lifecycle (wdb s)" "wcalls s1 = wcalls s"
  shows "row_post up i s s'"
  using assms by (simp add: row_post_def)

lemma stopIdle_row_post:
  assumes "pk (wdb s)" "ws_id ws \<notin> set (inFlightIds (wcalls s))"
    and "\<And>x n. lifecycle (wdb s) (ws_id ws) = Some (x, n) \<Longrightarrow> x = Stopping"
  shows "\<exists>s'. stopIdle_row cx (ws, m) s = Some s' \<and> row_post up (ws_id ws) s s'"
proof -
  let ?s1 = "s\<lparr>wdb := workerAudit (ws_id ws) ''workspace.idle_stopped'' ResOk
      (Some [(''idleMinutes'', case m of None \<Rightarrow> JNull | Some m \<Rightarrow> JNum (of_int m))]) (wdb s)\<rparr>"
  have "\<exists>s'. stopDeadline_row cx ws ?s1 = Some s' \<and> row_post up (ws_id ws) ?s1 s'"
    using assms by (intro stopDeadline_row_post) (simp_all add: abs_simps)
  then obtain s' where "stopDeadline_row cx ws ?s1 = Some s'" "row_post up (ws_id ws) ?s1 s'" by blast
  moreover from this(2) have "row_post up (ws_id ws) s s'"
    by (rule row_post_trans) (simp_all add: abs_simps)
  ultimately show ?thesis by (simp add: stopIdle_row_def)
qed

section \<open>Maintenance\<close>

lemma runMaintenance_post:
  assumes "pk (wdb s)" "ws_id ws \<notin> set (inFlightIds (wcalls s))"
    and "\<And>x n. lifecycle (wdb s) (ws_id ws) = Some (x, n) \<Longrightarrow> maintains (ws_state ws) x"
  shows "\<exists>s'. runMaintenance_row cx ws s = Some s' \<and> row_post up (ws_id ws) s s'"
proof -
  have run: "\<exists>s'. launch (runInBackground (ws_id ws) c) s = Some s' \<and> row_post up (ws_id ws) s s'"
    if "fits (lifecycle (wdb s)) (ws_id ws) c" for c
  proof -
    obtain cs' where "launch (runInBackground (ws_id ws) c) s = Some (s\<lparr>wcalls := cs'\<rparr>)"
      "launched (ws_id ws) c (wcalls s) cs'"
      by (rule launch_background [OF assms(2)])
    then show ?thesis using assms(1) that by (auto simp: row_post_def)
  qed
  show ?thesis
    using assms(1,3) by (auto simp: runMaintenance_row_def row_post_same fits_def
        split: option.splits intro!: run)
qed

section \<open>Drift\<close>

lemma cas_then_post:
  assumes "pk (wdb s)" "\<And>w. ws_id (f w) = ws_id w" "\<And>w. view (f w) = (to, g (start_retries w))"
    and "worker_edge fr to" "\<And>n. g n \<le> n"
    and "\<And>d. lifecycle (after d) = lifecycle d" "\<And>d. pk (after d) = pk d"
  shows "row_post up i s (cas_then i fr f t after s)"
proof -
  let ?r = "casUpdate i fr f t (wdb s)"
  have life: "lifecycle (fst ?r) = moved i fr to g (lifecycle (wdb s))"
    by (rule cas_lifecycle [OF assms(1-3)])
  have pk: "pk (fst ?r)" using assms(1,2) by (simp add: abs_simps)
  have "edge_at up (lifecycle (wdb s)) (lifecycle (fst ?r)) i"
    unfolding life using assms(4,5) by (intro edge_at_moved) auto
  moreover have "lifecycle (fst ?r) j = lifecycle (wdb s) j" if "j \<noteq> i" for j
    using that by (simp add: life moved_simps)
  ultimately show ?thesis using pk assms(6,7)
    by (simp add: cas_then_def case_prod_beta row_post_def bump_def)
qed

lemma resolveMissingInstance_post:
  assumes "pk (wdb s)" "ws_state ws \<noteq> Provisioning"
  shows "row_post up (ws_id ws) s (resolveMissingInstance cx ws name s)"
proof (cases "ws_state ws = Error")
  case True
  then show ?thesis using assms
    by (simp add: resolveMissingInstance_def row_post_same abs_simps view_def)
next
  case False
  then have "worker_edge (ws_state ws) Error" using assms(2) by (cases "ws_state ws") auto
  then show ?thesis using assms(1) False unfolding resolveMissingInstance_def
    by simp (rule cas_then_post [where to = Error and g = id]; simp add: view_def abs_simps)
qed

lemma driftStopped_post:
  "pk (wdb s) \<Longrightarrow> row_post up (ws_id ws) s (driftStopped cx ws inst s)"
  unfolding driftStopped_def
  by (auto simp: row_post_same intro!: cas_then_post [where to = Stopped and g = id])
     (simp_all add: view_def abs_simps)

lemma driftRunning_post:
  "pk (wdb s) \<Longrightarrow> row_post up (ws_id ws) s (driftRunning cx ws inst s)"
  unfolding driftRunning_def
  by (auto simp: row_post_same intro!: cas_then_post [where to = Running and g = "\<lambda>_. 0"])
     (simp_all add: view_def abs_simps startedNow_def)

lemma resolveStarting_post:
  assumes "pk (wdb s)"
  shows "row_post up (ws_id ws) s (resolveStarting cx ws inst s)"
proof (cases "inst_status inst")
  case InstRunning
  show ?thesis unfolding resolveStarting_def InstRunning instance_status.case
    by (rule cas_then_post [where to = Running and g = "\<lambda>_. 0"])
       (simp_all add: assms view_def abs_simps startedNow_def)
next
  case InstStopped
  show ?thesis unfolding resolveStarting_def InstStopped instance_status.case
    by (rule cas_then_post [where to = Error and g = id]) (simp_all add: assms view_def abs_simps)
qed (simp add: resolveStarting_def row_post_same assms)

lemma resolveStopping_post:
  assumes "pk (wdb s)"
  shows "row_post up (ws_id ws) s (resolveStopping cx ws inst s)"
proof (cases "inst_status inst")
  case InstRunning
  show ?thesis unfolding resolveStopping_def InstRunning instance_status.case
    by (rule cas_then_post [where to = Running and g = id]) (simp_all add: assms view_def abs_simps)
next
  case InstStopped
  show ?thesis unfolding resolveStopping_def InstStopped instance_status.case
    by (rule cas_then_post [where to = Stopped and g = id]) (simp_all add: assms view_def abs_simps)
qed (simp add: resolveStopping_def row_post_same assms)

lemma driftErrored_post:
  assumes "pk (wdb s)" "ws_id ws \<notin> set (inFlightIds (wcalls s))"
  shows "\<exists>s'. driftErrored cx ws inst s = Some s' \<and> row_post up (ws_id ws) s s'"
proof (cases "ws_state ws = Error \<and> ws_desired ws = WantStopped \<and>
    ws_error_code ws \<noteq> Some STOP_FAILED \<and> inst_status inst = InstRunning")
  case False
  then show ?thesis using assms by (auto simp: driftErrored_def row_post_same)
next
  case True
  let ?i = "ws_id ws"
  let ?Q = "\<lambda>w. ws_state w = Error \<and> ws_desired w = WantStopped"
  let ?f = "\<lambda>w. w\<lparr>ws_state := Stopping, ws_error_code := None, ws_error_message := None,
    updated_at := now cx\<rparr>"
  let ?d = "update_workspaces (\<lambda>w. ws_id w = ?i \<and> ?Q w) ?f (wdb s)"
  have pk: "pk ?d" using assms(1) by (simp add: abs_simps)
  show ?thesis
  proof (cases "rows_where (\<lambda>w. ws_id w = ?i \<and> ?Q w) (wdb s) = []")
    case none: True
    then have "?d = wdb s"
      by (simp add: rows_where_def filter_empty_conv update_workspaces_def upd_where_none)
    then show ?thesis using True none assms(1) by (simp add: driftErrored_def row_post_same)
  next
    case False
    then obtain w where w: "find_workspace ?i (wdb s) = Some w" "?Q w"
      using rows_where_by_id [OF assms(1), of ?i ?Q] by auto
    have life: "lifecycle ?d = moved ?i Error Stopping id (lifecycle (wdb s))"
      using w by (intro lifecycle_update_by_id) (simp_all add: view_def)
    have now: "lifecycle ?d ?i = Some (Stopping, start_retries w)"
      using w by (simp add: life lifecycle_def view_def moved_simps)
    let ?s1 = "bump (s\<lparr>wdb := endOpenTerminals ?i (now cx) ?d\<rparr>)"
    have free: "?i \<notin> set (inFlightIds (wcalls ?s1))" using assms(2) by (simp add: bump_def)
    obtain cs' where l: "launch (stopInBackground ws) ?s1 = Some (?s1\<lparr>wcalls := cs'\<rparr>)"
      "launched ?i (StopCall ws) (wcalls ?s1) cs'"
      by (rule launch_stop [OF free])
    have "driftErrored cx ws inst s = Some (?s1\<lparr>wcalls := cs'\<rparr>)"
      using True False l(1) by (simp add: driftErrored_def Let_def)
    moreover have "edge_at up (lifecycle (wdb s)) (lifecycle ?d) ?i"
      unfolding life by (intro edge_at_moved) auto
    moreover have "lifecycle ?d j = lifecycle (wdb s) j" if "j \<noteq> ?i" for j
      using that by (simp add: life moved_simps)
    moreover have "fits (lifecycle ?d) ?i (StopCall ws)" using now by (simp add: fits_def)
    ultimately show ?thesis using l(2) pk by (auto simp: row_post_def abs_simps bump_def)
  qed
qed

lemma drift_skip:
  "ws_state ws \<noteq> Running \<Longrightarrow> driftStopped cx ws inst s = s"
  "ws_state ws \<noteq> Stopped \<Longrightarrow> driftRunning cx ws inst s = s"
  "ws_state ws \<noteq> Error \<Longrightarrow> driftErrored cx ws inst s = Some s"
  by (simp_all add: driftStopped_def driftRunning_def driftErrored_def)

text \<open>A row's snapshot is in one state, so at most one of the drift rules acts on it.\<close>

lemma reconcileTracked_post:
  assumes "pk (wdb s)" "ws_id ws \<notin> set (inFlightIds (wcalls s))" "ws_state ws \<noteq> Provisioning"
  shows "\<exists>s'. reconcileTracked cx instances ws name s = Some s' \<and> row_post up (ws_id ws) s s'"
proof (cases "instance_named name instances")
  case None
  then show ?thesis using resolveMissingInstance_post [OF assms(1,3)]
    by (simp add: reconcileTracked_def)
next
  case (Some inst)
  let ?s1 = "on_db (syncAgentAddress ws inst) s"
  have pk: "pk (wdb ?s1)" and free: "ws_id ws \<notin> set (inFlightIds (wcalls ?s1))"
    using assms(1,2) by (simp_all add: abs_simps)
  have "\<exists>s'. reconcileTracked cx instances ws name s = Some s' \<and> row_post up (ws_id ws) ?s1 s'"
    using Some assms(3) driftStopped_post [OF pk, of up ws cx inst]
      driftRunning_post [OF pk, of up ws cx inst] driftErrored_post [OF pk free, of cx inst up]
      resolveStarting_post [OF pk, of up ws cx inst] resolveStopping_post [OF pk, of up ws cx inst]
    by (cases "ws_state ws") (auto simp: reconcileTracked_def resolveDrift_def drift_skip)
  then obtain s' where "reconcileTracked cx instances ws name s = Some s'"
    "row_post up (ws_id ws) ?s1 s'" by blast
  moreover from this(2) have "row_post up (ws_id ws) s s'"
    by (rule row_post_trans) (simp_all add: abs_simps)
  ultimately show ?thesis by blast
qed

lemma tracked_row_post:
  assumes "pk (wdb s)" "ws_state ws \<noteq> Provisioning"
    and "ws_id ws \<notin> set during \<Longrightarrow> ws_id ws \<notin> set (inFlightIds (wcalls s))"
  shows "\<exists>s'. tracked_row cx instances during ws s = Some s' \<and> row_post up (ws_id ws) s s'"
  using assms reconcileTracked_post [of s ws cx instances _ up]
  by (auto simp: tracked_row_def row_post_same split: option.splits)

section \<open>The two statements that stop on a timer\<close>

text \<open>They move running rows with no call in flight, and return the rows they moved.\<close>

lemma timer_stop_abs:
  fixes Q :: "workspace \<Rightarrow> bool" and s :: worker and t :: millis
  defines "P \<equiv> \<lambda>w. ws_state w = Running \<and> Q w \<and> notInFlight (wcalls s) w"
    and "f \<equiv> \<lambda>w. w\<lparr>ws_state := Stopping, ws_desired := timer_desired w, updated_at := t\<rparr>"
  assumes "pk (wdb s)"
  shows "pk (update_workspaces P f (wdb s))"
    and "edge_at up (lifecycle (wdb s)) (lifecycle (update_workspaces P f (wdb s))) i"
    and "i \<in> set (inFlightIds (wcalls s)) \<Longrightarrow>
      lifecycle (update_workspaces P f (wdb s)) i = lifecycle (wdb s) i"
    and "w \<in> set (map f (rows_where P (wdb s))) \<Longrightarrow>
      ws_id w \<notin> set (inFlightIds (wcalls s)) \<and>
      (\<exists>n. lifecycle (update_workspaces P f (wdb s)) (ws_id w) = Some (Stopping, n))"
    and "distinct (map ws_id (map f (rows_where P (wdb s))))"
proof -
  have f: "ws_id (f w) = ws_id w" "view (f w) = (Stopping, start_retries w)" for w
    by (simp_all add: f_def view_def)
  have new: "lifecycle (update_workspaces P f (wdb s)) j =
      map_option (\<lambda>w. view (if P w then f w else w)) (find_workspace j (wdb s))" for j
    by (rule lifecycle_update_workspaces) (simp add: f)
  show "pk (update_workspaces P f (wdb s))" using assms(3) by (simp add: abs_simps f)
  show "edge_at up (lifecycle (wdb s)) (lifecycle (update_workspaces P f (wdb s))) i"
    unfolding edge_at_def new
    by (cases "find_workspace i (wdb s)") (auto simp: lifecycle_def f P_def, auto simp: view_def)
  have id_found: "ws_id w = j" if "find_workspace j (wdb s) = Some w" for j w
    using that by (auto simp: find_workspace_def dest: find_row_Some)
  show "lifecycle (update_workspaces P f (wdb s)) i = lifecycle (wdb s) i"
    if "i \<in> set (inFlightIds (wcalls s))"
    unfolding new using that id_found
    by (cases "find_workspace i (wdb s)") (auto simp: lifecycle_def P_def notInFlight_def)
  show "ws_id w \<notin> set (inFlightIds (wcalls s)) \<and>
      (\<exists>n. lifecycle (update_workspaces P f (wdb s)) (ws_id w) = Some (Stopping, n))"
    if "w \<in> set (map f (rows_where P (wdb s)))"
  proof -
    from that obtain v where v: "v \<in> set (workspaces (wdb s))" "P v" "w = f v"
      by (auto simp: rows_where_def)
    then have "find_workspace (ws_id v) (wdb s) = Some v"
      using assms(3) by (simp add: find_workspace_def find_row_Some_iff pk_def)
    then show ?thesis using v unfolding new by (auto simp: f P_def notInFlight_def)
  qed
  show "distinct (map ws_id (map f (rows_where P (wdb s))))"
    using assms(3) by (simp add: o_def f rows_where_def pk_def distinct_map_filter)
qed

end
