(* ===== verification/Worker_Safety.thy ===== *)
theory Worker_Safety
  imports Worker_Rows
begin

text \<open>
  The invariant of the whole system under every interleaving of sweep tasks, background
  calls, API writes and restarts, and what it gives: \<open>track\<close> never throws, at most six
  slots are taken and none is lost, every call in flight belongs to a row in the matching
  state, and no workspace is retried more than \<open>MAX_START_RETRIES\<close> times.
\<close>

section \<open>The agenda\<close>

fun task_ids :: "task \<Rightarrow> uuid list" where
  "task_ids (RowCreate w) = [ws_id w]"
| "task_ids (RowStart w) = [ws_id w]"
| "task_ids (RowStop w) = [ws_id w]"
| "task_ids (RowStopForOperation w) = [ws_id w]"
| "task_ids (RowDeadline w) = [ws_id w]"
| "task_ids (RowIdle w m) = [ws_id w]"
| "task_ids (RowRetry w) = [ws_id w]"
| "task_ids (RowMaintenance w) = [ws_id w]"
| "task_ids (RowTracked instances during w) = (if ws_id w \<in> set during then [] else [ws_id w])"
| "task_ids _ = []"

fun is_row :: "task \<Rightarrow> bool" where
  "is_row (RowCreate w) = True"
| "is_row (RowStart w) = True"
| "is_row (RowStop w) = True"
| "is_row (RowStopForOperation w) = True"
| "is_row (RowDeadline w) = True"
| "is_row (RowIdle w m) = True"
| "is_row (RowRetry w) = True"
| "is_row (RowMaintenance w) = True"
| "is_row (RowTracked instances during w) = True"
| "is_row _ = False"

fun is_list :: "task \<Rightarrow> bool" where
  "is_list (AwaitList during) = True"
| "is_list (SelectTracked instances during) = True"
| "is_list _ = False"

text \<open>What still holds of the row a pending task was made for.\<close>

definition row_is :: "lifecycle_map \<Rightarrow> uuid \<Rightarrow> (workspace_state \<Rightarrow> nat \<Rightarrow> bool) \<Rightarrow> bool" where
  "row_is m i Q \<longleftrightarrow> (\<forall>x n. m i = Some (x, n) \<longrightarrow> Q x n)"

fun task_fits :: "lifecycle_map \<Rightarrow> uuid set \<Rightarrow> task \<Rightarrow> bool" where
  "task_fits m fl (RowCreate w) \<longleftrightarrow> row_is m (ws_id w) (\<lambda>x n. x = Provisioning)"
| "task_fits m fl (RowDeadline w) \<longleftrightarrow> row_is m (ws_id w) (\<lambda>x n. x = Stopping)"
| "task_fits m fl (RowIdle w k) \<longleftrightarrow> row_is m (ws_id w) (\<lambda>x n. x = Stopping)"
| "task_fits m fl (RowMaintenance w) \<longleftrightarrow> row_is m (ws_id w) (\<lambda>x n. maintains (ws_state w) x)"
| "task_fits m fl (RowRetry w) \<longleftrightarrow>
     start_retries w < MAX_START_RETRIES \<and> row_is m (ws_id w) (\<lambda>x n. n \<le> start_retries w)"
| "task_fits m fl (RowTracked instances during w) \<longleftrightarrow> ws_state w \<noteq> Provisioning"
| "task_fits m fl (AwaitList during) \<longleftrightarrow> fl \<subseteq> set during"
| "task_fits m fl (SelectTracked instances during) \<longleftrightarrow> fl \<subseteq> set during"
| "task_fits m fl _ \<longleftrightarrow> True"

fun rows_first :: "task list \<Rightarrow> bool" where
  "rows_first [] \<longleftrightarrow> True"
| "rows_first (t # ts) \<longleftrightarrow>
     (if is_row t then rows_first ts else list_all (\<lambda>t. \<not> is_row t) ts)"

definition agenda_ids :: "task list \<Rightarrow> uuid list" where
  "agenda_ids ts = concat (map task_ids ts)"

definition agenda_ok :: "lifecycle_map \<Rightarrow> uuid set \<Rightarrow> task list \<Rightarrow> bool" where
  "agenda_ok m fl ts \<longleftrightarrow>
     rows_first ts \<and> list_all (\<lambda>t. \<not> is_list t) (tl ts) \<and>
     distinct (agenda_ids ts) \<and> set (agenda_ids ts) \<inter> fl = {} \<and>
     list_all (task_fits m fl) ts"

definition flight_ok :: "lifecycle_map \<Rightarrow> calls \<Rightarrow> bool" where
  "flight_ok m cs \<longleftrightarrow> (\<forall>f\<in>set (inFlight cs). fits m (fl_id f) (fl_call f))"

definition retries_ok :: "lifecycle_map \<Rightarrow> bool" where
  "retries_ok m \<longleftrightarrow> (\<forall>i. row_is m i (\<lambda>x n. n \<le> MAX_START_RETRIES))"

definition worker_inv :: "worker \<Rightarrow> task list \<Rightarrow> bool" where
  "worker_inv w ts \<longleftrightarrow>
     pk (wdb w) \<and> calls_ok (wcalls w) \<and> flight_ok (lifecycle (wdb w)) (wcalls w) \<and>
     agenda_ok (lifecycle (wdb w)) (set (inFlightIds (wcalls w))) ts \<and>
     retries_ok (lifecycle (wdb w))"

definition sys_inv :: "system \<Rightarrow> bool" where
  "sys_inv s \<longleftrightarrow> worker_inv (worker s) (agenda s)"

lemma not_row_no_ids: "\<not> is_row t \<Longrightarrow> task_ids t = []"
  by (cases t) auto

lemma no_rows_no_ids: "list_all (\<lambda>t. \<not> is_row t) ts \<Longrightarrow> agenda_ids ts = []"
  by (induction ts) (auto simp: agenda_ids_def not_row_no_ids)

lemma agenda_ids_simps [simp]:
  "agenda_ids [] = []" "agenda_ids (t # ts) = task_ids t @ agenda_ids ts"
  "agenda_ids (ts @ us) = agenda_ids ts @ agenda_ids us"
  by (simp_all add: agenda_ids_def)

lemma rows_first_append:
  "list_all is_row ts \<Longrightarrow> list_all (\<lambda>t. \<not> is_row t) us \<Longrightarrow> rows_first (ts @ us)"
proof (induction ts)
  case Nil
  then show ?case by (cases us) auto
qed auto

text \<open>A pending task sees only its own row, and a task that is no query only that.\<close>

lemma task_fits_cong:
  assumes "\<And>i. i \<in> set (task_ids t) \<Longrightarrow> m' i = m i" "fl' \<subseteq> fl \<or> \<not> is_list t"
    "task_fits m fl t"
  shows "task_fits m' fl' t"
  using assms by (cases t) (auto simp: row_is_def split: if_splits)

lemma agenda_tasks_cong:
  assumes "\<And>i. i \<in> set (agenda_ids ts) \<Longrightarrow> m' i = m i" "fl' \<subseteq> fl \<or> list_all (\<lambda>t. \<not> is_list t) ts"
    "list_all (task_fits m fl) ts"
  shows "list_all (task_fits m' fl') ts"
  using assms
proof (induction ts)
  case (Cons t ts)
  have "task_fits m' fl' t"
    by (rule task_fits_cong [where m = m and fl = fl]) (use Cons.prems in auto)
  moreover have "list_all (task_fits m' fl') ts"
    by (rule Cons.IH) (use Cons.prems in auto)
  ultimately show ?case by simp
qed simp

lemma fits_cong: "m' i = m i \<Longrightarrow> fits m i c \<Longrightarrow> fits m' i c"
  by (simp add: fits_def)

section \<open>A row task\<close>

lemma launched_inFlight:
  "launched i c cs cs' \<Longrightarrow> \<exists>ph sl. inFlight cs' = inFlight cs @
     [\<lparr>fl_id = i, fl_call = c, fl_phase = ph, fl_slot = sl\<rparr>]"
  by (auto simp: launched_def runInBackground_def track_Some_iff split: if_splits)

lemma launched_ok: "launched i c cs cs' \<Longrightarrow> calls_ok cs \<Longrightarrow> calls_ok cs'"
  unfolding launched_def
  by (elim disjE, erule (1) runInBackground_ok [rotated])
     (auto simp: calls_ok_def track_Some_iff inFlightIds_def holding_def)

lemma row_post_inv:
  assumes inv: "worker_inv s (t # ts)" and ids: "task_ids t = [i]" and row: "is_row t"
    and post: "row_post up i s s'"
    and up: "up \<Longrightarrow> row_is (lifecycle (wdb s)) i (\<lambda>x n. n < MAX_START_RETRIES)"
  shows "worker_inv s' ts"
proof -
  let ?m = "lifecycle (wdb s)" and ?m' = "lifecycle (wdb s')"
  from inv have ok: "calls_ok (wcalls s)" "flight_ok ?m (wcalls s)" "retries_ok ?m"
    and ag: "rows_first ts" "list_all (\<lambda>t. \<not> is_list t) ts" "distinct (agenda_ids ts)"
      "i \<notin> set (agenda_ids ts)" "i \<notin> set (inFlightIds (wcalls s))"
      "set (agenda_ids ts) \<inter> set (inFlightIds (wcalls s)) = {}"
      "list_all (task_fits ?m (set (inFlightIds (wcalls s)))) ts"
    using ids row by (auto simp: worker_inv_def agenda_ok_def)
  from post have pk: "pk (wdb s')" and others: "\<And>j. j \<noteq> i \<Longrightarrow> ?m' j = ?m j"
    and edge: "edge_at up ?m ?m' i" by (simp_all add: row_post_def)
  have old: "fits ?m' (fl_id f) (fl_call f)" if "f \<in> set (inFlight (wcalls s))" for f
  proof -
    have "fl_id f \<noteq> i" using that ag(5) by (auto simp: inFlightIds_def)
    then show ?thesis using ok(2) that others by (auto simp: flight_ok_def intro: fits_cong [where m = ?m])
  qed
  have calls: "calls_ok (wcalls s') \<and> flight_ok ?m' (wcalls s') \<and>
      set (inFlightIds (wcalls s')) \<subseteq> insert i (set (inFlightIds (wcalls s)))"
  proof (cases "wcalls s' = wcalls s")
    case True
    then show ?thesis using ok(1) old by (auto simp: flight_ok_def)
  next
    case False
    then obtain c where c: "launched i c (wcalls s) (wcalls s')" "fits ?m' i c"
      using post by (auto simp: row_post_def)
    then show ?thesis using launched_inFlight [OF c(1)] launched_ok [OF c(1) ok(1)] old
      by (auto simp: flight_ok_def inFlightIds_def)
  qed
  have "retries_ok ?m'"
    unfolding retries_ok_def
  proof
    fix j
    show "row_is ?m' j (\<lambda>x n. n \<le> MAX_START_RETRIES)"
    proof (cases "j = i")
      case True
      then show ?thesis using edge ok(3) up
        by (cases up) (force simp: edge_at_def row_is_def retries_ok_def)+
    next
      case False
      then show ?thesis using others ok(3) by (simp add: row_is_def retries_ok_def)
    qed
  qed
  moreover have "agenda_ok ?m' (set (inFlightIds (wcalls s'))) ts"
  proof -
    have "?m' j = ?m j" if "j \<in> set (agenda_ids ts)" for j using that ag(4) others by metis
    then have "list_all (task_fits ?m' (set (inFlightIds (wcalls s')))) ts"
      using agenda_tasks_cong [where m = ?m and fl = "set (inFlightIds (wcalls s))"] ag by blast
    moreover have "list_all (\<lambda>t. \<not> is_list t) (tl ts)" using ag(2) by (cases ts) auto
    ultimately show ?thesis using ag calls by (auto simp: agenda_ok_def)
  qed
  ultimately show ?thesis using pk calls by (simp add: worker_inv_def)
qed

section \<open>Queries and single statements\<close>

lemma agenda_tail:
  assumes "agenda_ok m fl (t # ts)" "\<not> is_row t"
  shows "list_all (\<lambda>t. \<not> is_row t) ts" "list_all (\<lambda>t. \<not> is_list t) ts" "agenda_ids ts = []"
    "list_all (task_fits m fl) ts"
  using assms by (auto simp: agenda_ok_def no_rows_no_ids)

lemma statement_inv:
  assumes "worker_inv s (t # ts)" "\<not> is_row t"
    and "lifecycle (wdb s') = lifecycle (wdb s)" "pk (wdb s') = pk (wdb s)" "wcalls s' = wcalls s"
  shows "worker_inv s' ts"
proof -
  have ag: "agenda_ok (lifecycle (wdb s)) (set (inFlightIds (wcalls s))) (t # ts)"
    using assms(1) by (simp add: worker_inv_def)
  have "rows_first ts" using agenda_tail(1) [OF ag assms(2)] by (cases ts) auto
  moreover have "list_all (\<lambda>t. \<not> is_list t) (tl ts)"
    using agenda_tail(2) [OF ag assms(2)] by (cases ts) auto
  ultimately show ?thesis
    using assms agenda_tail [OF ag assms(2)] by (simp add: worker_inv_def agenda_ok_def)
qed

lemma query_inv:
  assumes inv: "worker_inv s (t # ts)" "\<not> is_row t"
    and pk: "pk (wdb s')" and calls: "wcalls s' = wcalls s"
    and frame: "\<And>i. i \<in> set (inFlightIds (wcalls s)) \<Longrightarrow> lifecycle (wdb s') i = lifecycle (wdb s) i"
    and retries: "\<And>i. edge_at False (lifecycle (wdb s)) (lifecycle (wdb s')) i"
    and new: "list_all is_row new" "list_all (\<lambda>t. \<not> is_list t) new" "distinct (agenda_ids new)"
      "set (agenda_ids new) \<inter> set (inFlightIds (wcalls s)) = {}"
      "list_all (task_fits (lifecycle (wdb s')) (set (inFlightIds (wcalls s)))) new"
  shows "worker_inv s' (new @ ts)"
proof -
  let ?m = "lifecycle (wdb s)" and ?m' = "lifecycle (wdb s')"
  let ?fl = "set (inFlightIds (wcalls s))"
  have ag: "agenda_ok ?m ?fl (t # ts)" using inv(1) by (simp add: worker_inv_def)
  note tail = agenda_tail [OF ag inv(2)]
  have fits: "list_all (task_fits ?m' ?fl) ts"
    by (rule agenda_tasks_cong [where m = ?m and fl = ?fl]) (use tail in auto)
  have "list_all (\<lambda>t. \<not> is_list t) (tl (new @ ts))"
    using new(2) tail(2) by (cases new; cases ts) auto
  then have "agenda_ok ?m' ?fl (new @ ts)"
    using rows_first_append [OF new(1) tail(1)] new tail(3) fits by (simp add: agenda_ok_def)
  moreover have "flight_ok ?m' (wcalls s)"
    using inv(1) frame by (auto simp: worker_inv_def flight_ok_def inFlightIds_def
        intro: fits_cong [where m = ?m])
  moreover have "retries_ok ?m'" unfolding retries_ok_def row_is_def
  proof (intro allI impI)
    fix i x n
    assume "?m' i = Some (x, n)"
    then obtain y k where "?m i = Some (y, k)" "n \<le> k" using retries [of i]
      by (auto simp: edge_at_def dest: sym)
    then show "n \<le> MAX_START_RETRIES" using inv(1)
      by (fastforce simp: worker_inv_def retries_ok_def row_is_def)
  qed
  ultimately show ?thesis using inv(1) pk calls by (simp add: worker_inv_def)
qed

lemma select_inv:
  assumes "worker_inv s (t # ts)" "\<not> is_row t"
    and "list_all is_row new" "list_all (\<lambda>t. \<not> is_list t) new" "distinct (agenda_ids new)"
      "set (agenda_ids new) \<inter> set (inFlightIds (wcalls s)) = {}"
      "list_all (task_fits (lifecycle (wdb s)) (set (inFlightIds (wcalls s)))) new"
  shows "worker_inv s (new @ ts)"
  by (rule query_inv [OF assms(1,2)]) (use assms in \<open>auto simp: worker_inv_def\<close>)

text \<open>One task per row of a query that skips rows in flight.\<close>

lemma row_tasks:
  assumes pk: "pk (wdb s)" and R: "\<And>w. is_row (R w) \<and> \<not> is_list (R w) \<and> task_ids (R w) = [ws_id w]"
    and P: "\<And>w. P w \<Longrightarrow> notInFlight (wcalls s) w"
    and fits: "\<And>w. find_workspace (ws_id w) (wdb s) = Some w \<Longrightarrow> P w \<Longrightarrow> task_fits (lifecycle (wdb s)) fl (R w)"
  shows "list_all is_row (map R (rows_where P (wdb s)))"
    and "list_all (\<lambda>t. \<not> is_list t) (map R (rows_where P (wdb s)))"
    and "distinct (agenda_ids (map R (rows_where P (wdb s))))"
    and "set (agenda_ids (map R (rows_where P (wdb s)))) \<inter> set (inFlightIds (wcalls s)) = {}"
    and "list_all (task_fits (lifecycle (wdb s)) fl) (map R (rows_where P (wdb s)))"
proof -
  have ids: "agenda_ids (map R ws) = map ws_id ws" for ws
    by (induction ws) (simp_all add: R)
  show "list_all is_row (map R (rows_where P (wdb s)))"
    "list_all (\<lambda>t. \<not> is_list t) (map R (rows_where P (wdb s)))"
    using R by (simp_all add: list_all_iff)
  show "distinct (agenda_ids (map R (rows_where P (wdb s))))"
    unfolding ids using pk by (simp add: rows_where_def pk_def distinct_map_filter)
  show "set (agenda_ids (map R (rows_where P (wdb s)))) \<inter> set (inFlightIds (wcalls s)) = {}"
    unfolding ids using P by (auto simp: rows_where_def notInFlight_def)
  show "list_all (task_fits (lifecycle (wdb s)) fl) (map R (rows_where P (wdb s)))"
    using fits pk by (auto simp: list_all_iff rows_where_def find_workspace_def find_row_Some_iff pk_def)
qed

lemma select_rows_inv:
  assumes "worker_inv s (t # ts)" "\<not> is_row t"
    and "\<And>w. is_row (R w) \<and> \<not> is_list (R w) \<and> task_ids (R w) = [ws_id w]"
    and "\<And>w. P w \<Longrightarrow> notInFlight (wcalls s) w"
    and "\<And>w. find_workspace (ws_id w) (wdb s) = Some w \<Longrightarrow> P w \<Longrightarrow>
      task_fits (lifecycle (wdb s)) (set (inFlightIds (wcalls s))) (R w)"
  shows "worker_inv s (map R (rows_where P (wdb s)) @ ts)"
  using row_tasks [of s R P "set (inFlightIds (wcalls s))"] assms
  by (intro select_inv [OF assms(1,2)]) (auto simp: worker_inv_def)

section \<open>Every task keeps the invariant and none throws\<close>

text \<open>A step of the worker keeps the invariant and moves every row along an edge.\<close>

definition keeps :: "worker \<Rightarrow> worker \<Rightarrow> task list \<Rightarrow> bool" where
  "keeps s s' ts \<longleftrightarrow>
     worker_inv s' ts \<and> (\<forall>i. edge_at True (lifecycle (wdb s)) (lifecycle (wdb s')) i)"

lemma edge_at_up: "edge_at up m m' i \<Longrightarrow> edge_at True m m' i"
  by (auto simp: edge_at_def)

lemma keeps_same: "worker_inv s' ts \<Longrightarrow> lifecycle (wdb s') = lifecycle (wdb s) \<Longrightarrow> keeps s s' ts"
  by (simp add: keeps_def)

lemma keepsI:
  assumes "worker_inv s' ts" "\<And>j. j \<noteq> i \<Longrightarrow> lifecycle (wdb s') j = lifecycle (wdb s) j"
    "edge_at up (lifecycle (wdb s)) (lifecycle (wdb s')) i"
  shows "keeps s s' ts"
  unfolding keeps_def
proof (intro conjI allI)
  show "edge_at True (lifecycle (wdb s)) (lifecycle (wdb s')) j" for j
    using edge_at_up [OF assms(3)] assms(2) by (cases "j = i") (auto simp: edge_at_def)
qed (rule assms(1))

lemma timer_stop_inv:
  assumes inv: "worker_inv s (t # ts)" "\<not> is_row t"
    and R: "\<And>w. is_row (R w) \<and> \<not> is_list (R w) \<and> task_ids (R w) = [ws_id w]"
    and fits: "\<And>w m fl. task_fits m fl (R w) \<longleftrightarrow> row_is m (ws_id w) (\<lambda>x n. x = Stopping)"
    and P: "P = (\<lambda>w. ws_state w = Running \<and> Q w \<and> notInFlight (wcalls s) w)"
    and f: "f = (\<lambda>w. w\<lparr>ws_state := Stopping, ws_desired := timer_desired w, updated_at := at_ms\<rparr>)"
  shows "worker_inv (s\<lparr>wdb := update_workspaces P f (wdb s)\<rparr>) (map R (map f (rows_where P (wdb s))) @ ts)"
proof -
  have pk: "pk (wdb s)" using inv(1) by (simp add: worker_inv_def)
  note stop = timer_stop_abs [where Q = Q and t = at_ms and s = s, OF pk, folded P f]
  let ?rows = "map f (rows_where P (wdb s))"
  have ids: "agenda_ids (map R ws) = map ws_id ws" for ws
    by (induction ws) (simp_all add: R)
  show ?thesis
  proof (rule query_inv [OF inv])
    show "list_all is_row (map R ?rows)" "list_all (\<lambda>t. \<not> is_list t) (map R ?rows)"
      using R by (simp_all add: list_all_iff)
    show "distinct (agenda_ids (map R ?rows))" unfolding ids by (rule stop(5))
    show "set (agenda_ids (map R ?rows)) \<inter> set (inFlightIds (wcalls s)) = {}"
      unfolding ids using stop(4) by auto
    show "list_all (task_fits (lifecycle (wdb (s\<lparr>wdb := update_workspaces P f (wdb s)\<rparr>)))
        (set (inFlightIds (wcalls s)))) (map R ?rows)"
      unfolding list_all_iff
    proof
      fix tk assume "tk \<in> set (map R ?rows)"
      then obtain w where w: "tk = R w" "w \<in> set ?rows" by auto
      from stop(4) [OF w(2)] show "task_fits (lifecycle (wdb (s\<lparr>wdb := update_workspaces P f (wdb s)\<rparr>)))
          (set (inFlightIds (wcalls s))) tk"
        unfolding w(1) fits row_is_def by auto
    qed
  qed (use stop(1,2,3) in simp_all)
qed

lemma tracked_ids:
  "agenda_ids (map (RowTracked instances during) ws) = filter (\<lambda>i. i \<notin> set during) (map ws_id ws)"
  by (induction ws) auto

lemma select_tracked_inv:
  assumes "worker_inv s (SelectTracked instances during # ts)"
  shows "worker_inv s (map (RowTracked instances during) (tracked_rows (wdb s)) @ ts)"
proof (rule select_inv [OF assms])
  have "set (inFlightIds (wcalls s)) \<subseteq> set during"
    using assms by (simp add: worker_inv_def agenda_ok_def)
  then show "set (agenda_ids (map (RowTracked instances during) (tracked_rows (wdb s)))) \<inter>
      set (inFlightIds (wcalls s)) = {}"
    unfolding tracked_ids by auto
  show "distinct (agenda_ids (map (RowTracked instances during) (tracked_rows (wdb s))))"
    unfolding tracked_ids using assms
    by (simp add: worker_inv_def pk_def tracked_rows_def rows_where_def distinct_map_filter)
  show "list_all (task_fits (lifecycle (wdb s)) (set (inFlightIds (wcalls s))))
      (map (RowTracked instances during) (tracked_rows (wdb s)))"
    by (auto simp: list_all_iff tracked_rows_def rows_where_def)
qed (simp_all add: list_all_iff)

text \<open>A row task, from what its body does.\<close>

lemma row_task_inv:
  assumes inv: "worker_inv s (t # ts)" and t: "task_ids t = [i]" "is_row t"
    and run: "pk (wdb s) \<Longrightarrow> i \<notin> set (inFlightIds (wcalls s)) \<Longrightarrow>
      task_fits (lifecycle (wdb s)) (set (inFlightIds (wcalls s))) t \<Longrightarrow>
      \<exists>s'. r = Some s' \<and> row_post up i s s'"
    and up: "up \<Longrightarrow> task_fits (lifecycle (wdb s)) (set (inFlightIds (wcalls s))) t \<Longrightarrow>
      row_is (lifecycle (wdb s)) i (\<lambda>x n. n < MAX_START_RETRIES)"
  shows "\<exists>new s'. no_tasks r = Some (new, s') \<and> keeps s s' (new @ ts)"
proof -
  have ok: "pk (wdb s)" "i \<notin> set (inFlightIds (wcalls s))"
    "task_fits (lifecycle (wdb s)) (set (inFlightIds (wcalls s))) t"
    using inv t by (auto simp: worker_inv_def agenda_ok_def)
  obtain s' where r: "r = Some s'" "row_post up i s s'" using run [OF ok] by blast
  have "worker_inv s' ts" using row_post_inv [OF inv t r(2)] up ok(3) by blast
  then have "keeps s s' ts"
    by (rule keepsI [where i = i and up = up]) (use r(2) in \<open>auto simp: row_post_def\<close>)
  with r(1) show ?thesis by (simp add: no_tasks_def)
qed

lemma RowTracked_skipped:
  assumes "worker_inv s (RowTracked instances during w # ts)" "ws_id w \<in> set during"
  shows "tracked_row cx instances during w s = Some s \<and> worker_inv s ts"
proof -
  have "list_all (\<lambda>t. \<not> is_list t) (tl ts)" if "list_all (\<lambda>t. \<not> is_list t) ts"
    using that by (cases ts) auto
  then show ?thesis using assms
    by (auto simp: worker_inv_def agenda_ok_def tracked_row_def split: option.splits)
qed

lemma stopDeadline_inv:
  assumes "worker_inv s (StopDeadline # ts)"
  shows "\<exists>new s'. run_task cx r StopDeadline s = Some (new, s') \<and> keeps s s' (new @ ts)"
proof -
  let ?Q = "\<lambda>w. sql_le (shutdown_deadline w) (Some (now cx)) \<and> \<not> hasConnections (wdb s) w"
  let ?P = "\<lambda>w. ws_state w = Running \<and> ?Q w \<and> notInFlight (wcalls s) w"
  let ?f = "\<lambda>w. w\<lparr>ws_state := Stopping, ws_desired := timer_desired w, updated_at := now cx\<rparr>"
  have P: "(\<lambda>w. ws_state w = Running \<and> sql_le (shutdown_deadline w) (Some (now cx)) \<and>
      notInFlight (wcalls s) w \<and> \<not> hasConnections (wdb s) w) = ?P" by auto
  have "worker_inv (s\<lparr>wdb := update_workspaces ?P ?f (wdb s)\<rparr>)
      (map RowDeadline (map ?f (rows_where ?P (wdb s))) @ ts)"
    by (rule timer_stop_inv [OF assms, where Q = ?Q]) simp_all
  moreover have "pk (wdb s)" using assms by (simp add: worker_inv_def)
  note timer_stop_abs(2) [where Q = ?Q and t = "now cx" and up = True, OF this]
  ultimately show ?thesis
    by (auto simp: stopDeadline_update_def update_returning_def P keeps_def)
qed

lemma stopIdle_inv:
  assumes "worker_inv s (StopIdle # ts)"
  shows "\<exists>new s'. run_task cx r StopIdle s = Some (new, s') \<and> keeps s s' (new @ ts)"
proof -
  let ?Q = "\<lambda>w. sql_le (idle_stop_at w) (Some (now cx))"
  let ?P = "\<lambda>w. ws_state w = Running \<and> ?Q w \<and> notInFlight (wcalls s) w"
  let ?f = "\<lambda>w. w\<lparr>ws_state := Stopping, ws_desired := timer_desired w, updated_at := now cx\<rparr>"
  let ?R = "\<lambda>w. RowIdle w (idle_minutes (wdb s) w)"
  have "worker_inv (s\<lparr>wdb := update_workspaces ?P ?f (wdb s)\<rparr>)
      (map ?R (map ?f (rows_where ?P (wdb s))) @ ts)"
    by (rule timer_stop_inv [OF assms, where Q = ?Q]) simp_all
  moreover have "pk (wdb s)" using assms by (simp add: worker_inv_def)
  note timer_stop_abs(2) [where Q = ?Q and t = "now cx" and up = True, OF this]
  ultimately show ?thesis
    by (auto simp: stopIdle_update_def update_returning_def o_def keeps_def)
qed

lemma row_is_found:
  "find_workspace i d = Some w \<Longrightarrow> row_is (lifecycle d) i Q \<longleftrightarrow> Q (ws_state w) (start_retries w)"
  by (simp add: row_is_def lifecycle_def view_def)

lemmas select_defs = createProvisioning_rows_def startStopped_rows_def stopExplicit_rows_def
  stopForOperation_rows_def retryErrored_rows_def runMaintenance_rows_def

lemma select_task_inv:
  assumes "worker_inv s (t # ts)"
    and "t \<in> {SelectCreate, SelectStart, SelectStop, SelectStopForOperation, SelectRetry,
              SelectMaintenance}"
  shows "\<exists>new s'. run_task cx r t s = Some (new, s') \<and> keeps s s' (new @ ts)"
  using assms(2)
  by (elim insertE emptyE)
     (use assms(1) in \<open>auto simp: select_defs row_is_found maintains_def intro!: select_rows_inv keeps_same\<close>)

lemma statement_task_inv:
  assumes "worker_inv s (t # ts)" "\<not> is_row t"
    and "lifecycle (f (wdb s)) = lifecycle (wdb s)" "pk (f (wdb s)) = pk (wdb s)"
  shows "\<exists>new s'. no_tasks (Some (on_db f s)) = Some (new, s') \<and> keeps s s' (new @ ts)"
  using statement_inv [OF assms(1,2), of "on_db f s"] assms(3,4)
  by (simp add: no_tasks_def keeps_same)

lemma run_row_task_inv:
  assumes inv: "worker_inv s (t # ts)" and row: "is_row t"
  shows "\<exists>new s'. run_task cx r t s = Some (new, s') \<and> keeps s s' (new @ ts)"
proof (cases t)
  case (RowCreate w)
  show ?thesis unfolding RowCreate run_task.simps
    by (rule row_task_inv [OF inv [unfolded RowCreate], where i = "ws_id w" and up = False])
       (simp_all add: createProvisioning_post row_is_def)
next
  case (RowStart w)
  show ?thesis unfolding RowStart run_task.simps
    by (rule row_task_inv [OF inv [unfolded RowStart], where i = "ws_id w" and up = False])
       (simp_all add: startStopped_row_def startInBackground_post)
next
  case (RowStop w)
  show ?thesis unfolding RowStop run_task.simps
    by (rule row_task_inv [OF inv [unfolded RowStop], where i = "ws_id w" and up = False])
       (simp_all add: stopExplicit_post)
next
  case (RowStopForOperation w)
  show ?thesis unfolding RowStopForOperation run_task.simps
    by (rule row_task_inv [OF inv [unfolded RowStopForOperation], where i = "ws_id w" and up = False])
       (simp_all add: stopForOperation_post)
next
  case (RowDeadline w)
  show ?thesis unfolding RowDeadline run_task.simps
    by (rule row_task_inv [OF inv [unfolded RowDeadline], where i = "ws_id w" and up = False])
       (simp_all add: stopDeadline_row_post row_is_def)
next
  case (RowIdle w m)
  show ?thesis unfolding RowIdle run_task.simps
    by (rule row_task_inv [OF inv [unfolded RowIdle], where i = "ws_id w" and up = False])
       (simp_all add: stopIdle_row_post row_is_def)
next
  case (RowRetry w)
  show ?thesis unfolding RowRetry run_task.simps
    by (rule row_task_inv [OF inv [unfolded RowRetry], where i = "ws_id w" and up = True])
       (auto simp: retryErrored_post row_is_def)
next
  case (RowMaintenance w)
  show ?thesis unfolding RowMaintenance run_task.simps
    by (rule row_task_inv [OF inv [unfolded RowMaintenance], where i = "ws_id w" and up = False])
       (simp_all add: runMaintenance_post row_is_def)
next
  case (RowTracked instances during w)
  show ?thesis
  proof (cases "ws_id w \<in> set during")
    case True
    with RowTracked_skipped inv show ?thesis unfolding RowTracked
      by (fastforce simp: no_tasks_def keeps_same)
  next
    case False
    show ?thesis unfolding RowTracked run_task.simps
      by (rule row_task_inv [OF inv [unfolded RowTracked], where i = "ws_id w" and up = False])
         (simp_all add: False tracked_row_post)
  qed
qed (use row in simp_all)

lemma run_task_inv:
  assumes "worker_inv s (t # ts)"
  shows "\<exists>new s'. run_task cx r t s = Some (new, s') \<and> keeps s s' (new @ ts)"
proof (cases "is_row t")
  case True
  then show ?thesis by (rule run_row_task_inv [OF assms])
next
  case False
  note st = statement_task_inv [OF assms False]
  show ?thesis
  proof (cases t)
    case (SelectTracked instances during)
    then show ?thesis using select_tracked_inv assms by (simp add: keeps_same)
  next
    case Refresh
    have "worker_inv s ts" using statement_inv [OF assms False refl refl refl] .
    moreover have "worker_inv s (AwaitList (inFlightIds (wcalls s)) # ts)"
      using assms unfolding Refresh by (simp add: worker_inv_def agenda_ok_def)
    ultimately show ?thesis unfolding Refresh by (simp add: keeps_same)
  next
    case (AwaitList during)
    then show ?thesis using assms by (simp add: keeps_same)
  next
    case StopDeadline
    show ?thesis using stopDeadline_inv assms unfolding StopDeadline .
  next
    case StopIdle
    show ?thesis using stopIdle_inv assms unfolding StopIdle .
  qed (use select_task_inv [OF assms, of cx r] False st in \<open>simp_all add: abs_simps\<close>)
qed

section \<open>Background calls\<close>

lemma finishCall_inFlight:
  "h \<in> set (inFlight (finishCall f cs)) \<Longrightarrow>
     fl_id h \<noteq> fl_id f \<and> (\<exists>h0\<in>set (inFlight cs). fl_id h0 = fl_id h \<and> fl_call h0 = fl_call h)"
  by (force simp: finishCall_def leaveSlot_def Let_def set_upd_where split: list.splits if_splits)

lemma retries_ok_edge:
  assumes "retries_ok m" "\<And>i. edge_at False m m' i"
  shows "retries_ok m'"
  unfolding retries_ok_def row_is_def
proof (intro allI impI)
  fix i x n
  assume "m' i = Some (x, n)"
  then obtain y k where "m i = Some (y, k)" "n \<le> k" using assms(2) [of i]
    by (auto simp: edge_at_def dest: sym)
  then show "n \<le> MAX_START_RETRIES" using assms(1) by (fastforce simp: retries_ok_def row_is_def)
qed

lemma agenda_ok_cong:
  assumes "agenda_ok m fl ts" "\<And>i. i \<in> set (agenda_ids ts) \<Longrightarrow> m' i = m i" "fl' \<subseteq> fl"
  shows "agenda_ok m' fl' ts"
proof -
  have "list_all (task_fits m' fl') ts"
    by (rule agenda_tasks_cong [where m = m and fl = fl]) (use assms in \<open>auto simp: agenda_ok_def\<close>)
  then show ?thesis using assms(1,3) by (auto simp: agenda_ok_def)
qed

lemma call_ends_inv:
  assumes inv: "worker_inv s ts" and f: "f \<in> set (inFlight (wcalls s))" "fl_phase f = Active"
    and pk: "pk (g (wdb s))"
    and others: "\<And>j. j \<noteq> fl_id f \<Longrightarrow> lifecycle (g (wdb s)) j = lifecycle (wdb s) j"
    and edge: "edge_at False (lifecycle (wdb s)) (lifecycle (g (wdb s))) (fl_id f)"
  shows "keeps s (call_ends f g s) ts"
proof -
  let ?m = "lifecycle (wdb s)" and ?m' = "lifecycle (g (wdb s))"
  have fl: "set (inFlightIds (finishCall f (wcalls s))) \<subseteq> set (inFlightIds (wcalls s))"
    by (auto simp: inFlightIds_finishCall)
  have "fl_id f \<in> set (inFlightIds (wcalls s))" using f(1) by (simp add: inFlightIds_def)
  moreover have "set (agenda_ids ts) \<inter> set (inFlightIds (wcalls s)) = {}"
    using inv by (simp add: worker_inv_def agenda_ok_def)
  ultimately have same: "?m' i = ?m i" if "i \<in> set (agenda_ids ts)" for i
    using that by (intro others) blast
  have "flight_ok ?m' (finishCall f (wcalls s))"
    unfolding flight_ok_def
  proof
    fix h assume "h \<in> set (inFlight (finishCall f (wcalls s)))"
    from finishCall_inFlight [OF this] obtain h0 where
      h: "fl_id h \<noteq> fl_id f" "h0 \<in> set (inFlight (wcalls s))" "fl_id h0 = fl_id h" "fl_call h0 = fl_call h"
      by blast
    then have "fits ?m (fl_id h) (fl_call h)" using inv by (auto simp: worker_inv_def flight_ok_def)
    with others [OF h(1)] show "fits ?m' (fl_id h) (fl_call h)" by (rule fits_cong)
  qed
  moreover have "retries_ok ?m'"
  proof (rule retries_ok_edge)
    show "retries_ok ?m" using inv by (simp add: worker_inv_def)
    show "edge_at False ?m ?m' i" for i
      using edge others by (cases "i = fl_id f") (auto simp: edge_at_def)
  qed
  moreover have "agenda_ok ?m' (set (inFlightIds (finishCall f (wcalls s)))) ts"
    by (rule agenda_ok_cong [OF _ same fl]) (use inv in \<open>simp_all add: worker_inv_def\<close>)
  ultimately have "worker_inv (call_ends f g s) ts"
    using inv pk finishCall_ok [OF _ f] by (simp add: worker_inv_def call_ends_def)
  then show ?thesis
    by (rule keepsI [where i = "fl_id f" and up = False]) (simp_all add: call_ends_def others edge)
qed

lemma setCall_inv:
  assumes inv: "worker_inv s ts" and f: "f \<in> set (inFlight (wcalls s))"
    and c: "\<And>m. fits m (fl_id f) (fl_call f) \<Longrightarrow> fits m (fl_id f) c"
    and d: "lifecycle d = lifecycle (wdb s)" "pk d = pk (wdb s)"
  shows "keeps s (s\<lparr>wdb := d, wcalls := setCall (fl_id f) c (wcalls s)\<rparr>) ts"
proof -
  have "flight_ok (lifecycle (wdb s)) (setCall (fl_id f) c (wcalls s))"
    unfolding flight_ok_def
  proof
    fix h assume "h \<in> set (inFlight (setCall (fl_id f) c (wcalls s)))"
    then obtain h0 where h0: "h0 \<in> set (inFlight (wcalls s))"
      "h = (if fl_id h0 = fl_id f then h0\<lparr>fl_call := c\<rparr> else h0)"
      by (auto simp: setCall_def set_upd_where)
    have "fits (lifecycle (wdb s)) (fl_id f) (fl_call f)" "fits (lifecycle (wdb s)) (fl_id h0) (fl_call h0)"
      using inv f h0(1) by (simp_all add: worker_inv_def flight_ok_def)
    then show "fits (lifecycle (wdb s)) (fl_id h) (fl_call h)" using h0(2) c by auto
  qed
  then show ?thesis using inv d setCall_ok by (intro keeps_same) (simp_all add: worker_inv_def)
qed

lemma moved_inv:
  assumes "worker_inv s ts" "f \<in> set (inFlight (wcalls s))" "fl_phase f = Active" "pk (g (wdb s))"
    and "lifecycle (g (wdb s)) = moved (fl_id f) fr to h (lifecycle (wdb s))"
    and "worker_edge fr to \<or> fr = to" "\<And>n. h n \<le> n"
  shows "keeps s (call_ends f g s) ts"
proof (rule call_ends_inv [where g = g, OF assms(1-4)])
  show "edge_at False (lifecycle (wdb s)) (lifecycle (g (wdb s))) (fl_id f)"
    unfolding assms(5) using assms(6,7) by (intro edge_at_moved) auto
qed (simp add: assms(5) moved_simps)

lemma call_fits:
  "worker_inv s ts \<Longrightarrow> f \<in> set (inFlight (wcalls s)) \<Longrightarrow>
     fits (lifecycle (wdb s)) (fl_id f) (fl_call f) \<and> pk (wdb s)"
  by (simp add: worker_inv_def flight_ok_def)

lemma replace_home_edges:
  assumes "maintains (ws_state ws) x"
  shows "x = replace_next_state ws outcome \<or> worker_edge x (replace_next_state ws outcome)"
  using assms by (auto simp: maintains_def replace_next_state_def)

lemma replace_import_abs [abs_simps]:
  "lifecycle (replace_import n inst stamp ws d) = lifecycle d"
  "pk (replace_import n inst stamp ws d) = pk d"
proof -
  let ?d = "d\<lparr>backup_requests := backup_requests d @
    [\<lparr>req_id = n, req_kind = ImportHome, req_stamp = Some stamp, req_instance = Some inst,
      req_state = ReqPending, req_requested_by = pending_operation_by ws,
      req_workspace_id = Some (ws_id ws), req_error = None\<rparr>]\<rparr>"
  have "lifecycle ?d = lifecycle d" "pk ?d = pk d" by (rule same_workspaces, simp)+
  then show "lifecycle (replace_import n inst stamp ws d) = lifecycle d"
    "pk (replace_import n inst stamp ws d) = pk d"
    unfolding replace_import_def by (simp_all add: abs_simps view_def)
qed

end
