(* ===== verification/Worker_System.thy ===== *)
theory Worker_System
  imports Worker_Safety
begin

text \<open>
  The invariant of \<open>Worker_Safety\<close> holds in every reachable state of the system, and the
  properties that rest on it.
\<close>

section \<open>Background calls keep the invariant\<close>

lemma replace_finish_inv:
  assumes inv: "worker_inv s ts" and f: "f \<in> set (inFlight (wcalls s))" "fl_phase f = Active"
    and c: "fl_call f = ReplaceHomeCall name ws t0"
    and g: "g (wdb s) = replace_finish n c' ws stamp t outcome (wdb s)"
  shows "keeps s (call_ends f g s) ts"
proof -
  have fit: "fits (lifecycle (wdb s)) (fl_id f) (fl_call f)" and pk: "pk (wdb s)"
    using call_fits [OF inv f(1)] by auto
  have i: "fl_id f = ws_id ws" using fit c by (simp add: fits_def)
  note fin = replace_finish_abs [where n = n and c = c' and ws = ws and stamp = stamp and t = t and outcome = outcome, OF pk]
  show ?thesis
  proof (rule call_ends_inv [where g = g, OF inv f])
    show "pk (g (wdb s))" unfolding g by (rule fin(1))
    show "lifecycle (g (wdb s)) j = lifecycle (wdb s) j" if "j \<noteq> fl_id f" for j
      unfolding g using fin(2) that i by simp
    show "edge_at False (lifecycle (wdb s)) (lifecycle (g (wdb s))) (fl_id f)"
    proof (cases "lifecycle (wdb s) (ws_id ws)")
      case None
      then show ?thesis using fin(3) unfolding g i by (simp add: edge_at_def)
    next
      case (Some xn)
      obtain x k where xk: "xn = (x, k)" by (cases xn)
      then have "maintains (ws_state ws) x" using fit c Some i by (auto simp: fits_def)
      from replace_home_edges [OF this, of outcome] show ?thesis
        using fin(3) Some xk unfolding g i edge_at_def by auto
    qed
  qed
qed

lemma replace_home_inv:
  assumes inv: "worker_inv s ts" and f: "f \<in> set (inFlight (wcalls s))" "fl_phase f = Active"
    and c: "fl_call f = ReplaceHomeCall name ws t0"
  shows "keeps s (call_ends f (runReplaceHome n t name ws t0 swap listing) s) ts"
proof -
  let ?g = "runReplaceHome n t name ws t0 swap listing"
  have pk: "pk (wdb s)" using inv by (simp add: worker_inv_def)
  have same: ?thesis if "lifecycle (?g (wdb s)) = lifecycle (wdb s)" "pk (?g (wdb s))"
    by (rule call_ends_inv [where g = ?g, OF inv f]) (simp_all add: that)
  note finish = replace_finish_inv [where g = ?g, OF inv f c]
  show ?thesis
  proof (cases "replace_plan name ws (wdb s)")
    case None
    then show ?thesis using pk by (intro same) (simp_all add: runReplaceHome_def)
  next
    case (Some p)
    show ?thesis
    proof (cases p)
      case (PlanImport stamp)
      then show ?thesis using Some pk by (intro same) (simp_all add: runReplaceHome_def abs_simps)
    next
      case PlanWait
      then show ?thesis using Some pk by (intro same) (simp_all add: runReplaceHome_def)
    next
      case (PlanFinish stamp outcome)
      then show ?thesis using Some by (intro finish) (simp add: runReplaceHome_def)
    next
      case (PlanSwap stamp)
      show ?thesis
      proof (cases "replace_swapped name ws swap listing")
        case None
        then show ?thesis using Some PlanSwap pk by (intro same) (simp_all add: runReplaceHome_def)
      next
        case (Some outcome)
        then show ?thesis using \<open>replace_plan name ws (wdb s) = Some p\<close> PlanSwap
          by (intro finish) (simp add: runReplaceHome_def)
      qed
    qed
  qed
qed

lemma startInstance_begin_abs:
  "startInstance_begin isTz cfg name ws token d = (d', req) \<Longrightarrow>
     lifecycle d' = lifecycle d \<and> pk d' = pk d"
  by (auto simp: startInstance_begin_def Let_def abs_simps)

lemma call_step_inv:
  assumes "call_step cx s s'" "worker_inv s ts"
  shows "keeps s s' ts"
  using assms
proof cases
  case (create_again f name ws n outcome t delay)
  have "keeps s (s\<lparr>wdb := wdb s,
      wcalls := setCall (fl_id f) (CreateCall name ws (n + 1)) (wcalls s)\<rparr>) ts"
    using create_again by (intro setCall_inv [OF assms(2)]) (simp_all add: fits_def)
  then show ?thesis using create_again(1) by simp
next
  case (create_ends f name ws n outcome t d' msg)
  from call_fits [OF assms(2) create_ends(2)] create_ends(4)
  have i: "fl_id f = ws_id ws" and pk: "pk (wdb s)" by (auto simp: fits_def)
  from create_turn_abs [OF pk create_ends(5)] obtain to where
    "pk d'" "to = Provisioning \<or> to = Stopped \<or> to = Error"
    "lifecycle d' = moved (ws_id ws) Provisioning to id (lifecycle (wdb s))" by blast
  then show ?thesis unfolding create_ends(1)
    by (intro moved_inv [where g = "\<lambda>_. d'" and fr = Provisioning and to = to and h = id,
          OF assms(2) create_ends(2,3)]) (auto simp: i)
next
  case (start_begins f name ws lastRetry isTz token d' req)
  show ?thesis unfolding start_begins(1)
    using startInstance_begin_abs [OF start_begins(5)] start_begins(4)
    by (intro setCall_inv [OF assms(2) start_begins(2)]) (simp_all add: fits_def)
next
  case (start_ends f ws lastRetry req outcome t)
  from call_fits [OF assms(2) start_ends(2)] start_ends(4)
  have i: "fl_id f = ws_id ws" and pk: "pk (wdb s)" by (auto simp: fits_def)
  note abs = startInstance_end_abs [where ws = ws and outcome = outcome and t = t, OF pk]
  obtain to h where th: "to = Running \<or> to = Error" "\<And>n::nat. h n \<le> n"
    "lifecycle (startInstance_end ws outcome t (wdb s)) = moved (fl_id f) Starting to h (lifecycle (wdb s))"
  proof (cases outcome)
    case (Inl e)
    then show ?thesis using abs(2) by (intro that [of Error id]) (simp_all add: i)
  next
    case (Inr r)
    then show ?thesis using abs(2) by (intro that [of Running "\<lambda>_. 0"]) (simp_all add: i)
  qed
  show ?thesis unfolding start_ends(1)
    by (rule moved_inv [where g = "startInstance_end ws outcome t" and fr = Starting and to = to
          and h = h, OF assms(2) start_ends(2,3) abs(1) th(3)]) (use th in auto)
next
  case (stop_ends f ws outcome t)
  from call_fits [OF assms(2) stop_ends(2)] stop_ends(4)
  have i: "fl_id f = ws_id ws" and pk: "pk (wdb s)" by (auto simp: fits_def)
  note abs = doStop_abs [where ws = ws and outcome = outcome and t = t, OF pk]
  obtain to where to: "to = Stopped \<or> to = Error \<or> to = Stopping"
    "lifecycle (doStop ws outcome t (wdb s)) = moved (fl_id f) Stopping to id (lifecycle (wdb s))"
  proof (cases "truthy (incus_instance_name ws)")
    case None
    then show ?thesis using abs(2) by (intro that [of Stopping]) simp_all
  next
    case (Some n)
    show ?thesis
    proof (cases outcome)
      case (Inl e)
      then show ?thesis using Some abs(2) by (intro that [of Error]) (simp_all add: i)
    next
      case (Inr r)
      then show ?thesis using Some abs(2) by (intro that [of Stopped]) (simp_all add: i)
    qed
  qed
  show ?thesis unfolding stop_ends(1)
    by (rule moved_inv [where g = "doStop ws outcome t" and fr = Stopping and to = to and h = id,
          OF assms(2) stop_ends(2,3) abs(1) to(2)]) (use to(1) in auto)
next
  case (operation_ends f op outcome t)
  from call_fits [OF assms(2) operation_ends(2)] operation_ends(4)
  have i: "fl_id f = op_id op" and pk: "pk (wdb s)"
    and st: "row_is (lifecycle (wdb s)) (op_id op) (\<lambda>x n. maintains (op_state op) x)"
    by (auto simp: fits_def row_is_def)
  note abs = runOperation_abs [where op = op and outcome = outcome and t = t, OF pk]
  show ?thesis unfolding operation_ends(1)
  proof (rule call_ends_inv [OF assms(2) operation_ends(2,3)])
    show "pk (runOperation op outcome t (wdb s))" by (rule abs(1))
    show "lifecycle (runOperation op outcome t (wdb s)) j = lifecycle (wdb s) j" if "j \<noteq> fl_id f" for j
      using that i by (simp add: abs(2) moved_simps split: sum.splits)
    show "edge_at False (lifecycle (wdb s)) (lifecycle (runOperation op outcome t (wdb s))) (fl_id f)"
      unfolding abs(2) i using st
      by (auto simp: edge_at_def moved_def row_is_def maintains_def split: sum.splits option.splits)
  qed
next
  case (replace_home_ends f name ws t0 new_id t swap listing)
  show ?thesis unfolding replace_home_ends(1)
    by (rule replace_home_inv [OF assms(2) replace_home_ends(2-4)])
qed

section \<open>API writes keep it\<close>

text \<open>The API gives a row its retries back, or sends an errored row to be created again.\<close>

definition api_edge :: "workspace_state \<times> nat \<Rightarrow> workspace_state \<times> nat \<Rightarrow> bool" where
  "api_edge v v' \<longleftrightarrow>
     v' = v \<or> v' = (fst v, 0) \<or> (fst v = Error \<and> v' = (Provisioning, snd v))"

lemma api_update:
  assumes "\<And>w. P w \<Longrightarrow> ws_id (f w) = ws_id w" "\<And>w. P w \<Longrightarrow> api_edge (view w) (view (f w))"
  shows "rel_option api_edge (lifecycle d i) (lifecycle (update_workspaces P f d) i)"
proof -
  have "lifecycle (update_workspaces P f d) i =
      map_option (\<lambda>w. view (if P w then f w else w)) (find_workspace i d)"
    by (rule lifecycle_update_workspaces) (rule assms(1))
  then show ?thesis using assms(2)
    by (cases "find_workspace i d") (auto simp: lifecycle_def, simp add: api_edge_def)
qed

lemma api_edge_same: "lifecycle d' = lifecycle d \<Longrightarrow> rel_option api_edge (lifecycle d i) (lifecycle d' i)"
  by (simp add: option.rel_refl api_edge_def)

lemma inserted_rows:
  "lifecycle (d\<lparr>workspace_connections := xs\<rparr>) = lifecycle d" "pk (d\<lparr>workspace_connections := xs\<rparr>) = pk d"
  "lifecycle (d\<lparr>usage_samples := ys\<rparr>) = lifecycle d" "pk (d\<lparr>usage_samples := ys\<rparr>) = pk d"
  by (rule same_workspaces, simp)+

lemma api_step_abs:
  assumes "api_step d d'"
  shows "(pk d \<longrightarrow> pk d') \<and> rel_option api_edge (lifecycle d i) (lifecycle d' i)"
  using assms
proof cases
  case (set_desired u j desired t)
  then show ?thesis
    by (auto simp: setDesired_def abs_simps api_edge_def view_def split: option.splits if_splits
        intro!: api_update)
next
  case (put_hold u j requested t)
  then show ?thesis
    by (auto simp: put_keep_running_def Let_def abs_simps view_def api_edge_same
        split: option.splits keep_running_refusal.splits)
next
  case (delete_hold u j t)
  then show ?thesis
    by (auto simp: delete_keep_running_def Let_def abs_simps view_def api_edge_same
        split: option.splits if_splits)
next
  case (open_presence j c t)
  then show ?thesis by (simp add: openPresence_def abs_simps view_def inserted_rows api_edge_same)
next
  case (drop_presence c)
  then show ?thesis by (simp add: dropPresence_def inserted_rows api_edge_same)
next
  case (touch_presence c t)
  then show ?thesis by (simp add: touchPresence_def inserted_rows api_edge_same)
next
  case (request_operation busy j userId operation args act meta t)
  then show ?thesis
    by (auto simp: requestPendingOperation_def Let_def abs_simps view_def api_edge_same split: if_splits)
next
  case (set_archived admin j archive t)
  then show ?thesis
    by (auto simp: setArchived_def abs_simps view_def api_edge_same split: option.splits if_splits)
next
  case (reprovisions admin j t)
  then show ?thesis
    by (auto simp: reprovision_def Let_def abs_simps api_edge_def view_def split: if_splits
        intro!: api_update)
next
  case (clear_mark admin j mark new_id t)
  have "ws_id (unset_mark mark w) = ws_id w" "ws_state (unset_mark mark w) = ws_state w"
    "start_retries (unset_mark mark w) = start_retries w" for w by (cases mark; simp)+
  then show ?thesis using clear_mark
    by (auto simp: clearGuardMark_def Let_def abs_simps view_def inserted_rows api_edge_same
        split: list.splits if_splits guard_mark.splits)
next
  case (set_quota admin j stored sizes_from to t)
  then show ?thesis
    by (auto simp: quota_write_def Let_def abs_simps view_def api_edge_same split: if_splits)
next
  case (set_guard admin j body t)
  then show ?thesis
    by (auto simp: put_guard_def Let_def abs_simps view_def api_edge_same split: if_splits option.splits)
next
  case (set_limits admin j l host t)
  then show ?thesis
    by (auto simp: put_limits_def Let_def abs_simps view_def api_edge_same split: if_splits option.splits)
qed

text \<open>The other loops write no state: to the sweep they do nothing.\<close>

lemma notifyAdministrators_workspaces [simp]:
  "workspaces (notifyAdministrators new_id created notice d) = workspaces d"
proof -
  have "workspaces (fst (foldl (\<lambda>(d, i) admin.
       (recordNotification (new_id i) created (user_id admin) notice True False d, i + 1)) (d, n) us)) =
    workspaces d" for us n
    by (induction us arbitrary: d n) auto
  then show ?thesis by (simp add: notifyAdministrators_def)
qed

lemma notifyAdministrators_abs [abs_simps]:
  "lifecycle (notifyAdministrators new_id created notice d) = lifecycle d"
  "pk (notifyAdministrators new_id created notice d) = pk d"
  by (rule same_workspaces, simp)+

lemma loop_step_abs:
  assumes "loop_step d d'"
  shows "pk d' = pk d \<and> lifecycle d' = lifecycle d"
  using assms
proof cases
  case (stores_sample i inst t)
  then show ?thesis by (simp add: recordSample_def inserted_rows)
next
  case (lifts_throttle i throttle average new_id t)
  then show ?thesis
    by (auto simp: lift_write_def Let_def abs_simps view_def inserted_rows split: list.splits)
next
  case (throttles i throttle hold t new_ids)
  then show ?thesis
    by (auto simp: throttle_write_def recordHold_def Let_def abs_simps view_def
        split: prod.splits option.splits)
next
  case (flags_memory i flag)
  then show ?thesis by (simp add: flag_write_def Let_def abs_simps view_def)
next
  case (syncs_allowance i inst wanted refusal failures incus)
  then show ?thesis by (auto simp: syncAllowance_def abs_simps split: option.splits)
next
  case (prunes_samples t)
  then show ?thesis by (simp add: prune_samples_def Let_def inserted_rows)
next
  case (grows_volumes i sizes applied refusal t failures)
  then show ?thesis by (auto simp: applyOne_quota_def Let_def abs_simps view_def split: option.splits)
next
  case (sets_limits i l limits refusal t failures)
  then show ?thesis by (auto simp: applyOne_limits_def Let_def abs_simps view_def split: option.splits)
qed

lemma maintains_reprovisioned: "maintains from x \<Longrightarrow> x = Error \<Longrightarrow> maintains from Provisioning"
  by (auto simp: maintains_def)

lemma matches_api: "api_edge (x, n) (y, k) \<Longrightarrow> matches c x \<Longrightarrow> matches c y"
  by (cases c) (auto simp: api_edge_def dest: maintains_reprovisioned)

lemma edge_inv:
  assumes "pk (wdb s) \<longrightarrow> pk d'" "\<And>i. rel_option api_edge (lifecycle (wdb s) i) (lifecycle d' i)"
    and "worker_inv s ts"
  shows "worker_inv (s\<lparr>wdb := d'\<rparr>) ts"
proof -
  let ?m = "lifecycle (wdb s)" and ?m' = "lifecycle d'"
  note rel = assms(2)
  have edge: "\<exists>x n. ?m i = Some (x, n) \<and> api_edge (x, n) (y, k)" if "?m' i = Some (y, k)" for i y k
    using rel [of i] that by (auto simp: option_rel_Some2)
  have keep: "row_is ?m' i R" if "row_is ?m i Q" "\<And>x n y k. Q x n \<Longrightarrow> api_edge (x, n) (y, k) \<Longrightarrow> R y k"
    for i Q R
    unfolding row_is_def
  proof (intro allI impI)
    fix y k assume "?m' i = Some (y, k)"
    from edge [OF this] obtain x n where "?m i = Some (x, n)" "api_edge (x, n) (y, k)" by blast
    then show "R y k" using that unfolding row_is_def by blast
  qed
  have fits: "fits ?m' i c" if "fits ?m i c" for i c
    using that keep [of i "\<lambda>x n. matches c x" "\<lambda>x n. matches c x"] matches_api
    by (simp add: fits_def row_is_def)
  have task: "task_fits ?m' fl t" if "task_fits ?m fl t" for fl t
    using that by (cases t) (auto simp: api_edge_def dest: maintains_reprovisioned elim!: keep)
  have retries: "retries_ok ?m'" unfolding retries_ok_def
  proof
    fix i
    have "row_is ?m i (\<lambda>x n. n \<le> MAX_START_RETRIES)"
      using assms(3) by (simp add: worker_inv_def retries_ok_def)
    then show "row_is ?m' i (\<lambda>x n. n \<le> MAX_START_RETRIES)"
      by (rule keep) (auto simp: api_edge_def)
  qed
  show ?thesis using assms(1,3) fits task retries
    by (auto simp: worker_inv_def flight_ok_def agenda_ok_def list_all_iff)
qed

section \<open>A new workspace\<close>

lemma create_workspace_abs:
  assumes "create_workspace u q i hex t d = Inr d'" "find_workspace i d = None"
  shows "(pk d \<longrightarrow> pk d') \<and>
    (lifecycle d' = lifecycle d \<or> lifecycle d' = (lifecycle d)(i \<mapsto> (Provisioning, 0)))"
proof (cases "find (\<lambda>w. owner_user_id w = auth_id u) (workspaces d)")
  case (Some w)
  then show ?thesis using assms(1) by (simp add: create_workspace_def)
next
  case None
  then obtain w where w: "workspaces d' = workspaces d @ [w]" "ws_id w = i" "view w = (Provisioning, 0)"
    using assms(1)
    by (auto simp: create_workspace_def Let_def insertWithLabel_def new_workspace_def view_def
        split: option.splits)
  have fresh: "ws_id v \<noteq> i" if "v \<in> set (workspaces d)" for v
    using assms(2) that by (auto simp: find_workspace_def find_row_None)
  have "find_workspace j d' = (if j = i then Some w else find_workspace j d)" for j
    using find_row_append [of ws_id j "workspaces d" "[w]"] assms(2) w(1,2)
    by (auto simp: find_workspace_def find_row_def split: option.splits)
  then have "lifecycle d' = (lifecycle d)(i \<mapsto> (Provisioning, 0))"
    using w(3) by (auto simp: lifecycle_def fun_eq_iff)
  moreover have "i \<notin> ws_id ` set (workspaces d)" using fresh by blast
  then have "pk d \<longrightarrow> pk d'" using w(1,2) by (simp add: pk_def)
  ultimately show ?thesis by blast
qed

lemma task_ids_id: "j \<in> set (task_ids t) \<Longrightarrow> j = task_id t"
  by (cases t) (auto split: if_splits)

lemma create_workspace_inv:
  assumes inv: "worker_inv s ts"
    and new: "create_workspace u q i hex t (wdb s) = Inr d'" "find_workspace i (wdb s) = None"
    and fresh: "i \<notin> set (inFlightIds (wcalls s))" "i \<notin> task_id ` set ts"
  shows "worker_inv (s\<lparr>wdb := d'\<rparr>) ts"
proof -
  let ?m = "lifecycle (wdb s)"
  note abs = create_workspace_abs [OF new]
  have pk: "pk d'" using abs inv by (simp add: worker_inv_def)
  have others: "lifecycle d' j = ?m j" if "j \<noteq> i" for j using abs that by auto
  have flight: "flight_ok (lifecycle d') (wcalls s)"
    unfolding flight_ok_def
  proof
    fix f assume f: "f \<in> set (inFlight (wcalls s))"
    then have "fl_id f \<noteq> i" using fresh(1) by (auto simp: inFlightIds_def)
    from others [OF this] show "fits (lifecycle d') (fl_id f) (fl_call f)"
      using inv f by (auto simp: worker_inv_def flight_ok_def intro: fits_cong [where m = ?m])
  qed
  have "row_is (lifecycle d') j (\<lambda>x n. n \<le> MAX_START_RETRIES)" for j
    using inv abs by (cases "j = i") (auto simp: worker_inv_def retries_ok_def row_is_def)
  then have retries: "retries_ok (lifecycle d')" by (simp add: retries_ok_def)
  have not_i: "j \<noteq> i" if "j \<in> set (agenda_ids ts)" for j
    using that fresh(2) task_ids_id by (fastforce simp: agenda_ids_def)
  have "task_fits (lifecycle d') fl tk" if "task_fits ?m fl tk" "tk \<in> set ts" for fl tk
  proof -
    have "task_id tk \<noteq> i" using fresh(2) that(2) by auto
    then show ?thesis using that(1) others by (cases tk) (simp_all add: row_is_def)
  qed
  then have "agenda_ok (lifecycle d') (set (inFlightIds (wcalls s))) ts"
    using inv by (simp add: worker_inv_def agenda_ok_def list_all_iff)
  then show ?thesis using inv pk flight retries by (simp add: worker_inv_def)
qed

section \<open>The system\<close>

text \<open>A worker that has just started, on a database whose retry counts are within the bound.\<close>

definition sys_start :: "system \<Rightarrow> bool" where
  "sys_start s \<longleftrightarrow>
     agenda s = [] \<and> wcalls (worker s) = no_calls \<and> pk (wdb (worker s)) \<and>
     retries_ok (lifecycle (wdb (worker s)))"

lemma worker_inv_idle:
  "pk (wdb s) \<Longrightarrow> retries_ok (lifecycle (wdb s)) \<Longrightarrow> wcalls s = no_calls \<Longrightarrow> worker_inv s []"
  using calls_ok_no_calls
  by (simp add: worker_inv_def flight_ok_def agenda_ok_def no_calls_def)

lemma worker_inv_no_agenda: "worker_inv s ts \<Longrightarrow> worker_inv s []"
  by (simp add: worker_inv_def agenda_ok_def)

lemma worker_inv_sweep: "worker_inv s [] \<Longrightarrow> worker_inv s sweep_tasks"
  by (simp add: worker_inv_def agenda_ok_def sweep_tasks_def)

lemma list_answer_inv:
  assumes "worker_inv s (AwaitList during # ts)"
  shows "worker_inv (on_db (controller_checked cx) s) (SelectTracked instances during # ts)"
  using assms by (simp add: worker_inv_def agenda_ok_def abs_simps)

text \<open>A step of the system keeps the invariant; what it does to each row's state.\<close>

definition lifecycle_step :: "(workspace_state \<times> nat) option \<Rightarrow> (workspace_state \<times> nat) option \<Rightarrow> bool" where
  "lifecycle_step v v' \<longleftrightarrow>
     (case (v, v') of
        (None, None) \<Rightarrow> True
      | (None, Some (y, k)) \<Rightarrow> y = Provisioning \<and> k = 0
      | (Some _, None) \<Rightarrow> False
      | (Some (x, n), Some (y, k)) \<Rightarrow> x = y \<or> worker_edge x y \<or> (x = Error \<and> y = Provisioning))"

lemma lifecycle_step_refl: "lifecycle_step v v"
  by (simp add: lifecycle_step_def split: option.splits)

lemma lifecycle_step_edge: "edge_at True m m' i \<Longrightarrow> lifecycle_step (m i) (m' i)"
  unfolding edge_at_def
  by (elim disjE exE conjE) (simp_all add: lifecycle_step_refl, simp_all add: lifecycle_step_def)

lemma lifecycle_step_api: "rel_option api_edge v v' \<Longrightarrow> lifecycle_step v v'"
  by (cases v; cases v') (auto simp: lifecycle_step_def api_edge_def)

lemma sys_step_keeps:
  assumes "sys_step s t" "sys_inv s"
  shows "sys_inv t \<and>
    (\<forall>i. lifecycle_step (lifecycle (wdb (worker s)) i) (lifecycle (wdb (worker t)) i))"
  using assms(1)
proof cases
  case (sweep_begins n)
  then show ?thesis using assms(2) worker_inv_sweep by (simp add: sys_inv_def lifecycle_step_refl)
next
  case (task_runs tk ts new w')
  have "worker_inv (worker s) (tk # ts)" using assms(2) task_runs(2) by (simp add: sys_inv_def)
  from run_task_inv [OF this, of "ctx s" "refresh s"] task_runs(3)
  have "keeps (worker s) w' (new @ ts)" by simp
  then show ?thesis unfolding task_runs(1) by (simp add: keeps_def sys_inv_def lifecycle_step_edge)
next
  case (task_throws tk ts)
  then show ?thesis using assms(2) worker_inv_no_agenda by (simp add: sys_inv_def lifecycle_step_refl)
next
  case (list_answers during ts instances)
  then show ?thesis using assms(2) list_answer_inv
    by (simp add: sys_inv_def lifecycle_step_refl abs_simps)
next
  case (list_fails during ts e)
  have "worker_inv (worker s) (AwaitList during # ts)"
    using assms(2) list_fails(2) by (simp add: sys_inv_def)
  from statement_inv [OF this, of "on_db (list_failed (controllerUnreachable (refresh s)) e) (worker s)"]
  show ?thesis unfolding list_fails(1) by (simp add: sys_inv_def lifecycle_step_refl abs_simps)
next
  case (call_steps w')
  then have "keeps (worker s) w' (agenda s)"
    using call_step_inv assms(2) by (simp add: sys_inv_def)
  then show ?thesis unfolding call_steps(1) by (simp add: keeps_def sys_inv_def lifecycle_step_edge)
next
  case (api_writes d')
  then show ?thesis using edge_inv [of "worker s" d'] api_step_abs [OF api_writes(2)] assms(2)
    by (simp add: sys_inv_def lifecycle_step_api)
next
  case (loop_writes d')
  then show ?thesis using edge_inv [of "worker s" d'] loop_step_abs [OF loop_writes(2)] assms(2)
    by (simp add: sys_inv_def lifecycle_step_api api_edge_same)
next
  case (workspace_created u q i hex t d')
  have none: "lifecycle (wdb (worker s)) i = None" using workspace_created(3) by (simp add: lifecycle_def)
  have "lifecycle_step None (Some (Provisioning, 0))" by (simp add: lifecycle_step_def)
  then have "lifecycle_step (lifecycle (wdb (worker s)) j) (lifecycle d' j)" for j
    using create_workspace_abs [OF workspace_created(2,3)] none lifecycle_step_refl
    by (cases "j = i") (elim conjE disjE; simp)+
  then show ?thesis using create_workspace_inv [OF _ workspace_created(2-5)] assms(2)
    unfolding workspace_created(1) by (simp add: sys_inv_def)
next
  case restarts
  have "pk (wdb (worker s)) \<and> retries_ok (lifecycle (wdb (worker s)))"
    using assms(2) by (simp add: sys_inv_def worker_inv_def)
  then have "worker_inv ((worker s)\<lparr>wcalls := no_calls\<rparr>) []" by (intro worker_inv_idle) simp_all
  then show ?thesis unfolding restarts by (simp add: sys_inv_def lifecycle_step_refl)
qed

interpretation portikus: step_system sys_start sys_step sys_inv
proof
  show "sys_inv s" if "sys_start s" for s
    using that worker_inv_idle by (simp add: sys_start_def sys_inv_def)
  show "sys_inv t" if "sys_inv s" "sys_step s t" for s t
    using sys_step_keeps that by blast
qed

section \<open>Properties\<close>

text \<open>A small system for the witnesses: one stopped workspace that should run.\<close>

definition sample_row :: workspace where
  "sample_row =
     (new_workspace ''w1'' ''u1'' ''ada'' ''ws-1'' \<lparr>homeGiB = 10, dockerGiB = 10, recoveryGiB = None\<rparr> 0)
       \<lparr>ws_state := Stopped, ws_desired := WantRunning\<rparr>"

definition sample_db :: "workspace list \<Rightarrow> db" where
  "sample_db ws =
     \<lparr>workspaces = ws, workspace_connections = [], terminals = [], projects = [], users = [],
      db_settings = None, audit_events = [], usage_samples = [], notifications = [],
      egress_entries = [], egress_blocked_entries = [], backup_requests = []\<rparr>"

definition sample_config :: reconcile_config where
  "sample_config =
     \<lparr>PRESENCE_TTL_SECONDS = 30, SHUTDOWN_GRACE_SECONDS = 300, START_TIMEOUT_SECONDS = 60,
      STOP_TIMEOUT_SECONDS = 60, STATUS_REFRESH_SECONDS = 30, WORKSPACE_HOME_SIZE_GIB = 10,
      WORKSPACE_DOCKER_SIZE_GIB = 10, WORKSPACE_RECOVERY_SIZE_GIB = 5, PREVIEW_SUFFIX = ''example''\<rparr>"

definition sample_ctx :: "millis \<Rightarrow> sweep_ctx" where
  "sample_ctx t = \<lparr>config = sample_config, now = t, createRetryDelaysMs = CREATE_RETRY_DELAYS_MS\<rparr>"

definition sample_worker :: worker where
  "sample_worker = \<lparr>wdb = sample_db [sample_row], wcalls = no_calls, transitions = 0\<rparr>"

definition sample_system :: "task list \<Rightarrow> system" where
  "sample_system ts =
     \<lparr>worker = sample_worker, ctx = sample_ctx 0, agenda = ts,
      refresh = \<lparr>lastRefreshAt = None, controllerUnreachable = False\<rparr>\<rparr>"

lemma sample_start: "sys_start (sample_system [])"
  by (simp add: sys_start_def sample_system_def sample_worker_def sample_db_def pk_def retries_ok_def
      row_is_def lifecycle_def find_workspace_def find_row_def view_def sample_row_def
      new_workspace_def)

lemma sample_sweep: "sys_step (sample_system []) (sample_system sweep_tasks)"
  using sweep_begins [of "sample_system []" 0] by (simp add: sample_system_def sample_ctx_def)

lemma sample_reach: "sys_step\<^sup>*\<^sup>* (sample_system []) (sample_system sweep_tasks)"
  using sample_sweep by blast

text \<open>\<open>run_agenda\<close> runs a sweep's tasks with nothing between them.\<close>

fun run_agenda :: "nat \<Rightarrow> system \<Rightarrow> system option" where
  "run_agenda 0 s = Some s"
| "run_agenda (Suc n) s =
     (case agenda s of
        [] \<Rightarrow> None
      | tk # ts \<Rightarrow>
          (case run_task (ctx s) (refresh s) tk (worker s) of
             None \<Rightarrow> None
           | Some (new, w') \<Rightarrow> run_agenda n (s\<lparr>agenda := new @ ts, worker := w'\<rparr>)))"

lemma run_agenda_reach: "run_agenda n s = Some t \<Longrightarrow> sys_step\<^sup>*\<^sup>* s t"
  by (induction n s rule: run_agenda.induct)
     (auto split: list.splits option.splits prod.splits
       intro: task_runs converse_rtranclp_into_rtranclp)

text \<open>After ten tasks of the sweep, the workspace's start is in flight.\<close>

definition sample_started :: system where
  "sample_started = the (run_agenda 10 (sample_system sweep_tasks))"

lemma sample_started_flight:
  "run_agenda 10 (sample_system sweep_tasks) \<noteq> None \<and>
   (case inFlight (wcalls (worker sample_started)) of
      [f] \<Rightarrow> fl_id f = ''w1'' \<and> fl_phase f = Active | _ \<Rightarrow> False) \<and>
   map_option ws_state (find_workspace ''w1'' (wdb (worker sample_started))) = Some Starting"
  by code_simp

lemma sample_started_reach: "sys_step\<^sup>*\<^sup>* (sample_system []) sample_started"
proof -
  have "run_agenda 10 (sample_system sweep_tasks) = Some sample_started"
    using sample_started_flight by (auto simp: sample_started_def)
  then show ?thesis using run_agenda_reach sample_reach by (meson rtranclp_trans)
qed

text \<open>
  C1: In every reachable state of the worker and the API, whatever the order of sweep tasks,
  background calls, API writes, restarts and stale row snapshots, the next task of a sweep
  finishes: \<open>track\<close> never throws, because no workspace ever gets a second call in flight.
\<close>

theorem no_second_call:
  assumes "sys_start s0" "sys_step\<^sup>*\<^sup>* s0 s" "agenda s = tk # ts"
  shows "run_task (ctx s) (refresh s) tk (worker s) \<noteq> None \<and> distinct (inFlightIds (wcalls (worker s)))"
proof -
  have inv: "worker_inv (worker s) (tk # ts)"
    using portikus.inv_reachable [OF assms(1,2)] assms(3) by (simp add: sys_inv_def)
  then show ?thesis using run_task_inv [OF inv, of "ctx s" "refresh s"]
    by (auto simp: worker_inv_def calls_ok_def)
qed

lemma no_second_call_witness:
  "run_task (ctx (sample_system sweep_tasks)) (refresh (sample_system sweep_tasks)) ExpireConnections
     (worker (sample_system sweep_tasks)) \<noteq> None \<and>
   distinct (inFlightIds (wcalls (worker (sample_system sweep_tasks))))"
  by (rule no_second_call [OF sample_start sample_reach, where ts = "tl sweep_tasks"])
     (simp add: sample_system_def sweep_tasks_def)

text \<open>
  C4: In every reachable state at most \<open>CONTROLLER_CONCURRENCY\<close> creates, starts and operations
  hold a slot, the count \<open>activeCalls\<close> is exact, and no waiter is lost: the waiting list is the
  waiting calls in order, and it is empty unless every slot is taken.
\<close>

theorem slots_accounted:
  assumes "sys_start s0" "sys_step\<^sup>*\<^sup>* s0 s"
  shows "activeCalls (wcalls (worker s)) = length (filter holding (inFlight (wcalls (worker s)))) \<and>
    activeCalls (wcalls (worker s)) \<le> CONTROLLER_CONCURRENCY \<and>
    waitingForSlot (wcalls (worker s)) =
      map fl_id (filter (\<lambda>f. fl_phase f = Waiting) (inFlight (wcalls (worker s)))) \<and>
    (waitingForSlot (wcalls (worker s)) = [] \<or>
     activeCalls (wcalls (worker s)) = CONTROLLER_CONCURRENCY)"
proof -
  have "calls_ok (wcalls (worker s))"
    using portikus.inv_reachable [OF assms] by (simp add: sys_inv_def worker_inv_def)
  then show ?thesis by (auto simp: calls_ok_def)
qed

lemma slots_accounted_witness:
  "activeCalls (wcalls (worker (sample_system sweep_tasks))) =
     length (filter holding (inFlight (wcalls (worker (sample_system sweep_tasks))))) \<and>
   activeCalls (wcalls (worker (sample_system sweep_tasks))) \<le> CONTROLLER_CONCURRENCY \<and>
   waitingForSlot (wcalls (worker (sample_system sweep_tasks))) =
     map fl_id (filter (\<lambda>f. fl_phase f = Waiting)
       (inFlight (wcalls (worker (sample_system sweep_tasks))))) \<and>
   (waitingForSlot (wcalls (worker (sample_system sweep_tasks))) = [] \<or>
    activeCalls (wcalls (worker (sample_system sweep_tasks))) = CONTROLLER_CONCURRENCY)"
  by (rule slots_accounted [OF sample_start sample_reach])



text \<open>
  C3: The worker moves a workspace only along the lifecycle's edges, the API adds workspaces in
  provisioning and sends only errored ones back there, no workspace disappears, and none has
  spent more than \<open>MAX_START_RETRIES\<close> automatic start retries.
\<close>

theorem lifecycle_followed:
  assumes "sys_start s0" "sys_step\<^sup>*\<^sup>* s0 s" "sys_step s t"
  shows "lifecycle_step (lifecycle (wdb (worker s)) i) (lifecycle (wdb (worker t)) i) \<and>
    (case find_workspace i (wdb (worker t)) of
       None \<Rightarrow> True | Some w \<Rightarrow> start_retries w \<le> MAX_START_RETRIES)"
proof -
  have "sys_inv s" by (rule portikus.inv_reachable [OF assms(1,2)])
  note st = sys_step_keeps [OF assms(3) this]
  then have "retries_ok (lifecycle (wdb (worker t)))" by (simp add: sys_inv_def worker_inv_def)
  then show ?thesis using st
    by (auto simp: retries_ok_def row_is_def lifecycle_def view_def split: option.splits)
qed

lemma lifecycle_followed_witness:
  "lifecycle_step (lifecycle (wdb (worker (sample_system []))) ''w1'')
     (lifecycle (wdb (worker (sample_system sweep_tasks))) ''w1'') \<and>
   (case find_workspace ''w1'' (wdb (worker (sample_system sweep_tasks))) of
      None \<Rightarrow> True | Some w \<Rightarrow> start_retries w \<le> MAX_START_RETRIES)"
  by (rule lifecycle_followed [OF sample_start _ sample_sweep]) simp

end
