(* ===== verification/Sweep_Rows.thy ===== *)
theory Sweep_Rows
  imports Worker_States
begin

text \<open>
  What one row's share of a sweep leaves of every other row, and so of a row no query of a loop
  returns.
\<close>

section \<open>Another row is left alone\<close>

text \<open>
  \<open>s'\<close> has the row, the calls, the terminals and the connections workspace \<open>i\<close> had in \<open>s\<close>.
\<close>

definition terminals_of :: "uuid \<Rightarrow> db \<Rightarrow> terminal list" where
  "terminals_of i d = filter (\<lambda>t. term_workspace_id t = i) (terminals d)"

definition leaves :: "uuid \<Rightarrow> worker \<Rightarrow> worker \<Rightarrow> bool" where
  "leaves i s s' \<longleftrightarrow>
     find_workspace i (wdb s') = find_workspace i (wdb s) \<and>
     filter (\<lambda>f. fl_id f = i) (inFlight (wcalls s')) = filter (\<lambda>f. fl_id f = i) (inFlight (wcalls s)) \<and>
     terminals_of i (wdb s') = terminals_of i (wdb s) \<and>
     workspace_connections (wdb s') = workspace_connections (wdb s) \<and>
     db_settings (wdb s') = db_settings (wdb s) \<and>
     pk (wdb s') = pk (wdb s)"

named_theorems leaves_intros \<open>operations on another row\<close>

lemma leaves_refl [simp, leaves_intros]: "leaves i s s"
  by (simp add: leaves_def)

lemma leaves_trans: "leaves i s t \<Longrightarrow> leaves i t u \<Longrightarrow> leaves i s u"
  by (simp add: leaves_def)

lemma leaves_in_flight: "leaves i s s' \<Longrightarrow> i \<in> set (inFlightIds (wcalls s')) \<longleftrightarrow> i \<in> set (inFlightIds (wcalls s))"
proof -
  have "i \<in> set (inFlightIds cs) \<longleftrightarrow> filter (\<lambda>f. fl_id f = i) (inFlight cs) \<noteq> []" for cs
    by (auto simp: inFlightIds_def filter_empty_conv)
  then show "leaves i s s' \<Longrightarrow> ?thesis" by (simp add: leaves_def)
qed

lemma runInBackground_others:
  "runInBackground j c cs = Some cs' \<Longrightarrow> j \<noteq> i \<Longrightarrow>
     filter (\<lambda>f. fl_id f = i) (inFlight cs') = filter (\<lambda>f. fl_id f = i) (inFlight cs)"
  by (auto simp: runInBackground_def track_def split: if_splits)

lemma launch_leaves [leaves_intros]:
  "launch (runInBackground j c) s = Some s' \<Longrightarrow> j \<noteq> i \<Longrightarrow> leaves i s s'"
  "launch (stopInBackground ws) s = Some s' \<Longrightarrow> ws_id ws \<noteq> i \<Longrightarrow> leaves i s s'"
  by (auto simp: launch_def leaves_def stopInBackground_def track_def runInBackground_others
      split: if_splits)

lemma find_update_other:
  assumes "\<And>w. P w \<Longrightarrow> ws_id w \<noteq> i" "\<And>w. P w \<Longrightarrow> ws_id (f w) = ws_id w"
  shows "find_workspace i (update_workspaces P f d) = find_workspace i d"
proof -
  have "ws_id w = i" if "find_workspace i d = Some w" for w
    using that find_row_Some by (fastforce simp: find_workspace_def)
  then show ?thesis using find_workspace_update [of P f i d, OF assms(2)] assms(1)
    by (cases "find_workspace i d") auto
qed

lemma casUpdate_other:
  "casUpdate j fr f t d = (d', hit) \<Longrightarrow> j \<noteq> i \<Longrightarrow> (\<And>w. ws_id (f w) = ws_id w) \<Longrightarrow>
     find_workspace i d' = find_workspace i d \<and>
     terminals_of k d' = terminals_of k d \<and>
     workspace_connections d' = workspace_connections d \<and> db_settings d' = db_settings d \<and>
     pk d' = pk d"
  by (auto simp: casUpdate_def Let_def terminals_of_def intro!: find_update_other pk_update_workspaces)

lemma filter_upd_where_other:
  "(\<And>x. P x \<Longrightarrow> \<not> Q x \<and> \<not> Q (f x)) \<Longrightarrow> filter Q (upd_where P f xs) = filter Q xs"
  by (induction xs) auto

lemma endOpenTerminals_other [simp]:
  "j \<noteq> i \<Longrightarrow> terminals_of i (endOpenTerminals j t d) = terminals_of i d"
  by (auto simp: terminals_of_def endOpenTerminals_def intro!: filter_upd_where_other)

lemma terminals_of_same [simp]:
  "terminals_of i (recordAudit e d) = terminals_of i d"
  "terminals_of i (update_workspaces P f d) = terminals_of i d"
  by (simp_all add: terminals_of_def)

lemma endOpenTerminals_frame [simp]:
  "find_workspace i (endOpenTerminals j t d) = find_workspace i d"
  "workspace_connections (endOpenTerminals j t d) = workspace_connections d"
  "db_settings (endOpenTerminals j t d) = db_settings d"
  "workspaces (endOpenTerminals j t d) = workspaces d"
  by (simp_all add: endOpenTerminals_def find_workspace_def)

text \<open>A row's write followed by its launch.\<close>

lemma leaves_launch:
  "leaves i s s1 \<Longrightarrow> launch (runInBackground j c) s1 = Some s' \<Longrightarrow> j \<noteq> i \<Longrightarrow> leaves i s s'"
  "leaves i s s1 \<Longrightarrow> launch (stopInBackground ws) s1 = Some s' \<Longrightarrow> ws_id ws \<noteq> i \<Longrightarrow> leaves i s s'"
  by (blast intro: leaves_trans launch_leaves)+

lemma startInBackground_leaves:
  assumes "startInBackground cx ws fr b s = Some s'" "ws_id ws \<noteq> i"
  shows "leaves i s s'"
proof (cases "truthy (incus_instance_name ws)")
  case None
  then show ?thesis using assms by (simp add: startInBackground_def)
next
  case (Some name)
  obtain d1 moved where m: "moveToStarting (ws_id ws) fr (now cx) (wdb s) = (d1, moved)"
    by (cases "moveToStarting (ws_id ws) fr (now cx) (wdb s)")
  note c = casUpdate_other [OF m [unfolded moveToStarting_def] assms(2)]
  have l: "leaves i s (s\<lparr>wdb := d1, transitions := n\<rparr>)" "leaves i s (s\<lparr>wdb := d1\<rparr>)" for n
    using c by (simp_all add: leaves_def)
  show ?thesis
  proof (cases moved)
    case True
    with assms(1) m Some have "launch (runInBackground (ws_id ws) (StartCall name ws b))
        (s\<lparr>wdb := d1, transitions := transitions s + 1\<rparr>) = Some s'"
      by (simp add: startInBackground_def)
    from leaves_launch(1) [OF l(1) this assms(2)] show ?thesis .
  next
    case False
    with assms(1) m Some have "s' = s\<lparr>wdb := d1\<rparr>" by (simp add: startInBackground_def)
    then show ?thesis using l(2) by (simp only:)
  qed
qed

lemma stop_row_leaves:
  assumes "stop_row cx ws s = Some s'" "ws_id ws \<noteq> i"
  shows "leaves i s s'"
proof -
  obtain d1 moved where
    m: "casUpdate (ws_id ws) Running (\<lambda>w. w\<lparr>ws_state := Stopping\<rparr>) (now cx) (wdb s) = (d1, moved)"
    by (cases "casUpdate (ws_id ws) Running (\<lambda>w. w\<lparr>ws_state := Stopping\<rparr>) (now cx) (wdb s)")
  note c = casUpdate_other [OF m assms(2)]
  have l: "leaves i s (s\<lparr>transitions := n, wdb := endOpenTerminals (ws_id ws) (now cx) d1\<rparr>)"
    "leaves i s (s\<lparr>wdb := d1\<rparr>)" for n
    using c assms(2) by (simp_all add: leaves_def abs_simps)
  show ?thesis
  proof (cases moved)
    case True
    with assms(1) m have "launch (stopInBackground ws)
        (s\<lparr>transitions := transitions s + 1, wdb := endOpenTerminals (ws_id ws) (now cx) d1\<rparr>) = Some s'"
      by (simp add: stop_row_def)
    from leaves_launch(2) [OF l(1) this assms(2)] show ?thesis .
  next
    case False
    with assms(1) m have "s' = s\<lparr>wdb := d1\<rparr>" by (simp add: stop_row_def)
    then show ?thesis using l(2) by (simp only:)
  qed
qed

lemma stopDeadline_row_leaves:
  assumes "stopDeadline_row cx ws s = Some s'" "ws_id ws \<noteq> i"
  shows "leaves i s s'"
proof -
  have l: "leaves i s (s\<lparr>transitions := n, wdb := endOpenTerminals (ws_id ws) (now cx) (wdb s)\<rparr>)" for n
    using assms(2) by (simp add: leaves_def abs_simps)
  show ?thesis
  proof (cases "truthy (incus_instance_name ws) = None")
    case True
    with assms(1) have
      "s' = s\<lparr>transitions := transitions s + 1, wdb := endOpenTerminals (ws_id ws) (now cx) (wdb s)\<rparr>"
      by (auto simp: stopDeadline_row_def)
    then show ?thesis using l by (simp only:)
  next
    case False
    with assms(1) have "launch (stopInBackground ws) (s\<lparr>transitions := transitions s + 1,
        wdb := endOpenTerminals (ws_id ws) (now cx) (wdb s)\<rparr>) = Some s'"
      by (simp add: stopDeadline_row_def)
    from leaves_launch(2) [OF l this assms(2)] show ?thesis .
  qed
qed

lemma stopIdle_row_leaves:
  assumes "stopIdle_row cx (ws, m) s = Some s'" "ws_id ws \<noteq> i"
  shows "leaves i s s'"
proof -
  have l: "leaves i s (s\<lparr>wdb := workerAudit a b c e (wdb s)\<rparr>)" for a b c e
    by (simp add: leaves_def abs_simps)
  show ?thesis
    by (rule leaves_trans [OF l stopDeadline_row_leaves [OF assms(1) [unfolded stopIdle_row_def Let_def prod.case] assms(2)]])
qed

lemma row_leaves:
  "createProvisioning_row ws s = Some s' \<Longrightarrow> ws_id ws \<noteq> i \<Longrightarrow> leaves i s s'"
  "startStopped_row cx ws s = Some s' \<Longrightarrow> ws_id ws \<noteq> i \<Longrightarrow> leaves i s s'"
  "stopExplicit_row cx ws s = Some s' \<Longrightarrow> ws_id ws \<noteq> i \<Longrightarrow> leaves i s s'"
  "stopForOperation_row cx ws s = Some s' \<Longrightarrow> ws_id ws \<noteq> i \<Longrightarrow> leaves i s s'"
  by (simp_all add: createProvisioning_row_def startStopped_row_def stopExplicit_row_def
      stopForOperation_row_def launch_leaves(1) startInBackground_leaves stop_row_leaves
      split: option.splits if_splits)

lemma retryErrored_row_leaves:
  "retryErrored_row cx ws s = Some s' \<Longrightarrow> ws_id ws \<noteq> i \<Longrightarrow> leaves i s s'"
  by (auto simp: retryErrored_row_def Let_def split: option.splits if_splits
      dest: startInBackground_leaves)

lemma runMaintenance_row_leaves:
  "runMaintenance_row cx ws s = Some s' \<Longrightarrow> ws_id ws \<noteq> i \<Longrightarrow> leaves i s s'"
  by (auto simp: runMaintenance_row_def split: option.splits dest: launch_leaves(1))

section \<open>A loop over other rows\<close>

lemma foldM_leaves:
  assumes "foldM g rows s = Some s'"
    and "\<And>r s s'. r \<in> set rows \<Longrightarrow> g r s = Some s' \<Longrightarrow> leaves i s s'"
  shows "leaves i s s'"
  by (rule foldM_invariant [OF assms(1), of "leaves i s"]) (auto intro: leaves_trans assms(2))

lemma rows_where_mem:
  "pk d \<Longrightarrow> r \<in> set (rows_where P d) \<longleftrightarrow> find_workspace (ws_id r) d = Some r \<and> P r"
  by (auto simp: rows_where_def find_workspace_def pk_def find_row_Some_iff)

lemma foldM_skips:
  assumes "pk d" "find_workspace i d = Some w" "\<not> P w" "foldM g (rows_where P d) s = Some s'"
    and "\<And>r s s'. ws_id r \<noteq> i \<Longrightarrow> g r s = Some s' \<Longrightarrow> leaves i s s'"
  shows "leaves i s s'"
proof (rule foldM_leaves [OF assms(4)])
  fix r s s' assume "r \<in> set (rows_where P d)" "g r s = Some s'"
  then show "leaves i s s'" using assms(1-3) by (intro assms(5)) (auto simp: rows_where_mem)
qed

text \<open>A loop that comes to a row with key \<open>i\<close> once leaves it alone before and after.\<close>

lemma foldM_hits:
  assumes "foldM g rows s = Some s'" "w \<in> set rows" "ws_id w = i" "distinct (map ws_id rows)"
    and "\<And>r s s'. ws_id r \<noteq> i \<Longrightarrow> g r s = Some s' \<Longrightarrow> leaves i s s'"
  obtains s1 s2 where "leaves i s s1" "g w s1 = Some s2" "leaves i s2 s'"
proof -
  from split_list [OF assms(2)] obtain xs ys where rows: "rows = xs @ w # ys" by blast
  with assms(1) obtain s1 s2 where run: "foldM g xs s = Some s1" "g w s1 = Some s2"
    "foldM g ys s2 = Some s'"
    by (auto simp: foldM_append split: Option.bind_splits)
  have other: "ws_id r \<noteq> i" if "r \<in> set xs \<union> set ys" for r
  proof -
    have "ws_id w \<notin> ws_id ` (set xs \<union> set ys)" using assms(4) by (auto simp: rows)
    then show ?thesis using that assms(3) by (metis imageI)
  qed
  have "leaves i s s1" using other by (intro foldM_leaves [OF run(1)] assms(5)) auto
  moreover have "leaves i s2 s'" using other by (intro foldM_leaves [OF run(3)] assms(5)) auto
  ultimately show thesis using run(2) that by blast
qed

end
