(* ===== verification/Sweep.thy ===== *)
theory Sweep
  imports Worker_System Sweep_Rows
begin

text \<open>
  A whole sweep, run without interruption: the function \<open>reconcile\<close> is what running the agenda's
  tasks one after another computes, so it always finishes and keeps the worker's invariant; and
  what it does to one workspace.
\<close>

section \<open>The steps are their tasks\<close>

definition runs :: "sweep_ctx \<Rightarrow> refresh_state \<Rightarrow> task list \<Rightarrow> (worker \<Rightarrow> worker option) \<Rightarrow> bool" where
  "runs cx r ts f \<longleftrightarrow>
     (\<forall>s rest. worker_inv s (ts @ rest) \<longrightarrow> (\<exists>s'. f s = Some s' \<and> worker_inv s' rest))"

lemma runsE:
  assumes "runs cx r ts f" "worker_inv s (ts @ rest)"
  obtains s' where "f s = Some s'" "worker_inv s' rest"
  using assms by (auto simp: runs_def)

lemma runs_seq:
  "runs cx r ts f \<Longrightarrow> runs cx r us g \<Longrightarrow> runs cx r (ts @ us) (\<lambda>s. f s \<bind> g)"
  unfolding runs_def by fastforce

lemma runs_seq_fun:
  "runs cx r ts (\<lambda>s. Some (f s)) \<Longrightarrow> runs cx r us g \<Longrightarrow> runs cx r (ts @ us) (\<lambda>s. g (f s))"
  unfolding runs_def by fastforce

lemma run_task_step:
  assumes "worker_inv s (t # ts)"
  obtains new s' where "run_task cx r t s = Some (new, s')" "worker_inv s' (new @ ts)"
  using run_task_inv [OF assms, of cx r] by (auto simp: keeps_def)

lemma runs_one:
  assumes "\<And>s. run_task cx r t s = no_tasks (Some (f s))"
  shows "runs cx r [t] (\<lambda>s. Some (f s))"
  unfolding runs_def
proof (intro allI impI)
  fix s rest assume "worker_inv s ([t] @ rest)"
  then have "worker_inv s (t # rest)" by simp
  then show "\<exists>s'. Some (f s) = Some s' \<and> worker_inv s' rest"
    using assms [of s] by (auto simp: no_tasks_def elim: run_task_step [where cx = cx and r = r])
qed

lemma foldM_tasks:
  assumes "\<And>x s. run_task cx r (T x) s = no_tasks (g x s)" "worker_inv s (map T xs @ ts)"
  shows "\<exists>s'. foldM g xs s = Some s' \<and> worker_inv s' ts"
  using assms(2)
proof (induction xs arbitrary: s)
  case (Cons x xs)
  then have "worker_inv s (T x # map T xs @ ts)" by simp
  then obtain new s' where "run_task cx r (T x) s = Some (new, s')" "worker_inv s' (new @ map T xs @ ts)"
    by (rule run_task_step)
  then have "g x s = Some s'" "worker_inv s' (map T xs @ ts)"
    using assms(1) [of x s] by (auto simp: no_tasks_def)
  then show ?case using Cons.IH by simp
qed simp

lemma runs_loop:
  assumes "\<And>s. run_task cx r q s = Some (map T (rows s), upd s)"
    and "\<And>x s. run_task cx r (T x) s = no_tasks (g x s)"
  shows "runs cx r [q] (\<lambda>s. foldM g (rows s) (upd s))"
  unfolding runs_def
proof (intro allI impI)
  fix s rest assume "worker_inv s ([q] @ rest)"
  then have "worker_inv s (q # rest)" by simp
  then obtain new s' where "run_task cx r q s = Some (new, s')" "worker_inv s' (new @ rest)"
    by (rule run_task_step)
  then have "worker_inv (upd s) (map T (rows s) @ rest)" using assms(1) [of s] by simp
  from foldM_tasks [where cx = cx and r = r and g = g, OF assms(2) this]
  show "\<exists>s'. foldM g (rows s) (upd s) = Some s' \<and> worker_inv s' rest" .
qed

lemma runs_timers:
  "runs cx r [ExpireConnections, KeepRunningOff, KeepRunningCut, KeepRunningExpired,
     MarkDisconnected, UnmarkConnected, RecomputeDeadlines] (\<lambda>s. Some (on_db (sweep_timers cx) s))"
proof -
  have *: "runs cx r [t] (\<lambda>s. Some (on_db f s)) \<Longrightarrow> runs cx r ts (\<lambda>s. Some (on_db g s)) \<Longrightarrow>
      runs cx r (t # ts) (\<lambda>s. Some (on_db (\<lambda>d. g (f d)) s))" for t ts f g
    using runs_seq_fun [of cx r "[t]" "on_db f" ts "\<lambda>s. Some (on_db g s)"] by simp
  have one:
    "runs cx r [ExpireConnections] (\<lambda>s. Some (on_db (expireConnections cx) s))"
    "runs cx r [KeepRunningOff] (\<lambda>s. Some (on_db (settleKeepRunning_off (now cx)) s))"
    "runs cx r [KeepRunningCut] (\<lambda>s. Some (on_db (settleKeepRunning_cut (now cx)) s))"
    "runs cx r [KeepRunningExpired] (\<lambda>s. Some (on_db (settleKeepRunning_expired (now cx)) s))"
    "runs cx r [MarkDisconnected] (\<lambda>s. Some (on_db (markDisconnected cx) s))"
    "runs cx r [UnmarkConnected] (\<lambda>s. Some (on_db (unmarkConnected cx) s))"
    "runs cx r [RecomputeDeadlines] (\<lambda>s. Some (on_db (recomputeDeadlines cx) s))"
    by (rule runs_one, simp)+
  note all = * [OF one(1) * [OF one(2) * [OF one(3) * [OF one(4) * [OF one(5) * [OF one(6,7)]]]]]]
  have "sweep_timers cx = (\<lambda>d. recomputeDeadlines cx (unmarkConnected cx (markDisconnected cx
      (settleKeepRunning_expired (now cx) (settleKeepRunning_cut (now cx)
        (settleKeepRunning_off (now cx) (expireConnections cx d)))))))"
    by (simp add: fun_eq_iff sweep_timers_def trackDisconnections_def settleKeepRunning_def)
  then show ?thesis using all by simp
qed

lemma runs_stopRunning:
  "runs cx r [SelectStop, SelectStopForOperation, StopDeadline] (stopRunning cx)"
proof -
  have a: "runs cx r [SelectStop] (\<lambda>s. foldM (stopExplicit_row cx) (stopExplicit_rows s) s)"
    by (rule runs_loop [where T = RowStop]) simp_all
  have b: "runs cx r [SelectStopForOperation]
      (\<lambda>s. foldM (stopForOperation_row cx) (stopForOperation_rows s) s)"
    by (rule runs_loop [where T = RowStopForOperation]) simp_all
  have c: "runs cx r [StopDeadline]
      (\<lambda>s. foldM (stopDeadline_row cx) (snd (stopDeadline_update cx s))
             (s\<lparr>wdb := fst (stopDeadline_update cx s)\<rparr>))"
    by (rule runs_loop [where T = RowDeadline]) (simp_all split: prod.splits)
  have "stopRunning cx = (\<lambda>s. foldM (stopExplicit_row cx) (stopExplicit_rows s) s \<bind>
      (\<lambda>s. foldM (stopForOperation_row cx) (stopForOperation_rows s) s \<bind>
      (\<lambda>s. foldM (stopDeadline_row cx) (snd (stopDeadline_update cx s))
             (s\<lparr>wdb := fst (stopDeadline_update cx s)\<rparr>))))"
    by (simp add: fun_eq_iff stopRunning_def Let_def case_prod_beta)
  then show ?thesis using runs_seq [OF a runs_seq [OF b c]] by simp
qed

lemma runs_stopIdle: "runs cx r [WithdrawIdle, WarnIdle, StopIdle] (stopIdle cx)"
proof -
  have a: "runs cx r [WithdrawIdle] (\<lambda>s. Some (on_db withdrawIdle s))"
    "runs cx r [WarnIdle] (\<lambda>s. Some (on_db (warnIdle cx) s))"
    by (rule runs_one, simp)+
  have c: "runs cx r [StopIdle]
      (\<lambda>s. foldM (stopIdle_row cx) (snd (stopIdle_update cx s))
             (s\<lparr>wdb := fst (stopIdle_update cx s)\<rparr>))"
    by (rule runs_loop [where T = "\<lambda>x. RowIdle (fst x) (snd x)"])
       (simp_all split: prod.splits)
  have "stopIdle cx = (\<lambda>s. foldM (stopIdle_row cx)
      (snd (stopIdle_update cx (on_db (warnIdle cx) (on_db withdrawIdle s))))
      ((on_db (warnIdle cx) (on_db withdrawIdle s))
        \<lparr>wdb := fst (stopIdle_update cx (on_db (warnIdle cx) (on_db withdrawIdle s)))\<rparr>))"
    by (simp add: fun_eq_iff stopIdle_def Let_def case_prod_beta)
  then show ?thesis using runs_seq_fun [OF a(1) runs_seq_fun [OF a(2) c]] by simp
qed

lemma runs_drive:
  "runs cx r [SelectCreate, SelectStart, SelectStop, SelectStopForOperation, StopDeadline,
     WithdrawIdle, WarnIdle, StopIdle, SelectRetry, SelectMaintenance] (sweep_drive cx)"
proof -
  have a: "runs cx r [SelectCreate] createProvisioning"
    unfolding createProvisioning_def by (rule runs_loop [where T = RowCreate]) simp_all
  have b: "runs cx r [SelectStart] (startStopped cx)"
    unfolding startStopped_def by (rule runs_loop [where T = RowStart]) simp_all
  have c: "runs cx r [SelectRetry] (retryErrored cx)"
    unfolding retryErrored_def by (rule runs_loop [where T = RowRetry]) simp_all
  have e: "runs cx r [SelectMaintenance] (runMaintenance cx)"
    unfolding runMaintenance_def by (rule runs_loop [where T = RowMaintenance]) simp_all
  have "sweep_drive cx = (\<lambda>s. createProvisioning s \<bind> (\<lambda>s. startStopped cx s \<bind> (\<lambda>s.
      stopRunning cx s \<bind> (\<lambda>s. stopIdle cx s \<bind> (\<lambda>s. retryErrored cx s \<bind> runMaintenance cx)))))"
    by (simp add: fun_eq_iff sweep_drive_def)
  then show ?thesis
    using runs_seq [OF a runs_seq [OF b runs_seq [OF runs_stopRunning
      runs_seq [OF runs_stopIdle runs_seq [OF c e]]]]] by simp
qed

section \<open>A sweep finishes\<close>

lemma worker_inv_transitions [simp]: "worker_inv (s\<lparr>transitions := n\<rparr>) ts = worker_inv s ts"
  by (simp add: worker_inv_def)

lemma worker_inv_calls: "worker_inv s ts \<Longrightarrow> calls_ok (wcalls s)"
  by (simp add: worker_inv_def)

lemma refreshFromList_total:
  assumes "worker_inv s [Refresh]"
  shows "\<exists>s' r'. refreshFromList cx r listed s = Some (s', r') \<and> worker_inv s' []"
proof (cases "refresh_due cx (lastRefreshAt r)")
  case False
  then show ?thesis using worker_inv_no_agenda [OF assms] by (simp add: refreshFromList_def)
next
  case True
  let ?during = "inFlightIds (wcalls s)"
  from True obtain new s' where
    "run_task cx r Refresh s = Some (new, s')" "worker_inv s' (new @ [])"
    using run_task_step [OF assms] by metis
  then have wait: "worker_inv s [AwaitList ?during]" using True by auto
  show ?thesis
  proof (cases listed)
    case (Inl e)
    have "worker_inv (on_db (list_failed (controllerUnreachable r) e) s) []"
      by (rule statement_inv [OF wait]) (simp_all add: abs_simps)
    then show ?thesis using True Inl by (simp add: refreshFromList_def)
  next
    case (Inr instances)
    let ?s = "on_db (controller_checked cx) s"
    have "runs cx r [SelectTracked instances ?during]
        (\<lambda>s. foldM (tracked_row cx instances ?during) (tracked_rows (wdb s)) s)"
      by (rule runs_loop [where T = "RowTracked instances ?during"]) simp_all
    then obtain s2 where
      "foldM (tracked_row cx instances ?during) (tracked_rows (wdb ?s)) ?s = Some s2" "worker_inv s2 []"
      by (rule runsE) (use list_answer_inv [OF wait, of cx instances] in simp)
    then show ?thesis using True Inr by (simp add: refreshFromList_def Let_def)
  qed
qed

lemma reconcile_total:
  assumes "worker_inv s []"
  shows "\<exists>s' r'. reconcile cx r listed s = Some (s', r') \<and> worker_inv s' []"
proof -
  let ?s = "s\<lparr>transitions := 0\<rparr>"
  have "worker_inv ?s sweep_tasks" using worker_inv_sweep [OF assms] by simp
  then obtain s1 where "sweep_drive cx (on_db (sweep_timers cx) ?s) = Some s1" "worker_inv s1 [Refresh]"
    using runs_seq_fun [OF runs_timers [of cx r] runs_drive]
    by (elim runsE [where s = ?s and rest = "[Refresh]"]) (simp_all add: sweep_tasks_def)
  then show ?thesis
    using refreshFromList_total [of s1 cx r listed] by (simp add: reconcile_def)
qed



section \<open>One workspace in a sweep\<close>

lemma find_workspace_id: "find_workspace i d = Some w \<Longrightarrow> ws_id w = i"
  using find_row_Some by (fastforce simp: find_workspace_def)

lemma leaves_row: "leaves i s s' \<Longrightarrow> find_workspace i (wdb s) = Some w \<Longrightarrow> find_workspace i (wdb s') = Some w"
  by (simp add: leaves_def)

lemma leaves_pk: "leaves i s s' \<Longrightarrow> pk (wdb s) \<Longrightarrow> pk (wdb s')"
  by (simp add: leaves_def)

lemma leaves_connections: "leaves i s s' \<Longrightarrow> hasConnections (wdb s') w = hasConnections (wdb s) w"
  by (simp add: leaves_def hasConnections_def)

text \<open>An update that returns its rows, and the loop over them, skip a row it does not match.\<close>

lemma update_returning_skips:
  assumes "pk (wdb s)" "find_workspace i (wdb s) = Some w" "\<not> P w"
    and "\<And>w. P w \<Longrightarrow> ws_id (f w) = ws_id w"
    and "foldM g (map h (map f (rows_where P (wdb s)))) (s\<lparr>wdb := update_workspaces P f (wdb s)\<rparr>) = Some s'"
    and "\<And>r s s'. ws_id r \<noteq> i \<Longrightarrow> g (h r) s = Some s' \<Longrightarrow> leaves i s s'"
  shows "leaves i s s'"
proof -
  have keep: "find_workspace i (update_workspaces P f (wdb s)) = find_workspace i (wdb s)"
    using find_workspace_update [of P f i, OF assms(4)] assms(2,3) by simp
  then have "leaves i s (s\<lparr>wdb := update_workspaces P f (wdb s)\<rparr>)"
    by (simp add: leaves_def pk_update_workspaces [OF assms(4)])
  moreover have "leaves i (s\<lparr>wdb := update_workspaces P f (wdb s)\<rparr>) s'"
  proof (rule foldM_leaves [OF assms(5)])
    fix x t t' assume "x \<in> set (map h (map f (rows_where P (wdb s))))" "g x t = Some t'"
    then obtain q where q: "q \<in> set (rows_where P (wdb s))" "g (h (f q)) t = Some t'" by auto
    then have "P q" "find_workspace (ws_id q) (wdb s) = Some q"
      using assms(1) by (simp_all add: rows_where_mem)
    then have "ws_id (f q) \<noteq> i" using assms(2-4) by auto
    then show "leaves i t t'" using q(2) by (rule assms(6))
  qed
  ultimately show ?thesis by (rule leaves_trans)
qed

text \<open>A running workspace that should run, with no operation waiting and no timer passed.\<close>

definition healthy :: "sweep_ctx \<Rightarrow> db \<Rightarrow> workspace \<Rightarrow> bool" where
  "healthy cx d w \<longleftrightarrow>
     ws_state w = Running \<and> ws_desired w = WantRunning \<and> archived_at w = None \<and>
     pending_op w = None \<and>
     (hasConnections d w \<or> \<not> sql_le (shutdown_deadline w) (Some (now cx))) \<and>
     (keep_running_until w \<noteq> None \<or> \<not> sql_le (idle_stop_at w) (Some (now cx)))"

lemma healthy_stopRunning:
  assumes "stopRunning cx s = Some s'" "pk (wdb s)" "find_workspace i (wdb s) = Some w"
    "healthy cx (wdb s) w"
  shows "leaves i s s'"
proof -
  from assms(1) obtain s1 s2 where
    s1: "foldM (stopExplicit_row cx) (stopExplicit_rows s) s = Some s1" and
    s2: "foldM (stopForOperation_row cx) (stopForOperation_rows s1) s1 = Some s2" and
    s': "foldM (stopDeadline_row cx) (snd (stopDeadline_update cx s2))
      (s2\<lparr>wdb := fst (stopDeadline_update cx s2)\<rparr>) = Some s'"
    by (auto simp: stopRunning_def Let_def case_prod_beta split: Option.bind_splits)
  have l1: "leaves i s s1"
    by (rule foldM_skips [OF assms(2,3) _ s1 [unfolded stopExplicit_rows_def] row_leaves(3)])
       (use assms(4) in \<open>auto simp: healthy_def\<close>)
  note r1 = leaves_pk [OF l1 assms(2)] leaves_row [OF l1 assms(3)]
  have l2: "leaves i s1 s2"
    by (rule foldM_skips [OF r1 _ s2 [unfolded stopForOperation_rows_def] row_leaves(4)])
       (use assms(4) in \<open>auto simp: healthy_def\<close>)
  note l12 = leaves_trans [OF l1 l2]
  note r2 = leaves_pk [OF l12 assms(2)] leaves_row [OF l12 assms(3)]
  have "leaves i s2 s'"
  proof (rule update_returning_skips [where h = "\<lambda>x. x" and g = "stopDeadline_row cx", OF r2])
    show "\<not> (ws_state w = Running \<and> sql_le (shutdown_deadline w) (Some (now cx)) \<and>
        notInFlight (wcalls s2) w \<and> \<not> hasConnections (wdb s2) w)"
      using assms(4) leaves_connections [OF l12] by (auto simp: healthy_def)
  qed (use s' in \<open>auto simp: stopDeadline_update_def update_returning_def intro: stopDeadline_row_leaves\<close>)
  with l12 show ?thesis by (rule leaves_trans)
qed

text \<open>What the two statements before an idle stop make of a row.\<close>

definition idle_marked :: "sweep_ctx \<Rightarrow> db \<Rightarrow> workspace \<Rightarrow> millis option" where
  "idle_marked cx d w =
     (let m = (if nullish (idle_minutes d w) 0 = 0 \<or> keep_running_until w \<noteq> None then None
               else idle_stop_at w)
      in if ws_state w = Running \<and> m = None \<and> keep_running_until w = None \<and>
            sql_lt (Some 0) (idle_minutes d w) \<and>
            sql_le (case (last_activity_at w, idle_minutes d w) of
                      (Some t, Some m) \<Rightarrow> Some (t + m * 60000) | _ \<Rightarrow> None) (Some (now cx))
         then Some (now cx + IDLE_WARNING_MS) else m)"

lemma idle_marked_cases:
  "idle_marked cx d w = None \<or> idle_marked cx d w = idle_stop_at w \<or>
   idle_marked cx d w = Some (now cx + IDLE_WARNING_MS)"
  unfolding idle_marked_def Let_def by (simp only: if_split_eq1 split: if_split) blast

lemma idle_marked_row:
  assumes "find_workspace i d = Some w"
  shows "find_workspace i (warnIdle cx (withdrawIdle d)) = Some (w\<lparr>idle_stop_at := idle_marked cx d w\<rparr>)"
proof -
  define C where "C \<longleftrightarrow> nullish (idle_minutes d w) 0 = 0 \<or> keep_running_until w \<noteq> None"
  define w1 where "w1 = w\<lparr>idle_stop_at := (if C then None else idle_stop_at w)\<rparr>"
  have "find_workspace i (withdrawIdle d) =
      Some (if idle_stop_at w \<noteq> None \<and> C then w\<lparr>idle_stop_at := None\<rparr> else w)"
    using assms by (simp add: withdrawIdle_def find_workspace_update C_def)
  also have "(if idle_stop_at w \<noteq> None \<and> C then w\<lparr>idle_stop_at := None\<rparr> else w) = w1"
    unfolding w1_def by (cases C; cases "idle_stop_at w") auto
  finally have f: "find_workspace i (withdrawIdle d) = Some w1" .
  have m: "idle_minutes (withdrawIdle d) w1 = idle_minutes d w"
    by (simp add: idle_minutes_def withdrawIdle_def w1_def)
  have s: "keep_running_until w1 = keep_running_until w" "ws_state w1 = ws_state w"
    "last_activity_at w1 = last_activity_at w" "idle_stop_at w1 = (if C then None else idle_stop_at w)"
    by (simp_all add: w1_def)
  define P where "P x \<longleftrightarrow> ws_state x = Running \<and> idle_stop_at x = None \<and> keep_running_until x = None \<and>
      sql_lt (Some 0) (idle_minutes (withdrawIdle d) x) \<and>
      sql_le (case (last_activity_at x, idle_minutes (withdrawIdle d) x) of
        (Some t, Some m) \<Rightarrow> Some (t + m * 60000) | _ \<Rightarrow> None) (Some (now cx))" for x
  have "idle_marked cx d w = (if P w1 then Some (now cx + IDLE_WARNING_MS) else idle_stop_at w1)"
    unfolding idle_marked_def Let_def P_def m s C_def ..
  moreover have "warnIdle cx (withdrawIdle d) =
      update_workspaces P (\<lambda>w. w\<lparr>idle_stop_at := Some (now cx + IDLE_WARNING_MS)\<rparr>) (withdrawIdle d)"
    unfolding warnIdle_def P_def ..
  ultimately show ?thesis
    by (simp add: find_workspace_update f w1_def)
qed

lemma stopIdle_row_only:
  assumes "stopIdle cx s = Some s'" "pk (wdb s)" "find_workspace i (wdb s) = Some w"
    "\<not> (ws_state w = Running \<and> sql_le (idle_marked cx (wdb s) w) (Some (now cx)))"
  shows "\<exists>t. leaves i t s' \<and> pk (wdb t) \<and> wcalls t = wcalls s \<and> terminals (wdb t) = terminals (wdb s) \<and>
    find_workspace i (wdb t) = Some (w\<lparr>idle_stop_at := idle_marked cx (wdb s) w\<rparr>)"
proof -
  let ?t = "on_db (warnIdle cx) (on_db withdrawIdle s)"
  let ?w = "w\<lparr>idle_stop_at := idle_marked cx (wdb s) w\<rparr>"
  have t: "pk (wdb ?t)" "find_workspace i (wdb ?t) = Some ?w"
    using assms(2,3) idle_marked_row by (simp_all add: abs_simps)
  have "leaves i ?t s'"
  proof (rule update_returning_skips [where g = "stopIdle_row cx" and
        h = "\<lambda>w. (w, idle_minutes (wdb ?t) w)", OF t])
    show "\<not> (ws_state ?w = Running \<and> sql_le (idle_stop_at ?w) (Some (now cx)) \<and>
        notInFlight (wcalls ?t) ?w)"
      using assms(4) by auto
    show "foldM (stopIdle_row cx) (map (\<lambda>w. (w, idle_minutes (wdb ?t) w))
        (map (\<lambda>w. w\<lparr>ws_state := Stopping, ws_desired := timer_desired w, updated_at := now cx\<rparr>)
          (rows_where (\<lambda>w. ws_state w = Running \<and> sql_le (idle_stop_at w) (Some (now cx)) \<and>
            notInFlight (wcalls ?t) w) (wdb ?t)))) (?t\<lparr>wdb := update_workspaces
        (\<lambda>w. ws_state w = Running \<and> sql_le (idle_stop_at w) (Some (now cx)) \<and>
            notInFlight (wcalls ?t) w)
        (\<lambda>w. w\<lparr>ws_state := Stopping, ws_desired := timer_desired w, updated_at := now cx\<rparr>)
        (wdb ?t)\<rparr>) = Some s'"
      using assms(1)
      by (simp only: stopIdle_def Let_def stopIdle_update_def update_returning_def prod.case)
  qed (simp_all add: stopIdle_row_leaves)
  moreover have "terminals (wdb ?t) = terminals (wdb s)" by (simp add: warnIdle_def withdrawIdle_def)
  ultimately show ?thesis using t by (intro exI [of _ ?t]) simp
qed

lemma healthy_not_idle:
  "healthy cx d w \<Longrightarrow> \<not> sql_le (idle_marked cx d w) (Some (now cx))"
  using idle_marked_cases [of cx d w]
  by (auto simp: healthy_def IDLE_WARNING_MS_def idle_marked_def Let_def split: if_splits)

text \<open>The end of a sweep, for a row that is neither stopped nor in error by then.\<close>

lemma drive_end:
  assumes "stopIdle cx s = Some s4" "retryErrored cx s4 = Some s5" "runMaintenance cx s5 = Some s'"
    and "pk (wdb s)" "find_workspace i (wdb s) = Some w" "ws_state w \<noteq> Stopped" "ws_state w \<noteq> Error"
    and "\<not> (ws_state w = Running \<and> sql_le (idle_marked cx (wdb s) w) (Some (now cx)))"
  shows "\<exists>t. leaves i t s' \<and> wcalls t = wcalls s \<and> terminals (wdb t) = terminals (wdb s) \<and>
    find_workspace i (wdb s') = Some (w\<lparr>idle_stop_at := idle_marked cx (wdb s) w\<rparr>)"
proof -
  let ?w = "w\<lparr>idle_stop_at := idle_marked cx (wdb s) w\<rparr>"
  from stopIdle_row_only [OF assms(1,4,5,8)] obtain t where
    t: "leaves i t s4" "pk (wdb t)" "wcalls t = wcalls s" "terminals (wdb t) = terminals (wdb s)"
    "find_workspace i (wdb t) = Some ?w" by blast
  note r4 = leaves_pk [OF t(1,2)] leaves_row [OF t(1,5)]
  have l5: "leaves i s4 s5"
    by (rule foldM_skips [OF r4 _ assms(2) [unfolded retryErrored_def retryErrored_rows_def]
          retryErrored_row_leaves]) (simp_all add: assms)
  note r5 = leaves_pk [OF l5 r4(1)] leaves_row [OF l5 r4(2)]
  have l6: "leaves i s5 s'"
    by (rule foldM_skips [OF r5 _ assms(3) [unfolded runMaintenance_def runMaintenance_rows_def]
          runMaintenance_row_leaves]) (simp_all add: assms)
  show ?thesis
    using leaves_trans [OF t(1) leaves_trans [OF l5 l6]] t(3,4) leaves_row [OF l6 r5(2)] by blast
qed

lemma healthy_drive:
  assumes "sweep_drive cx s = Some s'" "pk (wdb s)" "find_workspace i (wdb s) = Some w"
    "healthy cx (wdb s) w"
  shows "find_workspace i (wdb s') = Some (w\<lparr>idle_stop_at := idle_marked cx (wdb s) w\<rparr>) \<and>
    (i \<in> set (inFlightIds (wcalls s')) \<longleftrightarrow> i \<in> set (inFlightIds (wcalls s)))"
proof -
  from assms(1) obtain s1 s2 s3 s4 s5 where
    s1: "createProvisioning s = Some s1" and s2: "startStopped cx s1 = Some s2" and
    s3: "stopRunning cx s2 = Some s3" and s4: "stopIdle cx s3 = Some s4" and
    s5: "retryErrored cx s4 = Some s5" and s': "runMaintenance cx s5 = Some s'"
    by (auto simp: sweep_drive_def split: Option.bind_splits)
  have st: "ws_state w = Running" using assms(4) by (simp add: healthy_def)
  have l1: "leaves i s s1"
    by (rule foldM_skips [OF assms(2,3) _ s1 [unfolded createProvisioning_def createProvisioning_rows_def]
          row_leaves(1)]) (simp_all add: st)
  note r1 = leaves_pk [OF l1 assms(2)] leaves_row [OF l1 assms(3)]
  have l2: "leaves i s1 s2"
    by (rule foldM_skips [OF r1 _ s2 [unfolded startStopped_def startStopped_rows_def] row_leaves(2)])
       (simp_all add: st)
  note l12 = leaves_trans [OF l1 l2]
  note r2 = leaves_pk [OF l12 assms(2)] leaves_row [OF l12 assms(3)]
  have h2: "healthy cx (wdb s2) w" using assms(4) leaves_connections [OF l12] by (simp add: healthy_def)
  note l123 = leaves_trans [OF l12 healthy_stopRunning [OF s3 r2 h2]]
  note r3 = leaves_pk [OF l123 assms(2)] leaves_row [OF l123 assms(3)]
  have h3: "healthy cx (wdb s3) w" using assms(4) leaves_connections [OF l123] by (simp add: healthy_def)
  have im: "idle_marked cx (wdb s3) w = idle_marked cx (wdb s) w"
    using l123 by (simp add: leaves_def idle_marked_def idle_minutes_def)
  from drive_end [OF s4 s5 s' r3] healthy_not_idle [OF h3] st obtain t where
    t: "leaves i t s'" "wcalls t = wcalls s3"
    "find_workspace i (wdb s') = Some (w\<lparr>idle_stop_at := idle_marked cx (wdb s) w\<rparr>)"
    unfolding im by auto
  then show ?thesis using leaves_in_flight [OF t(1)] leaves_in_flight [OF l123] by simp
qed

section \<open>Holds and the timers\<close>

lemma audit_rows_frame [simp]:
  "users (audit_rows e ws d) = users d" "db_settings (audit_rows e ws d) = db_settings d"
  "workspace_connections (audit_rows e ws d) = workspace_connections d"
  "find_workspace i (audit_rows e ws d) = find_workspace i d"
proof -
  show "users (audit_rows e ws d) = users d" "db_settings (audit_rows e ws d) = db_settings d"
    "workspace_connections (audit_rows e ws d) = workspace_connections d"
    unfolding audit_rows_def by (induction ws arbitrary: d) auto
  show "find_workspace i (audit_rows e ws d) = find_workspace i d"
    by (rule same_workspaces) simp
qed

lemma settle_rows:
  "find_workspace i (settleKeepRunning_off t d) = map_option (\<lambda>w.
     if sql_lt (Some t) (keep_running_until w) \<and> keep_cap d w = 0
     then w\<lparr>keep_running_until := None, last_activity_at := Some t, idle_stop_at := None,
            disconnected_at := (if disconnected_at w = None then None else Some t)\<rparr>
     else w) (find_workspace i d)"
  "find_workspace i (settleKeepRunning_cut t d) = map_option (\<lambda>w.
     if sql_lt (Some (t + keep_cap d w * 3600000)) (keep_running_until w)
     then w\<lparr>keep_running_until := Some (t + keep_cap d w * 3600000)\<rparr> else w) (find_workspace i d)"
  "\<not> sql_le (Option.bind (find_workspace i d) keep_running_until) (Some t) \<Longrightarrow>
     find_workspace i (settleKeepRunning_expired t d) = find_workspace i d"
  by (cases "find_workspace i d"; simp add: settleKeepRunning_off_def settleKeepRunning_cut_def
      settleKeepRunning_expired_def update_returning_def find_workspace_update)+

lemma settle_frame [simp]:
  "users (settleKeepRunning t d) = users d" "db_settings (settleKeepRunning t d) = db_settings d"
  "workspace_connections (settleKeepRunning t d) = workspace_connections d"
  "db_settings (settleKeepRunning_off t d) = db_settings d"
  "db_settings (settleKeepRunning_cut t d) = db_settings d"
  by (simp_all add: settleKeepRunning_def settleKeepRunning_off_def settleKeepRunning_cut_def
      settleKeepRunning_expired_def update_returning_def)

text \<open>A hold ahead of now, with a cap above zero, is kept, cut to the cap.\<close>

lemma settled_hold:
  assumes "find_workspace i d = Some w" "keep_running_until w = Some h" "t < h" "0 < keep_cap d w"
  shows "find_workspace i (settleKeepRunning t d) =
    Some (w\<lparr>keep_running_until := Some (min h (t + keep_cap d w * 3600000))\<rparr>)"
proof -
  let ?h = "min h (t + keep_cap d w * 3600000)"
  have off: "find_workspace i (settleKeepRunning_off t d) = Some w"
    using assms by (simp add: settle_rows)
  have "keep_cap (settleKeepRunning_off t d) w = keep_cap d w" by (simp add: keep_cap_def)
  moreover have "w\<lparr>keep_running_until := Some h\<rparr> = w" using assms(2) by simp
  ultimately have "find_workspace i (settleKeepRunning_cut t (settleKeepRunning_off t d)) =
      Some (w\<lparr>keep_running_until := Some ?h\<rparr>)"
    using assms(2) unfolding settle_rows(2) off by (simp add: min_def)
  then show ?thesis using assms(3,4)
    settle_rows(3) [of i "settleKeepRunning_cut t (settleKeepRunning_off t d)" t]
    by (simp add: settleKeepRunning_def)
qed

lemma hasConnections_cong:
  "workspace_connections d' = workspace_connections d \<Longrightarrow> ws_id w' = ws_id w \<Longrightarrow>
     hasConnections d' w' = hasConnections d w"
  by (simp add: hasConnections_def)

text \<open>Step 2 gives a held row no deadline, unless a browser is connected.\<close>

lemma tracked_hold:
  assumes "find_workspace i d = Some w" "ws_state w = Running" "keep_running_until w = Some h"
    and "find_user (owner_user_id w) d \<noteq> None"
  shows "\<exists>x y z. find_workspace i (trackDisconnections cx d) =
      Some (w\<lparr>disconnected_at := x, shutdown_deadline := y, updated_at := z\<rparr>) \<and>
    (hasConnections (trackDisconnections cx d) w \<or> y = None)"
proof -
  let ?d1 = "markDisconnected cx d" and ?d2 = "unmarkConnected cx (markDisconnected cx d)"
  have same: "users ?d2 = users d" "workspace_connections ?d1 = workspace_connections d"
    "workspace_connections ?d2 = workspace_connections d"
    "workspace_connections (trackDisconnections cx d) = workspace_connections d"
    by (simp_all add: markDisconnected_def unmarkConnected_def trackDisconnections_def
        recomputeDeadlines_def Let_def)
  have conn: "hasConnections ?d1 w' = hasConnections d w" "hasConnections ?d2 w' = hasConnections d w"
    "hasConnections (trackDisconnections cx d) w' = hasConnections d w" if "ws_id w' = ws_id w" for w'
    using that same by (simp_all add: hasConnections_def)
  have user: "find_user u ?d2 = find_user u d" for u by (simp add: find_user_def same)
  have idw: "ws_id w = i" by (rule find_workspace_id [OF assms(1)])
  show ?thesis
  proof (cases "hasConnections d w")
    case True
    let ?w2 = "if disconnected_at w \<noteq> None \<or> shutdown_deadline w \<noteq> None
      then w\<lparr>disconnected_at := None, shutdown_deadline := None, updated_at := now cx\<rparr> else w"
    have "find_workspace i ?d1 = Some w"
      using assms(1) True by (simp add: markDisconnected_def find_workspace_update)
    then have "find_workspace i ?d2 = Some ?w2"
      using assms(2) True conn(1) by (simp add: unmarkConnected_def find_workspace_update)
    then have "find_workspace i (trackDisconnections cx d) = Some ?w2"
      by (simp add: trackDisconnections_def recomputeDeadlines_def Let_def find_workspace_update)
    moreover have "\<exists>x y z. ?w2 = w\<lparr>disconnected_at := x, shutdown_deadline := y, updated_at := z\<rparr>"
      by (intro exI [of _ "disconnected_at ?w2"] exI [of _ "shutdown_deadline ?w2"]
          exI [of _ "updated_at ?w2"]) simp
    ultimately show ?thesis using True conn(3) by auto
  next
    case False
    let ?w1 = "if disconnected_at w = None
      then w\<lparr>disconnected_at := Some (now cx), updated_at := now cx\<rparr> else w"
    have "find_workspace i ?d1 = Some ?w1"
      using assms(1,2) False by (simp add: markDisconnected_def find_workspace_update)
    then have d2: "find_workspace i ?d2 = Some ?w1"
      using conn(1) [of ?w1] False by (simp add: unmarkConnected_def find_workspace_update)
    obtain u where u: "find_user (owner_user_id w) ?d2 = Some u" using assms(4) user by auto
    let ?w3 = "if shutdown_deadline w = None then ?w1
      else ?w1\<lparr>shutdown_deadline := None, updated_at := now cx\<rparr>"
    have "find_workspace i (trackDisconnections cx d) = Some ?w3"
      using d2 u assms(2,3)
      by (cases "disconnected_at w"; simp add: trackDisconnections_def recomputeDeadlines_def Let_def
          find_workspace_update new_deadline_def)
    moreover have "?w3 = w\<lparr>disconnected_at := disconnected_at ?w3, shutdown_deadline := None,
        updated_at := updated_at ?w3\<rparr>" by simp
    ultimately have "find_workspace i (trackDisconnections cx d) = Some (w\<lparr>disconnected_at :=
        disconnected_at ?w3, shutdown_deadline := None, updated_at := updated_at ?w3\<rparr>)" by (simp only:)
    then show ?thesis by blast
  qed
qed

text \<open>A worker for the witnesses: one running workspace, and its owner.\<close>

definition sample_user :: user where
  "sample_user =
     \<lparr>user_id = ''u1'', oidc_issuer = ''urn:portikus:dex'', oidc_subject = ''s'', email = None,
      display_name = ''Ada'', preferred_username = None, user_role = Student, provider_role = Student,
      granted_role = None, disabled_at = None, must_change_password = False,
      accepted_use_version = None, last_login_at = None, user_shutdown_grace_seconds = None,
      editor_timezone = None\<rparr>"

definition sample_running :: "desired_state \<Rightarrow> millis option \<Rightarrow> workspace" where
  "sample_running desired hold =
     sample_row\<lparr>ws_state := Running, ws_desired := desired, keep_running_until := hold,
       disconnected_at := Some 0, shutdown_deadline := Some 10, idle_stop_at := Some 20\<rparr>"

definition sample_up :: "desired_state \<Rightarrow> millis option \<Rightarrow> worker" where
  "sample_up desired hold =
     \<lparr>wdb = (sample_db [sample_running desired hold])\<lparr>users := [sample_user]\<rparr>,
      wcalls = no_calls, transitions = 0\<rparr>"

definition sample_up_system :: "millis option \<Rightarrow> system" where
  "sample_up_system hold = (sample_system [])\<lparr>worker := sample_up WantRunning hold\<rparr>"

lemma sample_up_start: "sys_start (sample_up_system hold)"
  by (simp add: sys_start_def sample_up_system_def sample_system_def sample_up_def sample_db_def pk_def
      retries_ok_def row_is_def lifecycle_def find_workspace_def find_row_def view_def
      sample_running_def sample_row_def new_workspace_def)

lemma sample_up_pk: "pk (wdb (sample_up desired hold))"
  by (simp add: sample_up_def sample_db_def pk_def)

lemma sample_up_row:
  "find_workspace ''w1'' (wdb (sample_up desired hold)) = Some (sample_running desired hold)"
  by (simp add: sample_up_def sample_db_def find_workspace_def find_row_def sample_running_def
      sample_row_def new_workspace_def)




lemma sweep_value: "\<not> Option.is_none r \<Longrightarrow> r = Some (the r)"
  by (simp add: Option.is_none_def)


section \<open>A workspace that should not run\<close>

lemma endOpenTerminals_all:
  assumes "t \<in> set (terminals_of i (endOpenTerminals i at_ms d))"
  shows "ended_at t \<noteq> None"
proof -
  let ?f = "\<lambda>r. if term_workspace_id r = i \<and> ended_at r = None then r\<lparr>ended_at := Some at_ms\<rparr> else r"
  have "set (terminals (endOpenTerminals i at_ms d)) = ?f ` set (terminals d)"
    by (simp add: endOpenTerminals_def set_upd_where)
  moreover have "t \<in> set (terminals (endOpenTerminals i at_ms d))" "term_workspace_id t = i"
    using assms by (simp_all add: terminals_of_def)
  ultimately have t: "t \<in> ?f ` set (terminals d)" "term_workspace_id t = i" by (simp_all only:)
  from t(1) obtain r where "t = ?f r" by (rule imageE)
  note this t(2)
  then show ?thesis by (cases "term_workspace_id r = i \<and> ended_at r = None") auto
qed

text \<open>What \<open>stop_row\<close> does to the row it is given.\<close>

lemma stop_row_done:
  assumes "stop_row cx ws s = Some s'" "pk (wdb s)" "ws_id ws = i" "find_workspace i (wdb s) = Some w"
    "ws_state w = Running"
  shows "find_workspace i (wdb s') = Some (w\<lparr>ws_state := Stopping, updated_at := now cx\<rparr>) \<and>
    pk (wdb s') \<and> (\<forall>t\<in>set (terminals_of i (wdb s')). ended_at t \<noteq> None) \<and>
    (\<exists>f. f \<in> set (inFlight (wcalls s')) \<and> fl_id f = i \<and> fl_call f = StopCall ws \<and> fl_phase f = Active)"
proof -
  let ?hit = "\<lambda>x. ws_id x = i \<and> ws_state x = Running"
  let ?d = "update_workspaces ?hit (\<lambda>x. x\<lparr>ws_state := Stopping, updated_at := now cx\<rparr>) (wdb s)"
  have "rows_where ?hit (wdb s) \<noteq> []" using rows_where_by_id [OF assms(2)] assms(4,5) by simp
  then have cas: "casUpdate i Running (\<lambda>x. x\<lparr>ws_state := Stopping\<rparr>) (now cx) (wdb s) = (?d, True)"
    by (simp add: casUpdate_def)
  have idw: "ws_id w = i" by (rule find_workspace_id [OF assms(4)])
  have d: "find_workspace i ?d = Some (w\<lparr>ws_state := Stopping, updated_at := now cx\<rparr>)" "pk ?d"
    using assms(2,4,5) idw by (simp_all add: find_workspace_update pk_update_workspaces)
  from assms(1,3) cas obtain cs where cs: "stopInBackground ws (wcalls s) = Some cs"
    "wcalls s' = cs" "wdb s' = endOpenTerminals i (now cx) ?d"
    by (auto simp: stop_row_def launch_def)
  have "ended_at t \<noteq> None" if "t \<in> set (terminals_of i (wdb s'))" for t
    using that unfolding cs(3) by (rule endOpenTerminals_all)
  moreover have "\<lparr>fl_id = i, fl_call = StopCall ws, fl_phase = Active, fl_slot = False\<rparr> \<in> set (inFlight cs)"
    using cs(1) assms(3) by (auto simp: stopInBackground_def track_def split: if_splits)
  then have "\<exists>f. f \<in> set (inFlight cs) \<and> fl_id f = i \<and> fl_call f = StopCall ws \<and> fl_phase f = Active"
    by (intro exI [of _ "\<lparr>fl_id = i, fl_call = StopCall ws, fl_phase = Active, fl_slot = False\<rparr>"]) simp
  ultimately show ?thesis using d cs(2,3) by (simp add: abs_simps)
qed

lemma leaves_calls:
  "leaves i s s' \<Longrightarrow> fl_id f = i \<Longrightarrow> f \<in> set (inFlight (wcalls s')) \<longleftrightarrow> f \<in> set (inFlight (wcalls s))"
proof -
  assume "leaves i s s'" "fl_id f = i"
  then have "set (filter (\<lambda>f. fl_id f = i) (inFlight (wcalls s'))) =
      set (filter (\<lambda>f. fl_id f = i) (inFlight (wcalls s)))" by (simp only: leaves_def)
  then show ?thesis using \<open>fl_id f = i\<close> by auto
qed

lemma leaves_terminals: "leaves i s s' \<Longrightarrow> terminals_of i (wdb s') = terminals_of i (wdb s)"
  by (simp add: leaves_def)

definition unwanted :: "workspace \<Rightarrow> bool" where
  "unwanted w \<longleftrightarrow> ws_state w = Running \<and>
     (ws_desired w = WantStopped \<or> ws_desired w = WantRestarting \<or> archived_at w \<noteq> None)"

lemma unwanted_stopRunning:
  assumes "stopRunning cx s = Some s'" "pk (wdb s)" "find_workspace i (wdb s) = Some w" "unwanted w"
    "i \<notin> set (inFlightIds (wcalls s))" "truthy (incus_instance_name w) \<noteq> None"
  shows "find_workspace i (wdb s') = Some (w\<lparr>ws_state := Stopping, updated_at := now cx\<rparr>) \<and>
    pk (wdb s') \<and> (\<forall>t\<in>set (terminals_of i (wdb s')). ended_at t \<noteq> None) \<and>
    (\<exists>f. f \<in> set (inFlight (wcalls s')) \<and> fl_id f = i \<and> fl_call f = StopCall w \<and> fl_phase f = Active)"
proof -
  from assms(1) obtain s1 s2 where
    s1: "foldM (stopExplicit_row cx) (stopExplicit_rows s) s = Some s1" and
    s2: "foldM (stopForOperation_row cx) (stopForOperation_rows s1) s1 = Some s2" and
    s': "foldM (stopDeadline_row cx) (snd (stopDeadline_update cx s2))
      (s2\<lparr>wdb := fst (stopDeadline_update cx s2)\<rparr>) = Some s'"
    by (auto simp: stopRunning_def Let_def case_prod_beta split: Option.bind_splits)
  have idw: "ws_id w = i" by (rule find_workspace_id [OF assms(3)])
  have "w \<in> set (stopExplicit_rows s)"
    unfolding stopExplicit_rows_def rows_where_mem [OF assms(2)]
    using assms(3-5) idw by (simp add: unwanted_def notInFlight_def)
  moreover have "distinct (map ws_id (stopExplicit_rows s))"
    using assms(2) by (simp add: stopExplicit_rows_def rows_where_def pk_def distinct_map_filter)
  ultimately obtain a b where ab: "leaves i s a" "stopExplicit_row cx w a = Some b" "leaves i b s1"
    using row_leaves(3) by (elim foldM_hits [OF s1 _ idw]) blast+
  have stop: "stop_row cx w a = Some b" using ab(2) assms(6) by (simp add: stopExplicit_row_def)
  have "ws_state w = Running" using assms(4) by (simp add: unwanted_def)
  note stopped_row = stop_row_done [OF stop leaves_pk [OF ab(1) assms(2)] idw leaves_row [OF ab(1) assms(3)] this]
  let ?w = "w\<lparr>ws_state := Stopping, updated_at := now cx\<rparr>"
  have b: "pk (wdb b)" "find_workspace i (wdb b) = Some ?w" using stopped_row by blast+
  note r1 = leaves_pk [OF ab(3) b(1)] leaves_row [OF ab(3) b(2)]
  have l2: "leaves i s1 s2"
    by (rule foldM_skips [OF r1 _ s2 [unfolded stopForOperation_rows_def] row_leaves(4)]) simp_all
  note r2 = leaves_pk [OF l2 r1(1)] leaves_row [OF l2 r1(2)]
  have l3: "leaves i s2 s'"
    by (rule update_returning_skips [where h = "\<lambda>x. x" and g = "stopDeadline_row cx" and
          P = "\<lambda>w. ws_state w = Running \<and> sql_le (shutdown_deadline w) (Some (now cx)) \<and>
            notInFlight (wcalls s2) w \<and> \<not> hasConnections (wdb s2) w" and
          f = "\<lambda>w. w\<lparr>ws_state := Stopping, ws_desired := timer_desired w, updated_at := now cx\<rparr>", OF r2])
       (use s' in \<open>simp_all add: stopDeadline_update_def update_returning_def stopDeadline_row_leaves\<close>)
  note l = leaves_trans [OF ab(3) leaves_trans [OF l2 l3]]
  show ?thesis
    using leaves_row [OF l b(2)] leaves_pk [OF l b(1)] leaves_terminals [OF l] leaves_calls [OF l] stopped_row
    by auto
qed



end
