(* ===== verification/Outcomes.thy ===== *)
theory Outcomes
  imports Sweep
begin

text \<open>
  What the calls and the status refresh make of the row they are for, on every branch: the
  create loop, a stop's effect on the guard's marks, the drift table, and the student's hold.
\<close>

section \<open>A compare-and-set that hits\<close>

lemma cas_found:
  assumes "pk d" "find_workspace i d = Some w" "ws_state w = fr" "\<And>w. ws_id (f w) = ws_id w"
  obtains d1 where "casUpdate i fr f t d = (d1, True)" "pk d1"
    "find_workspace i d1 = Some ((f w)\<lparr>updated_at := t\<rparr>)"
    "audit_events d1 = audit_events d" "usage_samples d1 = usage_samples d"
    "\<And>j. j \<noteq> i \<Longrightarrow> find_workspace j d1 = find_workspace j d"
proof -
  let ?hit = "\<lambda>w. ws_id w = i \<and> ws_state w = fr"
  let ?d = "update_workspaces ?hit (\<lambda>w. (f w)\<lparr>updated_at := t\<rparr>) d"
  have "rows_where ?hit d \<noteq> []" using rows_where_by_id [OF assms(1)] assms(2,3) by simp
  then have "casUpdate i fr f t d = (?d, True)" by (simp add: casUpdate_def)
  moreover have "find_workspace i ?d = Some ((f w)\<lparr>updated_at := t\<rparr>)"
    using assms find_workspace_id [OF assms(2)] by (simp add: find_workspace_update)
  moreover have "find_workspace j ?d = find_workspace j d" if "j \<noteq> i" for j
    using that assms(4) by (intro find_update_other) auto
  moreover have "pk ?d" using assms(1,4) by (simp add: pk_update_workspaces)
  ultimately show thesis using that by simp
qed

section \<open>The create loop\<close>

text \<open>Whether the answer to an attempt ends the loop: anything but an unreachable controller, or
  no wait left to try again after.\<close>

definition decisive :: "millis list \<Rightarrow> nat \<Rightarrow> create_result call_result \<Rightarrow> bool" where
  "decisive delays n outcome \<longleftrightarrow>
     (case outcome of
        Inr _ \<Rightarrow> True
      | Inl e \<Rightarrow> \<not> isTransient (toControllerError e) \<or> length delays \<le> n)"

lemma turn_not_decisive:
  "\<not> decisive delays n outcome \<Longrightarrow>
     \<exists>wait. createWorkspace_turn cfg name ws delays n outcome t d = CreateRetry wait"
  by (auto simp: decisive_def createWorkspace_turn_def Let_def nth_opt_eq_None not_le split: sum.splits)


lemma turn_last:
  assumes "\<not> (isTransient (toControllerError e) \<and> nth_opt delays n \<noteq> None)"
  shows "err_code (toControllerError e) = POOL_FULL \<Longrightarrow>
      createWorkspace_turn cfg name ws delays n (Inl e) t d =
        CreateDone (fst (create_refused ws (toControllerError e) t d))
          (snd (create_refused ws (toControllerError e) t d))"
    and "err_code (toControllerError e) \<noteq> POOL_FULL \<Longrightarrow>
      createWorkspace_turn cfg name ws delays n (Inl e) t d =
        CreateDone (fst (create_failed ws n (toControllerError e) t d))
          (snd (create_failed ws n (toControllerError e) t d))"
  using assms by (simp_all add: createWorkspace_turn_def Let_def case_prod_beta)

lemma createWorkspace_decides:
  "\<exists>n. a \<le> n \<and> n \<le> max a (length delays) \<and> (\<forall>k. a \<le> k \<longrightarrow> k < n \<longrightarrow> \<not> decisive delays k (answer k)) \<and>
     decisive delays n (answer n) \<and>
     createWorkspace_turn cfg name ws delays n (answer n) (clock n) d =
       CreateDone (fst (createWorkspace cfg name ws delays answer clock a d))
         (snd (createWorkspace cfg name ws delays answer clock a d))"
proof (induction "length delays - a" arbitrary: a rule: less_induct)
  case less
  show ?case
  proof (cases "createWorkspace_turn cfg name ws delays a (answer a) (clock a) d")
    case (CreateDone d' r)
    then have "decisive delays a (answer a)"
      using turn_not_decisive [of delays a "answer a" cfg name ws "clock a" d] by auto
    then show ?thesis using CreateDone
      by (intro exI [of _ a]) (simp add: createWorkspace.simps [of cfg name ws delays answer clock a])
  next
    case (CreateRetry wait)
    have a: "a < length delays" by (rule createWorkspace_turn_retry [OF CreateRetry])
    then have "length delays - (a + 1) < length delays - a" by simp
    from less [OF this] obtain n where n: "a + 1 \<le> n" "n \<le> max (a + 1) (length delays)"
      "\<forall>k. a + 1 \<le> k \<longrightarrow> k < n \<longrightarrow> \<not> decisive delays k (answer k)" "decisive delays n (answer n)"
      "createWorkspace_turn cfg name ws delays n (answer n) (clock n) d =
        CreateDone (fst (createWorkspace cfg name ws delays answer clock (a + 1) d))
          (snd (createWorkspace cfg name ws delays answer clock (a + 1) d))" by blast
    have "\<not> decisive delays a (answer a)"
      using CreateRetry
      by (auto simp: decisive_def createWorkspace_turn_def Let_def nth_opt_Some
          split: sum.splits if_splits prod.splits)
    then have "\<forall>k. a \<le> k \<longrightarrow> k < n \<longrightarrow> \<not> decisive delays k (answer k)"
      using n(3) by (metis Suc_eq_plus1 Suc_leI le_neq_implies_less)
    then show ?thesis using n a CreateRetry
      by (intro exI [of _ n]) (simp add: createWorkspace.simps [of cfg name ws delays answer clock a])
  qed
qed

lemma create_turn_settles:
  assumes "pk d" "find_workspace (ws_id ws) d = Some w" "ws_state w = Provisioning"
    and decided: "decisive delays n x"
    and turn: "createWorkspace_turn cfg name ws delays n x t d = CreateDone d' r"
  shows "\<exists>w'. find_workspace (ws_id ws) d' = Some w' \<and>
    (case x of
       Inr result \<Rightarrow> ws_state w' = Stopped \<and> ws_error_code w' = None \<and>
         image_version w' = Some (cres_imageFingerprint result)
     | Inl e \<Rightarrow>
         if err_code (toControllerError e) = POOL_FULL
         then ws_state w' = Provisioning \<and> (ws_error_code ws = Some (Controller POOL_FULL) \<longrightarrow> d' = d)
         else ws_state w' = Error \<and> ws_error_code w' = Some (Controller (err_code (toControllerError e))))"
proof (cases x)
  case (Inr result)
  let ?f = "\<lambda>w. w\<lparr>ws_state := Stopped, image_version := Some (cres_imageFingerprint result),
    quota_config := Some ((cres_quota result)
      \<lparr>recoveryGiB := Some (cr_recoveryGiB (create_request_of cfg name ws))\<rparr>),
    quota_applied := Some (cres_quota result), ws_error_code := None, ws_error_message := None\<rparr>"
  obtain d1 where "casUpdate (ws_id ws) Provisioning ?f t d = (d1, True)"
    "find_workspace (ws_id ws) d1 = Some ((?f w)\<lparr>updated_at := t\<rparr>)"
    by (rule cas_found [OF assms(1-3), of ?f t]) simp_all
  then show ?thesis using turn Inr
    by (auto simp: createWorkspace_turn_def create_succeeded_def)
next
  case (Inl e)
  let ?err = "toControllerError e"
  have last_turn: "\<not> (isTransient ?err \<and> nth_opt delays n \<noteq> None)"
    using decided Inl by (auto simp: decisive_def nth_opt_eq_None)
  show ?thesis
  proof (cases "err_code ?err = POOL_FULL")
    case True
    let ?f = "\<lambda>w. w\<lparr>ws_error_code := Some (Controller (err_code ?err)),
      ws_error_message := Some (userMessage (err_code ?err))\<rparr>"
    obtain d1 where "casUpdate (ws_id ws) Provisioning ?f t d = (d1, True)"
      "find_workspace (ws_id ws) d1 = Some ((?f w)\<lparr>updated_at := t\<rparr>)"
      by (rule cas_found [OF assms(1-3), of ?f t]) simp_all
    then show ?thesis using turn_last(1) [OF last_turn True, of cfg name ws t d]
        turn Inl True assms(2,3)
      by (cases "ws_error_code ws = Some (Controller POOL_FULL)") (auto simp: create_refused_def)
  next
    case False
    let ?f = "\<lambda>w. w\<lparr>ws_state := Error, ws_error_code := Some (Controller (err_code ?err)),
      ws_error_message := Some (userMessage (err_code ?err))\<rparr>"
    obtain d1 where "casUpdate (ws_id ws) Provisioning ?f t d = (d1, True)"
      "find_workspace (ws_id ws) d1 = Some ((?f w)\<lparr>updated_at := t\<rparr>)"
      by (rule cas_found [OF assms(1-3), of ?f t]) simp_all
    then show ?thesis using turn_last(2) [OF last_turn False, of cfg name ws t d]
        turn Inl False
      by (auto simp: create_failed_def)
  qed
qed



section \<open>Stopping and the guard's marks\<close>

lemma clearGuardAtStop_row:
  assumes "find_workspace i d = Some w"
  shows "find_workspace i (clearGuardAtStop i d) =
    Some (w\<lparr>cpu_throttle := (if throttle_held w then cpu_throttle w else None),
            memory_flag := None, idle_stop_at := None\<rparr>)"
    and "usage_samples (clearGuardAtStop i d) =
      (case cpu_throttle w of
         Some t \<Rightarrow> if throttle_held w then usage_samples d
           else filter (\<lambda>(j, s). \<not> (j = i \<and> observed_at s \<le> thr_at t)) (usage_samples d)
       | None \<Rightarrow> usage_samples d)"
proof -
  have "ws_id w = i" by (rule find_workspace_id [OF assms])
  then show "find_workspace i (clearGuardAtStop i d) =
    Some (w\<lparr>cpu_throttle := (if throttle_held w then cpu_throttle w else None),
            memory_flag := None, idle_stop_at := None\<rparr>)"
    using assms clearGuardAtStop_workspaces [of i d]
    by (simp add: find_workspace_def find_row_upd_where)
  show "usage_samples (clearGuardAtStop i d) =
      (case cpu_throttle w of
         Some t \<Rightarrow> if throttle_held w then usage_samples d
           else filter (\<lambda>(j, s). \<not> (j = i \<and> observed_at s \<le> thr_at t)) (usage_samples d)
       | None \<Rightarrow> usage_samples d)"
    using assms by (simp add: clearGuardAtStop_def Let_def split: option.split)
qed

lemma heldAllowance_row:
  "find_workspace i d = Some w \<Longrightarrow>
     heldAllowance i d = (if throttle_held w then map_option thr_allowance (cpu_throttle w) else None)"
  by (auto simp: heldAllowance_def throttle_held_def split: option.splits)

text \<open>
  C24: A stop that succeeds leaves its workspace stopped, clears the memory flag, the idle warning
  and a throttle that is not held, and keeps a held one: the next start passes exactly the held
  throttle's allowance, so a workspace never escapes it by restarting. The usage samples up to a
  cleared throttle are dropped; all others stay.
\<close>

theorem held_throttle_survives_stop:
  assumes "pk d" "find_workspace (ws_id ws) d = Some w" "ws_state w = Stopping"
    and "truthy (incus_instance_name ws) \<noteq> None" "ws_id ws2 = ws_id ws"
    and stop: "d' = doStop ws (Inr forced) t d"
  shows "(\<exists>w'. find_workspace (ws_id ws) d' = Some w' \<and> ws_state w' = Stopped \<and>
      memory_flag w' = None \<and> idle_stop_at w' = None \<and>
      cpu_throttle w' = (if throttle_held w then cpu_throttle w else None)) \<and>
    sr_cpuAllowance (snd (startInstance_begin isTz cfg name ws2 token d')) =
      (if throttle_held w then map_option thr_allowance (cpu_throttle w) else None) \<and>
    usage_samples d' =
      (case cpu_throttle w of
         Some c \<Rightarrow> if throttle_held w then usage_samples d
           else filter (\<lambda>(j, s). \<not> (j = ws_id ws \<and> observed_at s \<le> thr_at c)) (usage_samples d)
       | None \<Rightarrow> usage_samples d)"
proof -
  let ?i = "ws_id ws"
  let ?f = "\<lambda>w. w\<lparr>ws_state := Stopped, shutdown_deadline := None, ws_desired := settleRestarting w,
    disconnected_at := None\<rparr>"
  let ?w = "(?f w)\<lparr>updated_at := t\<rparr>"
  obtain d1 where d1: "casUpdate ?i Stopping ?f t d = (d1, True)" "find_workspace ?i d1 = Some ?w"
    "usage_samples d1 = usage_samples d"
    by (rule cas_found [OF assms(1-3), of ?f t]) simp_all
  let ?d2 = "workerAudit ?i ''workspace.stop'' ResOk (Some [(''forced'', JBool forced)]) d1"
  have d': "find_workspace ?i d' = find_workspace ?i (clearGuardAtStop ?i ?d2)"
    "usage_samples d' = usage_samples (clearGuardAtStop ?i ?d2)"
    using d1(1) assms(4) by (auto simp: stop doStop_def Let_def)
  have w: "throttle_held ?w = throttle_held w" by (simp add: throttle_held_def)
  have "find_workspace ?i ?d2 = Some ?w" using d1(2) by simp
  note c = clearGuardAtStop_row [OF this]
  let ?v = "?w\<lparr>cpu_throttle := (if throttle_held w then cpu_throttle w else None),
    memory_flag := None, idle_stop_at := None\<rparr>"
  have row: "find_workspace ?i d' = Some ?v" unfolding d'(1) c(1) w by simp
  have "find_workspace ?i (rotateAgentToken ?i token d') = Some (?v\<lparr>agent_token := Some token\<rparr>)"
    using row find_workspace_id [OF assms(2)] by (simp add: rotateAgentToken_def find_workspace_update)
  moreover define u where "u = ?v\<lparr>agent_token := Some token\<rparr>"
  ultimately have u: "find_workspace ?i (rotateAgentToken ?i token d') = Some u" by simp
  have cu: "cpu_throttle u = (if throttle_held w then cpu_throttle w else None)" by (simp add: u_def)
  then have "throttle_held u = throttle_held w" by (auto simp: throttle_held_def)
  then have "heldAllowance ?i (rotateAgentToken ?i token d') =
      (if throttle_held w then map_option thr_allowance (cpu_throttle w) else None)"
    using heldAllowance_row [OF u] cu by simp
  then have "sr_cpuAllowance (snd (startInstance_begin isTz cfg name ws2 token d')) =
      (if throttle_held w then map_option thr_allowance (cpu_throttle w) else None)"
    by (simp add: startInstance_begin_def Let_def assms(5))
  moreover have "usage_samples d' =
      (case cpu_throttle w of
         Some c \<Rightarrow> if throttle_held w then usage_samples d
           else filter (\<lambda>(j, s). \<not> (j = ?i \<and> observed_at s \<le> thr_at c)) (usage_samples d)
       | None \<Rightarrow> usage_samples d)"
    unfolding d'(2) c(2) w recordAudit_frame d1(3) by simp
  ultimately show ?thesis using row by simp
qed

definition sample_throttled :: workspace where
  "sample_throttled =
     sample_row\<lparr>ws_state := Stopping, cpu_throttle := Some \<lparr>thr_at = 7, thr_averagePercent = 95,
       thr_thresholdPercent = 90, thr_windowMinutes = 30, thr_sharePercent = 25,
       thr_allowance = ''50ms/100ms'', thr_held = Some \<lparr>held_count = 3, held_hours = 24\<rparr>\<rparr>\<rparr>"

lemma held_throttle_survives_stop_witness:
  "(\<exists>w'. find_workspace (ws_id sample_throttled)
        (doStop sample_throttled (Inr False) 9 (sample_db [sample_throttled])) = Some w' \<and>
      ws_state w' = Stopped \<and> memory_flag w' = None \<and> idle_stop_at w' = None \<and>
      cpu_throttle w' = (if throttle_held sample_throttled then cpu_throttle sample_throttled else None)) \<and>
    sr_cpuAllowance (snd (startInstance_begin (\<lambda>_. True) sample_config ''ws-1'' sample_throttled []
        (doStop sample_throttled (Inr False) 9 (sample_db [sample_throttled])))) =
      (if throttle_held sample_throttled then map_option thr_allowance (cpu_throttle sample_throttled)
       else None) \<and>
    usage_samples (doStop sample_throttled (Inr False) 9 (sample_db [sample_throttled])) =
      (case cpu_throttle sample_throttled of
         Some c \<Rightarrow> if throttle_held sample_throttled then usage_samples (sample_db [sample_throttled])
           else filter (\<lambda>(j, s). \<not> (j = ws_id sample_throttled \<and> observed_at s \<le> thr_at c))
             (usage_samples (sample_db [sample_throttled]))
       | None \<Rightarrow> usage_samples (sample_db [sample_throttled]))"
  by (rule held_throttle_survives_stop [OF _ _ _ _ refl refl])
     (simp_all add: pk_def sample_db_def find_workspace_def find_row_def sample_throttled_def
       sample_row_def new_workspace_def)

section \<open>The drift table\<close>

text \<open>The state a refresh settles a row in: by the row's state and what the list says.\<close>

fun drift_state :: "workspace \<Rightarrow> instance_status option \<Rightarrow> workspace_state" where
  "drift_state w None = Error"
| "drift_state w (Some InstOther) = ws_state w"
| "drift_state w (Some InstRunning) =
     (if ws_state w = Error
      then (if ws_desired w = WantStopped \<and> ws_error_code w \<noteq> Some STOP_FAILED then Stopping else Error)
      else Running)"
| "drift_state w (Some InstStopped) =
     (if ws_state w = Error \<or> ws_state w = Starting then Error else Stopped)"

lemma cas_then_found:
  assumes "pk (wdb s)" "find_workspace i (wdb s) = Some w" "ws_state w = fr" "\<And>w. ws_id (f w) = ws_id w"
    and "\<And>d. find_workspace i d = Some ((f w)\<lparr>updated_at := t\<rparr>) \<Longrightarrow>
      \<exists>v. find_workspace i (after d) = Some v \<and> ws_state v = ws_state (f w)"
  shows "\<exists>v. find_workspace i (wdb (cas_then i fr f t after s)) = Some v \<and> ws_state v = ws_state (f w)"
proof -
  obtain d1 where "casUpdate i fr f t (wdb s) = (d1, True)"
    "find_workspace i d1 = Some ((f w)\<lparr>updated_at := t\<rparr>)"
    by (rule cas_found [OF assms(1-4)])
  then show ?thesis using assms(5) [of d1] by (simp add: cas_then_def bump_def)
qed

lemma after_state:
  "find_workspace i d = Some v \<Longrightarrow>
     \<exists>u. find_workspace i (clearGuardAtStop i d) = Some u \<and> ws_state u = ws_state v"
  by (simp add: clearGuardAtStop_row(1))

lemma synced_row:
  assumes "find_workspace i d = Some w" "ws_id ws = i"
  shows "\<exists>v. find_workspace i (syncAgentAddress ws inst d) = Some v \<and> ws_state v = ws_state w \<and>
    ws_desired v = ws_desired w"
  using assms find_workspace_id [OF assms(1)] by (simp add: syncAgentAddress_def find_workspace_update)

lemma syncAgentAddress_pk: "pk d \<Longrightarrow> pk (syncAgentAddress ws inst d)"
  by (simp add: abs_simps)

text \<open>
  A refresh that tells a row with no call in flight about its instance always settles it by
  the drift table: a missing instance is an error; a running one makes a running workspace of a
  stopped, starting or stopping row, and an errored row its owner stopped is stopped again, once;
  a stopped one makes a stopped workspace of it, except that a start that did not take is an error.
\<close>

theorem drift_resolved:
  assumes "pk (wdb s)" "find_workspace (ws_id ws) (wdb s) = Some ws" "ws_state ws \<noteq> Provisioning"
    and "truthy (incus_instance_name ws) = Some n" "ws_id ws \<notin> set during"
    and "tracked_row cx instances during ws s = Some s'"
  shows "\<exists>v. find_workspace (ws_id ws) (wdb s') = Some v \<and>
    ws_state v = drift_state ws (map_option inst_status (instance_named n instances))"
proof -
  let ?i = "ws_id ws"
  have run: "reconcileTracked cx instances ws n s = Some s'"
    using assms(4-6) by (simp add: tracked_row_def)
  show ?thesis
  proof (cases "instance_named n instances")
    case None
    then have s': "s' = resolveMissingInstance cx ws n s" using run by (simp add: reconcileTracked_def)
    show ?thesis
    proof (cases "ws_state ws = Error")
      case True
      then show ?thesis using s' None assms(2)
        by (simp add: resolveMissingInstance_def find_workspace_update)
    next
      case False
      let ?f = "\<lambda>w. w\<lparr>ws_state := Error, ws_error_code := Some INSTANCE_MISSING,
        ws_error_message := Some INSTANCE_MISSING_MESSAGE, shutdown_deadline := None, disconnected_at := None\<rparr>"
      have "\<exists>v. find_workspace ?i (wdb (cas_then ?i (ws_state ws) ?f (now cx)
          (\<lambda>d. workerAudit ?i ''workspace.instance_missing'' ResFailed
               (Some [(''instanceName'', JStr n)])
               (clearGuardAtStop ?i (endOpenTerminals ?i (now cx) d))) s)) = Some v \<and>
          ws_state v = ws_state (?f ws)"
        by (rule cas_then_found [OF assms(1,2) refl]) (auto simp: clearGuardAtStop_row(1))
      then show ?thesis using s' None False by (simp add: resolveMissingInstance_def)
    qed
  next
    case (Some inst)
    let ?s = "on_db (syncAgentAddress ws inst) s"
    obtain w where w: "find_workspace ?i (wdb ?s) = Some w" "ws_state w = ws_state ws"
      "ws_desired w = ws_desired ws"
      using synced_row [OF assms(2) refl, of inst] by auto
    have pk: "pk (wdb ?s)" using assms(1) by (simp add: abs_simps)
    have settled: "\<exists>v. find_workspace ?i (wdb t) = Some v \<and> ws_state v = st"
      if "t = cas_then ?i (ws_state ws) f (now cx) after ?s" "\<And>w. ws_id (f w) = ws_id w"
        "\<And>w. ws_state (f w) = st"
        "\<And>d v. find_workspace ?i d = Some v \<Longrightarrow>
          \<exists>u. find_workspace ?i (after d) = Some u \<and> ws_state u = ws_state v"
      for t f after st
    proof -
      have "\<exists>v. find_workspace ?i (wdb (cas_then ?i (ws_state ws) f (now cx) after ?s)) = Some v \<and>
          ws_state v = ws_state (f w)"
      proof (rule cas_then_found [OF pk w(1,2) that(2)])
        fix d assume "find_workspace ?i d = Some ((f w)\<lparr>updated_at := now cx\<rparr>)"
        from that(4) [OF this] show "\<exists>v. find_workspace ?i (after d) = Some v \<and> ws_state v = ws_state (f w)"
          by simp
      qed
      then show ?thesis by (simp only: that(1,3))
    qed
    note defs = reconcileTracked_def resolveDrift_def driftStopped_def driftRunning_def driftErrored_def
      resolveStarting_def resolveStopping_def
    have same: ?thesis if "s' = ?s" "drift_state ws (Some (inst_status inst)) = ws_state ws"
      using that w Some by simp
    show ?thesis
    proof (cases "inst_status inst")
      case InstOther
      then show ?thesis using run Some by (intro same) (auto simp: defs Let_def split: if_splits)
    next
      case InstRunning
      show ?thesis
      proof (cases "ws_state ws")
        case Error
        show ?thesis
        proof (cases "ws_desired ws = WantStopped \<and> ws_error_code ws \<noteq> Some STOP_FAILED")
          case False
          then show ?thesis using run Some InstRunning Error by (intro same) (auto simp: defs)
        next
          case True
          let ?hit = "\<lambda>w. ws_id w = ?i \<and> ws_state w = Error \<and> ws_desired w = WantStopped"
          let ?d = "update_workspaces ?hit (\<lambda>w. w\<lparr>ws_state := Stopping, ws_error_code := None,
            ws_error_message := None, updated_at := now cx\<rparr>) (wdb ?s)"
          have hit: "rows_where ?hit (wdb ?s) \<noteq> []"
            using rows_where_by_id [OF pk] w Error True by simp
          have "wdb s' = endOpenTerminals ?i (now cx) ?d"
            using run Some InstRunning Error True hit
            by (auto simp: defs launch_def bump_def Let_def)
          moreover have "find_workspace ?i ?d = Some (w\<lparr>ws_state := Stopping, ws_error_code := None,
              ws_error_message := None, updated_at := now cx\<rparr>)"
            using w Error True find_workspace_id [OF w(1)] by (simp add: find_workspace_update)
          ultimately show ?thesis using Some InstRunning Error True by simp
        qed
      next
        case Running
        then show ?thesis using run Some InstRunning by (intro same) (simp_all add: defs)
      next
        case Stopped
        let ?f = "\<lambda>w. startedNow (now cx) (w\<lparr>ws_state := Running\<rparr>)"
        have "s' = cas_then ?i (ws_state ws) ?f (now cx)
            (workerAudit ?i ''workspace.observed_running'' ResOk None) ?s"
          using run Some InstRunning Stopped by (simp add: defs)
        from settled [OF this, of Running] show ?thesis
          using Some InstRunning Stopped by (simp add: startedNow_def)
      next
        case Starting
        let ?f = "\<lambda>w. startedNow (now cx) (w\<lparr>ws_state := Running\<rparr>)"
        have "s' = cas_then ?i (ws_state ws) ?f (now cx)
            (workerAudit ?i ''workspace.start'' ResOk (Some [(''resolvedFromList'', JBool True)])) ?s"
          using run Some InstRunning Starting by (simp add: defs)
        from settled [OF this, of Running] show ?thesis
          using Some InstRunning Starting by (simp add: startedNow_def)
      next
        case Stopping
        have "s' = cas_then ?i (ws_state ws) (\<lambda>w. w\<lparr>ws_state := Running\<rparr>) (now cx)
            (workerAudit ?i ''workspace.observed_running'' ResOk
              (Some [(''resolvedFromList'', JBool True)])) ?s"
          using run Some InstRunning Stopping by (simp add: defs)
        from settled [OF this, of Running] show ?thesis using Some InstRunning Stopping by simp
      qed (use assms(3) in simp)
    next
      case InstStopped
      let ?down = "\<lambda>w. w\<lparr>ws_state := Stopped, shutdown_deadline := None, disconnected_at := None\<rparr>"
      show ?thesis
      proof (cases "ws_state ws")
        case Error
        then show ?thesis using run Some InstStopped by (intro same) (simp_all add: defs)
      next
        case Stopped
        then show ?thesis using run Some InstStopped by (intro same) (simp_all add: defs)
      next
        case Running
        have "s' = cas_then ?i (ws_state ws) ?down (now cx)
            (\<lambda>d. workerAudit ?i ''workspace.observed_stopped'' ResOk None
               (clearGuardAtStop ?i (endOpenTerminals ?i (now cx) d))) ?s"
          using run Some InstStopped Running by (simp add: defs)
        from settled [OF this, of Stopped] show ?thesis
          using Some InstStopped Running by (simp add: clearGuardAtStop_row(1))
      next
        case Starting
        have "s' = cas_then ?i (ws_state ws)
            (\<lambda>w. w\<lparr>ws_state := Error, ws_error_code := Some (Controller OPERATION_FAILED),
               ws_error_message := Some (userMessage OPERATION_FAILED)\<rparr>) (now cx)
            (\<lambda>d. workerAudit ?i ''workspace.start_failed'' ResFailed
               (Some [(''resolvedFromList'', JBool True)]) (endOpenTerminals ?i (now cx) d)) ?s"
          using run Some InstStopped Starting by (simp add: defs)
        from settled [OF this, of Error] show ?thesis using Some InstStopped Starting by simp
      next
        case Stopping
        have "s' = cas_then ?i (ws_state ws) ?down (now cx)
            (\<lambda>d. workerAudit ?i ''workspace.stop'' ResOk (Some [(''resolvedFromList'', JBool True)])
               (clearGuardAtStop ?i (endOpenTerminals ?i (now cx) d))) ?s"
          using run Some InstStopped Stopping by (simp add: defs)
        from settled [OF this, of Stopped] show ?thesis
          using Some InstStopped Stopping by (simp add: clearGuardAtStop_row(1))
      qed (use assms(3) in simp)
    qed
  qed
qed

lemma drift_resolved_witness:
  "\<exists>v. find_workspace (ws_id sample_row)
      (wdb (the (tracked_row (sample_ctx 5)
        [\<lparr>inst_name = ''ws-1'', inst_status = InstRunning, inst_ipv4 = Some ''10.0.0.2''\<rparr>] []
        sample_row sample_worker))) = Some v \<and>
    ws_state v = drift_state sample_row (map_option inst_status (instance_named ''ws-1''
      [\<lparr>inst_name = ''ws-1'', inst_status = InstRunning, inst_ipv4 = Some ''10.0.0.2''\<rparr>]))"
proof (rule drift_resolved [where n = "''ws-1''" and during = "[]"])
  show "tracked_row (sample_ctx 5)
      [\<lparr>inst_name = ''ws-1'', inst_status = InstRunning, inst_ipv4 = Some ''10.0.0.2''\<rparr>] []
      sample_row sample_worker = Some (the (tracked_row (sample_ctx 5)
      [\<lparr>inst_name = ''ws-1'', inst_status = InstRunning, inst_ipv4 = Some ''10.0.0.2''\<rparr>] []
      sample_row sample_worker))"
    by (rule sweep_value) code_simp
qed (simp_all add: pk_def sample_worker_def sample_db_def find_workspace_def find_row_def
      sample_row_def new_workspace_def)

section \<open>A student's hold\<close>

definition the_db :: "db api \<Rightarrow> db" where
  "the_db r = (case r of Inl e \<Rightarrow> sample_db [] | Inr d \<Rightarrow> d)"

lemma the_db: "(case r of Inl e \<Rightarrow> False | Inr d \<Rightarrow> True) \<Longrightarrow> r = Inr (the_db r)"
  by (simp add: the_db_def split: sum.splits)

lemma keep_cap_api:
  "keep_cap d w = keepRunningMaxHours
     (nullish (map_option set_keep_running_max_hours (db_settings d)) DEFAULT_KEEP_RUNNING_MAX_HOURS)
     (guard_config w)"
  by (simp add: keep_cap_def keepRunningMaxHours_def nullish_def coalesce_def split: option.splits)

text \<open>
  A "keep running" request that is granted belongs to the workspace's owner and stores a hold
  ahead of now, at most the workspace's cap from now and never later than asked, with the idle
  warning answered; a request past the cap by more than the clock skew is refused, and no other
  workspace changes.
\<close>

theorem hold_granted:
  assumes "put_keep_running u i requested t d = Inr d'"
  shows "\<exists>w w' h. find_workspace i d = Some w \<and> owner_user_id w = auth_id u \<and>
    find_workspace i d' = Some w' \<and> keep_running_until w' = Some h \<and>
    t < h \<and> h \<le> requested \<and> h \<le> t + keep_cap d w * 3600000 \<and> requested \<le> h + KEEP_RUNNING_SKEW_MS \<and>
    idle_stop_at w' = None \<and> last_activity_at w' = Some t \<and>
    (\<forall>j. j \<noteq> i \<longrightarrow> find_workspace j d' = find_workspace j d)"
proof -
  from assms obtain w where w: "find_workspace i d = Some w" "owner_user_id w = auth_id u"
    by (auto simp: put_keep_running_def findWorkspaceOwnedBy_def split: option.splits if_splits)
  define m where "m = keep_cap d w"
  define h where "h = min requested (t + m * 3600000)"
  have idw: "ws_id w = i" by (rule find_workspace_id [OF w(1)])
  have owned: "findWorkspaceOwnedBy i (auth_id u) d = Some w" using w by (simp add: findWorkspaceOwnedBy_def)
  have ok: "keepRunningRefusal requested t m = None"
    using assms owned unfolding put_keep_running_def m_def keep_cap_api
    by (auto simp: Let_def split: option.splits keep_running_refusal.splits)
  then have m: "m \<noteq> 0" "t < requested" "requested \<le> t + m * 3600000 + KEEP_RUNNING_SKEW_MS"
    by (auto simp: keepRunningRefusal_def split: if_splits)
  then have "0 < m" by (simp add: KEEP_RUNNING_SKEW_MS_def)
  let ?f = "\<lambda>w. w\<lparr>keep_running_until := Some h, last_activity_at := Some t, idle_stop_at := None,
    updated_at := t\<rparr>"
  obtain e where d': "d' = recordAudit e (update_workspaces (\<lambda>w. ws_id w = i) ?f d)"
    using assms owned ok unfolding put_keep_running_def m_def keep_cap_api h_def
    by (auto simp: Let_def)
  have "find_workspace i d' = Some (?f w)" using w idw by (simp add: d' find_workspace_update)
  moreover have "find_workspace j d' = find_workspace j d" if "j \<noteq> i" for j
    unfolding d' find_workspace_recordAudit using that by (intro find_update_other) auto
  moreover have "t < h" "h \<le> requested" "h \<le> t + m * 3600000" "requested \<le> h + KEEP_RUNNING_SKEW_MS"
    using m \<open>0 < m\<close> by (auto simp: h_def KEEP_RUNNING_SKEW_MS_def)
  ultimately show ?thesis using w by (simp add: m_def)
qed

lemma hold_granted_witness:
  "\<exists>w w' h. find_workspace ''w1'' (sample_db [sample_row]) = Some w \<and> owner_user_id w = auth_id
      \<lparr>auth_id = ''u1'', auth_role = Student\<rparr> \<and>
    find_workspace ''w1'' (the_db (put_keep_running \<lparr>auth_id = ''u1'', auth_role = Student\<rparr> ''w1''
      9000000 1000 (sample_db [sample_row]))) = Some w' \<and> keep_running_until w' = Some h \<and>
    1000 < h \<and> h \<le> 9000000 \<and> h \<le> 1000 + keep_cap (sample_db [sample_row]) w * 3600000 \<and>
    9000000 \<le> h + KEEP_RUNNING_SKEW_MS \<and> idle_stop_at w' = None \<and> last_activity_at w' = Some 1000 \<and>
    (\<forall>j. j \<noteq> ''w1'' \<longrightarrow> find_workspace j (the_db (put_keep_running
      \<lparr>auth_id = ''u1'', auth_role = Student\<rparr> ''w1'' 9000000 1000 (sample_db [sample_row]))) =
      find_workspace j (sample_db [sample_row]))"
  by (rule hold_granted, rule the_db) code_simp

section \<open>Two races\<close>


definition error_row :: workspace where
  "error_row = sample_row\<lparr>ws_state := Error, ws_desired := WantStopped,
     pending_op := Some ReplaceHome,
     pending_operation_args := Some \<lparr>restoreRequestId = Some ''r1'', importRequestId = Some ''r2''\<rparr>\<rparr>"

definition replace_db :: db where
  "replace_db = (sample_db [error_row])\<lparr>backup_requests :=
     [\<lparr>req_id = ''r1'', req_kind = RestoreCopy, req_stamp = Some ''20260924T023000Z'',
       req_instance = Some ''ws-1'', req_state = ReqDone, req_requested_by = None,
       req_workspace_id = Some ''w1'', req_error = None\<rparr>,
      \<lparr>req_id = ''r2'', req_kind = ImportHome, req_stamp = Some ''20260924T023000Z'',
       req_instance = Some ''ws-1'', req_state = ReqDone, req_requested_by = None,
       req_workspace_id = Some ''w1'', req_error = None\<rparr>]\<rparr>"

text \<open>
  A workspace an administrator has put back to provisioning while its home is being replaced
  is made stopped by the end of the replacement: the finish looks at the pending operation only,
  so the creation the administrator asked for never happens.
\<close>

theorem replace_overwrites_reprovision:
  "case reprovision \<lparr>auth_id = ''a1'', auth_role = Administrator\<rparr> ''w1'' 1000 replace_db of
     Inl e \<Rightarrow> False
   | Inr d \<Rightarrow>
       map ws_state (workspaces d) = [Provisioning] \<and>
       map ws_state (workspaces (runReplaceHome ''n1'' 1001 ''ws-1'' error_row 1001 (Inr ''kept'')
         (Inr []) d)) = [Stopped]"
  by code_simp

section \<open>A throttle that outlives a stop\<close>

definition throttled_db :: db where
  "throttled_db = sample_db [sample_row\<lparr>ws_state := Stopping,
     cpu_throttle := Some \<lparr>thr_at = 7, thr_averagePercent = 95, thr_thresholdPercent = 90,
       thr_windowMinutes = 30, thr_sharePercent = 25, thr_allowance = ''50ms/100ms'', thr_held = None\<rparr>,
     memory_flag := Some \<lparr>mem_at = 7, mem_averagePercent = 95, mem_thresholdPercent = 90,
       mem_windowMinutes = 30\<rparr>\<rparr>]"

text \<open>
  A throttle that is not held and a memory flag outlive a stop when the stop fails and the
  errored workspace is provisioned again: neither the failed stop, the re-provisioning nor the
  create that ends in \<open>stopped\<close> clears them, so the new instance is slowed for the old one's use.
\<close>

theorem throttle_outlives_recreate:
  "case reprovision \<lparr>auth_id = ''a1'', auth_role = Administrator\<rparr> ''w1'' 2000
      (doStop sample_row (Inl (ClientError TIMEOUT ''gone'')) 1000 throttled_db) of
     Inl e \<Rightarrow> False
   | Inr d \<Rightarrow>
       (case createWorkspace_turn sample_config ''ws-1'' sample_row [] 0
           (Inr \<lparr>cres_imageFingerprint = ''f'', cres_quota = \<lparr>homeGiB = 10, dockerGiB = 10, recoveryGiB = None\<rparr>,
                 cres_created = True\<rparr>) 3000 d of
          CreateRetry delay \<Rightarrow> False
        | CreateDone d' msg \<Rightarrow>
            map ws_state (workspaces d') = [Stopped] \<and>
            map (map_option thr_held \<circ> cpu_throttle) (workspaces d') = [Some None] \<and>
            map memory_flag (workspaces d') = map memory_flag (workspaces throttled_db))"
  by code_simp

end
