(* ===== verification/Paths.thy ===== *)
theory Paths
  imports Js_Text
begin

text \<open>
  The path arithmetic of the file tree (\<open>apps/web/src/files/paths.ts\<close>) and the project path a
  request may name (\<open>packages/contracts/src/files.ts\<close>). A path is a string of segments joined by
  slashes, relative to the project; the project root is the empty string.
\<close>

section \<open>Arithmetic on paths\<close>

text \<open>\<open>s.lastIndexOf(c)\<close>; \<open>None\<close> is -1.\<close>

fun lastIndexOf :: "char \<Rightarrow> string \<Rightarrow> nat option" where
  "lastIndexOf c [] = None"
| "lastIndexOf c (x # xs) =
     (case lastIndexOf c xs of Some i \<Rightarrow> Some (Suc i) | None \<Rightarrow> if x = c then Some 0 else None)"

definition parentOf :: "string \<Rightarrow> string" where
  "parentOf path = (case lastIndexOf CHR ''/'' path of None \<Rightarrow> [] | Some i \<Rightarrow> take i path)"

definition baseName :: "string \<Rightarrow> string" where
  "baseName path = (case lastIndexOf CHR ''/'' path of None \<Rightarrow> path | Some i \<Rightarrow> drop (i + 1) path)"

definition joinPath :: "string \<Rightarrow> string \<Rightarrow> string" where
  "joinPath dir name = (if dir = [] then name else dir @ ''/'' @ name)"

definition showMorePath :: "string \<Rightarrow> string" where
  "showMorePath dir = joinPath dir (CHR 0x00 # ''more'')"

text \<open>\<open>GENERATED_NAMES\<close> of \<open>contracts/files.ts\<close>.\<close>

definition GENERATED_NAMES :: "string list" where
  "GENERATED_NAMES =
     [''.git'', ''node_modules'', ''.venv'', ''dist'', ''build'', ''target'', ''__pycache__'']"

definition isHiddenName :: "string \<Rightarrow> bool" where
  "isHiddenName name \<longleftrightarrow> startsWith name ''.'' \<or> name \<in> set GENERATED_NAMES"

definition visibleEntries :: "('e \<Rightarrow> string) \<Rightarrow> 'e list \<Rightarrow> bool \<Rightarrow> 'e list" where
  "visibleEntries name entries showHidden =
     (if showHidden then entries else filter (\<lambda>e. \<not> isHiddenName (name e)) entries)"

definition nameError :: "string \<Rightarrow> string option" where
  "nameError name =
     (let trimmed = trim name in
      if trimmed = [] then Some ''Enter a name.''
      else if trimmed = ''.'' \<or> trimmed = ''..'' then Some ''That name is not allowed.''
      else if CHR ''/'' \<in> set trimmed \<or> CHR 0x5C \<in> set trimmed
        then Some ''A name cannot contain a slash.''
      else if CHR 0x00 \<in> set trimmed then Some ''That name is not allowed.''
      else if 255 < length trimmed then Some ''That name is too long.''
      else None)"

definition isDescendant :: "string \<Rightarrow> string \<Rightarrow> bool" where
  "isDescendant path dir \<longleftrightarrow> (if dir = [] then path \<noteq> [] else startsWith path (dir @ ''/''))"

definition canMoveInto :: "string \<Rightarrow> string \<Rightarrow> bool" where
  "canMoveInto from toDir \<longleftrightarrow>
     (if from = [] then False
      else if from = toDir then False
      else if isDescendant toDir from then False
      else parentOf from \<noteq> toDir)"

definition moveForDrop :: "string \<Rightarrow> string option \<Rightarrow> (string \<times> string) option" where
  "moveForDrop from dir =
     (case dir of
        None \<Rightarrow> None
      | Some d \<Rightarrow> if canMoveInto from d then Some (from, joinPath d (baseName from)) else None)"

definition withoutNested :: "string list \<Rightarrow> string list" where
  "withoutNested paths =
     filter (\<lambda>path. \<not> (\<exists>other\<in>set paths. other \<noteq> path \<and> isDescendant path other)) paths"

definition prunePaths :: "string list \<Rightarrow> string \<Rightarrow> string list" where
  "prunePaths paths removed = filter (\<lambda>path. path \<noteq> removed \<and> \<not> isDescendant path removed) paths"

definition movedPath :: "string \<Rightarrow> string \<Rightarrow> string \<Rightarrow> string option" where
  "movedPath path from to =
     (if path = from then Some to
      else if isDescendant path from then Some (to @ drop (length from) path)
      else None)"

definition rewritePaths :: "string list \<Rightarrow> string \<Rightarrow> string \<Rightarrow> string list" where
  "rewritePaths paths from to = map (\<lambda>path. nullish (movedPath path from to) path) paths"

section \<open>The focused row\<close>

lemma lastIndexOf_less: "lastIndexOf c s = Some i \<Longrightarrow> i < length s"
  by (induction s arbitrary: i) (auto split: option.splits if_splits)

lemma parentOf_less: "parentOf p \<noteq> [] \<Longrightarrow> length (parentOf p) < length p"
  by (auto simp: parentOf_def dest: lastIndexOf_less split: option.splits)

text \<open>The loop that climbs from a removed row to the outermost removed folder.\<close>

function outermostRemoved :: "string list \<Rightarrow> string \<Rightarrow> string" where
  "outermostRemoved rendered removed =
     (if parentOf removed \<noteq> [] \<and> parentOf removed \<notin> set rendered
      then outermostRemoved rendered (parentOf removed) else removed)"
  by auto
termination by (relation "measure (length \<circ> snd)") (auto dest: parentOf_less)

declare outermostRemoved.simps [simp del]

text \<open>\<open>xs.indexOf(x)\<close>; \<open>None\<close> is -1.\<close>

fun indexOf :: "'a \<Rightarrow> 'a list \<Rightarrow> nat option" where
  "indexOf x [] = None"
| "indexOf x (y # ys) = (if y = x then Some 0 else map_option Suc (indexOf x ys))"

definition hd_opt :: "'a list \<Rightarrow> 'a option" where
  "hd_opt xs = (case xs of [] \<Rightarrow> None | x # _ \<Rightarrow> Some x)"

definition focusAfterRemoval ::
  "string option \<Rightarrow> string list \<Rightarrow> string list \<Rightarrow> string option" where
  "focusAfterRemoval focused previous rendered =
     (case focused of
        None \<Rightarrow> hd_opt rendered
      | Some f \<Rightarrow>
          if f \<in> set rendered then Some f
          else
            (let removed = outermostRemoved rendered f;
                 place = indexOf removed previous;
                 above = (case place of None \<Rightarrow> None
                   | Some a \<Rightarrow> find (\<lambda>p. p \<in> set rendered) (rev (take a previous)));
                 below = (case above of None \<Rightarrow> hd_opt rendered
                   | Some p \<Rightarrow> (case indexOf p rendered of None \<Rightarrow> hd_opt rendered
                        | Some i \<Rightarrow> nth_opt rendered (i + 1)));
                 folder = parentOf removed;
                 in_folder = (if folder \<in> set rendered then Some folder else hd_opt rendered)
             in if place = None then in_folder
                else
                  (case below of
                     Some n \<Rightarrow> if parentOf n = parentOf removed then Some n
                       else (case above of Some p \<Rightarrow> Some p | None \<Rightarrow> in_folder)
                   | None \<Rightarrow> (case above of Some p \<Rightarrow> Some p | None \<Rightarrow> in_folder))))"

section \<open>The project path\<close>

definition ProjectPath :: "string \<Rightarrow> bool" where
  "ProjectPath s \<longleftrightarrow>
     1 \<le> length s \<and> length s \<le> 1024 \<and> CHR 0x00 \<notin> set s \<and> \<not> startsWith s ''/'' \<and>
     CHR 0x5C \<notin> set s \<and> \<not> (\<exists>part\<in>set (split CHR ''/'' s). part = ''.'' \<or> part = ''..'')"

section \<open>Splitting and joining paths\<close>

lemma lastIndexOf_None: "lastIndexOf c s = None \<longleftrightarrow> c \<notin> set s"
  by (induction s) (auto split: option.splits)

lemma lastIndexOf_split:
  "lastIndexOf c s = Some i \<Longrightarrow> s = take i s @ c # drop (i + 1) s \<and> c \<notin> set (drop (i + 1) s)"
proof (induction s arbitrary: i)
  case (Cons x xs)
  then show ?case
    by (cases "lastIndexOf c xs") (auto simp: lastIndexOf_None split: if_splits)
qed simp

lemma lastIndexOf_append:
  "c \<notin> set t \<Longrightarrow> lastIndexOf c (s @ c # t) = Some (length s)"
  by (induction s) (auto simp: lastIndexOf_None split: option.splits)

lemma baseName_no_slash: "CHR ''/'' \<notin> set (baseName p)"
  using lastIndexOf_split [of "CHR ''/''" p]
  by (auto simp: baseName_def lastIndexOf_None split: option.splits)

lemma joinPath_base:
  assumes "CHR ''/'' \<notin> set n"
  shows "parentOf (joinPath d n) = d" and "baseName (joinPath d n) = n"
  using assms lastIndexOf_append [OF assms, of d]
  by (auto simp: joinPath_def parentOf_def baseName_def lastIndexOf_None split: option.splits)

lemma joinPath_split: "\<not> startsWith p ''/'' \<Longrightarrow> joinPath (parentOf p) (baseName p) = p"
proof (cases "lastIndexOf CHR ''/'' p")
  case (Some i)
  assume "\<not> startsWith p ''/''"
  moreover from lastIndexOf_split [OF Some] have eq: "p = take i p @ CHR ''/'' # drop (i + 1) p" by simp
  ultimately have "take i p \<noteq> []" by (metis append_Nil prefixI startsWith_def append_Cons)
  with Some eq show ?thesis by (simp add: joinPath_def parentOf_def baseName_def)
qed (simp add: joinPath_def parentOf_def baseName_def)

section \<open>Being inside a folder\<close>

lemma descendant_iff: "d \<noteq> [] \<Longrightarrow> isDescendant p d \<longleftrightarrow> (\<exists>r. p = d @ CHR ''/'' # r)"
  by (auto simp: isDescendant_def startsWith_def prefix_def)

lemma descendant_trans: "isDescendant p q \<Longrightarrow> isDescendant q d \<Longrightarrow> isDescendant p d"
  by (cases "d = []"; cases "q = []") (auto simp: descendant_iff isDescendant_def startsWith_def prefix_def)

lemma descendant_longer: "isDescendant p d \<Longrightarrow> length d < length p"
  by (auto simp: isDescendant_def startsWith_def prefix_def split: if_splits)

lemma descendant_irrefl [simp]: "\<not> isDescendant p p"
  using descendant_longer by blast

lemma movedPath_root:
  "movedPath p a b = Some q \<longleftrightarrow> (p = a \<and> q = b) \<or>
     (isDescendant p a \<and> (\<exists>r. p = a @ r \<and> q = b @ r))"
  by (auto simp: movedPath_def isDescendant_def startsWith_def prefix_def split: if_splits)

text \<open>
  Keeping only the outermost paths loses nothing and keeps nothing twice: every path of the
  list is kept or lies inside a kept one, and no kept path lies inside another.
\<close>

theorem withoutNested_covers:
  "set (withoutNested paths) \<subseteq> set paths \<and>
   set paths \<subseteq> {p. \<exists>q\<in>set (withoutNested paths). p = q \<or> isDescendant p q} \<and>
   \<not> (\<exists>p\<in>set (withoutNested paths). \<exists>q\<in>set (withoutNested paths). isDescendant p q)"
proof -
  have "\<exists>q\<in>set (withoutNested paths). p = q \<or> isDescendant p q" if "p \<in> set paths" for p
    using that
  proof (induction "length p" arbitrary: p rule: less_induct)
    case less
    show ?case
    proof (cases "p \<in> set (withoutNested paths)")
      case False
      with less.prems obtain q where "q \<in> set paths" "isDescendant p q"
        by (auto simp: withoutNested_def)
      with less.hyps [OF descendant_longer] show ?thesis by (blast intro: descendant_trans)
    qed blast
  qed
  then show ?thesis by (auto simp: withoutNested_def) (metis descendant_irrefl)
qed

lemma drop_outside:
  assumes "canMoveInto a d"
  shows "joinPath d (baseName a) \<noteq> a" "\<not> isDescendant (joinPath d (baseName a)) a"
proof -
  let ?n = "baseName a"
  have d: "a \<noteq> []" "a \<noteq> d" "\<not> isDescendant d a" "parentOf a \<noteq> d"
    using assms by (auto simp: canMoveInto_def split: if_splits)
  note n = baseName_no_slash [of a]
  show "joinPath d ?n \<noteq> a" using joinPath_base(1) [OF n, of d] d(4) by auto
  show "\<not> isDescendant (joinPath d ?n) a"
  proof
    assume "isDescendant (joinPath d ?n) a"
    with d(1) obtain r where r: "joinPath d ?n = a @ CHR ''/'' # r" by (auto simp: descendant_iff)
    show False
    proof (cases "CHR ''/'' \<in> set r")
      case False
      then have "parentOf (joinPath d ?n) = a"
        using joinPath_base(1) [OF False, of a] r d(1) by (simp add: joinPath_def)
      with joinPath_base(1) [OF n, of d] d(2) show False by simp
    next
      case True
      then obtain i where "lastIndexOf CHR ''/'' r = Some i"
        by (cases "lastIndexOf CHR ''/'' r") (auto simp: lastIndexOf_None)
      from lastIndexOf_split [OF this] obtain u v where
        "r = u @ CHR ''/'' # v" "CHR ''/'' \<notin> set v" by blast
      then have "parentOf (joinPath d ?n) = a @ CHR ''/'' # u"
        using joinPath_base(1) [of v "a @ CHR ''/'' # u"] r by (simp add: joinPath_def)
      with joinPath_base(1) [OF n, of d] d(1,3) show False by (auto simp: descendant_iff)
    qed
  qed
qed

text \<open>
  A drop on a folder keeps the name and changes the folder, never lands on or inside what is
  dropped, and every path it moves comes back when the move is undone.
\<close>

theorem drop_roundtrip:
  assumes "moveForDrop a dir = Some (f, t)"
  shows "f = a \<and> dir = Some (parentOf t) \<and> baseName t = baseName a \<and> t \<noteq> a \<and> \<not> isDescendant t a \<and>
    (\<forall>p. Option.bind (movedPath p a t) (\<lambda>q. movedPath q t a) =
       (if p = a \<or> isDescendant p a then Some p else None))"
proof -
  from assms obtain d where d: "dir = Some d" "canMoveInto a d" "f = a" "t = joinPath d (baseName a)"
    by (auto simp: moveForDrop_def split: option.splits if_splits)
  have "Option.bind (movedPath p a t) (\<lambda>q. movedPath q t a) =
      (if p = a \<or> isDescendant p a then Some p else None)" for p
  proof -
    have "a \<noteq> []" using d(2) by (auto simp: canMoveInto_def)
    then show ?thesis
      by (auto simp: movedPath_def descendant_iff isDescendant_def startsWith_def prefix_def)
  qed
  then show ?thesis
    using d drop_outside [OF d(2)] joinPath_base [OF baseName_no_slash] by simp
qed

lemma drop_roundtrip_witness:
  "moveForDrop ''src/a.ts'' (Some ''lib'') = Some (''src/a.ts'', ''lib/a.ts'') \<and>
   Option.bind (movedPath ''src/a.ts'' ''src/a.ts'' ''lib/a.ts'')
     (\<lambda>q. movedPath q ''lib/a.ts'' ''src/a.ts'') = Some ''src/a.ts''"
proof -
  have "moveForDrop ''src/a.ts'' (Some ''lib'') = Some (''src/a.ts'', ''lib/a.ts'')"
    by code_simp
  with drop_roundtrip [OF this] show ?thesis by (metis (full_types))
qed

section \<open>Where the focus goes\<close>

lemma indexOf_Some: "x \<in> set xs \<Longrightarrow> \<exists>i. indexOf x xs = Some i"
  by (induction xs) auto

lemma find_in: "find P xs = Some x \<Longrightarrow> x \<in> set xs \<and> P x"
  by (auto simp: find_Some_iff)

lemma nth_opt_in: "nth_opt xs i = Some x \<Longrightarrow> x \<in> set xs"
  by (auto simp: nth_opt_Some)

lemma hd_opt_in: "hd_opt xs = Some x \<Longrightarrow> x \<in> set xs"
  by (auto simp: hd_opt_def split: list.splits)

lemma hd_opt_None: "hd_opt xs = None \<longleftrightarrow> xs = []"
  by (auto simp: hd_opt_def split: list.splits)

text \<open>
  The keyboard focus is never lost: after any change of the tree it is on a row that is drawn,
  unless no row is; and a focused row that is still drawn keeps it.
\<close>

theorem focus_kept:
  "(case focusAfterRemoval focused previous rendered of
      None \<Rightarrow> rendered = [] | Some p \<Rightarrow> p \<in> set rendered) \<and>
   (if focused \<in> Some ` set rendered then focusAfterRemoval focused previous rendered = focused
    else True)"
proof (cases focused)
  case None
  then show ?thesis
    by (auto simp: focusAfterRemoval_def hd_opt_None dest: hd_opt_in split: option.splits)
next
  case (Some f)
  show ?thesis
  proof (cases "f \<in> set rendered")
    case False
    then have "case focusAfterRemoval focused previous rendered of
        None \<Rightarrow> rendered = [] | Some p \<Rightarrow> p \<in> set rendered"
      using Some
      by (auto simp: focusAfterRemoval_def Let_def hd_opt_None dest: hd_opt_in nth_opt_in find_in
          split: option.splits if_splits)
    with False Some show ?thesis by auto
  qed (simp add: Some focusAfterRemoval_def)
qed

end
