(* ===== verification/Layout.thy ===== *)
theory Layout
  imports Paths
begin

text \<open>
  A project's saved layout and its pure operations (\<open>apps/web/src/layout/tree.ts\<close>, with the node
  type and the helpers it shares with \<open>packages/contracts/src/project.ts\<close>): tabs, each a tree of
  splits whose leaves are terminals and files; a preview or an old diff is a whole tab. Sizes are
  exact rationals where the code has doubles. A function that draws fresh tab ids takes the
  source of ids and the number drawn so far, and returns the number drawn after it.
\<close>

section \<open>The tree\<close>

datatype split_direction = Row | Column

datatype split_node =
    Leaf string
  | File string
  | Diff string
  | Preview nat
  | Split split_direction "rat list" "split_node list"

record tab =
  tab_id :: string
  root :: split_node

type_synonym project_layout = "tab list"
type_synonym id_source = "nat \<Rightarrow> string"

definition emptyLayout :: project_layout where
  "emptyLayout = []"

fun is_split :: "split_node \<Rightarrow> bool" where
  "is_split (Split d s c) \<longleftrightarrow> True"
| "is_split _ \<longleftrightarrow> False"

fun terminalIds :: "split_node \<Rightarrow> string list" where
  "terminalIds (Leaf t) = [t]"
| "terminalIds (Split d s children) = concat (map terminalIds children)"
| "terminalIds _ = []"

definition layoutTerminalIds :: "project_layout \<Rightarrow> string list" where
  "layoutTerminalIds layout = concat (map (terminalIds \<circ> root) layout)"

fun filePaths :: "split_node \<Rightarrow> string list" where
  "filePaths (File path) = [path]"
| "filePaths (Split d s children) = concat (map filePaths children)"
| "filePaths _ = []"

definition fileTabId :: "string \<Rightarrow> string" where
  "fileTabId path = ''file:'' @ path"

fun paneId :: "split_node \<Rightarrow> string option" where
  "paneId (Leaf t) = Some t"
| "paneId (File path) = Some (fileTabId path)"
| "paneId _ = None"

fun paneIds :: "split_node \<Rightarrow> string list" where
  "paneIds (Split d s children) = concat (map paneIds children)"
| "paneIds node = (case paneId node of None \<Rightarrow> [] | Some i \<Rightarrow> [i])"

definition tabOfPane :: "project_layout \<Rightarrow> string \<Rightarrow> string option" where
  "tabOfPane layout i = map_option tab_id (find (\<lambda>tab. i \<in> set (paneIds (root tab))) layout)"

text \<open>The first result of a loop that returns as soon as it has one.\<close>

fun first_some :: "('a \<Rightarrow> 'b option) \<Rightarrow> 'a list \<Rightarrow> 'b option" where
  "first_some f [] = None"
| "first_some f (x # xs) = (case f x of Some y \<Rightarrow> Some y | None \<Rightarrow> first_some f xs)"

lemma first_some_cong [fundef_cong]:
  "xs = ys \<Longrightarrow> (\<And>x. x \<in> set ys \<Longrightarrow> f x = g x) \<Longrightarrow> first_some f xs = first_some g ys"
  by (induction ys arbitrary: xs) (auto split: option.splits)

fun find_pane_in :: "string \<Rightarrow> split_node \<Rightarrow> split_node option" where
  "find_pane_in i (Split d s children) = first_some (find_pane_in i) children"
| "find_pane_in i node = (if paneId node = Some i then Some node else None)"

definition findPane :: "project_layout \<Rightarrow> string \<Rightarrow> split_node option" where
  "findPane layout i = first_some (\<lambda>tab. find_pane_in i (root tab)) layout"

section \<open>Tab ids and sizes\<close>

definition settle_tab :: "id_source \<Rightarrow> nat \<Rightarrow> tab \<Rightarrow> tab \<times> nat" where
  "settle_tab newTabId n tab =
     (case root tab of
        File path \<Rightarrow>
          (if tab_id tab = fileTabId path then (tab, n) else (tab\<lparr>tab_id := fileTabId path\<rparr>, n))
      | _ \<Rightarrow>
          (if startsWith (tab_id tab) ''file:'' then (tab\<lparr>tab_id := newTabId n\<rparr>, n + 1)
           else (tab, n)))"

fun settleTabIds :: "id_source \<Rightarrow> nat \<Rightarrow> tab list \<Rightarrow> tab list \<times> nat" where
  "settleTabIds newTabId n [] = ([], n)"
| "settleTabIds newTabId n (tab # tabs) =
     (let (tab', n') = settle_tab newTabId n tab;
          (tabs', m) = settleTabIds newTabId n' tabs
      in (tab' # tabs', m))"

definition round2 :: "rat \<Rightarrow> rat" where
  "round2 value = of_int (js_round (value * 100)) / 100"

definition evenSizes :: "nat \<Rightarrow> rat list" where
  "evenSizes count =
     (let each = round2 (100 / of_nat count) in
      (replicate count each)[count - 1 := round2 (100 - each * (of_nat count - 1))])"

definition normaliseSizes :: "rat list \<Rightarrow> rat list" where
  "normaliseSizes sizes =
     (let total = sum_list (map (\<lambda>size. max size 0) sizes) in
      if total \<le> 0 then evenSizes (length sizes)
      else (let scaled = map (\<lambda>size. round2 ((max size 0 / total) * 100)) sizes;
                end = length scaled - 1
            in scaled[end := round2 (100 - sum_list (take end scaled))]))"

section \<open>Adding and splitting\<close>

definition addTab :: "project_layout \<Rightarrow> string \<Rightarrow> string \<Rightarrow> project_layout" where
  "addTab layout terminalId tabId = layout @ [\<lparr>tab_id = tabId, root = Leaf terminalId\<rparr>]"

text \<open>\<open>xs.splice(i, 0, x)\<close>, \<open>xs.splice(i, 1)\<close> and \<open>xs.findIndex(p)\<close>.\<close>

definition insert_at :: "nat \<Rightarrow> 'a \<Rightarrow> 'a list \<Rightarrow> 'a list" where
  "insert_at i x xs = take i xs @ x # drop i xs"

definition delete_at :: "nat \<Rightarrow> 'a list \<Rightarrow> 'a list" where
  "delete_at i xs = take i xs @ drop (i + 1) xs"

fun findIndex :: "('a \<Rightarrow> bool) \<Rightarrow> 'a list \<Rightarrow> nat option" where
  "findIndex P [] = None"
| "findIndex P (x # xs) = (if P x then Some 0 else map_option Suc (findIndex P xs))"

text \<open>
  The loop of \<open>splitNode\<close>, \<open>insertBeside\<close>: the first child that gives a new node is replaced by
  it; \<open>None\<close> when no child does.
\<close>

fun replace_first :: "('a \<Rightarrow> 'a option) \<Rightarrow> 'a list \<Rightarrow> 'a list option" where
  "replace_first f [] = None"
| "replace_first f (x # xs) =
     (case f x of Some y \<Rightarrow> Some (y # xs) | None \<Rightarrow> map_option (Cons x) (replace_first f xs))"

lemma replace_first_cong [fundef_cong]:
  "xs = ys \<Longrightarrow> (\<And>x. x \<in> set ys \<Longrightarrow> f x = g x) \<Longrightarrow> replace_first f xs = replace_first g ys"
  by (induction ys arbitrary: xs) (auto split: option.splits)

fun splitNode :: "string \<Rightarrow> split_direction \<Rightarrow> string \<Rightarrow> split_node \<Rightarrow> split_node option" where
  "splitNode terminalId direction newTerminalId (Leaf t) =
     (if t \<noteq> terminalId then None
      else Some (Split direction (evenSizes 2) [Leaf t, Leaf newTerminalId]))"
| "splitNode terminalId direction newTerminalId (Split d sizes children) =
     (case findIndex (\<lambda>child. child = Leaf terminalId) children of
        Some i \<Rightarrow>
          if d = direction
          then (let children' = insert_at (i + 1) (Leaf newTerminalId) children
                in Some (Split d (evenSizes (length children')) children'))
          else map_option (Split d sizes)
            (replace_first (splitNode terminalId direction newTerminalId) children)
      | None \<Rightarrow> map_option (Split d sizes)
          (replace_first (splitNode terminalId direction newTerminalId) children))"
| "splitNode terminalId direction newTerminalId _ = None"

definition splitLeaf ::
  "project_layout \<Rightarrow> string \<Rightarrow> split_direction \<Rightarrow> string \<Rightarrow> project_layout" where
  "splitLeaf layout terminalId direction newTerminalId =
     map (\<lambda>tab. case splitNode terminalId direction newTerminalId (root tab) of
         Some r \<Rightarrow> tab\<lparr>root := r\<rparr> | None \<Rightarrow> tab) layout"

section \<open>Removing and replacing\<close>

datatype removal = Unchanged | Gone | Became split_node

text \<open>The first child the removal changes, and what it becomes.\<close>

fun removed_child :: "('a \<Rightarrow> removal) \<Rightarrow> 'a list \<Rightarrow> (nat \<times> split_node option) option" where
  "removed_child f [] = None"
| "removed_child f (x # xs) =
     (case f x of
        Unchanged \<Rightarrow> map_option (\<lambda>(i, r). (Suc i, r)) (removed_child f xs)
      | Gone \<Rightarrow> Some (0, None)
      | Became y \<Rightarrow> Some (0, Some y))"

lemma removed_child_cong [fundef_cong]:
  "xs = ys \<Longrightarrow> (\<And>x. x \<in> set ys \<Longrightarrow> f x = g x) \<Longrightarrow> removed_child f xs = removed_child g ys"
  by (induction ys arbitrary: xs) (auto split: removal.splits)

fun removeFromNode :: "string \<Rightarrow> split_node \<Rightarrow> removal" where
  "removeFromNode i (Split d sizes children) =
     (case removed_child (removeFromNode i) children of
        None \<Rightarrow> Unchanged
      | Some (k, result) \<Rightarrow>
          (let children' = (case result of None \<Rightarrow> delete_at k children | Some c \<Rightarrow> children[k := c]);
               sizes' = (case result of None \<Rightarrow> delete_at k sizes | Some c \<Rightarrow> sizes)
           in (case children' of
                 [] \<Rightarrow> Gone
               | [only] \<Rightarrow> Became only
               | _ \<Rightarrow> Became (Split d (normaliseSizes sizes') children'))))"
| "removeFromNode i node = (if paneId node = Some i then Gone else Unchanged)"

fun withoutPane :: "project_layout \<Rightarrow> string \<Rightarrow> project_layout" where
  "withoutPane [] i = []"
| "withoutPane (tab # tabs) i =
     (case removeFromNode i (root tab) of
        Unchanged \<Rightarrow> tab # withoutPane tabs i
      | Gone \<Rightarrow> withoutPane tabs i
      | Became r \<Rightarrow> tab\<lparr>root := r\<rparr> # withoutPane tabs i)"

definition removeLeaf ::
  "id_source \<Rightarrow> nat \<Rightarrow> project_layout \<Rightarrow> string \<Rightarrow> project_layout \<times> nat" where
  "removeLeaf newTabId n layout i = settleTabIds newTabId n (withoutPane layout i)"

fun replaceLeaf_node :: "string \<Rightarrow> string \<Rightarrow> split_node \<Rightarrow> split_node" where
  "replaceLeaf_node terminalId newTerminalId (Leaf t) =
     (if t = terminalId then Leaf newTerminalId else Leaf t)"
| "replaceLeaf_node terminalId newTerminalId (Split d sizes children) =
     Split d sizes (map (replaceLeaf_node terminalId newTerminalId) children)"
| "replaceLeaf_node terminalId newTerminalId node = node"

definition replaceLeaf :: "project_layout \<Rightarrow> string \<Rightarrow> string \<Rightarrow> project_layout" where
  "replaceLeaf layout terminalId newTerminalId =
     map (\<lambda>tab. tab\<lparr>root := replaceLeaf_node terminalId newTerminalId (root tab)\<rparr>) layout"

definition moveTab :: "project_layout \<Rightarrow> int \<Rightarrow> int \<Rightarrow> project_layout" where
  "moveTab layout from to =
     (if from = to then layout
      else if from < 0 \<or> int (length layout) \<le> from then layout
      else if to < 0 \<or> int (length layout) \<le> to then layout
      else insert_at (nat to) (layout ! nat from) (delete_at (nat from) layout))"

fun resize_node :: "nat list \<Rightarrow> rat list \<Rightarrow> split_node \<Rightarrow> split_node" where
  "resize_node [] sizes (Split d old children) =
     (if length sizes \<noteq> length children then Split d old children
      else Split d (normaliseSizes sizes) children)"
| "resize_node (k # path) sizes (Split d old children) =
     (if k < length children
      then Split d old (children[k := resize_node path sizes (children ! k)])
      else Split d old children)"
| "resize_node path sizes node = node"

definition resize :: "project_layout \<Rightarrow> string \<Rightarrow> nat list \<Rightarrow> rat list \<Rightarrow> project_layout" where
  "resize layout tabId path sizes =
     map (\<lambda>tab. if tab_id tab = tabId then tab\<lparr>root := resize_node path sizes (root tab)\<rparr> else tab)
       layout"

section \<open>Reconciling with the server's terminals\<close>

fun drop_unknown ::
  "id_source \<Rightarrow> nat \<Rightarrow> string list \<Rightarrow> string list \<Rightarrow> project_layout \<Rightarrow> project_layout \<times> nat" where
  "drop_unknown newTabId n known [] layout = (layout, n)"
| "drop_unknown newTabId n known (i # ids) layout =
     (if i \<in> set known then drop_unknown newTabId n known ids layout
      else (let (layout', n') = removeLeaf newTabId n layout i
            in drop_unknown newTabId n' known ids layout'))"

fun place_live :: "string list \<Rightarrow> string list \<Rightarrow> string list \<Rightarrow> project_layout \<Rightarrow> project_layout" where
  "place_live ended placed [] layout = layout"
| "place_live ended placed (i # ids) layout =
     (if i \<in> set placed \<or> i \<in> set ended then place_live ended placed ids layout
      else place_live ended (i # placed) ids (addTab layout i i))"

definition reconcile_layout ::
  "id_source \<Rightarrow> nat \<Rightarrow> project_layout \<Rightarrow> string list \<Rightarrow> string list \<Rightarrow> project_layout \<times> nat" where
  "reconcile_layout newTabId n layout ids endedIds =
     (let (layout', n') = drop_unknown newTabId n ids (layoutTerminalIds layout) layout
      in (place_live endedIds (layoutTerminalIds layout') ids layout', n'))"

section \<open>Dragging\<close>

datatype drop_edge = LeftEdge | RightEdge | TopEdge | BottomEdge | Center

definition MAX_SPLIT_DEPTH :: nat where
  "MAX_SPLIT_DEPTH = 8"

fun splitDepth :: "split_node \<Rightarrow> nat" where
  "splitDepth (Split d sizes children) = foldl max 0 (map splitDepth children) + 1"
| "splitDepth _ = 1"

definition withinDepth :: "project_layout \<Rightarrow> bool" where
  "withinDepth layout \<longleftrightarrow> list_all (\<lambda>tab. splitDepth (root tab) \<le> MAX_SPLIT_DEPTH) layout"

fun swap_node :: "split_node \<Rightarrow> split_node \<Rightarrow> split_node \<Rightarrow> split_node" where
  "swap_node a b (Split d sizes children) = Split d sizes (map (swap_node a b) children)"
| "swap_node a b node =
     (if paneId node = paneId a then b else if paneId node = paneId b then a else node)"

definition swapLeaves :: "project_layout \<Rightarrow> split_node \<Rightarrow> split_node \<Rightarrow> project_layout" where
  "swapLeaves layout a b = map (\<lambda>tab. tab\<lparr>root := swap_node a b (root tab)\<rparr>) layout"

fun insertBeside ::
  "string \<Rightarrow> split_node \<Rightarrow> split_direction \<Rightarrow> bool \<Rightarrow> split_node \<Rightarrow> split_node option" where
  "insertBeside targetId moved direction first (Split d sizes children) =
     (case findIndex (\<lambda>child. paneId child = Some targetId) children of
        Some i \<Rightarrow>
          if d = direction
          then (let children' = insert_at (if first then i else i + 1) moved children
                in Some (Split d (evenSizes (length children')) children'))
          else map_option (Split d sizes)
            (replace_first (insertBeside targetId moved direction first) children)
      | None \<Rightarrow> map_option (Split d sizes)
          (replace_first (insertBeside targetId moved direction first) children))"
| "insertBeside targetId moved direction first node =
     (if paneId node \<noteq> Some targetId then None
      else Some (Split direction (evenSizes 2) (if first then [moved, node] else [node, moved])))"

definition moveLeaf ::
  "id_source \<Rightarrow> nat \<Rightarrow> project_layout \<Rightarrow> string \<Rightarrow> string \<Rightarrow> string \<Rightarrow> drop_edge \<Rightarrow>
   project_layout \<times> nat" where
  "moveLeaf newTabId n layout tabId i targetId edge =
     (if i = targetId then (layout, n)
      else (case (findPane layout i, findPane layout targetId) of
        (Some moved, Some targetNode) \<Rightarrow>
          (case find (\<lambda>tab. tab_id tab = tabId \<and> targetId \<in> set (paneIds (root tab))) layout of
             None \<Rightarrow> (layout, n)
           | Some _ \<Rightarrow>
               if edge = Center then settleTabIds newTabId n (swapLeaves layout moved targetNode)
               else
                 (let direction = (if edge = LeftEdge \<or> edge = RightEdge then Row else Column);
                      first = (edge = LeftEdge \<or> edge = TopEdge);
                      insert_in = (\<lambda>tab. if tab_id tab = tabId
                        then insertBeside targetId moved direction first (root tab) else None);
                      kept = withoutPane layout i;
                      tabs = map (\<lambda>tab. case insert_in tab of Some r \<Rightarrow> tab\<lparr>root := r\<rparr> | None \<Rightarrow> tab) kept;
                      inserted = list_ex (\<lambda>tab. insert_in tab \<noteq> None) kept
                  in if \<not> inserted then (layout, n)
                     else (let (settled, n') = settleTabIds newTabId n tabs
                           in if withinDepth settled then (settled, n') else (layout, n'))))
      | _ \<Rightarrow> (layout, n)))"

definition moveLeafToNewTab ::
  "id_source \<Rightarrow> nat \<Rightarrow> project_layout \<Rightarrow> string \<Rightarrow> int \<Rightarrow> string \<Rightarrow> project_layout \<times> nat" where
  "moveLeafToNewTab newTabId n layout i index tabId =
     (case findPane layout i of
        None \<Rightarrow> (layout, n)
      | Some moved \<Rightarrow>
          (let kept = withoutPane layout i
           in settleTabIds newTabId n
                (insert_at (nat (min (max index 0) (int (length kept))))
                   \<lparr>tab_id = tabId, root = moved\<rparr> kept)))"

section \<open>Opening and closing\<close>

definition openFile :: "project_layout \<Rightarrow> string \<Rightarrow> project_layout \<times> string" where
  "openFile layout path =
     (case tabOfPane layout (fileTabId path) of
        Some tabId \<Rightarrow> (layout, tabId)
      | None \<Rightarrow> (layout @ [\<lparr>tab_id = fileTabId path, root = File path\<rparr>], fileTabId path))"

definition previewTabId :: "nat \<Rightarrow> string" where
  "previewTabId port = ''preview:'' @ show_nat port"

definition openPreview :: "project_layout \<Rightarrow> nat \<Rightarrow> project_layout \<times> string" where
  "openPreview layout port =
     (let tabId = previewTabId port in
      if list_ex (\<lambda>tab. tab_id tab = tabId) layout then (layout, tabId)
      else (layout @ [\<lparr>tab_id = tabId, root = Preview port\<rparr>], tabId))"

definition closeTab :: "project_layout \<Rightarrow> string \<Rightarrow> project_layout" where
  "closeTab layout tabId =
     (if \<not> list_ex (\<lambda>tab. tab_id tab = tabId) layout then layout
      else filter (\<lambda>tab. tab_id tab \<noteq> tabId) layout)"

section \<open>Layouts from older versions and other browsers\<close>

fun is_diff :: "split_node \<Rightarrow> bool" where
  "is_diff (Diff path) \<longleftrightarrow> True"
| "is_diff _ \<longleftrightarrow> False"

fun migrate_tabs ::
  "string list \<Rightarrow> project_layout \<Rightarrow> string list \<Rightarrow> tab list \<Rightarrow> project_layout \<times> string list" where
  "migrate_tabs inSplits tabs diffTabIds [] = (tabs, diffTabIds)"
| "migrate_tabs inSplits tabs diffTabIds (tab # rest) =
     (case root tab of
        Diff path \<Rightarrow>
          (let i = fileTabId path;
               ids = diffTabIds @ [i]
           in if list_ex (\<lambda>kept. tab_id kept = i) tabs \<or> path \<in> set inSplits
              then migrate_tabs inSplits tabs ids rest
              else migrate_tabs inSplits (tabs @ [\<lparr>tab_id = i, root = File path\<rparr>]) ids rest)
      | _ \<Rightarrow>
          if list_ex (\<lambda>kept. tab_id kept = tab_id tab) tabs
          then migrate_tabs inSplits tabs diffTabIds rest
          else migrate_tabs inSplits (tabs @ [tab]) diffTabIds rest)"

definition migrateDiffTabs :: "project_layout \<Rightarrow> project_layout \<times> string list" where
  "migrateDiffTabs layout =
     (if \<not> list_ex (\<lambda>tab. is_diff (root tab)) layout then (layout, [])
      else migrate_tabs
        (concat (map (\<lambda>tab. if is_split (root tab) then filePaths (root tab) else []) layout))
        [] [] layout)"

fun retarget_node :: "string \<Rightarrow> string \<Rightarrow> split_node \<Rightarrow> split_node" where
  "retarget_node from to (Split d sizes children) =
     Split d sizes (map (retarget_node from to) children)"
| "retarget_node from to (File path) = File (nullish (movedPath path from to) path)"
| "retarget_node from to node = node"

definition retargetFiles ::
  "id_source \<Rightarrow> nat \<Rightarrow> project_layout \<Rightarrow> string \<Rightarrow> string \<Rightarrow> project_layout \<times> nat" where
  "retargetFiles newTabId n layout from to =
     (let opened = concat (map (filePaths \<circ> root) layout);
          arriving = List.map_filter (\<lambda>path. movedPath path from to) opened
      in if arriving = [] then (layout, n)
         else
           (let next_layout = foldl (\<lambda>l path.
                  if path \<in> set arriving \<and> movedPath path from to = None
                  then withoutPane l (fileTabId path) else l) layout opened;
                tabs = map (\<lambda>tab. tab\<lparr>root := retarget_node from to (root tab)\<rparr>) next_layout
            in settleTabIds newTabId n tabs))"

fun keep_node :: "split_node \<Rightarrow> split_node \<Rightarrow> split_node"
  and keep_nodes :: "split_node list \<Rightarrow> split_node list \<Rightarrow> split_node list" where
  "keep_node (Split d sizes children) (Split d' sizes' children') =
     (if d \<noteq> d' then Split d' sizes' children'
      else if length children \<noteq> length children' then Split d' sizes' children'
      else if map paneIds children \<noteq> map paneIds children' then Split d' sizes' children'
      else Split d' sizes (keep_nodes children children'))"
| "keep_node here there = there"
| "keep_nodes (c # cs) (c' # cs') = keep_node c c' # keep_nodes cs cs'"
| "keep_nodes cs cs' = cs'"

definition keepSizes :: "project_layout \<Rightarrow> project_layout \<Rightarrow> project_layout" where
  "keepSizes current remote =
     map (\<lambda>tab. case find (\<lambda>candidate. tab_id candidate = tab_id tab) current of
         Some mine \<Rightarrow> tab\<lparr>root := keep_node (root mine) (root tab)\<rparr>
       | None \<Rightarrow> tab) remote"

definition mergeRemote ::
  "project_layout \<Rightarrow> project_layout \<Rightarrow> (string \<Rightarrow> bool) \<Rightarrow> project_layout" where
  "mergeRemote current remote unsaved =
     foldl (\<lambda>layout path. if unsaved (fileTabId path) then fst (openFile layout path) else layout)
       (keepSizes current (fst (migrateDiffTabs remote)))
       (concat (map (filePaths \<circ> root) current))"

definition dropTerminalPane ::
  "id_source \<Rightarrow> nat \<Rightarrow> project_layout \<Rightarrow> string \<Rightarrow> project_layout \<times> nat" where
  "dropTerminalPane newTabId n layout terminalId =
     (if terminalId \<in> set (layoutTerminalIds layout) then removeLeaf newTabId n layout terminalId
      else (layout, n))"

section \<open>Which tab is shown\<close>

definition followTab ::
  "project_layout \<Rightarrow> project_layout \<Rightarrow> string \<Rightarrow> (string \<Rightarrow> string) \<Rightarrow> string" where
  "followTab old new tabId paneNow =
     (if list_ex (\<lambda>tab. tab_id tab = tabId) new then tabId
      else (case find (\<lambda>tab. tab_id tab = tabId) old of
        None \<Rightarrow> tabId
      | Some tab \<Rightarrow>
          nullish (first_some (\<lambda>i. tabOfPane new (paneNow i)) (paneIds (root tab))) tabId))"

definition pickActive :: "project_layout \<Rightarrow> string option \<Rightarrow> string list \<Rightarrow> string option" where
  "pickActive layout current history =
     (case current of
        Some c \<Rightarrow> (if c \<noteq> [] \<and> list_ex (\<lambda>tab. tab_id tab = c) layout then Some c
          else coalesce (hd_opt history) (map_option tab_id (hd_opt layout)))
      | None \<Rightarrow> coalesce (hd_opt history) (map_option tab_id (hd_opt layout)))"

end
