(* ===== verification/Layout_Panes.thy ===== *)
theory Layout_Panes
  imports Layout "HOL-Library.Multiset"
begin

text \<open>
  What the operations of the layout do to the panes it shows. The abstract view of a layout is the
  list of its leaves in visual order; on a layout where no pane is shown twice, removing,
  splitting, swapping and dragging are the list operations one expects. The pane ids, the
  terminals and the files of a layout are views of its leaves (\<open>leaf_view\<close>).
\<close>

section \<open>The leaves of a layout and their views\<close>

fun leaves :: "split_node \<Rightarrow> split_node list" where
  "leaves (Split d s children) = concat (map leaves children)"
| "leaves node = [node]"

definition layout_leaves :: "project_layout \<Rightarrow> split_node list" where
  "layout_leaves layout = concat (map (leaves \<circ> root) layout)"

definition panes :: "project_layout \<Rightarrow> string list" where
  "panes layout = concat (map (paneIds \<circ> root) layout)"

locale leaf_view =
  fixes view :: "split_node \<Rightarrow> 'a list"
  assumes view_split: "view (Split d s children) = concat (map view children)"
begin

lemma view_children:
  "(\<And>c. c \<in> set cs \<Longrightarrow> concat (map view (leaves c)) = view c) \<Longrightarrow>
     concat (map view (concat (map leaves cs))) = concat (map view cs)"
  by (induction cs) simp_all

lemma view_leaves: "concat (map view (leaves node)) = view node"
proof (induction node)
  case (Split d s children)
  from view_children [OF this] show ?case by (simp only: leaves.simps view_split)
qed simp_all

lemma view_layout: "concat (map (view \<circ> root) l) = concat (map view (layout_leaves l))"
  by (induction l) (simp_all add: layout_leaves_def view_leaves)

end

interpretation pane: leaf_view paneIds
  by unfold_locales simp

interpretation terminal: leaf_view terminalIds
  by unfold_locales simp

interpretation files: leaf_view filePaths
  by unfold_locales simp

lemma layout_leaves_simps [simp]:
  "layout_leaves [] = []" "layout_leaves (t # l) = leaves (root t) @ layout_leaves l"
  "layout_leaves (l @ m) = layout_leaves l @ layout_leaves m"
  by (simp_all add: layout_leaves_def)

lemma panes_simps [simp]:
  "panes [] = []" "panes (t # l) = paneIds (root t) @ panes l" "panes (l @ m) = panes l @ panes m"
  by (simp_all add: panes_def)

lemma panes_leaves: "panes l = concat (map paneIds (layout_leaves l))"
  unfolding panes_def by (rule pane.view_layout)

lemma terminals_leaves: "layoutTerminalIds l = concat (map terminalIds (layout_leaves l))"
  unfolding layoutTerminalIds_def by (rule terminal.view_layout)

lemma leaves_not_split: "n \<in> set (leaves node) \<Longrightarrow> \<not> is_split n"
  by (induction node) auto

lemma paneId_paneIds: "paneId node = Some i \<Longrightarrow> paneIds node = [i]"
  by (cases node) auto

lemma paneId_leaves: "paneId node = Some i \<Longrightarrow> leaves node = [node]"
  by (cases node) auto

lemma leaf_pane: "\<not> is_split n \<Longrightarrow> i \<in> set (paneIds n) \<longleftrightarrow> paneId n = Some i"
  by (cases n) auto

lemma in_paneIds: "i \<in> set (paneIds node) \<longleftrightarrow> (\<exists>n\<in>set (leaves node). paneId n = Some i)"
  unfolding pane.view_leaves [of node, symmetric] by (auto simp: leaf_pane leaves_not_split)

section \<open>Putting an element beside another\<close>

definition beside :: "bool \<Rightarrow> ('a \<Rightarrow> bool) \<Rightarrow> 'a \<Rightarrow> 'a list \<Rightarrow> 'a list" where
  "beside first P y xs = concat (map (\<lambda>z. if P z then (if first then [y, z] else [z, y]) else [z]) xs)"

lemma beside_simps [simp]:
  "beside first P y [] = []" "beside first P y (xs @ ys) = beside first P y xs @ beside first P y ys"
  "beside first P y (z # zs) =
     (if P z then (if first then [y, z] else [z, y]) else [z]) @ beside first P y zs"
  by (simp_all add: beside_def)

lemma beside_none [simp]: "(\<And>x. x \<in> set xs \<Longrightarrow> \<not> P x) \<Longrightarrow> beside first P y xs = xs"
  by (induction xs) auto

lemma beside_notin [simp]: "x \<notin> set xs \<Longrightarrow> beside first ((=) x) y xs = xs"
  by (rule beside_none) auto

lemma set_beside: "set (beside first P y xs) = (if \<exists>x\<in>set xs. P x then insert y (set xs) else set xs)"
  by (induction xs) auto

lemma mset_beside:
  "distinct xs \<Longrightarrow> x \<in> set xs \<Longrightarrow> mset (beside first ((=) x) y xs) = add_mset y (mset xs)"
  by (induction xs) auto

section \<open>Loops over the children\<close>

lemma findIndex_Some:
  "findIndex P xs = Some i \<Longrightarrow> i < length xs \<and> P (xs ! i) \<and> (\<forall>x\<in>set (take i xs). \<not> P x)"
  by (induction xs arbitrary: i) (auto split: if_splits)

lemma findIndex_None: "findIndex P xs = None \<longleftrightarrow> (\<forall>x\<in>set xs. \<not> P x)"
  by (induction xs) auto

lemma findIndex_split:
  "findIndex P xs = Some i \<Longrightarrow> \<exists>ys x zs. xs = ys @ x # zs \<and> length ys = i \<and> P x \<and> (\<forall>y\<in>set ys. \<not> P y)"
  using findIndex_Some [of P xs i] id_take_nth_drop [of i xs] by fastforce

lemma insert_at_split [simp]:
  "length ys = i \<Longrightarrow> insert_at i x (ys @ z # zs) = ys @ x # z # zs"
  "length ys = i \<Longrightarrow> insert_at (Suc i) x (ys @ z # zs) = ys @ z # x # zs"
  "length ys = i \<Longrightarrow> delete_at i (ys @ z # zs) = ys @ zs"
  by (simp_all add: insert_at_def delete_at_def)

lemma replace_first_None: "replace_first f xs = None \<longleftrightarrow> (\<forall>x\<in>set xs. f x = None)"
  by (induction xs) (auto split: option.splits)

lemma replace_first_Some:
  "replace_first f xs = Some ys \<Longrightarrow> \<exists>us x v ws. xs = us @ x # ws \<and> ys = us @ v # ws \<and>
     (\<forall>u\<in>set us. f u = None) \<and> f x = Some v"
proof (induction xs arbitrary: ys)
  case (Cons x xs)
  show ?case
  proof (cases "f x")
    case (Some y)
    with Cons.prems show ?thesis by (intro exI [of _ "[]"]) auto
  next
    case None
    with Cons.prems obtain zs where "replace_first f xs = Some zs" "ys = x # zs" by auto
    with Cons.IH [of zs] None show ?thesis by (metis Cons_eq_appendI set_ConsD)
  qed
qed simp

lemma removed_child_None: "removed_child f xs = None \<longleftrightarrow> (\<forall>x\<in>set xs. f x = Unchanged)"
  by (induction xs) (auto split: removal.splits)

lemma removed_child_Some:
  "removed_child f xs = Some (k, r) \<Longrightarrow> \<exists>us x ws. xs = us @ x # ws \<and> length us = k \<and>
     (\<forall>u\<in>set us. f u = Unchanged) \<and> f x = (case r of None \<Rightarrow> Gone | Some y \<Rightarrow> Became y)"
proof (induction xs arbitrary: k)
  case (Cons x xs)
  show ?case
  proof (cases "f x")
    case Unchanged
    with Cons.prems obtain j where "removed_child f xs = Some (j, r)" "k = Suc j" by auto
    with Cons.IH [of j] Unchanged obtain us y ws where "xs = us @ y # ws" "length us = j"
      "\<forall>u\<in>set us. f u = Unchanged" "f y = (case r of None \<Rightarrow> Gone | Some y \<Rightarrow> Became y)" by blast
    with Unchanged \<open>k = Suc j\<close> show ?thesis by (intro exI [of _ "x # us"]) auto
  qed (use Cons.prems in \<open>auto intro: exI [of _ "[]"]\<close>)
qed simp

section \<open>Removing a pane\<close>

fun removal_leaves :: "split_node \<Rightarrow> removal \<Rightarrow> split_node list" where
  "removal_leaves node Unchanged = leaves node"
| "removal_leaves node Gone = []"
| "removal_leaves node (Became r) = leaves r"

definition not_pane :: "string \<Rightarrow> split_node \<Rightarrow> bool" where
  "not_pane i n \<longleftrightarrow> paneId n \<noteq> Some i"

lemma filter_not_pane: "i \<notin> set (paneIds node) \<Longrightarrow> filter (not_pane i) (leaves node) = leaves node"
  by (auto simp: in_paneIds not_pane_def filter_id_conv)

lemma filter_not_pane_list:
  "i \<notin> set (concat (map paneIds cs)) \<Longrightarrow>
     filter (not_pane i) (concat (map leaves cs)) = concat (map leaves cs)"
  by (induction cs) (auto simp: filter_not_pane)

lemma removeFromNode_leaves:
  "distinct (paneIds node) \<Longrightarrow> (removeFromNode i node = Unchanged \<longleftrightarrow> i \<notin> set (paneIds node)) \<and>
   removal_leaves node (removeFromNode i node) = filter (not_pane i) (leaves node)"
proof (induction i node rule: removeFromNode.induct)
  case (1 i d sizes children)
  have IH: "(removeFromNode i c = Unchanged \<longleftrightarrow> i \<notin> set (paneIds c)) \<and>
      removal_leaves c (removeFromNode i c) = filter (not_pane i) (leaves c)"
    if "c \<in> set children" for c
    using 1 that by (auto simp: distinct_concat_iff)
  show ?case
  proof (cases "removed_child (removeFromNode i) children")
    case None
    then have "removeFromNode i (Split d sizes children) = Unchanged" by simp
    moreover from None IH have "i \<notin> set (concat (map paneIds children))"
      by (auto simp: removed_child_None)
    ultimately show ?thesis using filter_not_pane_list by (simp del: removeFromNode.simps)
  next
    case (Some kr)
    then obtain k r where kr: "removed_child (removeFromNode i) children = Some (k, r)" by (cases kr) auto
    from removed_child_Some [OF kr] obtain us x ws where c: "children = us @ x # ws" "length us = k"
      "\<forall>u\<in>set us. removeFromNode i u = Unchanged"
      "removeFromNode i x = (case r of None \<Rightarrow> Gone | Some y \<Rightarrow> Became y)" by blast
    have x: "i \<in> set (paneIds x)" "removal_leaves x (removeFromNode i x) = filter (not_pane i) (leaves x)"
      using c(1,4) IH [of x] by (auto split: option.splits)
    have others: "i \<notin> set (concat (map paneIds us))" "i \<notin> set (concat (map paneIds ws))"
      using 1(2) x(1) c(1) by auto
    define cs where "cs = (case r of None \<Rightarrow> us @ ws | Some y \<Rightarrow> us @ y # ws)"
    have cs: "(case r of None \<Rightarrow> delete_at k children | Some c \<Rightarrow> children[k := c]) = cs"
      using c(1,2) by (auto simp: cs_def split: option.splits)
    have "concat (map leaves cs) = filter (not_pane i) (concat (map leaves children))"
      using c(1,4) x(2) others [THEN filter_not_pane_list] by (auto simp: cs_def split: option.splits)
    moreover have "removeFromNode i (Split d sizes children) =
        (case cs of [] \<Rightarrow> Gone | [only] \<Rightarrow> Became only
         | _ \<Rightarrow> Became (Split d (normaliseSizes
             (case r of None \<Rightarrow> delete_at k sizes | Some c \<Rightarrow> sizes)) cs))"
      using kr cs by (simp add: Let_def cong: list.case_cong)
    ultimately show ?thesis using c(1) x(1) by (auto split: list.splits)
  qed
qed (auto simp: not_pane_def split: option.splits if_splits)

lemma withoutPane_leaves:
  "distinct (panes l) \<Longrightarrow> layout_leaves (withoutPane l i) = filter (not_pane i) (layout_leaves l)"
proof (induction l)
  case (Cons t l)
  with removeFromNode_leaves [of "root t" i] show ?case
    by (cases "removeFromNode i (root t)") auto
qed simp

lemma settle_tab_root [simp]: "root (fst (settle_tab newTabId n tab)) = root tab"
  by (auto simp: settle_tab_def split: split_node.splits)

lemma settleTabIds_Cons:
  "settleTabIds newTabId n (tab # tabs) =
     (fst (settle_tab newTabId n tab) # fst (settleTabIds newTabId (snd (settle_tab newTabId n tab)) tabs),
      snd (settleTabIds newTabId (snd (settle_tab newTabId n tab)) tabs))"
  by (simp split: prod.split)

declare settleTabIds.simps(2) [simp del]

lemma settleTabIds_roots: "map root (fst (settleTabIds newTabId n tabs)) = map root tabs"
  by (induction tabs arbitrary: n) (simp_all add: settleTabIds_Cons)

lemma settleTabIds_leaves [simp]:
  "layout_leaves (fst (settleTabIds newTabId n tabs)) = layout_leaves tabs"
  using arg_cong [OF settleTabIds_roots [of newTabId n tabs], of "concat \<circ> map leaves"]
  by (simp add: layout_leaves_def)

lemma settleTabIds_panes [simp]: "panes (fst (settleTabIds newTabId n tabs)) = panes tabs"
  by (simp add: panes_leaves)

section \<open>Finding a pane\<close>

lemma first_some_None: "first_some f xs = None \<longleftrightarrow> (\<forall>x\<in>set xs. f x = None)"
  by (induction xs) (auto split: option.splits)

lemma first_some_Some: "first_some f xs = Some y \<Longrightarrow> \<exists>x\<in>set xs. f x = Some y"
  by (induction xs) (auto split: option.splits)

lemma find_pane_in_Some: "find_pane_in i node = Some p \<Longrightarrow> paneId p = Some i"
  by (induction i node rule: find_pane_in.induct) (auto dest!: first_some_Some split: if_splits)

lemma find_pane_in_None: "find_pane_in i node = None \<longleftrightarrow> i \<notin> set (paneIds node)"
  by (induction i node rule: find_pane_in.induct) (auto simp: first_some_None split: if_splits)

lemma findPane_Some: "findPane l i = Some p \<Longrightarrow> paneId p = Some i"
  by (auto simp: findPane_def dest!: first_some_Some find_pane_in_Some)

lemma findPane_None: "findPane l i = None \<longleftrightarrow> i \<notin> set (panes l)"
  by (auto simp: findPane_def first_some_None find_pane_in_None panes_def)

section \<open>Putting a pane beside another\<close>

abbreviation is_pane :: "string \<Rightarrow> split_node \<Rightarrow> bool" where
  "is_pane t n \<equiv> paneId n = Some t"

lemma beside_elsewhere:
  "t \<notin> set (concat (map paneIds cs)) \<Longrightarrow>
     beside first (is_pane t) m (concat (map leaves cs)) = concat (map leaves cs)"
  by (intro beside_none) (auto simp: in_paneIds)

lemma insertBeside_leaves:
  assumes "insertBeside t moved d first node = Some r" and "distinct (paneIds node)"
    and moved: "leaves moved = [moved]"
  shows "t \<in> set (paneIds node) \<and> leaves r = beside first (is_pane t) moved (leaves node)"
  using assms(1,2)
proof (induction node arbitrary: r)
  case (Split d' sizes children)
  have dist: "distinct (concat (map paneIds children))" using Split.prems(2) by simp
  have loop: ?case if eq: "replace_first (insertBeside t moved d first) children = Some cs"
    "r = Split d' sizes cs" for cs
  proof -
    from replace_first_Some [OF eq(1)] obtain us x v ws where
      c: "children = us @ x # ws" "cs = us @ v # ws" "insertBeside t moved d first x = Some v" by blast
    have x: "t \<in> set (paneIds x)" "leaves v = beside first (is_pane t) moved (leaves x)"
      using Split.IH [OF _ c(3)] dist c(1) by auto
    have "t \<notin> set (concat (map paneIds us))" "t \<notin> set (concat (map paneIds ws))"
      using dist x(1) c(1) by auto
    from this [THEN beside_elsewhere] show ?thesis using x c(1,2) eq(2) by simp
  qed
  show ?case
  proof (cases "findIndex (\<lambda>c. paneId c = Some t) children")
    case None
    with Split.prems(1) loop show ?thesis by auto
  next
    case (Some i)
    from findIndex_split [OF Some] obtain us x ws where
      c: "children = us @ x # ws" "length us = i" "paneId x = Some t" by blast
    have "t \<notin> set (concat (map paneIds us))" "t \<notin> set (concat (map paneIds ws))"
      using dist paneId_paneIds [OF c(3)] c(1) by auto
    note elsewhere = this [THEN beside_elsewhere]
    show ?thesis
    proof (cases "d' = d")
      case True
      then have "r = Split d' (evenSizes (length (insert_at (if first then i else i + 1) moved children)))
          (insert_at (if first then i else i + 1) moved children)"
        using Some Split.prems(1) by (simp add: Let_def)
      then show ?thesis
        using c elsewhere paneId_paneIds [OF c(3)] paneId_leaves [OF c(3)] moved by simp
    qed (use Some Split.prems(1) loop in auto)
  qed
qed (auto simp: moved split: if_splits)

lemma insertBeside_None: "t \<notin> set (paneIds node) \<Longrightarrow> insertBeside t moved d first node = None"
proof (induction node)
  case (Split d' sizes children)
  then have "findIndex (\<lambda>c. paneId c = Some t) children = None"
    by (auto simp: findIndex_None) (metis list.set_intros(1) paneId_paneIds)
  moreover have "replace_first (insertBeside t moved d first) children = None"
    using Split by (auto simp: replace_first_None)
  ultimately show ?case by simp
qed auto

lemma insertBeside_total:
  "t \<in> set (paneIds node) \<Longrightarrow> insertBeside t moved d first node \<noteq> None"
proof (induction node)
  case (Split d' sizes children)
  then obtain c where "c \<in> set children" "t \<in> set (paneIds c)" by auto
  with Split.IH have "replace_first (insertBeside t moved d first) children \<noteq> None"
    unfolding replace_first_None by blast
  then show ?case by (auto simp: Let_def split: option.splits)
qed auto

section \<open>Dragging and splitting\<close>

lemma findPane_leaf: "findPane l i = Some p \<Longrightarrow> leaves p = [p]"
  by (rule paneId_leaves [OF findPane_Some])

lemma beside_layout:
  assumes "distinct (panes l)" and "leaves moved = [moved]"
    and f: "\<And>t. t \<in> set l \<Longrightarrow> f t = insertBeside target moved d first (root t) \<or>
      f t = None \<and> target \<notin> set (paneIds (root t))"
  shows "layout_leaves (map (\<lambda>t. case f t of Some r \<Rightarrow> t\<lparr>root := r\<rparr> | None \<Rightarrow> t) l) =
    beside first (is_pane target) moved (layout_leaves l)"
  using assms(1) f
proof (induction l)
  case (Cons t l)
  then have "layout_leaves (map (\<lambda>t. case f t of Some r \<Rightarrow> t\<lparr>root := r\<rparr> | None \<Rightarrow> t) l) =
    beside first (is_pane target) moved (layout_leaves l)" by simp
  moreover have "leaves (case f t of Some r \<Rightarrow> r | None \<Rightarrow> root t) =
    beside first (is_pane target) moved (leaves (root t))"
  proof (cases "f t")
    case None
    with Cons.prems(2) [of t] have "target \<notin> set (paneIds (root t))"
      using insertBeside_total [of target "root t" moved d first] by auto
    then show ?thesis using None by (simp add: in_paneIds)
  next
    case (Some r)
    then have "insertBeside target moved d first (root t) = Some r"
      using Cons.prems(2) [of t] by auto
    from insertBeside_leaves [OF this _ assms(2)] Cons.prems(1) Some show ?thesis by simp
  qed
  ultimately show ?case by (cases "f t") simp_all
qed simp

lemma pane_positions:
  assumes "leaves moved = [moved]" and "paneId moved = Some m" and "\<And>n. n \<in> set ns \<Longrightarrow> \<not> is_split n"
  shows "concat (map paneIds (beside first (is_pane t) moved ns)) =
    beside first ((=) t) m (concat (map paneIds ns))"
  using assms(3)
proof (induction ns)
  case (Cons n ns)
  then show ?case
    using paneId_paneIds [OF assms(2)] Cons.prems [of n]
    by (cases n) auto
qed simp

lemma layout_leaves_not_split: "n \<in> set (layout_leaves l) \<Longrightarrow> \<not> is_split n"
  by (auto simp: layout_leaves_def leaves_not_split)

lemma splitNode_insertBeside:
  assumes "\<not> startsWith t ''file:''"
  shows "splitNode t d n node = insertBeside t (Leaf n) d False node"
proof (induction node)
  case (Split d' sizes children)
  have "(\<lambda>c. c = Leaf t) = (\<lambda>c. paneId c = Some t)"
    using assms by (auto simp: fun_eq_iff fileTabId_def startsWith_def elim!: paneId.elims)
  moreover have "replace_first (splitNode t d n) children =
      replace_first (insertBeside t (Leaf n) d False) children"
    by (intro replace_first_cong) (auto simp: Split)
  ultimately show ?case by (cases "findIndex (is_pane t) children") (simp_all add: Let_def)
qed (use assms in \<open>auto simp: fileTabId_def startsWith_def\<close>)

lemma not_pane_ids:
  "\<not> is_split n \<Longrightarrow> paneIds n = (if not_pane i n then filter (\<lambda>p. p \<noteq> i) (paneIds n) else [i])"
  "\<not> is_split n \<Longrightarrow> \<not> not_pane i n \<Longrightarrow> filter (\<lambda>p. p \<noteq> i) (paneIds n) = []"
  by (cases n; auto simp: not_pane_def)+

lemma filter_panes:
  "(\<And>n. n \<in> set ns \<Longrightarrow> \<not> is_split n) \<Longrightarrow>
     concat (map paneIds (filter (not_pane i) ns)) = filter (\<lambda>p. p \<noteq> i) (concat (map paneIds ns))"
proof (induction ns)
  case (Cons n ns)
  with not_pane_ids [of n i] show ?case by (cases "not_pane i n") auto
qed simp

lemma withoutPane_panes:
  "distinct (panes l) \<Longrightarrow> panes (withoutPane l i) = filter (\<lambda>p. p \<noteq> i) (panes l)"
  by (simp add: panes_leaves withoutPane_leaves filter_panes layout_leaves_not_split)

lemma swap_leaves:
  "leaves a = [a] \<Longrightarrow> leaves b = [b] \<Longrightarrow> leaves (swap_node a b node) = map (swap_node a b) (leaves node)"
proof (induction node)
  case (Split d s children)
  then show ?case by (induction children) auto
qed auto

lemma swap_panes:
  assumes "paneId a = Some i" and "paneId b = Some j" and "\<not> is_split n"
  shows "paneIds (swap_node a b n) = map (\<lambda>p. if p = i then j else if p = j then i else p) (paneIds n)"
  using assms paneId_paneIds [OF assms(1)] paneId_paneIds [OF assms(2)] by (cases n) auto

lemma swapLeaves_panes:
  assumes "paneId a = Some i" and "paneId b = Some j"
  shows "panes (swapLeaves l a b) = map (\<lambda>p. if p = i then j else if p = j then i else p) (panes l)"
proof -
  have "layout_leaves (swapLeaves l a b) = map (swap_node a b) (layout_leaves l)"
    using swap_leaves [OF paneId_leaves paneId_leaves, OF assms]
    by (induction l) (simp_all add: swapLeaves_def)
  moreover have "concat (map paneIds (map (swap_node a b) ns)) =
      map (\<lambda>p. if p = i then j else if p = j then i else p) (concat (map paneIds ns))"
    if "\<And>n. n \<in> set ns \<Longrightarrow> \<not> is_split n" for ns
    using that by (induction ns) (simp_all add: swap_panes [OF assms])
  ultimately show ?thesis by (simp add: panes_leaves layout_leaves_not_split)
qed

lemma moveLeaf_cases:
  assumes "moveLeaf newTabId n l tabId i target edge = (l', n')" and "l' \<noteq> l"
  obtains (swap) a b where "edge = Center" "findPane l i = Some a" "findPane l target = Some b"
      "l' = fst (settleTabIds newTabId n (swapLeaves l a b))"
  | (insert) moved tabs where "edge \<noteq> Center" "i \<noteq> target" "findPane l i = Some moved"
      "target \<in> set (panes l)" "withinDepth l'" "l' = fst (settleTabIds newTabId n tabs)"
      "tabs = map (\<lambda>tab. case (if tab_id tab = tabId
          then insertBeside target moved (if edge = LeftEdge \<or> edge = RightEdge then Row else Column)
            (edge = LeftEdge \<or> edge = TopEdge) (root tab) else None) of
          Some r \<Rightarrow> tab\<lparr>root := r\<rparr> | None \<Rightarrow> tab) (withoutPane l i)"
      "list_ex (\<lambda>tab. tab_id tab = tabId \<and> target \<in> set (paneIds (root tab))) (withoutPane l i)"
proof -
  have t: "i \<noteq> target" using assms by (auto simp: moveLeaf_def)
  obtain a b where ab: "findPane l i = Some a" "findPane l target = Some b"
    using assms t by (auto simp: moveLeaf_def split: option.splits)
  have tgt: "target \<in> set (panes l)" using findPane_None [of l target] ab(2) by auto
  show thesis
  proof (cases "edge = Center")
    case True
    with assms t ab that(1) [of a b] show ?thesis
      by (auto simp: moveLeaf_def split: option.splits)
  next
    case False
    let ?ins = "\<lambda>tab. if tab_id tab = tabId
        then insertBeside target a (if edge = LeftEdge \<or> edge = RightEdge then Row else Column)
          (edge = LeftEdge \<or> edge = TopEdge) (root tab) else None"
    let ?tabs = "map (\<lambda>tab. case ?ins tab of Some r \<Rightarrow> tab\<lparr>root := r\<rparr> | None \<Rightarrow> tab) (withoutPane l i)"
    have "withinDepth l'" "l' = fst (settleTabIds newTabId n ?tabs)"
      "list_ex (\<lambda>tab. ?ins tab \<noteq> None) (withoutPane l i)"
      using assms t ab False
      by (auto simp: moveLeaf_def Let_def split: option.splits if_splits prod.splits)
    moreover from this(3) have
      "list_ex (\<lambda>tab. tab_id tab = tabId \<and> target \<in> set (paneIds (root tab))) (withoutPane l i)"
      using insertBeside_None [of target]
      by (fastforce simp: list_ex_iff split: if_splits)
    ultimately show ?thesis using that(2) False t ab(1) tgt by blast
  qed
qed

lemma pane_in_one_tab:
  assumes "distinct (panes l)" and "t \<in> set l" "u \<in> set l"
    and "p \<in> set (paneIds (root t))" "p \<in> set (paneIds (root u))"
  shows "t = u"
proof (rule ccontr)
  assume ne: "t \<noteq> u"
  from split_list [OF assms(2)] obtain l1 l2 where l: "l = l1 @ t # l2" by blast
  with ne assms(3) have "u \<in> set l1 \<or> u \<in> set l2" by auto
  with assms(1,4,5) l show False by (auto simp: panes_def)
qed

lemma moveLeaf_panes:
  assumes "distinct (panes l)" and "moveLeaf newTabId n l tabId i target edge = (l', n')" and "l' \<noteq> l"
  shows "if edge = Center
    then panes l' = map (\<lambda>p. if p = i then target else if p = target then i else p) (panes l)
    else withinDepth l' \<and> panes l' = beside (edge = LeftEdge \<or> edge = TopEdge) ((=) target) i
      (filter (\<lambda>p. p \<noteq> i) (panes l))"
  using assms(2,3)
proof (cases rule: moveLeaf_cases)
  case (swap a b)
  from swapLeaves_panes [OF findPane_Some [OF swap(2)] findPane_Some [OF swap(3)]] swap(1,4)
  show ?thesis by simp
next
  case (insert moved tabs)
  let ?kept = "withoutPane l i" and ?first = "edge = LeftEdge \<or> edge = TopEdge"
  have dist: "distinct (panes ?kept)" using assms(1) by (simp add: withoutPane_panes)
  obtain u where u: "u \<in> set ?kept" "tab_id u = tabId" "target \<in> set (paneIds (root u))"
    using insert(8) by (auto simp: list_ex_iff)
  have only: "tab_id t = tabId \<or> target \<notin> set (paneIds (root t))" if "t \<in> set ?kept" for t
    using pane_in_one_tab [OF dist that u(1)] u(2,3) by blast
  note moved = findPane_leaf [OF insert(3)] findPane_Some [OF insert(3)]
  have "layout_leaves tabs = beside ?first (is_pane target) moved (layout_leaves ?kept)"
    unfolding insert(7)
    by (rule beside_layout [OF dist moved(1), where
          d = "if edge = LeftEdge \<or> edge = RightEdge then Row else Column"])
      (use only in \<open>auto simp del: insertBeside.simps\<close>)
  then have "panes tabs = beside ?first ((=) target) i (panes ?kept)"
    using pane_positions [OF moved, of "layout_leaves ?kept" ?first target]
    by (simp add: panes_leaves layout_leaves_not_split)
  then show ?thesis using insert(1,5,6) assms(1) by (simp add: withoutPane_panes)
qed

lemma mset_moved:
  assumes "distinct ps" and "i \<in> set ps" and "t \<in> set ps" and "i \<noteq> t"
  shows "mset (beside first ((=) t) i (filter (\<lambda>p. p \<noteq> i) ps)) = mset ps"
proof -
  have "mset (beside first ((=) t) i (filter (\<lambda>p. p \<noteq> i) ps)) =
      add_mset i (mset (filter (\<lambda>p. p \<noteq> i) ps))"
    using assms by (intro mset_beside) auto
  moreover have "mset (filter (\<lambda>p. p \<noteq> i) ps) = mset ps - {#i#}"
    using assms(1) by (induction ps) (auto simp: filter_id_conv)
  ultimately show ?thesis using assms(2) by simp
qed

lemma mset_swapped:
  assumes "distinct ps" and "i \<in> set ps" and "t \<in> set ps"
  shows "mset (map (\<lambda>p. if p = i then t else if p = t then i else p) ps) = mset ps"
proof -
  let ?f = "\<lambda>p. if p = i then t else if p = t then i else p"
  have "distinct (map ?f ps)" using assms(1) by (auto simp: distinct_map inj_on_def)
  moreover have "?f ` set ps = set ps"
    using assms(2,3) by (auto simp: image_iff)
  ultimately show ?thesis using assms(1) by (metis set_eq_iff_mset_eq_distinct set_map)
qed

text \<open>
  C27: Dragging a pane never loses, duplicates or adds one. When it changes the layout, a drop on
  the centre swaps the two panes, and a drop on an edge puts the dragged pane next to its target,
  before it for the left and the top and after it otherwise, with every other pane where it was
  and no tab deeper than \<open>MAX_SPLIT_DEPTH\<close>.
\<close>

theorem drag_keeps_panes:
  assumes "distinct (panes l)" and "moveLeaf newTabId n l tabId i target edge = (l', n')"
  shows "mset (panes l') = mset (panes l) \<and>
    (l' = l \<or>
     (if edge = Center
      then panes l' = map (\<lambda>p. if p = i then target else if p = target then i else p) (panes l)
      else withinDepth l' \<and> panes l' = beside (edge = LeftEdge \<or> edge = TopEdge) ((=) target) i
        (filter (\<lambda>p. p \<noteq> i) (panes l))))"
proof (cases "l' = l")
  case False
  then have moved: "i \<noteq> target" "i \<in> set (panes l)" "target \<in> set (panes l)"
    using assms(2) findPane_None [of l i] findPane_None [of l target]
    by (auto simp: moveLeaf_def split: option.splits if_splits)
  show ?thesis
    using moveLeaf_panes [OF assms False] mset_moved [OF assms(1) moved(2,3,1)]
      mset_swapped [OF assms(1) moved(2,3)] by (auto split: if_splits)
qed simp

definition id_source_of :: id_source where
  "id_source_of n = ''tab-'' @ show_nat n"

definition sample_layout :: project_layout where
  "sample_layout =
     [\<lparr>tab_id = ''t1'', root = Split Row [50, 50] [Leaf ''t1'', File ''a.ts'']\<rparr>,
      \<lparr>tab_id = ''t2'', root = Leaf ''t2''\<rparr>]"

lemma drag_keeps_panes_witness:
  "mset (panes (fst (moveLeaf id_source_of 0 sample_layout ''t2'' ''file:a.ts'' ''t2'' LeftEdge))) =
     mset (panes sample_layout) \<and>
   panes (fst (moveLeaf id_source_of 0 sample_layout ''t2'' ''file:a.ts'' ''t2'' LeftEdge)) =
     [''t1'', ''file:a.ts'', ''t2''] \<and>
   fst (moveLeaf id_source_of 0 sample_layout ''t2'' ''file:a.ts'' ''t2'' LeftEdge) \<noteq> sample_layout"
proof -
  have "distinct (panes sample_layout)" by code_simp
  from drag_keeps_panes [OF this prod.collapse [symmetric],
      of id_source_of 0 "''t2''" "''file:a.ts''" "''t2''" LeftEdge]
  show ?thesis by (intro conjI) (blast, code_simp, code_simp)
qed

text \<open>
  Closing a pane takes exactly that pane away and leaves the others in their order; the split
  it was in collapses, and its tab goes when it was alone.
\<close>

theorem remove_drops_pane:
  assumes "distinct (panes l)"
  shows "panes (fst (removeLeaf newTabId n l i)) = filter (\<lambda>p. p \<noteq> i) (panes l)"
  using assms by (simp add: removeLeaf_def withoutPane_panes)

lemma remove_drops_pane_witness:
  "panes (fst (removeLeaf id_source_of 0 sample_layout ''file:a.ts'')) = [''t1'', ''t2'']"
proof -
  have "distinct (panes sample_layout)" by code_simp
  from remove_drops_pane [OF this, of id_source_of 0 "''file:a.ts''"] show ?thesis
    by (rule trans) code_simp
qed

text \<open>
  Splitting a terminal shows the new terminal right after it and nothing else moves.
\<close>

theorem split_adds_pane:
  assumes "distinct (panes l)" and "\<not> startsWith t ''file:''"
  shows "panes (splitLeaf l t d new) = beside False ((=) t) new (panes l)"
proof -
  have "layout_leaves (splitLeaf l t d new) = beside False (is_pane t) (Leaf new) (layout_leaves l)"
    unfolding splitLeaf_def
    by (rule beside_layout [OF assms(1), where d = d]) (simp_all add: splitNode_insertBeside [OF assms(2)])
  then show ?thesis
    using pane_positions [of "Leaf new" new "layout_leaves l" False t]
    by (simp add: panes_leaves layout_leaves_not_split)
qed

lemma split_adds_pane_witness:
  "panes (splitLeaf sample_layout ''t1'' Column ''t3'') = [''t1'', ''t3'', ''file:a.ts'', ''t2'']"
proof -
  have "distinct (panes sample_layout)" "\<not> startsWith ''t1'' ''file:''" by code_simp+
  from split_adds_pane [OF this, of Column "''t3''"] show ?thesis by (rule trans) code_simp
qed

end
