(* ===== verification/Layout_Sync.thy ===== *)
theory Layout_Sync
  imports Layout_Panes
begin

text \<open>
  How a layout is brought back in line with the rest of the system: with the terminals the server
  lists, with files that were renamed or moved, and with the layout another browser saved.
\<close>

section \<open>Terminals\<close>

definition file_pane :: "string \<Rightarrow> bool" where
  "file_pane i \<longleftrightarrow> startsWith i ''file:''"

lemma paneId_Leaf: "\<not> file_pane i \<Longrightarrow> paneId n = Some i \<longleftrightarrow> n = Leaf i"
  by (cases n) (auto simp: file_pane_def fileTabId_def startsWith_def)

lemma removeLeaf_leaves:
  "distinct (panes l) \<Longrightarrow> layout_leaves (fst (removeLeaf newTabId n l i)) = filter (not_pane i) (layout_leaves l)"
  by (simp add: removeLeaf_def withoutPane_leaves)

lemma removeLeaf_distinct:
  "distinct (panes l) \<Longrightarrow> distinct (panes (fst (removeLeaf newTabId n l i)))"
  by (simp add: removeLeaf_def withoutPane_panes)

lemma drop_unknown_leaves:
  assumes "distinct (panes l)" and "\<And>i. i \<in> set ids \<Longrightarrow> \<not> file_pane i"
  shows "layout_leaves (fst (drop_unknown newTabId n known ids l)) =
    filter (\<lambda>m. m \<notin> Leaf ` (set ids - set known)) (layout_leaves l)"
  using assms
proof (induction newTabId n known ids l rule: drop_unknown.induct)
  case (2 newTabId n known i ids l)
  show ?case
  proof (cases "i \<in> set known")
    case True
    then have "set (i # ids) - set known = set ids - set known" by auto
    then show ?thesis using 2 True by simp
  next
    case False
    have "filter (not_pane i) (layout_leaves l) = filter (\<lambda>m. m \<noteq> Leaf i) (layout_leaves l)"
      using 2(4) [of i] by (intro filter_cong) (simp_all add: not_pane_def paneId_Leaf)
    moreover have "Leaf ` (set (i # ids) - set known) = insert (Leaf i) (Leaf ` (set ids - set known))"
      using False by auto
    ultimately show ?thesis
      using 2(2) [OF False refl prod.collapse removeLeaf_distinct [OF 2(3)]] 2(3,4) False
      by (simp add: removeLeaf_leaves split_beta conj_commute)
  qed
qed simp

lemma drop_unknown_all_known:
  "set ids \<subseteq> set known \<Longrightarrow> drop_unknown newTabId n known ids l = (l, n)"
  by (induction newTabId n known ids l rule: drop_unknown.induct) simp_all

lemma place_live_leaves:
  "distinct ids \<Longrightarrow> layout_leaves (place_live ended placed ids l) =
     layout_leaves l @ map Leaf (filter (\<lambda>i. i \<notin> set placed \<and> i \<notin> set ended) ids)"
proof (induction ended placed ids l rule: place_live.induct)
  case (2 ended placed i ids l)
  then have "filter (\<lambda>j. j \<notin> set (i # placed) \<and> j \<notin> set ended) ids =
      filter (\<lambda>j. j \<notin> set placed \<and> j \<notin> set ended) ids"
    by (intro filter_cong) auto
  with 2 show ?case by (auto simp: addTab_def)
qed simp

lemma place_live_none:
  "(\<And>i. i \<in> set ids \<Longrightarrow> i \<in> set placed \<or> i \<in> set ended) \<Longrightarrow> place_live ended placed ids l = l"
  by (induction ended placed ids l rule: place_live.induct) simp_all

lemma known_terminals:
  "concat (map terminalIds (filter (\<lambda>m. m \<notin> Leaf ` (set ts - set known)) ns)) =
    filter (\<lambda>i. i \<in> set known) (concat (map terminalIds ns))"
  if "\<And>n. n \<in> set ns \<Longrightarrow> \<not> is_split n" "\<And>n i. n \<in> set ns \<Longrightarrow> i \<in> set (terminalIds n) \<Longrightarrow> i \<in> set ts"
  using that
proof (induction ns)
  case (Cons n ns)
  then have "concat (map terminalIds (filter (\<lambda>m. m \<notin> Leaf ` (set ts - set known)) ns)) =
    filter (\<lambda>i. i \<in> set known) (concat (map terminalIds ns))"
    by (intro Cons.IH) (meson list.set_intros(2))+
  with Cons.prems(1) [of n] Cons.prems(2) [of n] show ?case by (cases n) auto
qed simp

lemma known_files:
  "concat (map filePaths (filter (\<lambda>m. m \<notin> Leaf ` T) ns)) = concat (map filePaths ns)"
  by (induction ns) auto

definition layoutFiles :: "project_layout \<Rightarrow> string list" where
  "layoutFiles l = concat (map (filePaths \<circ> root) l)"

lemma layoutFiles_leaves: "layoutFiles l = concat (map filePaths (layout_leaves l))"
  unfolding layoutFiles_def by (rule files.view_layout)

text \<open>
  C30: Reconciling shows exactly the right terminals: a pane whose terminal is gone is dropped, a
  live terminal without a pane gets one at the end, an ended one does not, every other pane keeps
  its place, and open files are not touched. Reconciling again with the same answer changes nothing.
\<close>

theorem reconcile_matches_server:
  assumes "distinct (panes l)" and "distinct ids"
    and "\<And>i. i \<in> set (layoutTerminalIds l) \<Longrightarrow> \<not> file_pane i"
    and "l' = fst (reconcile_layout newTabId n l ids ended)"
  shows "layoutTerminalIds l' = filter (\<lambda>i. i \<in> set ids) (layoutTerminalIds l) @
      filter (\<lambda>i. i \<notin> set (layoutTerminalIds l) \<and> i \<notin> set ended) ids \<and>
    layoutFiles l' = layoutFiles l \<and>
    fst (reconcile_layout newTabId m l' ids ended) = l'"
proof -
  let ?T = "layoutTerminalIds l"
  define l1 where "l1 = fst (drop_unknown newTabId n ids ?T l)"
  have l': "l' = place_live ended (layoutTerminalIds l1) ids l1"
    unfolding assms(4) reconcile_layout_def l1_def by (simp add: split_beta)
  have leaves1: "layout_leaves l1 = filter (\<lambda>m. m \<notin> Leaf ` (set ?T - set ids)) (layout_leaves l)"
    unfolding l1_def by (rule drop_unknown_leaves [OF assms(1,3)])
  have terms1: "layoutTerminalIds l1 = filter (\<lambda>i. i \<in> set ids) ?T"
    unfolding terminals_leaves [of l1] leaves1 terminals_leaves [of l]
    by (rule known_terminals) (auto simp: layout_leaves_not_split terminals_leaves)
  have leaves': "layout_leaves l' = layout_leaves l1 @
      map Leaf (filter (\<lambda>i. i \<notin> set ?T \<and> i \<notin> set ended) ids)"
    unfolding l' place_live_leaves [OF assms(2)] terms1
    by (auto intro!: arg_cong [where f = "map Leaf"] filter_cong)
  have "concat (map terminalIds (map Leaf is)) = is" "concat (map filePaths (map Leaf is)) = []" for "is"
    by (induction "is") auto
  then have terms': "layoutTerminalIds l' = filter (\<lambda>i. i \<in> set ids) ?T @
      filter (\<lambda>i. i \<notin> set ?T \<and> i \<notin> set ended) ids" and files': "layoutFiles l' = layoutFiles l"
    using terms1 unfolding terminals_leaves layoutFiles_leaves leaves'
    by (simp_all add: leaves1 known_files)
  have "drop_unknown newTabId m ids (layoutTerminalIds l') l' = (l', m)"
    by (rule drop_unknown_all_known) (auto simp: terms')
  moreover have "place_live ended (layoutTerminalIds l') ids l' = l'"
    by (rule place_live_none) (auto simp: terms')
  ultimately show ?thesis using terms' files' by (simp add: reconcile_layout_def)
qed

lemma sample_terminals:
  "distinct (panes sample_layout)" "i \<in> set (layoutTerminalIds sample_layout) \<Longrightarrow> \<not> file_pane i"
proof -
  show "distinct (panes sample_layout)" by code_simp
  have "layoutTerminalIds sample_layout = [''t1'', ''t2'']" by code_simp
  then show "i \<in> set (layoutTerminalIds sample_layout) \<Longrightarrow> \<not> file_pane i"
    by (auto simp: file_pane_def startsWith_def)
qed

lemma reconcile_matches_server_witness:
  "layoutTerminalIds (fst (reconcile_layout id_source_of 0 sample_layout [''t1'', ''t3'', ''t4''] [''t4''])) =
     [''t1'', ''t3''] \<and>
   layoutFiles (fst (reconcile_layout id_source_of 0 sample_layout [''t1'', ''t3'', ''t4''] [''t4''])) =
     [''a.ts'']"
proof -
  have "distinct (panes sample_layout)" "distinct [''t1'', ''t3'', ''t4'']" by code_simp+
  moreover have terms: "layoutTerminalIds sample_layout = [''t1'', ''t2'']" by code_simp
  have "\<not> file_pane i" if "i \<in> set (layoutTerminalIds sample_layout)" for i
    using that unfolding terms by (auto simp: file_pane_def startsWith_def)
  ultimately show ?thesis
    using reconcile_matches_server [OF _ _ _ refl, of sample_layout "[''t1'', ''t3'', ''t4'']"
        id_source_of 0 "[''t4'']"] terms
    by (simp add: sample_layout_def layoutFiles_def)
qed

section \<open>Files that moved\<close>

lemma movedPath_inject:
  "movedPath p a b = Some q \<Longrightarrow> movedPath p' a b = Some q \<Longrightarrow> p = p'"
  by (auto simp: movedPath_root)

lemma removed_paths:
  assumes "distinct (panes l)"
  shows "distinct (panes (foldl (\<lambda>l p. if P p then withoutPane l (fileTabId p) else l) l ps)) \<and>
    layout_leaves (foldl (\<lambda>l p. if P p then withoutPane l (fileTabId p) else l) l ps) =
      filter (\<lambda>m. \<not> (\<exists>p\<in>set ps. P p \<and> paneId m = Some (fileTabId p))) (layout_leaves l)"
  using assms
proof (induction ps arbitrary: l)
  case (Cons p ps)
  show ?case
  proof (cases "P p")
    case True
    have "distinct (panes (withoutPane l (fileTabId p)))" using Cons.prems by (simp add: withoutPane_panes)
    from Cons.IH [OF this] True Cons.prems show ?thesis
      by (auto simp: withoutPane_leaves not_pane_def intro!: filter_cong)
  qed (use Cons in simp)
qed simp

lemma retarget_leaves: "leaves (retarget_node a b node) = map (retarget_node a b) (leaves node)"
proof (induction node)
  case (Split d s children)
  then show ?case by (induction children) auto
qed auto

definition moved_to :: "string \<Rightarrow> string \<Rightarrow> string \<Rightarrow> string" where
  "moved_to a b p = nullish (movedPath p a b) p"

lemma retarget_files:
  "(\<And>n. n \<in> set ns \<Longrightarrow> \<not> is_split n) \<Longrightarrow>
     concat (map filePaths (map (retarget_node a b) ns)) = map (moved_to a b) (concat (map filePaths ns)) \<and>
     concat (map terminalIds (map (retarget_node a b) ns)) = concat (map terminalIds ns)"
proof (induction ns)
  case (Cons n ns)
  then have "concat (map filePaths (map (retarget_node a b) ns)) =
      map (moved_to a b) (concat (map filePaths ns)) \<and>
    concat (map terminalIds (map (retarget_node a b) ns)) = concat (map terminalIds ns)" by simp
  with Cons.prems [of n] show ?case by (cases n) (auto simp: moved_to_def)
qed simp

definition overwritten :: "string \<Rightarrow> string \<Rightarrow> string list \<Rightarrow> string \<Rightarrow> bool" where
  "overwritten a b ps p \<longleftrightarrow> movedPath p a b = None \<and> (\<exists>q\<in>set ps. movedPath q a b = Some p)"

lemma file_pane_tab [simp]: "file_pane (fileTabId p)"
  by (simp add: file_pane_def fileTabId_def startsWith_def)

lemma kept_files:
  "\<lbrakk>\<And>n. n \<in> set ns \<Longrightarrow> \<not> is_split n; \<And>i. i \<in> set (concat (map terminalIds ns)) \<Longrightarrow> \<not> file_pane i\<rbrakk> \<Longrightarrow>
     concat (map filePaths (filter (\<lambda>m. \<not> (\<exists>p\<in>P. paneId m = Some (fileTabId p))) ns)) =
       filter (\<lambda>p. p \<notin> P) (concat (map filePaths ns)) \<and>
     concat (map terminalIds (filter (\<lambda>m. \<not> (\<exists>p\<in>P. paneId m = Some (fileTabId p))) ns)) =
       concat (map terminalIds ns)"
proof (induction ns)
  case (Cons n ns)
  then have "concat (map filePaths (filter (\<lambda>m. \<not> (\<exists>p\<in>P. paneId m = Some (fileTabId p))) ns)) =
       filter (\<lambda>p. p \<notin> P) (concat (map filePaths ns)) \<and>
     concat (map terminalIds (filter (\<lambda>m. \<not> (\<exists>p\<in>P. paneId m = Some (fileTabId p))) ns)) =
       concat (map terminalIds ns)" by simp
  moreover have "\<not> file_pane t" if "n = Leaf t" for t using Cons.prems(2) [of t] that by simp
  moreover have "fileTabId p = fileTabId q \<longleftrightarrow> p = q" for p q by (simp add: fileTabId_def)
  ultimately show ?case using Cons.prems(1) [of n] by (cases n) auto
qed simp

lemma distinct_views:
  "\<lbrakk>\<And>n. n \<in> set ns \<Longrightarrow> \<not> is_split n; distinct (concat (map paneIds ns))\<rbrakk> \<Longrightarrow>
     distinct (concat (map filePaths ns)) \<and>
     (\<forall>p\<in>set (concat (map filePaths ns)). fileTabId p \<in> set (concat (map paneIds ns)))"
proof (induction ns)
  case (Cons n ns)
  then have "distinct (concat (map filePaths ns)) \<and>
     (\<forall>p\<in>set (concat (map filePaths ns)). fileTabId p \<in> set (concat (map paneIds ns)))" by simp
  with Cons.prems(1) [of n] Cons.prems(2) show ?case by (cases n) auto
qed simp

lemma distinct_layoutFiles: "distinct (panes l) \<Longrightarrow> distinct (layoutFiles l)"
  using distinct_views [of "layout_leaves l"]
  by (simp add: panes_leaves layoutFiles_leaves layout_leaves_not_split)

lemma moved_distinct:
  assumes "distinct ps"
  shows "distinct (map (moved_to a b) (filter (\<lambda>p. \<not> overwritten a b ps p) ps))"
proof -
  have "inj_on (moved_to a b) (set (filter (\<lambda>p. \<not> overwritten a b ps p) ps))"
  proof (rule inj_onI)
    fix p q
    assume pq: "p \<in> set (filter (\<lambda>p. \<not> overwritten a b ps p) ps)"
      "q \<in> set (filter (\<lambda>p. \<not> overwritten a b ps p) ps)" "moved_to a b p = moved_to a b q"
    then show "p = q"
      by (cases "movedPath p a b"; cases "movedPath q a b")
        (auto simp: moved_to_def overwritten_def dest: movedPath_inject)
  qed
  then show ?thesis using assms by (simp add: distinct_map)
qed

text \<open>
  After a rename or move every open file under the old place shows its new place, the panes
  of files the move overwrote are gone, no file is open twice, and no terminal is touched.
\<close>

theorem rename_follows_files:
  assumes "distinct (panes l)" and "\<And>i. i \<in> set (layoutTerminalIds l) \<Longrightarrow> \<not> file_pane i"
    and "l' = fst (retargetFiles newTabId n l a b)"
  shows "layoutFiles l' =
      map (moved_to a b) (filter (\<lambda>p. \<not> overwritten a b (layoutFiles l) p) (layoutFiles l)) \<and>
    distinct (layoutFiles l') \<and> layoutTerminalIds l' = layoutTerminalIds l"
proof -
  let ?F = "layoutFiles l"
  define arriving where "arriving = List.map_filter (\<lambda>p. movedPath p a b) ?F"
  have over: "overwritten a b ?F p \<longleftrightarrow> p \<in> set arriving \<and> movedPath p a b = None" for p
    by (force simp: overwritten_def arriving_def map_filter_def)
  have "layoutFiles l' = map (moved_to a b) (filter (\<lambda>p. \<not> overwritten a b ?F p) ?F) \<and>
    layoutTerminalIds l' = layoutTerminalIds l"
  proof (cases "arriving = []")
    case True
    then have "movedPath p a b = None" if "p \<in> set ?F" for p
      using that by (force simp: arriving_def map_filter_def filter_empty_conv)
    then have "map (moved_to a b) (filter (\<lambda>p. \<not> overwritten a b ?F p) ?F) = ?F"
      using True by (simp add: over moved_to_def map_idI)
    moreover have "l' = l"
      using True assms(3) by (simp add: retargetFiles_def arriving_def layoutFiles_def)
    ultimately show ?thesis by simp
  next
    case False
    let ?kept = "foldl (\<lambda>l p. if overwritten a b ?F p then withoutPane l (fileTabId p) else l) l ?F"
    have l': "l' = fst (settleTabIds newTabId n
        (map (\<lambda>t. t\<lparr>root := retarget_node a b (root t)\<rparr>) ?kept))"
      using False assms(3) unfolding over
      by (simp add: retargetFiles_def arriving_def layoutFiles_def Let_def)
    have "layout_leaves (map (\<lambda>t. t\<lparr>root := retarget_node a b (root t)\<rparr>) ts) =
        map (retarget_node a b) (layout_leaves ts)" for ts
      by (induction ts) (simp_all add: retarget_leaves)
    moreover define gone where "gone = {p \<in> set ?F. overwritten a b ?F p}"
    moreover define ns where
      "ns = filter (\<lambda>m. \<not> (\<exists>p\<in>gone. paneId m = Some (fileTabId p))) (layout_leaves l)"
    ultimately have leaves': "layout_leaves l' = map (retarget_node a b) ns"
      using removed_paths [OF assms(1), of "overwritten a b ?F" ?F] by (simp add: l' Bex_def conj_ac)
    have "filter (\<lambda>p. p \<notin> gone) ?F = filter (\<lambda>p. \<not> overwritten a b ?F p) ?F"
      by (auto simp: gone_def intro: filter_cong)
    moreover have "concat (map filePaths ns) = filter (\<lambda>p. p \<notin> gone) ?F \<and>
        concat (map terminalIds ns) = layoutTerminalIds l"
      using kept_files [of "layout_leaves l" gone] assms(2)
      by (simp add: ns_def layoutFiles_leaves terminals_leaves layout_leaves_not_split)
    moreover have "\<not> is_split m" if "m \<in> set ns" for m
      using that by (auto simp: ns_def layout_leaves_not_split)
    from retarget_files [OF this, where a = a and b = b] have
      "concat (map filePaths (map (retarget_node a b) ns)) = map (moved_to a b) (concat (map filePaths ns)) \<and>
       concat (map terminalIds (map (retarget_node a b) ns)) = concat (map terminalIds ns)" .
    ultimately show ?thesis by (simp only: layoutFiles_leaves [of l'] terminals_leaves [of l'] leaves')
  qed
  then show ?thesis using moved_distinct [OF distinct_layoutFiles [OF assms(1)]] by simp
qed

lemma rename_follows_files_witness:
  "layoutFiles (fst (retargetFiles id_source_of 0 sample_layout ''a.ts'' ''b.ts'')) = [''b.ts''] \<and>
   layoutTerminalIds (fst (retargetFiles id_source_of 0 sample_layout ''a.ts'' ''b.ts'')) =
     [''t1'', ''t2'']"
proof -
  have "distinct (panes sample_layout)" by code_simp
  moreover have terms: "layoutTerminalIds sample_layout = [''t1'', ''t2'']"
    "layoutFiles sample_layout = [''a.ts'']" by code_simp+
  have "\<not> file_pane i" if "i \<in> set (layoutTerminalIds sample_layout)" for i
    using that unfolding terms by (auto simp: file_pane_def startsWith_def)
  ultimately show ?thesis
    using rename_follows_files [OF _ _ refl, of sample_layout id_source_of 0 "''a.ts''" "''b.ts''"] terms
    by (simp add: overwritten_def moved_to_def movedPath_def)
qed

section \<open>Another browser's layout\<close>

lemma keep_node_leaves: "leaves (keep_node here there) = leaves there"
  and keep_nodes_leaves: "map leaves (keep_nodes heres theres) = map leaves theres"
proof (induction here there and heres theres rule: keep_node_keep_nodes.induct)
qed auto

lemma keepSizes_leaves [simp]: "layout_leaves (keepSizes current remote) = layout_leaves remote"
proof -
  have "map (leaves \<circ> root) (keepSizes current remote) = map (leaves \<circ> root) remote"
    by (auto simp: keepSizes_def keep_node_leaves split: option.split)
  then show ?thesis by (simp add: layout_leaves_def)
qed

lemma file_panes:
  "\<lbrakk>\<And>n. n \<in> set ns \<Longrightarrow> \<not> is_split n; \<And>i. i \<in> set (concat (map terminalIds ns)) \<Longrightarrow> \<not> file_pane i\<rbrakk> \<Longrightarrow>
     fileTabId p \<in> set (concat (map paneIds ns)) \<longleftrightarrow> p \<in> set (concat (map filePaths ns))"
proof (induction ns)
  case (Cons n ns)
  then have "fileTabId p \<in> set (concat (map paneIds ns)) \<longleftrightarrow> p \<in> set (concat (map filePaths ns))"
    by simp
  moreover have "fileTabId p \<noteq> t" if "n = Leaf t" for t
    using Cons.prems(2) [of t] that by auto
  moreover have "fileTabId p = fileTabId q \<longleftrightarrow> p = q" for q by (simp add: fileTabId_def)
  ultimately show ?case using Cons.prems(1) [of n] by (cases n) auto
qed simp

lemma openFile_files:
  assumes "\<And>i. i \<in> set (layoutTerminalIds l) \<Longrightarrow> \<not> file_pane i"
  shows "layout_leaves (fst (openFile l p)) =
    layout_leaves l @ (if p \<in> set (layoutFiles l) then [] else [File p])"
proof -
  have "fileTabId p \<in> set (panes l) \<longleftrightarrow> p \<in> set (layoutFiles l)"
    using file_panes [of "layout_leaves l" p] assms
    by (simp add: panes_leaves layoutFiles_leaves terminals_leaves layout_leaves_not_split)
  moreover have "tabOfPane l (fileTabId p) = None \<longleftrightarrow> fileTabId p \<notin> set (panes l)"
    by (auto simp: tabOfPane_def panes_def find_None_iff)
  ultimately have "tabOfPane l (fileTabId p) = None \<longleftrightarrow> p \<notin> set (layoutFiles l)" by blast
  then show ?thesis by (cases "tabOfPane l (fileTabId p)") (simp_all add: openFile_def)
qed

lemma find_app: "find P (xs @ ys) = (case find P xs of None \<Rightarrow> find P ys | Some x \<Rightarrow> Some x)"
  by (induction xs) auto

lemma openFile_layoutFiles:
  assumes "\<And>i. i \<in> set (layoutTerminalIds l) \<Longrightarrow> \<not> file_pane i"
  shows "layoutFiles (fst (openFile l p)) =
      layoutFiles l @ (if p \<in> set (layoutFiles l) then [] else [p])"
    and "layoutTerminalIds (fst (openFile l p)) = layoutTerminalIds l"
  using openFile_files [of l p] assms by (simp_all add: layoutFiles_leaves terminals_leaves)

lemma count_once: "distinct xs \<Longrightarrow> count_list xs x = (if x \<in> set xs then 1 else 0)"
  by (induction xs) auto

text \<open>
  Opening a file shows it in exactly one pane: a file that is open already stays where it is,
  otherwise it is appended; opening it again changes nothing, and the tab to show holds it.
\<close>

theorem open_file_once:
  assumes "distinct (panes l)" and "\<And>i. i \<in> set (layoutTerminalIds l) \<Longrightarrow> \<not> file_pane i"
  shows "count_list (layoutFiles (fst (openFile l p))) p = 1 \<and>
    fst (openFile (fst (openFile l p)) p) = fst (openFile l p) \<and>
    tabOfPane (fst (openFile l p)) (fileTabId p) = Some (snd (openFile l p))"
proof -
  have "count_list (layoutFiles (fst (openFile l p))) p = 1"
    using distinct_layoutFiles [OF assms(1)] openFile_layoutFiles(1) [of l p] assms(2)
    by (auto simp: count_once)
  moreover have tab: "tabOfPane (fst (openFile l p)) (fileTabId p) = Some (snd (openFile l p))"
    by (cases "tabOfPane l (fileTabId p)")
      (simp_all add: openFile_def, simp add: tabOfPane_def find_app)
  ultimately show ?thesis by (simp add: openFile_def [of "fst (openFile l p)"])
qed

lemma open_file_once_witness:
  "count_list (layoutFiles (fst (openFile sample_layout ''a.ts''))) ''a.ts'' = 1 \<and>
   count_list (layoutFiles (fst (openFile sample_layout ''c.ts''))) ''c.ts'' = 1"
  using open_file_once [OF sample_terminals, of "''a.ts''"] open_file_once [OF sample_terminals, of "''c.ts''"]
  by blast

lemma merged_leaves:
  assumes "\<And>i. i \<in> set (layoutTerminalIds l) \<Longrightarrow> \<not> file_pane i"
  shows "\<exists>qs. layout_leaves (foldl (\<lambda>l p. if P p then fst (openFile l p) else l) l ps) =
      layout_leaves l @ map File qs \<and> set qs \<subseteq> {p \<in> set ps. P p} \<and>
      {p \<in> set ps. P p} \<subseteq> set (layoutFiles l) \<union> set qs \<and>
      distinct qs \<and> set qs \<inter> set (layoutFiles l) = {}"
  using assms
proof (induction ps arbitrary: l)
  case Nil
  show ?case by (intro exI [of _ "[]"]) simp
next
  case (Cons p ps)
  let ?l = "if P p then fst (openFile l p) else l"
  let ?new = "if P p \<and> p \<notin> set (layoutFiles l) then [p] else []"
  have l: "layout_leaves ?l = layout_leaves l @ map File ?new" "layoutFiles ?l = layoutFiles l @ ?new"
    "layoutTerminalIds ?l = layoutTerminalIds l"
    using openFile_files [OF Cons.prems, where p = p] openFile_layoutFiles [OF Cons.prems, where p = p] by auto
  from Cons.IH [of ?l] l(3) Cons.prems obtain qs where
    qs: "layout_leaves (foldl (\<lambda>l p. if P p then fst (openFile l p) else l) ?l ps) =
        layout_leaves ?l @ map File qs" "set qs \<subseteq> {p \<in> set ps. P p}"
      "{p \<in> set ps. P p} \<subseteq> set (layoutFiles ?l) \<union> set qs" "distinct qs"
      "set qs \<inter> set (layoutFiles ?l) = {}" by auto
  show ?case
    using qs(2-5) by (intro exI [of _ "?new @ qs"]) (auto simp: qs(1) l)
qed

text \<open>
  Taking another browser's layout keeps unsaved text: every file open here with unsaved text
  still has a pane, every pane of the other layout is shown in its place, and nothing else is
  added. (A layout an older version saved is first migrated.)
\<close>

theorem merge_keeps_unsaved:
  assumes "\<And>i. i \<in> set (layoutTerminalIds (fst (migrateDiffTabs remote))) \<Longrightarrow> \<not> file_pane i"
  shows "\<exists>qs. layout_leaves (mergeRemote current remote unsaved) =
      layout_leaves (fst (migrateDiffTabs remote)) @ map File qs \<and>
    set qs \<subseteq> {p \<in> set (layoutFiles current). unsaved (fileTabId p)} \<and>
    {p \<in> set (layoutFiles current). unsaved (fileTabId p)} \<subseteq>
      set (layoutFiles (mergeRemote current remote unsaved))"
proof -
  let ?r = "keepSizes current (fst (migrateDiffTabs remote))"
  have "layoutTerminalIds ?r = layoutTerminalIds (fst (migrateDiffTabs remote))"
    by (simp add: terminals_leaves)
  with merged_leaves [of ?r "\<lambda>p. unsaved (fileTabId p)" "layoutFiles current"] assms show ?thesis
    by (fastforce simp: mergeRemote_def layoutFiles_def [of current] layoutFiles_leaves [of ?r]
        layoutFiles_leaves [of "foldl f a b" for f a b] comp_def)
qed

lemma merge_keeps_unsaved_witness:
  "{''a.ts''} \<subseteq> set (layoutFiles (mergeRemote sample_layout
     [\<lparr>tab_id = ''t2'', root = Leaf ''t2''\<rparr>] (\<lambda>p. p = ''file:a.ts'')))"
proof -
  let ?r = "[\<lparr>tab_id = ''t2'', root = Leaf ''t2''\<rparr>]"
  have "layoutTerminalIds (fst (migrateDiffTabs ?r)) = [''t2'']" by code_simp
  then have "\<not> file_pane i" if "i \<in> set (layoutTerminalIds (fst (migrateDiffTabs ?r)))" for i
    using that by (auto simp: file_pane_def startsWith_def)
  from merge_keeps_unsaved [OF this, where current = sample_layout and
      unsaved = "\<lambda>p. p = ''file:a.ts''"]
  have "{p \<in> set (layoutFiles sample_layout). fileTabId p = ''file:a.ts''} \<subseteq>
    set (layoutFiles (mergeRemote sample_layout ?r (\<lambda>p. p = ''file:a.ts'')))" by blast
  moreover have "layoutFiles sample_layout = [''a.ts'']" by code_simp
  ultimately show ?thesis by (simp add: fileTabId_def)
qed

end
