(* ===== verification/Layout_Schema.thy ===== *)
theory Layout_Schema
  imports Layout_Sync Db
begin

text \<open>
  The schema a saved layout has to satisfy (\<open>SplitNode\<close> and \<open>ProjectLayout\<close> of
  \<open>packages/contracts/src/project.ts\<close>): the loop that bounds the depth of raw JSON, the parser, and
  the checks across tabs. The test for a terminal id is zod's, so it is a parameter \<open>uuid\<close>.
\<close>

section \<open>Raw depth\<close>

definition json_children :: "json \<Rightarrow> json list" where
  "json_children v =
     (case v of
        JObj fs \<Rightarrow> (case map_of fs ''children'' of Some (JArr cs) \<Rightarrow> cs | _ \<Rightarrow> [])
      | _ \<Rightarrow> [])"

lemma size_field: "map_of fs k = Some v \<Longrightarrow> size v < size_list (size_prod (\<lambda>_. 0) size) fs"
  by (induction fs) (auto split: if_splits)

lemma size_children: "sum_list (map (\<lambda>c. Suc (size c)) (json_children v)) \<le> size v"
proof (cases v)
  case (JObj fs)
  show ?thesis
  proof (cases "map_of fs ''children''")
    case (Some w)
    with size_field [OF Some] show ?thesis
      by (cases w) (auto simp: JObj json_children_def size_list_conv_sum_list sum_list_Suc)
  qed (simp add: JObj json_children_def)
qed (auto simp: json_children_def)

function rawSplitDepth_loop :: "nat \<Rightarrow> (json \<times> nat) list \<Rightarrow> nat" where
  "rawSplitDepth_loop deepest pending =
     (if pending = [] then deepest
      else (let (node, depth) = last pending;
                deepest' = max deepest depth
            in if deepest' > MAX_SPLIT_DEPTH then deepest'
               else rawSplitDepth_loop deepest'
                 (butlast pending @ map (\<lambda>child. (child, depth + 1)) (json_children node))))"
  by pat_completeness simp
termination
proof (relation "measure (\<lambda>(_, pending). sum_list (map (\<lambda>(c, d). Suc (size c)) pending))", goal_cases)
  case (2 deepest pending x node depth deepest')
  then have "pending = butlast pending @ [(node, depth)]" by (metis append_butlast_last_id)
  from arg_cong [where f = "\<lambda>p. sum_list (map (\<lambda>(c, d). Suc (size c)) p)", OF this]
  have "sum_list (map (\<lambda>(c, d). Suc (size c)) pending) =
      sum_list (map (\<lambda>(c, d). Suc (size c)) (butlast pending)) + Suc (size node)"
    by simp
  with size_children [of node] show ?case by (simp add: comp_def)
qed simp

declare rawSplitDepth_loop.simps [simp del]

definition rawSplitDepth :: "json \<Rightarrow> nat" where
  "rawSplitDepth value = rawSplitDepth_loop 0 [(value, 1)]"

section \<open>Parsing\<close>

definition only_keys :: "string list \<Rightarrow> (string \<times> json) list \<Rightarrow> bool" where
  "only_keys ks fs \<longleftrightarrow> list_all (\<lambda>(k, v). k \<in> set ks) fs"

fun parse_all :: "('a \<Rightarrow> 'b option) \<Rightarrow> 'a list \<Rightarrow> 'b list option" where
  "parse_all f [] = Some []"
| "parse_all f (x # xs) =
     (case f x of None \<Rightarrow> None | Some y \<Rightarrow> map_option (Cons y) (parse_all f xs))"

lemma parse_all_cong [fundef_cong]:
  "xs = ys \<Longrightarrow> (\<And>x. x \<in> set ys \<Longrightarrow> f x = g x) \<Longrightarrow> parse_all f xs = parse_all g ys"
  by (induction ys arbitrary: xs) (auto split: option.split)

fun json_number :: "json \<Rightarrow> rat option" where
  "json_number (JNum x) = Some x"
| "json_number _ = None"

definition parse_leaf :: "(string \<Rightarrow> bool) \<Rightarrow> (string \<times> json) list \<Rightarrow> split_node option" where
  "parse_leaf uuid fs =
     (case map_of fs ''terminalId'' of
        Some (JStr t) \<Rightarrow> if uuid t \<and> only_keys [''type'', ''terminalId''] fs then Some (Leaf t) else None
      | _ \<Rightarrow> None)"

definition parse_document ::
  "(string \<Rightarrow> split_node) \<Rightarrow> (string \<times> json) list \<Rightarrow> split_node option" where
  "parse_document node fs =
     (case map_of fs ''path'' of
        Some (JStr p) \<Rightarrow> if ProjectPath p \<and> only_keys [''type'', ''path''] fs then Some (node p) else None
      | _ \<Rightarrow> None)"

definition parse_preview :: "(string \<times> json) list \<Rightarrow> split_node option" where
  "parse_preview fs =
     (case map_of fs ''port'' of
        Some (JNum x) \<Rightarrow>
          if of_int \<lfloor>x\<rfloor> = x \<and> 1 \<le> x \<and> x \<le> 65535 \<and> only_keys [''type'', ''port''] fs
          then Some (Preview (nat \<lfloor>x\<rfloor>)) else None
      | _ \<Rightarrow> None)"

definition parse_direction :: "json option \<Rightarrow> split_direction option" where
  "parse_direction v =
     (if v = Some (JStr ''row'') then Some Row
      else if v = Some (JStr ''column'') then Some Column else None)"

definition parse_sizes :: "json option \<Rightarrow> rat list option" where
  "parse_sizes v = (case v of Some (JArr xs) \<Rightarrow> parse_all json_number xs | _ \<Rightarrow> None)"

definition parse_split ::
  "(string \<times> json) list \<Rightarrow> split_node list option \<Rightarrow> split_node option" where
  "parse_split fs parsed =
     (case (parse_direction (map_of fs ''direction''), parse_sizes (map_of fs ''sizes''),
         map_of fs ''children'', parsed) of
        (Some d, Some sizes, Some (JArr _), Some children) \<Rightarrow>
          if 2 \<le> length children \<and> only_keys [''type'', ''direction'', ''sizes'', ''children''] fs \<and>
             length sizes = length children
          then Some (Split d sizes children) else None
      | _ \<Rightarrow> None)"

function parse_node :: "(string \<Rightarrow> bool) \<Rightarrow> json \<Rightarrow> split_node option" where
  "parse_node uuid v =
     (case v of
        JObj fs \<Rightarrow>
          if map_of fs ''type'' = Some (JStr ''leaf'') then parse_leaf uuid fs
          else if map_of fs ''type'' = Some (JStr ''file'') then parse_document File fs
          else if map_of fs ''type'' = Some (JStr ''diff'') then parse_document Diff fs
          else if map_of fs ''type'' = Some (JStr ''preview'') then parse_preview fs
          else if map_of fs ''type'' = Some (JStr ''split'') then
            parse_split fs (parse_all (parse_node uuid) (json_children v))
          else None
      | _ \<Rightarrow> None)"
  by pat_completeness simp
termination
proof (relation "measure (size \<circ> snd)", goal_cases)
  case (2 uuid v fs c)
  from member_le_sum_list [of "Suc (size c)" "map (\<lambda>c. Suc (size c)) (json_children v)"] size_children [of v] 2
  show ?case by auto
qed simp

section \<open>Checks across tabs\<close>

fun hasNestedWholeTab :: "split_node \<Rightarrow> bool" where
  "hasNestedWholeTab (Split d sizes children) \<longleftrightarrow>
     list_ex (\<lambda>child. (case child of Diff p \<Rightarrow> True | Preview port \<Rightarrow> True | _ \<Rightarrow> False) \<or>
       hasNestedWholeTab child) children"
| "hasNestedWholeTab _ \<longleftrightarrow> False"

fun documentTabId :: "split_node \<Rightarrow> string option" where
  "documentTabId (File path) = Some (''file:'' @ path)"
| "documentTabId (Diff path) = Some (''diff:'' @ path)"
| "documentTabId (Preview port) = Some (''preview:'' @ show_nat port)"
| "documentTabId _ = None"

datatype layout_issue = DuplicateTabId | NestedWholeTab | FileOpenTwice | LongTabId | WrongDocumentId | DocumentOpenTwice

fun repeated_files :: "nat \<Rightarrow> string list \<Rightarrow> string list \<Rightarrow> (nat \<times> layout_issue) list" where
  "repeated_files index files [] = []"
| "repeated_files index files (path # paths) =
     (if path \<in> set files then [(index, FileOpenTwice)] else []) @
     repeated_files index (path # files) paths"

definition document_issues :: "nat \<Rightarrow> string list \<Rightarrow> tab \<Rightarrow> (nat \<times> layout_issue) list" where
  "document_issues index documents tab =
     (case documentTabId (root tab) of
        None \<Rightarrow> (if 64 < length (tab_id tab) then [(index, LongTabId)] else [])
      | Some document \<Rightarrow>
          (if tab_id tab \<noteq> document then [(index, WrongDocumentId)] else []) @
          (if document \<in> set documents then [(index, DocumentOpenTwice)] else []))"

fun layout_issues ::
  "nat \<Rightarrow> string list \<Rightarrow> string list \<Rightarrow> string list \<Rightarrow> tab list \<Rightarrow> (nat \<times> layout_issue) list" where
  "layout_issues index seen documents files [] = []"
| "layout_issues index seen documents files (tab # tabs) =
     (if tab_id tab \<in> set seen then [(index, DuplicateTabId)] else []) @
     (if hasNestedWholeTab (root tab) then [(index, NestedWholeTab)] else []) @
     repeated_files index files (filePaths (root tab)) @
     document_issues index documents tab @
     layout_issues (index + 1) (tab_id tab # seen)
       (case documentTabId (root tab) of None \<Rightarrow> documents | Some d \<Rightarrow> d # documents)
       (rev (filePaths (root tab)) @ files) tabs"

definition parse_tab :: "(string \<Rightarrow> bool) \<Rightarrow> json \<Rightarrow> tab option" where
  "parse_tab uuid v =
     (case v of
        JObj fs \<Rightarrow>
          (case (map_of fs ''id'', map_of fs ''root'') of
             (Some (JStr i), Some r) \<Rightarrow>
               if 1 \<le> length i \<and> length i \<le> 1100 \<and> rawSplitDepth r \<le> MAX_SPLIT_DEPTH
               then map_option (\<lambda>node. \<lparr>tab_id = i, root = node\<rparr>) (parse_node uuid r) else None
           | _ \<Rightarrow> None)
      | _ \<Rightarrow> None)"

definition parse_layout :: "(string \<Rightarrow> bool) \<Rightarrow> json \<Rightarrow> project_layout option" where
  "parse_layout uuid v =
     (case v of
        JObj fs \<Rightarrow>
          (case map_of fs ''tabs'' of
             Some (JArr tabs) \<Rightarrow>
               (case parse_all (parse_tab uuid) tabs of
                  None \<Rightarrow> None
                | Some layout \<Rightarrow> if layout_issues 0 [] [] [] layout = [] then Some layout else None)
           | _ \<Rightarrow> None)
      | _ \<Rightarrow> None)"

section \<open>The document a browser sends\<close>

fun direction_json :: "split_direction \<Rightarrow> json" where
  "direction_json Row = JStr ''row''"
| "direction_json Column = JStr ''column''"

fun node_json :: "split_node \<Rightarrow> json" where
  "node_json (Leaf t) = JObj [(''type'', JStr ''leaf''), (''terminalId'', JStr t)]"
| "node_json (File p) = JObj [(''type'', JStr ''file''), (''path'', JStr p)]"
| "node_json (Diff p) = JObj [(''type'', JStr ''diff''), (''path'', JStr p)]"
| "node_json (Preview port) = JObj [(''type'', JStr ''preview''), (''port'', JNum (of_nat port))]"
| "node_json (Split d sizes children) =
     JObj [(''type'', JStr ''split''), (''direction'', direction_json d),
       (''sizes'', JArr (map JNum sizes)), (''children'', JArr (map node_json children))]"

definition layout_json :: "project_layout \<Rightarrow> json" where
  "layout_json layout =
     JObj [(''tabs'', JArr (map (\<lambda>tab. JObj [(''id'', JStr (tab_id tab)), (''root'', node_json (root tab))])
       layout))]"

section \<open>What the schema accepts\<close>

fun node_ok :: "(string \<Rightarrow> bool) \<Rightarrow> split_node \<Rightarrow> bool" where
  "node_ok uuid (Leaf t) \<longleftrightarrow> uuid t"
| "node_ok uuid (File p) \<longleftrightarrow> ProjectPath p"
| "node_ok uuid (Diff p) \<longleftrightarrow> ProjectPath p"
| "node_ok uuid (Preview port) \<longleftrightarrow> 1 \<le> port \<and> port \<le> 65535"
| "node_ok uuid (Split d sizes children) \<longleftrightarrow>
     2 \<le> length children \<and> length sizes = length children \<and> list_all (node_ok uuid) children"

definition tab_ok :: "(string \<Rightarrow> bool) \<Rightarrow> tab \<Rightarrow> bool" where
  "tab_ok uuid tab \<longleftrightarrow> 1 \<le> length (tab_id tab) \<and> length (tab_id tab) \<le> 1100 \<and>
     node_ok uuid (root tab) \<and> splitDepth (root tab) \<le> MAX_SPLIT_DEPTH \<and>
     \<not> hasNestedWholeTab (root tab) \<and>
     (case documentTabId (root tab) of
        None \<Rightarrow> length (tab_id tab) \<le> 64 | Some d \<Rightarrow> tab_id tab = d)"

definition layout_ok :: "(string \<Rightarrow> bool) \<Rightarrow> project_layout \<Rightarrow> bool" where
  "layout_ok uuid l \<longleftrightarrow>
     list_all (tab_ok uuid) l \<and> distinct (map tab_id l) \<and> distinct (layoutFiles l)"

function json_depth :: "json \<Rightarrow> nat" where
  "json_depth v = foldl max 0 (map json_depth (json_children v)) + 1"
  by pat_completeness simp
termination
proof (relation "measure size", goal_cases)
  case (2 v c)
  from member_le_sum_list [of "Suc (size c)" "map (\<lambda>c. Suc (size c)) (json_children v)"] size_children [of v] 2
  show ?case by auto
qed simp

declare json_depth.simps [simp del]

lemma parse_all_in: "parse_all f xs = Some ys \<Longrightarrow> y \<in> set ys \<Longrightarrow> \<exists>x\<in>set xs. f x = Some y"
  by (induction xs arbitrary: ys) (auto split: option.splits)

lemma parse_all_map: "(\<And>x. x \<in> set xs \<Longrightarrow> f (g x) = Some (h x)) \<Longrightarrow> parse_all f (map g xs) = Some (map h xs)"
  by (induction xs) auto

declare parse_node.simps [simp del]

lemma parse_node_ok: "parse_node uuid v = Some n \<Longrightarrow> node_ok uuid n"
proof (induction uuid v arbitrary: n rule: parse_node.induct)
  case (1 uuid v)
  show ?case
  proof (cases "\<exists>fs. v = JObj fs \<and> map_of fs ''type'' = Some (JStr ''split'')")
    case True
    then obtain fs where fs: "v = JObj fs" "map_of fs ''type'' = Some (JStr ''split'')" by blast
    then have "parse_split fs (parse_all (parse_node uuid) (json_children v)) = Some n"
      using "1.prems" unfolding parse_node.simps [of uuid v] by simp
    then obtain d sizes children where
      n: "n = Split d sizes children" "2 \<le> length children" "length sizes = length children" and
      p: "parse_all (parse_node uuid) (json_children v) = Some children"
      by (auto simp: parse_split_def split: option.splits json.splits if_splits)
    have "node_ok uuid c" if "c \<in> set children" for c
    proof -
      from p that obtain x where "x \<in> set (json_children v)" "parse_node uuid x = Some c"
        by (blast dest: parse_all_in)
      with "1.IH" [OF fs(1)] fs(2) show ?thesis by simp
    qed
    then show ?thesis using n by (simp add: list_all_iff)
  next
    case False
    with "1.prems" show ?thesis
      by (auto simp: parse_node.simps [of uuid v] parse_leaf_def parse_document_def parse_preview_def
          nat_le_iff le_nat_iff split: json.splits option.splits if_splits)
  qed
qed

lemma parse_sizes_json [simp]: "parse_sizes (Some (JArr (map JNum sizes))) = Some sizes"
  using parse_all_map [of sizes json_number JNum "\<lambda>x. x"] by (simp add: parse_sizes_def)

lemma parse_direction_json [simp]: "parse_direction (Some (direction_json d)) = Some d"
  by (cases d) (simp_all add: parse_direction_def)

lemma children_json [simp]:
  "json_children (node_json n) = (case n of Split d s cs \<Rightarrow> map node_json cs | _ \<Rightarrow> [])"
  by (cases n) (simp_all add: json_children_def)

lemma parse_node_json: "node_ok uuid n \<Longrightarrow> parse_node uuid (node_json n) = Some n"
proof (induction n)
  case (Split d sizes children)
  then have "parse_all (parse_node uuid) (map node_json children) = Some (map (\<lambda>n. n) children)"
    by (intro parse_all_map) (auto simp: list_all_iff)
  with Split.prems show ?case
    unfolding parse_node.simps [of uuid "node_json (Split d sizes children)"] children_json
    by (simp add: parse_split_def only_keys_def)
qed (auto simp: parse_node.simps parse_leaf_def parse_document_def parse_preview_def only_keys_def)

lemma parse_all_inverse:
  "\<lbrakk>\<And>x y. x \<in> set xs \<Longrightarrow> f (g x) = Some y \<Longrightarrow> y = x; parse_all f (map g xs) = Some ys\<rbrakk> \<Longrightarrow> ys = xs"
  by (induction xs arbitrary: ys) (auto split: option.splits)

lemma parse_node_inverse: "parse_node uuid (node_json n) = Some m \<Longrightarrow> m = n"
proof (induction n arbitrary: m)
  case (Split d sizes children)
  from Split.prems have "parse_split [(''type'', JStr ''split''), (''direction'', direction_json d),
      (''sizes'', JArr (map JNum sizes)), (''children'', JArr (map node_json children))]
      (parse_all (parse_node uuid) (map node_json children)) = Some m"
    unfolding parse_node.simps [of uuid "node_json (Split d sizes children)"] children_json by simp
  then obtain ms where ms: "parse_all (parse_node uuid) (map node_json children) = Some ms"
    "m = Split d sizes ms"
    by (auto simp: parse_split_def split: option.splits if_splits)
  from parse_all_inverse [OF _ ms(1)] Split.IH have "ms = children" by blast
  then show ?case using ms(2) by simp
qed (auto simp: parse_node.simps parse_leaf_def parse_document_def parse_preview_def split: if_splits)

section \<open>The depth loop\<close>

lemma foldl_max: "foldl max (a::nat) xs = max a (foldl max 0 xs)"
proof (induction xs arbitrary: a)
  case (Cons x xs)
  show ?case using Cons [of "max a x"] Cons [of "max 0 x"] by simp
qed simp

lemma foldl_max_le: "foldl max 0 xs \<le> (n::nat) \<longleftrightarrow> (\<forall>x\<in>set xs. x \<le> n)"
proof (induction xs)
  case (Cons x xs)
  then show ?case using foldl_max [of x xs] by simp
qed simp

lemma json_depth_node: "json_depth (node_json n) = splitDepth n"
proof (induction n)
  case (Split d sizes children)
  then have "map (json_depth \<circ> node_json) children = map splitDepth children" by simp
  then show ?case unfolding json_depth.simps [of "node_json _"] children_json
    by (simp add: comp_def cong: map_cong)
qed (simp_all add: json_depth.simps json_children_def)

text \<open>The depth of a pending node, counted from the root.\<close>

definition reach :: "json \<times> nat \<Rightarrow> nat" where
  "reach p = snd p + json_depth (fst p) - 1"

lemma json_depth_pos: "1 \<le> json_depth v"
  by (subst json_depth.simps) simp

lemma reach_children:
  "reach (v, k) \<le> n \<longleftrightarrow> k \<le> n \<and> (\<forall>c\<in>set (json_children v). reach (c, k + 1) \<le> n)"
proof -
  have "reach (v, k) = k + foldl max 0 (map json_depth (json_children v))"
    unfolding reach_def by (simp add: json_depth.simps [of v])
  then have "reach (v, k) \<le> n \<longleftrightarrow> k \<le> n \<and> (\<forall>c\<in>set (json_children v). json_depth c \<le> n - k)"
    using foldl_max_le [of "map json_depth (json_children v)" "n - k"] by auto
  also have "\<dots> \<longleftrightarrow> k \<le> n \<and> (\<forall>c\<in>set (json_children v). reach (c, k + 1) \<le> n)"
    using json_depth_pos by (auto simp: reach_def)
  finally show ?thesis .
qed

lemma loop_depth:
  "deepest \<le> MAX_SPLIT_DEPTH \<Longrightarrow> rawSplitDepth_loop deepest pending \<le> MAX_SPLIT_DEPTH \<longleftrightarrow>
     (\<forall>p\<in>set pending. reach p \<le> MAX_SPLIT_DEPTH)"
proof (induction deepest pending rule: rawSplitDepth_loop.induct)
  case (1 deepest pending)
  show ?case
  proof (cases "pending = []")
    case False
    obtain v k where vk: "last pending = (v, k)" by (cases "last pending")
    have pending: "set pending = insert (v, k) (set (butlast pending))"
      using False vk by (metis append_butlast_last_id list.simps(15) rotate1.simps(2) set_rotate1)
    show ?thesis
    proof (cases "max deepest k > MAX_SPLIT_DEPTH")
      case True
      then show ?thesis using False vk 1(2) reach_children [of v k MAX_SPLIT_DEPTH]
        by (subst rawSplitDepth_loop.simps) (auto simp: Let_def pending)
    next
      case le: False
      then have "max deepest k \<le> MAX_SPLIT_DEPTH" by (simp only: not_less)
      from 1(1) [OF False refl vk [symmetric] refl le this]
      have "rawSplitDepth_loop (max deepest k)
          (butlast pending @ map (\<lambda>c. (c, k + 1)) (json_children v)) \<le> MAX_SPLIT_DEPTH \<longleftrightarrow>
        (\<forall>p\<in>set (butlast pending) \<union> (\<lambda>c. (c, k + 1)) ` set (json_children v). reach p \<le> MAX_SPLIT_DEPTH)"
        by simp
      then show ?thesis using False vk le reach_children [of v k MAX_SPLIT_DEPTH]
        by (subst rawSplitDepth_loop.simps) (auto simp: Let_def pending)
    qed
  qed (use 1(2) in \<open>simp add: rawSplitDepth_loop.simps\<close>)
qed

text \<open>
  The loop that guards the recursive parser accepts exactly the documents whose tree of
  \<open>children\<close> is at most \<open>MAX_SPLIT_DEPTH\<close> deep, on any JSON at all, and always ends; on a document
  a browser sends that depth is the depth of the split.
\<close>

theorem raw_depth_exact:
  "(rawSplitDepth v \<le> MAX_SPLIT_DEPTH \<longleftrightarrow> json_depth v \<le> MAX_SPLIT_DEPTH) \<and>
   json_depth (node_json n) = splitDepth n"
  using loop_depth [of 0 "[(v, 1)]"] json_depth_node [of n]
  by (simp add: rawSplitDepth_def reach_def)

section \<open>Accepted layouts\<close>

lemma repeated_files_none:
  "repeated_files index files ps = [] \<longleftrightarrow> distinct ps \<and> set ps \<inter> set files = {}"
  by (induction index files ps rule: repeated_files.induct) auto

definition documents :: "project_layout \<Rightarrow> string list" where
  "documents l = List.map_filter (documentTabId \<circ> root) l"

lemma layout_issues_none:
  "layout_issues index seen docs files l = [] \<longleftrightarrow>
     distinct (map tab_id l) \<and> set (map tab_id l) \<inter> set seen = {} \<and>
     list_all (\<lambda>t. \<not> hasNestedWholeTab (root t)) l \<and>
     distinct (layoutFiles l) \<and> set (layoutFiles l) \<inter> set files = {} \<and>
     list_all (\<lambda>t. case documentTabId (root t) of None \<Rightarrow> length (tab_id t) \<le> 64 | Some d \<Rightarrow> tab_id t = d) l \<and>
     distinct (documents l) \<and> set (documents l) \<inter> set docs = {}"
proof (induction index seen docs files l rule: layout_issues.induct)
  case (2 index seen docs files tab tabs)
  show ?case
    using 2 by (cases "documentTabId (root tab)")
      (auto simp: repeated_files_none document_issues_def layoutFiles_def documents_def map_filter_simps)
qed (simp add: layoutFiles_def documents_def map_filter_simps)

lemma documents_are_ids:
  assumes "list_all (\<lambda>t. case documentTabId (root t) of None \<Rightarrow> length (tab_id t) \<le> 64 | Some d \<Rightarrow> tab_id t = d) l"
    and "distinct (map tab_id l)"
  shows "distinct (documents l) \<and> set (documents l) \<subseteq> set (map tab_id l)"
  using assms by (induction l) (auto simp: documents_def map_filter_simps split: option.splits)

lemma parse_tab_ok:
  "parse_tab uuid v = Some t \<Longrightarrow> 1 \<le> length (tab_id t) \<and> length (tab_id t) \<le> 1100 \<and> node_ok uuid (root t)"
  by (auto simp: parse_tab_def parse_node_ok split: json.splits option.splits if_splits)

lemma parse_node_depth: "parse_node uuid v = Some n \<Longrightarrow> splitDepth n \<le> json_depth v"
proof (induction uuid v arbitrary: n rule: parse_node.induct)
  case (1 uuid v)
  show ?case
  proof (cases "\<exists>fs. v = JObj fs \<and> map_of fs ''type'' = Some (JStr ''split'')")
    case True
    then obtain fs where fs: "v = JObj fs" "map_of fs ''type'' = Some (JStr ''split'')" by blast
    then have "parse_split fs (parse_all (parse_node uuid) (json_children v)) = Some n"
      using "1.prems" unfolding parse_node.simps [of uuid v] by simp
    then obtain d sizes children where
      n: "n = Split d sizes children" and
      p: "parse_all (parse_node uuid) (json_children v) = Some children"
      by (auto simp: parse_split_def split: option.splits json.splits if_splits)
    have "splitDepth c \<le> foldl max 0 (map json_depth (json_children v))" if "c \<in> set children" for c
    proof -
      from p that obtain x where x: "x \<in> set (json_children v)" "parse_node uuid x = Some c"
        by (blast dest: parse_all_in)
      with "1.IH" [OF fs(1)] fs(2) have "splitDepth c \<le> json_depth x" by simp
      also have "json_depth x \<le> foldl max 0 (map json_depth (json_children v))"
        using foldl_max_le [of "map json_depth (json_children v)"] x(1) by auto
      finally show ?thesis .
    qed
    then show ?thesis
      by (subst json_depth.simps) (simp add: n foldl_max_le)
  next
    case False
    with "1.prems" have "splitDepth n = 1"
      by (auto simp: parse_node.simps [of uuid v] parse_leaf_def parse_document_def parse_preview_def
          split: json.splits option.splits if_splits)
    then show ?thesis using json_depth_pos by simp
  qed
qed

lemma parse_tab_depth: "parse_tab uuid v = Some t \<Longrightarrow> splitDepth (root t) \<le> MAX_SPLIT_DEPTH"
  using loop_depth [of 0 "[(v, 1)]" for v]
  by (auto simp: parse_tab_def rawSplitDepth_def reach_def split: json.splits option.splits if_splits
      dest!: parse_node_depth intro: order_trans)

text \<open>
  C29: Every layout the API accepts is well formed: tab ids are unique and of bounded length, a
  document's tab is named after it, no file is open twice, every split has a size per child and at
  least two children, previews and diffs are whole tabs, and no tab is deeper than the bound.
\<close>

theorem accepted_layout:
  assumes "parse_layout uuid v = Some l"
  shows "layout_ok uuid l"
proof -
  from assms obtain tabs where p: "parse_all (parse_tab uuid) tabs = Some l" and
    none: "layout_issues 0 [] [] [] l = []"
    by (auto simp: parse_layout_def split: json.splits option.splits if_splits)
  have "tab_ok uuid t" if t: "t \<in> set l" for t
  proof -
    from parse_all_in [OF p t] obtain x where "parse_tab uuid x = Some t" by blast
    then show ?thesis
      using parse_tab_ok parse_tab_depth none t unfolding layout_issues_none tab_ok_def list_all_iff
      by blast
  qed
  then show ?thesis using none by (simp add: layout_ok_def list_all_iff layout_issues_none)
qed

text \<open>
  C28: The API accepts what a browser sends exactly when it is well formed, and then stores the very
  layout that was on screen.
\<close>

theorem layout_roundtrip:
  "parse_layout uuid (layout_json l) = (if layout_ok uuid l then Some l else None)"
proof (cases "layout_ok uuid l")
  case True
  have "parse_tab uuid (JObj [(''id'', JStr (tab_id t)), (''root'', node_json (root t))]) = Some t"
    if "t \<in> set l" for t
    using True that raw_depth_exact [of "node_json (root t)" "root t"]
    by (simp add: layout_ok_def list_all_iff tab_ok_def parse_tab_def parse_node_json)
  then have "parse_all (parse_tab uuid) (map (\<lambda>t. JObj [(''id'', JStr (tab_id t)),
      (''root'', node_json (root t))]) l) = Some (map (\<lambda>t. t) l)"
    by (rule parse_all_map)
  moreover have "layout_issues 0 [] [] [] l = []"
    using True documents_are_ids [of l]
    by (auto simp: layout_issues_none layout_ok_def list_all_iff tab_ok_def)
  ultimately show ?thesis using True by (simp add: parse_layout_def layout_json_def)
next
  case False
  have "t' = t" if "parse_tab uuid (JObj [(''id'', JStr (tab_id t)), (''root'', node_json (root t))]) = Some t'"
    for t t'
    using that by (auto simp: parse_tab_def dest!: parse_node_inverse split: if_splits)
  with parse_all_inverse [of l "parse_tab uuid"
      "\<lambda>t. JObj [(''id'', JStr (tab_id t)), (''root'', node_json (root t))]"]
  have "parse_layout uuid (layout_json l) = Some l' \<Longrightarrow> l' = l" for l'
    by (auto simp: parse_layout_def layout_json_def split: option.splits if_splits)
  then show ?thesis using False accepted_layout by (cases "parse_layout uuid (layout_json l)") auto
qed

lemma accepted_layout_witness: "layout_ok (\<lambda>t. t \<in> {''t1'', ''t2''}) sample_layout"
proof (rule accepted_layout)
  show "parse_layout (\<lambda>t. t \<in> {''t1'', ''t2''}) (layout_json sample_layout) = Some sample_layout"
    by code_simp
qed

end
