(* ===== verification/Layout_Valid.thy ===== *)
theory Layout_Valid
  imports Layout_Schema
begin

text \<open>
  Every edit a user makes keeps the layout acceptable to the API. An edit may give a tab another
  kind of root, so the invariant is proved in two steps: the edit leaves tabs that are \<open>unsettled\<close>
  at worst, and \<open>settleTabIds\<close> turns those into tabs the schema accepts.
\<close>

section \<open>Settling the tab ids\<close>

fun whole_tab :: "split_node \<Rightarrow> bool" where
  "whole_tab (Diff p) \<longleftrightarrow> True"
| "whole_tab (Preview port) \<longleftrightarrow> True"
| "whole_tab _ \<longleftrightarrow> False"

definition unsettled :: "(string \<Rightarrow> bool) \<Rightarrow> tab \<Rightarrow> bool" where
  "unsettled uuid t \<longleftrightarrow>
     node_ok uuid (root t) \<and> \<not> hasNestedWholeTab (root t) \<and> splitDepth (root t) \<le> MAX_SPLIT_DEPTH \<and>
     1 \<le> length (tab_id t) \<and>
     (if whole_tab (root t) then documentTabId (root t) = Some (tab_id t) \<and> length (tab_id t) \<le> 1100
      else file_pane (tab_id t) \<or> length (tab_id t) \<le> 64)"

lemma tab_ok_unsettled: "tab_ok uuid t \<Longrightarrow> unsettled uuid t"
  by (cases "root t") (auto simp: tab_ok_def unsettled_def file_pane_def startsWith_def)

text \<open>What \<open>crypto.randomUUID\<close> promises of the ids drawn for a layout.\<close>

definition fresh_ids :: "id_source \<Rightarrow> project_layout \<Rightarrow> bool" where
  "fresh_ids newTabId l \<longleftrightarrow> inj newTabId \<and>
     (\<forall>k. 1 \<le> length (newTabId k) \<and> length (newTabId k) \<le> 64 \<and> \<not> file_pane (newTabId k) \<and>
       newTabId k \<notin> set (map tab_id l))"

definition lone_files :: "project_layout \<Rightarrow> string list" where
  "lone_files l = List.map_filter (\<lambda>t. case root t of File p \<Rightarrow> Some p | _ \<Rightarrow> None) l"

lemma lone_files_simps [simp]:
  "lone_files [] = []"
  "lone_files (t # l) = (case root t of File p \<Rightarrow> p # lone_files l | _ \<Rightarrow> lone_files l)"
  by (simp_all add: lone_files_def map_filter_simps split: split_node.split)

lemma lone_files_are_files: "set (lone_files l) \<subseteq> set (layoutFiles l)"
  by (induction l) (auto simp: layoutFiles_def split: split_node.splits)

lemma distinct_lone_files: "distinct (layoutFiles l) \<Longrightarrow> distinct (lone_files l)"
proof (induction l)
  case (Cons t l)
  then show ?case using lone_files_are_files [of l]
    by (cases "root t") (auto simp: layoutFiles_def)
qed simp

lemma settle_tab_cases:
  fixes t :: tab and f :: id_source and n :: nat
  obtains (lone_file) p where "root t = File p" "tab_id (fst (settle_tab f n t)) = fileTabId p"
      "snd (settle_tab f n t) = n"
  | (fresh) "\<nexists>p. root t = File p" "tab_id (fst (settle_tab f n t)) = f n"
      "snd (settle_tab f n t) = Suc n" "file_pane (tab_id t)"
  | (same) "\<nexists>p. root t = File p" "fst (settle_tab f n t) = t" "snd (settle_tab f n t) = n"
      "\<not> file_pane (tab_id t)"
  by (cases "root t"; cases "file_pane (tab_id t)")
    (auto simp: settle_tab_def file_pane_def [symmetric])

lemma settled_ids:
  assumes "fresh_ids f l0" and "set (map tab_id l) \<subseteq> set (map tab_id l0)"
    and "distinct (map tab_id l)" and "distinct (lone_files l)"
  shows "distinct (map tab_id (fst (settleTabIds f n l))) \<and>
    (\<forall>i\<in>set (map tab_id (fst (settleTabIds f n l))).
       i \<in> fileTabId ` set (lone_files l) \<or> (\<exists>k\<ge>n. i = f k) \<or>
       (i \<in> set (map tab_id l) \<and> \<not> file_pane i))"
  using assms(2-4)
proof (induction l arbitrary: n)
  case (Cons t l)
  let ?r = "settle_tab f n t"
  let ?ids = "\<lambda>k. map tab_id (fst (settleTabIds f k l))"
  have IH: "distinct (?ids m) \<and> (\<forall>i\<in>set (?ids m). i \<in> fileTabId ` set (lone_files l) \<or>
      (\<exists>k\<ge>m. i = f k) \<or> (i \<in> set (map tab_id l) \<and> \<not> file_pane i))" for m
    using Cons.IH [of m] Cons.prems by (auto split: split_node.splits)
  have f: "inj f" "\<not> file_pane (f k)" "f k \<notin> set (map tab_id (t # l))" for k
    using assms(1) Cons.prems(1) unfolding fresh_ids_def by blast+
  have inj_tab: "fileTabId p = fileTabId q \<longleftrightarrow> p = q" for p q by (simp add: fileTabId_def)
  show ?case
  proof (cases rule: settle_tab_cases [of t f n])
    case (lone_file p)
    have "p \<notin> set (lone_files l)" using Cons.prems(3) lone_file(1) by simp
    then have "fileTabId p \<notin> set (?ids n)"
      using IH [of n] f(2) file_pane_tab [of p] inj_tab by (metis imageE)
    then show ?thesis
      using lone_file IH [of n] by (auto simp: settleTabIds_Cons)
  next
    case fresh
    then have "lone_files (t # l) = lone_files l" by (cases "root t") auto
    moreover have "f n \<notin> set (map tab_id (fst (settleTabIds f (Suc n) l)))"
      using IH [of "Suc n"] f file_pane_tab
      by (metis imageE injD Suc_n_not_le_n list.set_intros(2) list.simps(9))
    ultimately show ?thesis
      using fresh(2-3) IH [of "Suc n"] f by (auto simp: settleTabIds_Cons) (metis Suc_leD)+
  next
    case same
    then have "lone_files (t # l) = lone_files l" by (cases "root t") auto
    moreover have "tab_id t \<notin> set (?ids n)"
      using IH [of n] f file_pane_tab same(4) Cons.prems(2)
      by (metis imageE distinct.simps(2) list.set_intros(1) list.simps(9))
    ultimately show ?thesis using same(2-4) IH [of n] by (auto simp: settleTabIds_Cons)
  qed
qed simp

lemma fresh_id: "fresh_ids f l \<Longrightarrow> 1 \<le> length (f k) \<and> length (f k) \<le> 64"
  by (simp add: fresh_ids_def)

lemma whole_tab_id: "whole_tab r \<Longrightarrow> documentTabId r = Some i \<Longrightarrow> \<not> file_pane i"
  by (cases r) (auto simp: file_pane_def startsWith_def)

lemma settled_tab_ok:
  assumes "fresh_ids f l0" and "\<And>t. t \<in> set l \<Longrightarrow> unsettled uuid t"
    and "t \<in> set (fst (settleTabIds f n l))"
  shows "tab_ok uuid t"
  using assms(2,3)
proof (induction l arbitrary: n)
  case (Cons u l)
  have u: "unsettled uuid u" using Cons.prems(1) by simp
  have "tab_ok uuid (fst (settle_tab f n u))"
    using u fresh_id [OF assms(1), of n] whole_tab_id [of "root u"]
    by (cases "root u")
      (auto simp: unsettled_def tab_ok_def settle_tab_def file_pane_def [symmetric]
        fileTabId_def ProjectPath_def)
  moreover have "t \<in> set (fst (settleTabIds f (snd (settle_tab f n u)) l)) \<Longrightarrow> tab_ok uuid t"
    using Cons by simp
  ultimately show ?case using Cons.prems(2) by (auto simp: settleTabIds_Cons)
qed simp

lemma settled_layout_ok:
  assumes "fresh_ids f l0" and "\<And>t. t \<in> set l \<Longrightarrow> unsettled uuid t"
    and "set (map tab_id l) \<subseteq> set (map tab_id l0)" "distinct (map tab_id l)" "distinct (layoutFiles l)"
  shows "layout_ok uuid (fst (settleTabIds f n l))"
  using settled_tab_ok [OF assms(1,2)] settled_ids [OF assms(1,3,4) distinct_lone_files [OF assms(5)]]
    assms(5)
  by (simp add: layout_ok_def list_all_iff layoutFiles_leaves)

section \<open>What an edit does to a node\<close>

lemma length_evenSizes [simp]: "length (evenSizes n) = n"
  by (simp add: evenSizes_def Let_def)

lemma length_normaliseSizes [simp]: "length (normaliseSizes sizes) = length sizes"
  by (simp add: normaliseSizes_def Let_def)

lemma splitDepth_Split: "splitDepth (Split d s cs) \<le> n \<longleftrightarrow> 1 \<le> n \<and> (\<forall>c\<in>set cs. splitDepth c \<le> n - 1)"
  by (cases n) (auto simp: foldl_max_le)

text \<open>The part of the invariant that concerns one node.\<close>

definition sound :: "(string \<Rightarrow> bool) \<Rightarrow> split_node \<Rightarrow> bool" where
  "sound uuid n \<longleftrightarrow> node_ok uuid n \<and> \<not> hasNestedWholeTab n"

lemma sound_Split:
  "sound uuid (Split d s cs) \<longleftrightarrow> 2 \<le> length cs \<and> length s = length cs \<and>
     (\<forall>c\<in>set cs. sound uuid c \<and> \<not> whole_tab c)"
proof -
  have "(case c of Diff p \<Rightarrow> True | Preview port \<Rightarrow> True | _ \<Rightarrow> False) = whole_tab c" for c
    by (cases c) auto
  then show ?thesis by (auto simp: sound_def list_all_iff list_ex_iff)
qed

lemma removed_node:
  "sound uuid n \<Longrightarrow> removeFromNode i n = Became r \<Longrightarrow>
     sound uuid r \<and> \<not> whole_tab r \<and> splitDepth r \<le> splitDepth n"
proof (induction i n arbitrary: r rule: removeFromNode.induct)
  case (1 i d sizes children)
  obtain k res where kr: "removed_child (removeFromNode i) children = Some (k, res)"
    using 1(3) by (auto split: option.splits)
  from removed_child_Some [OF kr] obtain us x ws where c: "children = us @ x # ws" "length us = k"
    "removeFromNode i x = (case res of None \<Rightarrow> Gone | Some y \<Rightarrow> Became y)" by blast
  define cs where "cs = (case res of None \<Rightarrow> us @ ws | Some y \<Rightarrow> us @ y # ws)"
  define ss where "ss = (case res of None \<Rightarrow> delete_at k sizes | Some c \<Rightarrow> sizes)"
  have cs: "(case res of None \<Rightarrow> delete_at k children | Some c \<Rightarrow> children[k := c]) = cs"
    using c(1,2) by (auto simp: cs_def split: option.splits)
  have len: "length ss = length cs"
    using 1(2) c(1,2) by (auto simp: sound_Split ss_def cs_def delete_at_def split: option.splits)
  have child: "sound uuid y \<and> \<not> whole_tab y \<and> splitDepth y \<le> splitDepth (Split d sizes children) - 1"
    if "y \<in> set cs" for y
  proof (cases "y \<in> set us \<union> set ws")
    case True
    then show ?thesis using 1(2) c(1) splitDepth_Split [of d sizes children "splitDepth (Split d sizes children)"]
      by (auto simp: sound_Split simp del: splitDepth.simps)
  next
    case False
    then have y: "res = Some y" using that by (auto simp: cs_def split: option.splits)
    then have "sound uuid y \<and> \<not> whole_tab y \<and> splitDepth y \<le> splitDepth x"
      using 1(1) [of x y] 1(2) c by (auto simp: sound_Split)
    moreover have "splitDepth x \<le> splitDepth (Split d sizes children) - 1"
      using c(1) splitDepth_Split [of d sizes children "splitDepth (Split d sizes children)"]
      by (auto simp del: splitDepth.simps)
    ultimately show ?thesis by linarith
  qed
  have "removeFromNode i (Split d sizes children) =
      (case cs of [] \<Rightarrow> Gone | [only] \<Rightarrow> Became only | _ \<Rightarrow> Became (Split d (normaliseSizes ss) cs))"
    using kr cs by (simp add: Let_def ss_def cong: list.case_cong)
  with 1(3) consider "cs = [r]" | "r = Split d (normaliseSizes ss) cs" "2 \<le> length cs"
    by (auto split: list.splits)
  then show ?case
  proof cases
    case 1
    then show ?thesis using child [of r] by simp
  next
    case 2
    moreover have "splitDepth r \<le> splitDepth (Split d sizes children)"
      using child unfolding 2(1) splitDepth_Split by simp
    ultimately show ?thesis using child len by (simp add: sound_Split del: splitDepth.simps)
  qed
qed (auto split: if_splits)

lemma inserted_node:
  "\<lbrakk>insertBeside t moved d prior n = Some r; sound uuid n; sound uuid moved; paneId moved = Some m\<rbrakk> \<Longrightarrow>
     sound uuid r \<and> \<not> whole_tab r"
proof (induction n arbitrary: r)
  case (Split d' sizes children)
  have m: "\<not> whole_tab moved" using Split.prems(4) by (cases moved) auto
  have loop: ?case if eq: "replace_first (insertBeside t moved d prior) children = Some cs"
    "r = Split d' sizes cs" for cs
  proof -
    from replace_first_Some [OF eq(1)] obtain us x v ws where
      c: "children = us @ x # ws" "cs = us @ v # ws" "insertBeside t moved d prior x = Some v" by blast
    have "sound uuid v \<and> \<not> whole_tab v"
      using Split.IH [of x v] c Split.prems by (auto simp: sound_Split)
    then show ?thesis using Split.prems(2) c(1,2) eq(2) by (auto simp: sound_Split)
  qed
  show ?case
  proof (cases "findIndex (\<lambda>c. paneId c = Some t) children")
    case None
    with Split.prems(1) loop show ?thesis by auto
  next
    case (Some i)
    then have "set (insert_at j moved children) = insert moved (set children)"
      "length (insert_at j moved children) = Suc (length children)" if "j \<le> length children" for j
      using that append_take_drop_id [of j children]
      by (auto simp: insert_at_def simp del: append_take_drop_id) (metis Un_iff set_append)+
    moreover have "i < length children" using findIndex_Some [OF Some] by blast
    ultimately show ?thesis using Some Split.prems m loop
      by (auto simp: Let_def sound_Split split: if_splits)
  qed
qed (auto simp: sound_def split: if_splits elim!: paneId.elims)

lemma swapped_node:
  assumes "sound uuid a" "sound uuid b" "paneId a = Some i" "paneId b = Some j"
  shows "sound uuid n \<Longrightarrow> sound uuid (swap_node a b n) \<and> splitDepth (swap_node a b n) = splitDepth n \<and>
    (whole_tab (swap_node a b n) \<longleftrightarrow> whole_tab n) \<and> documentTabId (swap_node a b n) =
      (if whole_tab n then documentTabId n else documentTabId (swap_node a b n))"
proof (induction n)
  case (Split d s cs)
  then have IH: "sound uuid (swap_node a b c) \<and> splitDepth (swap_node a b c) = splitDepth c \<and>
      \<not> whole_tab (swap_node a b c)" if "c \<in> set cs" for c
    using that by (auto simp: sound_Split)
  then have "foldl max 0 (map (splitDepth \<circ> swap_node a b) cs) = foldl max 0 (map splitDepth cs)"
    by (intro arg_cong [where f = "foldl max 0"]) simp
  with Split.prems IH show ?case by (simp add: sound_Split)
qed (use assms in \<open>auto elim!: paneId.elims\<close>)

lemma resized_node:
  "(sound uuid n \<longrightarrow> sound uuid (resize_node path sizes n)) \<and>
   leaves (resize_node path sizes n) = leaves n \<and> splitDepth (resize_node path sizes n) = splitDepth n \<and>
   whole_tab (resize_node path sizes n) = whole_tab n \<and>
   documentTabId (resize_node path sizes n) = documentTabId n"
proof (induction path sizes n rule: resize_node.induct)
  case (2 k path sizes d old children)
  show ?case
  proof (cases "k < length children")
    case True
    let ?c = "resize_node path sizes (children ! k)"
    note IH = 2 [OF True]
    have "map leaves (children[k := ?c]) = map leaves children"
      "map splitDepth (children[k := ?c]) = map splitDepth children"
      using IH True by (simp_all add: map_update list_update_same_conv)
    moreover have "sound uuid ?c \<and> \<not> whole_tab ?c" if "sound uuid (Split d old children)"
      using IH that True by (auto simp: sound_Split)
    ultimately show ?thesis using True
      by (auto simp: sound_Split dest!: set_update_subset_insert [THEN subsetD])
  qed simp
qed (auto simp: sound_Split)

section \<open>Edits\<close>

definition settled :: "project_layout \<Rightarrow> bool" where
  "settled l \<longleftrightarrow> list_all (\<lambda>t. file_pane (tab_id t) \<longrightarrow> (\<exists>p. root t = File p)) l"

definition layout_inv :: "(string \<Rightarrow> bool) \<Rightarrow> project_layout \<Rightarrow> bool" where
  "layout_inv uuid l \<longleftrightarrow> layout_ok uuid l \<and> distinct (panes l) \<and> settled l"

lemma settled_settle:
  assumes "fresh_ids f l0"
  shows "settled (fst (settleTabIds f n l))"
proof (induction l arbitrary: n)
  case (Cons t l)
  have "file_pane (tab_id (fst (settle_tab f n t))) \<Longrightarrow> \<exists>p. root t = File p"
    using assms by (cases rule: settle_tab_cases [of t f n]) (auto simp: fresh_ids_def)
  then show ?case using Cons by (simp add: settled_def settleTabIds_Cons)
qed (simp add: settled_def)

lemma settle_inv:
  assumes "fresh_ids f l0" and "\<And>t. t \<in> set l \<Longrightarrow> unsettled uuid t"
    and "set (map tab_id l) \<subseteq> set (map tab_id l0)" "distinct (map tab_id l)" "distinct (panes l)"
  shows "layout_inv uuid (fst (settleTabIds f n l))"
  using settled_layout_ok [OF assms(1-4) distinct_layoutFiles [OF assms(5)]] settled_settle [OF assms(1)]
    assms(5) by (simp add: layout_inv_def)

lemma withoutPane_tabs:
  "t \<in> set (withoutPane l i) \<Longrightarrow> \<exists>u\<in>set l. tab_id t = tab_id u \<and>
     (t = u \<or> (\<exists>r. removeFromNode i (root u) = Became r \<and> t = u\<lparr>root := r\<rparr>))"
  by (induction l) (auto split: removal.splits)

lemma withoutPane_ids: "distinct (map tab_id l) \<Longrightarrow> distinct (map tab_id (withoutPane l i))"
  using withoutPane_tabs by (induction l) (fastforce split: removal.splits)+

lemma became_split: "removeFromNode i n = Became r \<Longrightarrow> \<not> whole_tab n"
  by (cases n) (auto split: if_splits)

lemma withoutPane_unsettled:
  assumes "\<And>t. t \<in> set l \<Longrightarrow> unsettled uuid t" and "t \<in> set (withoutPane l i)"
  shows "unsettled uuid t"
proof -
  from withoutPane_tabs [OF assms(2)] obtain u where u: "u \<in> set l"
    "t = u \<or> (\<exists>r. removeFromNode i (root u) = Became r \<and> t = u\<lparr>root := r\<rparr>)" by blast
  from u(2) show ?thesis
  proof
    assume "\<exists>r. removeFromNode i (root u) = Became r \<and> t = u\<lparr>root := r\<rparr>"
    then obtain r where r: "removeFromNode i (root u) = Became r" "t = u\<lparr>root := r\<rparr>" by blast
    with removed_node [of uuid "root u" i r] became_split [OF r(1)] assms(1) [OF u(1)] show ?thesis
      by (auto simp: unsettled_def sound_def)
  qed (use assms(1) u(1) in simp)
qed

lemma inv_unsettled: "layout_inv uuid l \<Longrightarrow> t \<in> set l \<Longrightarrow> unsettled uuid t"
  by (auto simp: layout_inv_def layout_ok_def list_all_iff intro: tab_ok_unsettled)

lemma inv_ids: "layout_inv uuid l \<Longrightarrow> distinct (map tab_id l) \<and> distinct (panes l)"
  by (simp add: layout_inv_def layout_ok_def)

lemma withoutPane_inv:
  assumes "layout_inv uuid l" and "fresh_ids f l"
  shows "layout_inv uuid (fst (removeLeaf f n l i))"
  unfolding removeLeaf_def
proof (rule settle_inv [OF assms(2)])
  show "set (map tab_id (withoutPane l i)) \<subseteq> set (map tab_id l)"
    using withoutPane_tabs [of _ l i] by fastforce
qed (use assms(1) in \<open>auto simp: withoutPane_panes inv_ids intro: withoutPane_unsettled [of l] inv_unsettled withoutPane_ids\<close>)

lemma found_sound:
  assumes "layout_inv uuid l" and "findPane l i = Some p"
  shows "sound uuid p"
proof -
  from assms(2) obtain t where t: "t \<in> set l" "find_pane_in i (root t) = Some p"
    unfolding findPane_def by (blast dest: first_some_Some)
  have "find_pane_in i n = Some p \<Longrightarrow> node_ok uuid n \<Longrightarrow> node_ok uuid p" for n
    by (induction i n rule: find_pane_in.induct)
      (auto dest!: first_some_Some simp: list_all_iff split: if_splits)
  moreover have "\<not> hasNestedWholeTab p"
    using findPane_Some [OF assms(2)] by (cases p) auto
  ultimately show ?thesis
    using t inv_unsettled [OF assms(1) t(1)] by (auto simp: sound_def unsettled_def)
qed

lemma insertBeside_whole: "insertBeside t moved d b n = Some r \<Longrightarrow> \<not> whole_tab n"
  by (cases n) auto

lemma drag_inv:
  assumes "layout_inv uuid l" and "fresh_ids f l"
  shows "layout_inv uuid (fst (moveLeaf f n l tabId i tgt edge))"
proof (cases "fst (moveLeaf f n l tabId i tgt edge) = l")
  case False
  let ?l' = "fst (moveLeaf f n l tabId i tgt edge)"
  have dist: "distinct (panes l)" "distinct (panes ?l')"
    using inv_ids [OF assms(1)] drag_keeps_panes [of l f n tabId i tgt edge ?l', OF _ prod.collapse [symmetric]]
      mset_eq_imp_distinct_iff by blast+
  from prod.collapse [symmetric] False show ?thesis
  proof (cases rule: moveLeaf_cases)
    case (swap a b)
    note ids = findPane_Some [OF swap(2)] findPane_Some [OF swap(3)]
    have "sound uuid a" "sound uuid b"
      using found_sound [OF assms(1) swap(2)] found_sound [OF assms(1) swap(3)] by simp_all
    note node = swapped_node [OF this ids]
    show ?thesis unfolding swap(4)
    proof (rule settle_inv [OF assms(2)])
      fix t assume "t \<in> set (swapLeaves l a b)"
      then obtain u where u: "u \<in> set l" "t = u\<lparr>root := swap_node a b (root u)\<rparr>"
        by (auto simp: swapLeaves_def)
      with inv_unsettled [OF assms(1) u(1)] node [of "root u"] show "unsettled uuid t"
        by (cases "whole_tab (root u)") (auto simp: unsettled_def sound_def)
    qed (use inv_ids [OF assms(1)] dist swap(4) in \<open>simp_all add: swapLeaves_def comp_def\<close>)
  next
    case (insert moved tabs)
    note moved = found_sound [OF assms(1) insert(3)] findPane_Some [OF insert(3)]
    have depth: "splitDepth (root t) \<le> MAX_SPLIT_DEPTH" if "t \<in> set tabs" for t
    proof -
      have "list_all (\<lambda>r. splitDepth r \<le> MAX_SPLIT_DEPTH) (map root tabs)"
        using insert(5) unfolding insert(6) withinDepth_def settleTabIds_roots [of f n tabs, symmetric]
        by (simp add: list.pred_map comp_def)
      then show ?thesis using that by (simp add: list_all_iff)
    qed
    show ?thesis unfolding insert(6)
    proof (rule settle_inv [OF assms(2)])
      have ids: "map tab_id tabs = map tab_id (withoutPane l i)"
        unfolding insert(7) by (auto split: option.splits)
      show "distinct (map tab_id tabs)" unfolding ids using inv_ids [OF assms(1)] by (simp add: withoutPane_ids)
      show "set (map tab_id tabs) \<subseteq> set (map tab_id l)" unfolding ids using withoutPane_tabs by fastforce
      show "distinct (panes tabs)" using dist(2) insert(6) by simp
      fix t assume t: "t \<in> set tabs"
      then obtain u where u: "u \<in> set (withoutPane l i)" and "tab_id t = tab_id u" and
        r: "root t = root u \<or> (\<exists>d b. insertBeside tgt moved d b (root u) = Some (root t))"
        unfolding insert(7) by (fastforce split: option.splits if_splits)
      have "unsettled uuid u" by (rule withoutPane_unsettled [OF inv_unsettled [OF assms(1)] u])
      with r \<open>tab_id t = tab_id u\<close> depth [OF t] show "unsettled uuid t"
        using inserted_node [of tgt moved _ _ "root u" "root t" uuid i] moved
          insertBeside_whole [of tgt moved _ _ "root u" "root t"]
        by (auto simp: unsettled_def sound_def)
    qed
  qed
qed (use assms in simp)

lemma list_all2_in: "list_all2 P xs ys \<Longrightarrow> y \<in> set ys \<Longrightarrow> \<exists>x\<in>set xs. P x y"
  by (induction rule: list_all2_induct) auto

lemma same_shape_inv:
  assumes "layout_inv uuid l"
    and "map tab_id l' = map tab_id l" and "distinct (panes l')"
    and "list_all2 (\<lambda>t u. tab_id u = tab_id t \<and> (sound uuid (root t) \<longrightarrow> sound uuid (root u)) \<and>
      splitDepth (root u) \<le> MAX_SPLIT_DEPTH \<and>
      documentTabId (root u) = documentTabId (root t)) l l'"
  shows "layout_inv uuid l'"
proof -
  have "tab_ok uuid u \<and> (file_pane (tab_id u) \<longrightarrow> (\<exists>p. root u = File p))" if u: "u \<in> set l'" for u
  proof -
    from list_all2_in [OF assms(4) u] obtain t where t: "t \<in> set l" "tab_id u = tab_id t"
      "sound uuid (root t) \<longrightarrow> sound uuid (root u)" "splitDepth (root u) \<le> MAX_SPLIT_DEPTH"
      "documentTabId (root u) = documentTabId (root t)" by blast
    have "tab_ok uuid t" "file_pane (tab_id t) \<longrightarrow> (\<exists>p. root t = File p)"
      using assms(1) t(1) by (auto simp: layout_inv_def layout_ok_def settled_def list_all_iff)
    moreover have "\<exists>p. root u = File p" if "root t = File q" "documentTabId (root u) = documentTabId (root t)" for q
      using that by (cases "root u") auto
    ultimately show ?thesis using t by (auto simp: tab_ok_def sound_def split: option.splits)
  qed
  then show ?thesis
    using assms(1-3) distinct_layoutFiles [OF assms(3)]
    by (auto simp: layout_inv_def layout_ok_def settled_def list_all_iff)
qed

lemma resize_inv: "layout_inv uuid l \<Longrightarrow> layout_inv uuid (resize l tabId path sizes)"
proof (rule same_shape_inv)
  assume inv: "layout_inv uuid l"
  have "map (leaves \<circ> root) (resize l tabId path sizes) = map (leaves \<circ> root) l"
    by (simp add: resize_def resized_node)
  then have "layout_leaves (resize l tabId path sizes) = layout_leaves l" by (simp add: layout_leaves_def)
  then show "distinct (panes (resize l tabId path sizes))" using inv_ids [OF inv] by (simp add: panes_leaves)
  show "list_all2 (\<lambda>t u. tab_id u = tab_id t \<and> (sound uuid (root t) \<longrightarrow> sound uuid (root u)) \<and>
      splitDepth (root u) \<le> MAX_SPLIT_DEPTH \<and>
      documentTabId (root u) = documentTabId (root t)) l (resize l tabId path sizes)"
    using inv_unsettled [OF inv]
    by (auto simp: resize_def resized_node list_all2_map2 unsettled_def intro!: list_all2_same [THEN iffD2])
qed (auto simp: resize_def)

lemma split_documents:
  "\<not> file_pane t \<Longrightarrow> splitNode t d new n = Some r \<Longrightarrow> documentTabId r = documentTabId n"
  by (cases n) (auto simp: Let_def split: option.splits if_splits)

lemma split_inv:
  assumes "layout_inv uuid l" and "\<not> file_pane t" "uuid new" "new \<notin> set (panes l)"
    and "withinDepth (splitLeaf l t d new)"
  shows "layout_inv uuid (splitLeaf l t d new)"
proof (rule same_shape_inv [OF assms(1)])
  have "\<not> startsWith t ''file:''" using assms(2) by (simp add: file_pane_def)
  note split = splitNode_insertBeside [OF this]
  have ps: "panes (splitLeaf l t d new) = beside False ((=) t) new (panes l)"
    by (rule split_adds_pane) (use assms(2) inv_ids [OF assms(1)] in \<open>simp_all add: file_pane_def\<close>)
  show "distinct (panes (splitLeaf l t d new))"
  proof (cases "t \<in> set (panes l)")
    case True
    then show ?thesis using mset_beside [of "panes l" t False new] inv_ids [OF assms(1)] assms(4) ps
      mset_eq_imp_distinct_iff [of "panes (splitLeaf l t d new)" "new # panes l"] by simp
  qed (use ps inv_ids [OF assms(1)] in simp)
  show "list_all2 (\<lambda>t u. tab_id u = tab_id t \<and> (sound uuid (root t) \<longrightarrow> sound uuid (root u)) \<and>
      splitDepth (root u) \<le> MAX_SPLIT_DEPTH \<and>
      documentTabId (root u) = documentTabId (root t)) l (splitLeaf l t d new)"
    unfolding splitLeaf_def list_all2_map2
  proof (rule list_all2_same [THEN iffD2], intro ballI)
    fix u assume u: "u \<in> set l"
    let ?u = "case splitNode t d new (root u) of Some r \<Rightarrow> u\<lparr>root := r\<rparr> | None \<Rightarrow> u"
    have "?u \<in> set (splitLeaf l t d new)" using u by (auto simp: splitLeaf_def)
    then have depth: "splitDepth (root ?u) \<le> MAX_SPLIT_DEPTH"
      using assms(5) unfolding withinDepth_def list_all_iff by blast
    have "sound uuid (Leaf new)" using assms(3) by (simp add: sound_def)
    then show "tab_id ?u = tab_id u \<and> (sound uuid (root u) \<longrightarrow> sound uuid (root ?u)) \<and>
      splitDepth (root ?u) \<le> MAX_SPLIT_DEPTH \<and>
      documentTabId (root ?u) = documentTabId (root u)"
      using depth inserted_node [of t "Leaf new" d False "root u" _ uuid new]
        insertBeside_whole [of t "Leaf new" d False "root u"] split_documents [OF assms(2), of d new "root u"]
      by (cases "splitNode t d new (root u)") (auto simp: split)
  qed
qed (auto simp: splitLeaf_def split: option.split)

lemma insert_at_set: "set (insert_at i x xs) = insert x (set xs)"
proof -
  have "set (take i xs) \<union> set (drop i xs) = set xs" by (metis append_take_drop_id set_append)
  then show ?thesis by (auto simp: insert_at_def)
qed

lemma mset_insert_at: "mset (insert_at i x xs) = add_mset x (mset xs)"
proof -
  have "mset (take i xs) + mset (drop i xs) = mset xs" by (metis append_take_drop_id mset_append)
  then show ?thesis by (simp add: insert_at_def)
qed

lemma mset_delete_at: "i < length xs \<Longrightarrow> add_mset (xs ! i) (mset (delete_at i xs)) = mset xs"
proof -
  assume "i < length xs"
  from arg_cong [OF id_take_nth_drop [OF this], of mset] show ?thesis by (simp add: delete_at_def)
qed

lemma mset_views: "mset l' = mset l \<Longrightarrow> mset (concat (map f l')) = mset (concat (map f l))"
proof -
  have "mset (concat (map f l)) = \<Sum>\<^sub># (image_mset (mset \<circ> f) (mset l))" for l
    by (induction l) auto
  then show "mset l' = mset l \<Longrightarrow> mset (concat (map f l')) = mset (concat (map f l))" by simp
qed

lemma inv_permuted:
  assumes "mset l' = mset l" and "layout_inv uuid l"
  shows "layout_inv uuid l'"
proof -
  have "set l' = set l" by (rule mset_eq_setD [OF assms(1)])
  moreover have "distinct (map tab_id l')"
    using inv_ids [OF assms(2)] assms(1) mset_eq_imp_distinct_iff [of "map tab_id l'" "map tab_id l"] by simp
  moreover have "distinct (panes l')"
    using inv_ids [OF assms(2)] mset_views [OF assms(1), of "paneIds \<circ> root"]
      mset_eq_imp_distinct_iff [of "panes l'" "panes l"] by (simp add: panes_def)
  ultimately show ?thesis using assms(2) distinct_layoutFiles
    by (simp add: layout_inv_def layout_ok_def settled_def list_all_iff)
qed

section \<open>Any sequence of edits\<close>

text \<open>
  One edit of the layout, as the store applies it: dragging, closing, opening, splitting and
  reordering. New tab ids and new terminals are fresh, and a split that would go too deep is left
  out (see \<open>split_goes_too_deep\<close>).
\<close>

inductive user_edit :: "(string \<Rightarrow> bool) \<Rightarrow> project_layout \<Rightarrow> project_layout \<Rightarrow> bool" for uuid where
  drags: "fresh_ids f l \<Longrightarrow> user_edit uuid l (fst (moveLeaf f n l tabId i tgt edge))"
| closes_pane: "fresh_ids f l \<Longrightarrow> user_edit uuid l (fst (removeLeaf f n l i))"
| closes_tab: "user_edit uuid l (closeTab l tabId)"
| opens_file: "ProjectPath p \<Longrightarrow> user_edit uuid l (fst (openFile l p))"
| opens_preview: "1 \<le> port \<Longrightarrow> port \<le> 65535 \<Longrightarrow> user_edit uuid l (fst (openPreview l port))"
| opens_terminal: "\<lbrakk>uuid t; t \<notin> set (panes l); t \<notin> set (map tab_id l); \<not> file_pane t; 1 \<le> length t;
    length t \<le> 64\<rbrakk> \<Longrightarrow> user_edit uuid l (addTab l t t)"
| splits: "\<lbrakk>\<not> file_pane t; uuid new; new \<notin> set (panes l); withinDepth (splitLeaf l t d new)\<rbrakk> \<Longrightarrow>
    user_edit uuid l (splitLeaf l t d new)"
| reorders: "user_edit uuid l (moveTab l from to)"
| resizes: "user_edit uuid l (resize l tabId path sizes)"

lemma append_inv:
  assumes "layout_inv uuid l" and "tab_ok uuid t" "tab_id t \<notin> set (map tab_id l)"
    and "distinct (paneIds (root t))" "set (paneIds (root t)) \<inter> set (panes l) = {}"
    and "file_pane (tab_id t) \<Longrightarrow> \<exists>p. root t = File p"
  shows "layout_inv uuid (l @ [t])"
proof -
  have "distinct (panes (l @ [t]))" using assms(4,5) inv_ids [OF assms(1)] by auto
  from distinct_layoutFiles [OF this] this assms show ?thesis
    by (auto simp: layout_inv_def layout_ok_def settled_def)
qed

lemma lone_file_id:
  assumes "layout_inv uuid l" and "fileTabId p \<notin> set (panes l)"
  shows "fileTabId p \<notin> set (map tab_id l)"
proof
  assume "fileTabId p \<in> set (map tab_id l)"
  then obtain t where t: "t \<in> set l" "tab_id t = fileTabId p" by auto
  with assms(1) obtain q where q: "root t = File q"
    by (auto simp: layout_inv_def settled_def list_all_iff)
  then have "tab_id t = fileTabId q"
    using assms(1) t(1) by (auto simp: layout_inv_def layout_ok_def list_all_iff tab_ok_def fileTabId_def)
  then have "fileTabId p \<in> set (panes l)" using t q
    by (auto simp: panes_def intro!: bexI [of _ t])
  with assms(2) show False ..
qed

lemma openFile_inv: "layout_inv uuid l \<Longrightarrow> ProjectPath p \<Longrightarrow> layout_inv uuid (fst (openFile l p))"
proof (cases "tabOfPane l (fileTabId p)")
  case None
  then have new: "fileTabId p \<notin> set (panes l)" by (auto simp: tabOfPane_def panes_def find_None_iff)
  assume "layout_inv uuid l" "ProjectPath p"
  with new lone_file_id [OF _ new] show ?thesis
    using None by (auto simp: openFile_def tab_ok_def ProjectPath_def fileTabId_def MAX_SPLIT_DEPTH_def
        intro!: append_inv)
qed (simp add: openFile_def)

lemma show_nat_length: "1 \<le> k \<Longrightarrow> n < 10 ^ k \<Longrightarrow> length (show_nat n) \<le> k"
proof (induction k arbitrary: n)
  case (Suc k)
  show ?case
  proof (cases "n < 10")
    case False
    with Suc.prems have "1 \<le> k" by (cases k) auto
    moreover have "n div 10 < 10 ^ k" using Suc.prems(2) by (simp add: div_less_iff_less_mult mult.commute)
    ultimately have "length (show_nat (n div 10)) \<le> k" by (rule Suc.IH)
    then show ?thesis using False by (simp add: show_nat.simps [of n])
  qed (simp add: show_nat.simps)
qed simp

lemma openPreview_inv:
  assumes "layout_inv uuid l" and "1 \<le> port" "port \<le> 65535"
  shows "layout_inv uuid (fst (openPreview l port))"
proof (cases "list_ex (\<lambda>t. tab_id t = previewTabId port) l")
  case False
  have "length (show_nat port) \<le> 5" using assms(3) by (intro show_nat_length) auto
  then have "layout_inv uuid (l @ [\<lparr>tab_id = previewTabId port, root = Preview port\<rparr>])"
    using False assms
    by (intro append_inv) (auto simp: previewTabId_def tab_ok_def MAX_SPLIT_DEPTH_def list_ex_iff
        file_pane_def startsWith_def)
  with False show ?thesis by (simp add: openPreview_def Let_def)
qed (use assms in \<open>simp add: openPreview_def\<close>)

lemma closeTab_inv: "layout_inv uuid l \<Longrightarrow> layout_inv uuid (closeTab l tabId)"
proof -
  assume inv: "layout_inv uuid l"
  have "distinct (panes (filter P l))" for P using inv_ids [OF inv] by (induction l) (auto simp: panes_def)
  with distinct_layoutFiles inv show ?thesis
    by (auto simp: closeTab_def layout_inv_def layout_ok_def settled_def list_all_iff distinct_map_filter)
qed

lemma moveTab_inv: "layout_inv uuid l \<Longrightarrow> layout_inv uuid (moveTab l from to)"
proof (cases "moveTab l from to = l")
  case False
  then have "mset (moveTab l from to) = mset l"
    using mset_delete_at [of "nat from" l]
    by (auto simp: moveTab_def mset_insert_at nat_less_iff split: if_splits)
  then show "layout_inv uuid l \<Longrightarrow> layout_inv uuid (moveTab l from to)" by (rule inv_permuted)
qed simp

lemma addTab_inv:
  "\<lbrakk>layout_inv uuid l; uuid t; t \<notin> set (panes l); t \<notin> set (map tab_id l); \<not> file_pane t;
    1 \<le> length t; length t \<le> 64\<rbrakk> \<Longrightarrow> layout_inv uuid (addTab l t t)"
  by (auto simp: addTab_def tab_ok_def MAX_SPLIT_DEPTH_def intro!: append_inv)

lemmas edit_invs = drag_inv withoutPane_inv closeTab_inv openFile_inv openPreview_inv addTab_inv
  split_inv moveTab_inv resize_inv

lemma user_edit_inv: "user_edit uuid l l' \<Longrightarrow> layout_inv uuid l \<Longrightarrow> layout_inv uuid l'"
  by (induction rule: user_edit.induct) (rule edit_invs; assumption)+

lemma empty_inv: "layout_inv uuid emptyLayout"
  by (simp add: emptyLayout_def layout_inv_def layout_ok_def settled_def layoutFiles_def)

interpretation editor: step_system "\<lambda>l. l = emptyLayout" "user_edit uuid" "layout_inv uuid" for uuid
  by unfold_locales (auto intro: empty_inv dest: user_edit_inv)



text \<open>The layout that eight alternating splits of one terminal make.\<close>

fun staircase :: "nat \<Rightarrow> project_layout" where
  "staircase 0 = addTab emptyLayout ''t0'' ''t0''"
| "staircase (Suc k) = splitLeaf (staircase k) (''t'' @ show_nat k) (if even k then Row else Column)
     (''t'' @ show_nat (Suc k))"

text \<open>
  Splitting does not look at the depth a tab already has. Seven alternating splits are
  accepted; the eighth makes a layout the API refuses, and every later save with it.
\<close>

theorem split_goes_too_deep:
  "rawSplitDepth (node_json (root (hd (staircase 7)))) = MAX_SPLIT_DEPTH \<and>
   parse_layout (\<lambda>t. True) (layout_json (staircase 7)) = Some (staircase 7) \<and>
   parse_layout (\<lambda>t. True) (layout_json (staircase 8)) = None"
  by code_simp

end
