(* ===== verification/Egress_Admin.thy ===== *)
theory Egress_Admin
  imports Api_Workspaces
begin

text \<open>
  The administrator's writes to the workspace egress policy (\<open>apps/api/src/routes/admin-egress.ts\<close>).
  Each route is one transaction: it raises the policy version if the caller's is current, then
  writes; a refusal rolls the whole of it back, so it is a value without a database. The routes'
  404 code \<open>NOT_FOUND\<close> is \<open>ENTRY_NOT_FOUND\<close> here, because the controller has a code of that name.
\<close>

section \<open>The routes\<close>

definition MAX_INT4 :: nat where
  "MAX_INT4 = 2147483647"

text \<open>A version past the column's range makes the update fail, and with it the request.\<close>

definition bumpVersion :: "nat \<Rightarrow> db \<Rightarrow> db api" where
  "bumpVersion version d =
     (case db_settings d of
        None \<Rightarrow> refuse 404 ENTRY_NOT_FOUND
      | Some s \<Rightarrow>
          if egress_version s \<noteq> version then refuse 409 EGRESS_VERSION_STALE
          else if MAX_INT4 < egress_version s + 1 then refuse 500 INTERNAL_ERROR
          else Inr (d\<lparr>db_settings := Some (s\<lparr>egress_version := egress_version s + 1\<rparr>)\<rparr>))"

definition after_bump :: "nat \<Rightarrow> (settings \<Rightarrow> db \<Rightarrow> db api) \<Rightarrow> db \<Rightarrow> db api" where
  "after_bump version work d =
     (case bumpVersion version d of
        Inl e \<Rightarrow> Inl e
      | Inr d1 \<Rightarrow> (case db_settings d1 of None \<Rightarrow> refuse 404 ENTRY_NOT_FOUND | Some s \<Rightarrow> work s d1))"

definition egress_audit :: "auth_user \<Rightarrow> string \<Rightarrow> string \<Rightarrow> (string \<times> json) list \<Rightarrow> db \<Rightarrow> db" where
  "egress_audit admin tgt act meta =
     recordAudit \<lparr>actor = user_actor admin, target = tgt, action = act, audit_result = ResOk,
       metadata = Some meta\<rparr>"

definition mode_json :: "egress_mode \<Rightarrow> json" where
  "mode_json m = JStr (if m = OpenMode then ''open'' else ''allow-list'')"

definition put_egress_mode :: "auth_user \<Rightarrow> nat \<Rightarrow> egress_mode \<Rightarrow> db \<Rightarrow> db api" where
  "put_egress_mode admin version mode =
     after_bump version (\<lambda>s d. Inr (egress_audit admin ''egress'' ''egress.mode_changed''
       [(''from'', mode_json (egress_mode s)), (''to'', mode_json mode)]
       (d\<lparr>db_settings := Some (s\<lparr>egress_mode := mode\<rparr>)\<rparr>)))"

fun preset_name :: "egress_preset_id \<Rightarrow> string" where
  "preset_name Npm = ''npm''" | "preset_name Python = ''python''" | "preset_name Apt = ''apt''"
| "preset_name DockerHub = ''docker-hub''" | "preset_name Github = ''github''"
| "preset_name Gitlab = ''gitlab''" | "preset_name Claude = ''claude''"
| "preset_name Codex = ''codex''"

definition put_egress_presets :: "auth_user \<Rightarrow> nat \<Rightarrow> egress_preset_id list \<Rightarrow> db \<Rightarrow> db api" where
  "put_egress_presets admin version presets d =
     (if \<not> distinct presets then refuse 400 VALIDATION_FAILED
      else after_bump version (\<lambda>s d. Inr (egress_audit admin ''egress'' ''egress.presets_changed''
        [(''presets'', JArr (map (JStr \<circ> preset_name) presets))]
        (d\<lparr>db_settings := Some (s\<lparr>egress_presets := presets\<rparr>)\<rparr>))) d)"

definition put_egress_ports :: "auth_user \<Rightarrow> nat \<Rightarrow> nat list \<Rightarrow> db \<Rightarrow> db api" where
  "put_egress_ports admin version requested d =
     (if \<not> EgressPorts requested then refuse 400 VALIDATION_FAILED
      else (let ports = sort requested in
        after_bump version (\<lambda>s d. Inr (egress_audit admin ''egress'' ''egress.ports_changed''
          [(''ports'', JArr (map (JNum \<circ> of_nat) ports))]
          (d\<lparr>db_settings := Some (s\<lparr>egress_ports := ports\<rparr>)\<rparr>))) d))"

definition countKind :: "egress_entry_kind \<Rightarrow> db \<Rightarrow> nat" where
  "countKind kind d = length (filter (\<lambda>r. entry_kind (ent_entry r) = kind) (egress_entries d))"

definition kind_limit :: "egress_entry_kind \<Rightarrow> nat" where
  "kind_limit kind = (if kind = HostEntry then LIMIT_HOSTS else LIMIT_RANGES)"

definition entry_meta :: "egress_entry \<Rightarrow> (string \<times> json) list" where
  "entry_meta e =
     [(''kind'', JStr (if entry_kind e = HostEntry then ''host'' else ''range'')),
      (''value'', JStr (entry_value e)), (''label'', JStr (entry_label e))]"

text \<open>The unique index on \<open>value\<close>: some row other than \<open>i\<close> holds it.\<close>

definition value_taken :: "uuid option \<Rightarrow> string \<Rightarrow> db \<Rightarrow> bool" where
  "value_taken i v d \<longleftrightarrow>
     list_ex (\<lambda>r. entry_value (ent_entry r) = v \<and> Some (ent_id r) \<noteq> i) (egress_entries d)"

definition post_egress_entry :: "uuid \<Rightarrow> auth_user \<Rightarrow> nat \<Rightarrow> egress_entry \<Rightarrow> db \<Rightarrow> db api" where
  "post_egress_entry new_id admin version body d =
     (case EgressEntryRequest body of
        None \<Rightarrow> refuse 400 VALIDATION_FAILED
      | Some e \<Rightarrow> after_bump version (\<lambda>s d.
          if kind_limit (entry_kind e) \<le> countKind (entry_kind e) d then refuse 409 EGRESS_LIMIT_REACHED
          else if value_taken None (entry_value e) d then refuse 409 EGRESS_ENTRY_EXISTS
          else Inr (egress_audit admin new_id ''egress.entry_added'' (entry_meta e)
            (d\<lparr>egress_entries := egress_entries d @ [\<lparr>ent_id = new_id, ent_entry = e\<rparr>]\<rparr>))) d)"

definition put_egress_entry :: "auth_user \<Rightarrow> uuid \<Rightarrow> nat \<Rightarrow> egress_entry \<Rightarrow> db \<Rightarrow> db api" where
  "put_egress_entry admin i version body d =
     (case EgressEntryRequest body of
        None \<Rightarrow> refuse 400 VALIDATION_FAILED
      | Some e \<Rightarrow> after_bump version (\<lambda>s d.
          case find_row ent_id i (egress_entries d) of
            None \<Rightarrow> refuse 404 ENTRY_NOT_FOUND
          | Some before_row \<Rightarrow>
              if entry_kind (ent_entry before_row) \<noteq> entry_kind e \<and>
                 kind_limit (entry_kind e) \<le> countKind (entry_kind e) d
              then refuse 409 EGRESS_LIMIT_REACHED
              else if value_taken (Some i) (entry_value e) d then refuse 409 EGRESS_ENTRY_EXISTS
              else Inr (egress_audit admin i ''egress.entry_updated''
                [(''from'', JObj (entry_meta (ent_entry before_row))), (''to'', JObj (entry_meta e))]
                (d\<lparr>egress_entries := upd_where (\<lambda>r. ent_id r = i) (\<lambda>r. r\<lparr>ent_entry := e\<rparr>)
                     (egress_entries d)\<rparr>))) d)"

definition delete_egress_entry :: "auth_user \<Rightarrow> uuid \<Rightarrow> nat \<Rightarrow> db \<Rightarrow> db api" where
  "delete_egress_entry admin i version =
     after_bump version (\<lambda>s d.
       case find_row ent_id i (egress_entries d) of
         None \<Rightarrow> refuse 404 ENTRY_NOT_FOUND
       | Some gone \<Rightarrow> Inr (egress_audit admin i ''egress.entry_removed'' (entry_meta (ent_entry gone))
           (d\<lparr>egress_entries := filter (\<lambda>r. ent_id r \<noteq> i) (egress_entries d)\<rparr>)))"

section \<open>Blocked sites\<close>

definition EgressBlockedSiteRequest :: "blocked_site \<Rightarrow> blocked_site option" where
  "EgressBlockedSiteRequest b = do {
     value \<leftarrow> EgressHost (site_value b);
     label \<leftarrow> EgressLabel (site_label b);
     Some \<lparr>site_value = value, site_label = label\<rparr> }"

definition site_meta :: "blocked_site \<Rightarrow> (string \<times> json) list" where
  "site_meta b = [(''value'', JStr (site_value b)), (''label'', JStr (site_label b))]"

definition site_taken :: "uuid option \<Rightarrow> string \<Rightarrow> db \<Rightarrow> bool" where
  "site_taken i v d \<longleftrightarrow>
     list_ex (\<lambda>r. site_value (blk_site r) = v \<and> Some (blk_id r) \<noteq> i) (egress_blocked_entries d)"

definition post_blocked_site :: "uuid \<Rightarrow> auth_user \<Rightarrow> nat \<Rightarrow> blocked_site \<Rightarrow> db \<Rightarrow> db api" where
  "post_blocked_site new_id admin version body d =
     (case EgressBlockedSiteRequest body of
        None \<Rightarrow> refuse 400 VALIDATION_FAILED
      | Some b \<Rightarrow> after_bump version (\<lambda>s d.
          if LIMIT_BLOCKED_SITES \<le> length (egress_blocked_entries d) then refuse 409 EGRESS_LIMIT_REACHED
          else if site_taken None (site_value b) d then refuse 409 EGRESS_ENTRY_EXISTS
          else Inr (egress_audit admin new_id ''egress.block_added'' (site_meta b)
            (d\<lparr>egress_blocked_entries := egress_blocked_entries d @
               [\<lparr>blk_id = new_id, blk_site = b\<rparr>]\<rparr>))) d)"

definition put_blocked_site :: "auth_user \<Rightarrow> uuid \<Rightarrow> nat \<Rightarrow> blocked_site \<Rightarrow> db \<Rightarrow> db api" where
  "put_blocked_site admin i version body d =
     (case EgressBlockedSiteRequest body of
        None \<Rightarrow> refuse 400 VALIDATION_FAILED
      | Some b \<Rightarrow> after_bump version (\<lambda>s d.
          case find_row blk_id i (egress_blocked_entries d) of
            None \<Rightarrow> refuse 404 ENTRY_NOT_FOUND
          | Some before_row \<Rightarrow>
              if site_taken (Some i) (site_value b) d then refuse 409 EGRESS_ENTRY_EXISTS
              else Inr (egress_audit admin i ''egress.block_updated''
                [(''from'', JObj (site_meta (blk_site before_row))), (''to'', JObj (site_meta b))]
                (d\<lparr>egress_blocked_entries := upd_where (\<lambda>r. blk_id r = i) (\<lambda>r. r\<lparr>blk_site := b\<rparr>)
                     (egress_blocked_entries d)\<rparr>))) d)"

definition delete_blocked_site :: "auth_user \<Rightarrow> uuid \<Rightarrow> nat \<Rightarrow> db \<Rightarrow> db api" where
  "delete_blocked_site admin i version =
     after_bump version (\<lambda>s d.
       case find_row blk_id i (egress_blocked_entries d) of
         None \<Rightarrow> refuse 404 ENTRY_NOT_FOUND
       | Some gone \<Rightarrow> Inr (egress_audit admin i ''egress.block_removed'' (site_meta (blk_site gone))
           (d\<lparr>egress_blocked_entries := filter (\<lambda>r. blk_id r \<noteq> i) (egress_blocked_entries d)\<rparr>)))"

end
