(* ===== verification/Egress_Sync.thy ===== *)
theory Egress_Sync
  imports Egress_Admin
begin

text \<open>
  The loop that applies the egress policy (\<open>apps/worker/src/egress.ts\<close>). A tick is three
  statements apart from the controller's call: it reads the settings row, then the two tables,
  then records the outcome. The controller's answer is an argument. Then the shape every
  administrator's write keeps (\<open>write_ok\<close>), and that a policy of that shape is expanded into a
  request the controller accepts (\<open>expanded_accepted\<close>).
\<close>

section \<open>One tick\<close>

definition EGRESS_RETRY_SECONDS :: int where
  "EGRESS_RETRY_SECONDS = 30"

type_synonym last_failure = "(nat \<times> millis) option"

text \<open>The tick's first query and its two early returns.\<close>

definition tick_settings :: "last_failure \<Rightarrow> millis \<Rightarrow> db \<Rightarrow> settings option" where
  "tick_settings failed t d =
     (case db_settings d of
        None \<Rightarrow> None
      | Some s \<Rightarrow>
          if egress_version s \<le> nullish (egress_applied_version s) 0 then None
          else (case failed of
             None \<Rightarrow> Some s
           | Some (v, failed_at) \<Rightarrow>
               if v = egress_version s \<and> t - failed_at < EGRESS_RETRY_SECONDS * 1000 then None else Some s))"

definition tick_expanded :: "settings \<Rightarrow> egress_entry list \<Rightarrow> blocked_site list \<Rightarrow> expanded_policy" where
  "tick_expanded s entries blockedSites =
     expandEgressPolicy \<lparr>policy_mode = egress_mode s, policy_presets = egress_presets s,
       policy_ports = egress_ports s, policy_entries = entries, policy_blockedSites = blockedSites\<rparr>"

definition egress_summary :: "nat \<Rightarrow> expanded_policy \<Rightarrow> (string \<times> json) list" where
  "egress_summary version p =
     [(''version'', JNum (of_nat version)), (''mode'', mode_json (x_mode p)),
      (''names'', JNum (of_nat (length (x_names p)))), (''ranges'', JNum (of_nat (length (x_ranges p)))),
      (''ports'', JArr (map (JNum \<circ> of_nat) (x_ports p))),
      (''blocked'', JNum (of_nat (length (x_blocked p))))]"

definition egress_worker_audit :: "string \<Rightarrow> audit_result \<Rightarrow> (string \<times> json) list \<Rightarrow> db \<Rightarrow> db" where
  "egress_worker_audit act r meta =
     recordAudit \<lparr>actor = ''worker'', target = ''egress'', action = act, audit_result = r,
       metadata = Some meta\<rparr>"

definition on_settings :: "(settings \<Rightarrow> settings) \<Rightarrow> db \<Rightarrow> db" where
  "on_settings f d = d\<lparr>db_settings := map_option f (db_settings d)\<rparr>"

text \<open>\<open>applyOne\<close> after the controller answered: its error's message and code, or unit.\<close>

definition applyOne ::
  "nat \<Rightarrow> expanded_policy \<Rightarrow> (string \<times> string) option \<Rightarrow> millis \<Rightarrow> last_failure \<Rightarrow> db \<Rightarrow>
   last_failure \<times> db" where
  "applyOne version expanded refusal t failed d =
     (case refusal of
        Some (message, errorCode) \<Rightarrow>
          (let firstForVersion = (case failed of None \<Rightarrow> True | Some (v, _) \<Rightarrow> v \<noteq> version);
               d1 = on_settings (\<lambda>s. s\<lparr>egress_apply_error := Some (take 500 message)\<rparr>) d
           in (Some (version, t),
               if firstForVersion
               then egress_worker_audit ''egress.apply_failed'' ResFailed
                 (egress_summary version expanded @ [(''errorCode'', JStr errorCode)]) d1
               else d1))
      | None \<Rightarrow>
          (None,
           egress_worker_audit ''egress.applied'' ResOk (egress_summary version expanded)
             (on_settings (\<lambda>s.
                if egress_applied_version s = None \<or> the (egress_applied_version s) < version
                then s\<lparr>egress_applied_version := Some version, egress_applied_at := Some t,
                       egress_apply_error := None\<rparr>
                else s) d)))"

section \<open>The policy in the database\<close>

definition stored_policy :: "settings \<Rightarrow> db \<Rightarrow> egress_policy" where
  "stored_policy s d =
     \<lparr>policy_mode = egress_mode s, policy_presets = egress_presets s, policy_ports = egress_ports s,
      policy_entries = map ent_entry (egress_entries d),
      policy_blockedSites = map blk_site (egress_blocked_entries d)\<rparr>"

definition entry_stored_ok :: "egress_entry \<Rightarrow> bool" where
  "entry_stored_ok e \<longleftrightarrow>
     (if entry_kind e = HostEntry then isEgressHostName (entry_value e)
      else (case parseIpv4Cidr (entry_value e) of None \<Rightarrow> False | Some r \<Rightarrow> deniedOverlap r = None))"

definition kind_count :: "egress_entry_kind \<Rightarrow> egress_entry_row list \<Rightarrow> nat" where
  "kind_count kind es = length (filter (\<lambda>r. entry_kind (ent_entry r) = kind) es)"

definition entries_ok :: "egress_entry_row list \<Rightarrow> bool" where
  "entries_ok es \<longleftrightarrow> list_all (\<lambda>r. entry_stored_ok (ent_entry r)) es \<and>
     distinct (map (entry_value \<circ> ent_entry) es) \<and> distinct (map ent_id es) \<and>
     kind_count HostEntry es \<le> LIMIT_HOSTS \<and> kind_count RangeEntry es \<le> LIMIT_RANGES"

definition blocked_ok :: "egress_blocked_row list \<Rightarrow> bool" where
  "blocked_ok bs \<longleftrightarrow> list_all (\<lambda>r. isEgressHostName (site_value (blk_site r))) bs \<and>
     distinct (map (site_value \<circ> blk_site) bs) \<and> distinct (map blk_id bs) \<and>
     length bs \<le> LIMIT_BLOCKED_SITES"

definition settings_ok :: "settings \<Rightarrow> bool" where
  "settings_ok s \<longleftrightarrow> EgressPorts (egress_ports s) \<and> egress_version s \<le> MAX_INT4 \<and>
     nullish (egress_applied_version s) 0 \<le> egress_version s"

definition egress_ok :: "db \<Rightarrow> bool" where
  "egress_ok d \<longleftrightarrow> pred_option settings_ok (db_settings d) \<and> entries_ok (egress_entries d) \<and>
     blocked_ok (egress_blocked_entries d)"

text \<open>What an administrator's write does: one new version, and the shape is kept.\<close>

inductive egress_write :: "db \<Rightarrow> db \<Rightarrow> bool" where
  "put_egress_mode u v m d = Inr d' \<Longrightarrow> egress_write d d'"
| "put_egress_presets u v ps d = Inr d' \<Longrightarrow> egress_write d d'"
| "put_egress_ports u v qs d = Inr d' \<Longrightarrow> egress_write d d'"
| "i \<notin> ent_id ` set (egress_entries d) \<Longrightarrow> post_egress_entry i u v e d = Inr d' \<Longrightarrow> egress_write d d'"
| "put_egress_entry u i v e d = Inr d' \<Longrightarrow> egress_write d d'"
| "delete_egress_entry u i v d = Inr d' \<Longrightarrow> egress_write d d'"
| "i \<notin> blk_id ` set (egress_blocked_entries d) \<Longrightarrow> post_blocked_site i u v b d = Inr d' \<Longrightarrow> egress_write d d'"
| "put_blocked_site u i v b d = Inr d' \<Longrightarrow> egress_write d d'"
| "delete_blocked_site u i v d = Inr d' \<Longrightarrow> egress_write d d'"

lemma after_bump_Inr:
  assumes "after_bump v work d = Inr d'"
  obtains s where "db_settings d = Some s" "egress_version s = v" "v + 1 \<le> MAX_INT4"
    "work (s\<lparr>egress_version := v + 1\<rparr>) (d\<lparr>db_settings := Some (s\<lparr>egress_version := v + 1\<rparr>)\<rparr>) = Inr d'"
  using assms by (auto simp: after_bump_def bumpVersion_def split: option.splits if_splits)

lemma recordAudit_egress [simp]:
  "db_settings (egress_audit u t a m d) = db_settings d"
  "egress_entries (egress_audit u t a m d) = egress_entries d"
  "egress_blocked_entries (egress_audit u t a m d) = egress_blocked_entries d"
  "db_settings (egress_worker_audit a r m d) = db_settings d"
  "egress_entries (egress_worker_audit a r m d) = egress_entries d"
  "egress_blocked_entries (egress_worker_audit a r m d) = egress_blocked_entries d"
  by (simp_all add: egress_audit_def egress_worker_audit_def recordAudit_def)

lemma EgressEntryRequest_ok: "EgressEntryRequest e = Some e' \<Longrightarrow> entry_stored_ok e' \<and> entry_kind e' = entry_kind e"
  by (auto simp: EgressEntryRequest_def EgressHost_def EgressRange_def entry_stored_ok_def Let_def
      split: Option.bind_splits egress_entry_kind.splits if_splits option.splits)

lemma EgressBlockedSiteRequest_ok:
  "EgressBlockedSiteRequest b = Some b' \<Longrightarrow> isEgressHostName (site_value b')"
  by (auto simp: EgressBlockedSiteRequest_def EgressHost_def split: Option.bind_splits if_splits)

lemma sorted_ports: "EgressPorts ports \<Longrightarrow> EgressPorts (sort ports)"
  by (simp add: EgressPorts_def list_all_iff)

lemma kind_limits:
  "entries_ok es \<Longrightarrow> kind_count k es \<le> kind_limit k"
  by (cases k) (simp_all add: entries_ok_def kind_limit_def)

lemma entries_append_ok:
  assumes "entries_ok es" and "entry_stored_ok e" "i \<notin> ent_id ` set es"
    and "entry_value e \<notin> set (map (entry_value \<circ> ent_entry) es)"
    and "kind_count (entry_kind e) es < kind_limit (entry_kind e)"
  shows "entries_ok (es @ [\<lparr>ent_id = i, ent_entry = e\<rparr>])"
  using assms by (cases "entry_kind e") (auto simp: entries_ok_def kind_count_def kind_limit_def)

lemma entries_filter_ok: "entries_ok es \<Longrightarrow> entries_ok (filter P es)"
proof -
  have "kind_count k (filter P es) \<le> kind_count k es" for k
    by (induction es) (auto simp: kind_count_def)
  then show "entries_ok es \<Longrightarrow> entries_ok (filter P es)"
    by (auto simp: entries_ok_def list_all_iff distinct_map_filter intro: le_trans)
qed

lemma upd_where_absent: "k \<notin> key ` set xs \<Longrightarrow> upd_where (\<lambda>r. key r = k) f xs = xs"
  by (rule upd_where_none) auto

lemma kind_count_update:
  "distinct (map ent_id es) \<Longrightarrow> find_row ent_id i es = Some b \<Longrightarrow>
     kind_count k (upd_where (\<lambda>r. ent_id r = i) (\<lambda>r. r\<lparr>ent_entry := e\<rparr>) es) +
       (if entry_kind (ent_entry b) = k then 1 else 0) =
     kind_count k es + (if entry_kind e = k then 1 else 0)"
proof (induction es)
  case (Cons r es)
  show ?case
  proof (cases "ent_id r = i")
    case True
    then have "b = r" using Cons.prems(2) by (simp add: find_row_def)
    moreover have "upd_where (\<lambda>r. ent_id r = i) (\<lambda>r. r\<lparr>ent_entry := e\<rparr>) es = es"
      using Cons.prems(1) True by (intro upd_where_absent) auto
    ultimately show ?thesis using True by (simp add: kind_count_def)
  next
    case False
    then show ?thesis using Cons by (auto simp: kind_count_def find_row_def)
  qed
qed (simp add: find_row_def)

lemma distinct_update:
  assumes "distinct (map key es)" and "distinct (map val es)"
    and "\<And>r. r \<in> set es \<Longrightarrow> key r \<noteq> i \<Longrightarrow> val r \<noteq> v" and "\<And>r. key (f r) = key r" "\<And>r. val (f r) = v"
  shows "distinct (map val (upd_where (\<lambda>r. key r = i) f es))"
  using assms(1-3)
proof (induction es)
  case (Cons r es)
  have "upd_where (\<lambda>r. key r = i) f es = es" if "key r = i"
    using Cons.prems(1) that by (intro upd_where_absent) auto
  moreover have "val r \<notin> val ` set (upd_where (\<lambda>r. key r = i) f es)" if "key r \<noteq> i"
    using Cons.prems that assms(5) by (auto simp: set_upd_where)
  moreover have "v \<notin> val ` set es" if "key r = i"
    using Cons.prems(1,3) that
    by (metis distinct.simps(2) imageE image_eqI list.set_intros(2) list.simps(9) set_map)
  ultimately show ?case using Cons assms(5) by auto
qed simp

lemma entries_update_ok:
  assumes "entries_ok es" and "entry_stored_ok e" "find_row ent_id i es \<noteq> None"
    and "\<And>r. r \<in> set es \<Longrightarrow> ent_id r \<noteq> i \<Longrightarrow> entry_value (ent_entry r) \<noteq> entry_value e"
    and "\<And>b. find_row ent_id i es = Some b \<Longrightarrow> entry_kind (ent_entry b) \<noteq> entry_kind e \<Longrightarrow> kind_count (entry_kind e) es < kind_limit (entry_kind e)"
  shows "entries_ok (upd_where (\<lambda>r. ent_id r = i) (\<lambda>r. r\<lparr>ent_entry := e\<rparr>) es)"
proof -
  let ?es = "upd_where (\<lambda>r. ent_id r = i) (\<lambda>r. r\<lparr>ent_entry := e\<rparr>) es"
  obtain b where b: "find_row ent_id i es = Some b" using assms(3) by blast
  have d: "distinct (map ent_id es)" "distinct (map (entry_value \<circ> ent_entry) es)"
    using assms(1) by (simp_all add: entries_ok_def)
  have "kind_count k ?es \<le> kind_limit k" for k
    using kind_count_update [OF d(1) b, of k e] kind_limits [OF assms(1), of k] assms(5) [OF b]
    by (auto split: if_splits)
  from this [of HostEntry] this [of RangeEntry]
  have "kind_count HostEntry ?es \<le> LIMIT_HOSTS" "kind_count RangeEntry ?es \<le> LIMIT_RANGES"
    by (simp_all add: kind_limit_def)
  moreover have "distinct (map (entry_value \<circ> ent_entry) ?es)"
    by (rule distinct_update [OF d, of i "entry_value e"]) (use assms(4) in auto)
  moreover have "map ent_id ?es = map ent_id es" by (rule map_upd_where_frame) simp
  ultimately show ?thesis
    using assms(1,2) d by (auto simp: entries_ok_def list_all_iff set_upd_where)
qed

lemma blocked_update_ok:
  assumes "blocked_ok bs" and "isEgressHostName (site_value b)"
    and "\<And>r. r \<in> set bs \<Longrightarrow> blk_id r \<noteq> i \<Longrightarrow> site_value (blk_site r) \<noteq> site_value b"
  shows "blocked_ok (upd_where (\<lambda>r. blk_id r = i) (\<lambda>r. r\<lparr>blk_site := b\<rparr>) bs)"
proof -
  let ?bs = "upd_where (\<lambda>r. blk_id r = i) (\<lambda>r. r\<lparr>blk_site := b\<rparr>) bs"
  have "distinct (map (site_value \<circ> blk_site) ?bs)"
    by (rule distinct_update [of blk_id bs _ i "site_value b"]) (use assms in \<open>auto simp: blocked_ok_def\<close>)
  moreover have "map blk_id ?bs = map blk_id bs" by (rule map_upd_where_frame) simp
  ultimately show ?thesis
    using assms(1,2) by (auto simp: blocked_ok_def list_all_iff set_upd_where)
qed

lemma blocked_filter_ok: "blocked_ok bs \<Longrightarrow> blocked_ok (filter P bs)"
  by (auto simp: blocked_ok_def list_all_iff distinct_map_filter intro: le_trans [OF length_filter_le])

lemma blocked_append_ok:
  "\<lbrakk>blocked_ok bs; isEgressHostName (site_value b); i \<notin> blk_id ` set bs;
    site_value b \<notin> set (map (site_value \<circ> blk_site) bs); length bs < LIMIT_BLOCKED_SITES\<rbrakk> \<Longrightarrow>
   blocked_ok (bs @ [\<lparr>blk_id = i, blk_site = b\<rparr>])"
  by (auto simp: blocked_ok_def)

text \<open>A write raises the version by one and touches nothing the loop has applied.\<close>

definition one_version :: "db \<Rightarrow> db \<Rightarrow> bool" where
  "one_version d d' \<longleftrightarrow> (\<exists>s s'. db_settings d = Some s \<and> db_settings d' = Some s' \<and>
     egress_version s' = egress_version s + 1 \<and> egress_applied_version s' = egress_applied_version s)"

lemma write_ok:
  assumes "egress_write d d'" and "egress_ok d"
  shows "egress_ok d' \<and> one_version d d'"
  using assms(1)
proof cases
  case (1 u v m)
  then show ?thesis using assms(2) unfolding put_egress_mode_def
    by (elim after_bump_Inr) (auto simp: egress_ok_def settings_ok_def one_version_def)
next
  case (2 u v ps)
  then show ?thesis using assms(2) unfolding put_egress_presets_def
    by (auto simp: egress_ok_def settings_ok_def one_version_def split: if_splits elim!: after_bump_Inr)
next
  case (3 u v qs)
  then show ?thesis using assms(2) unfolding put_egress_ports_def
    by (auto simp: egress_ok_def settings_ok_def one_version_def sorted_ports Let_def
        split: if_splits elim!: after_bump_Inr)
next
  case (4 i u v e)
  then show ?thesis using assms(2) unfolding post_egress_entry_def
    by (auto simp: egress_ok_def settings_ok_def one_version_def value_taken_def countKind_def
        kind_count_def [symmetric] list_ex_iff image_iff
        split: option.splits if_splits elim!: after_bump_Inr dest!: EgressEntryRequest_ok intro!: entries_append_ok) blast+
next
  case (5 u i v e)
  then show ?thesis using assms(2) unfolding put_egress_entry_def
    by (auto simp: egress_ok_def settings_ok_def one_version_def value_taken_def countKind_def
        kind_count_def [symmetric] list_ex_iff
        split: option.splits if_splits elim!: after_bump_Inr dest!: EgressEntryRequest_ok intro!: entries_update_ok)
next
  case (6 u i v)
  then show ?thesis using assms(2) unfolding delete_egress_entry_def
    by (auto simp: egress_ok_def settings_ok_def one_version_def
        split: option.splits elim!: after_bump_Inr intro!: entries_filter_ok)
next
  case (7 i u v b)
  then show ?thesis using assms(2) unfolding post_blocked_site_def
    by (auto simp: egress_ok_def settings_ok_def one_version_def site_taken_def list_ex_iff image_iff
        split: option.splits if_splits elim!: after_bump_Inr dest!: EgressBlockedSiteRequest_ok intro!: blocked_append_ok) blast+
next
  case (8 u i v b)
  then show ?thesis using assms(2) unfolding put_blocked_site_def
    by (auto simp: egress_ok_def settings_ok_def one_version_def site_taken_def list_ex_iff
        split: option.splits if_splits elim!: after_bump_Inr dest!: EgressBlockedSiteRequest_ok intro!: blocked_update_ok)
next
  case (9 u i v)
  then show ?thesis using assms(2) unfolding delete_blocked_site_def
    by (auto simp: egress_ok_def settings_ok_def one_version_def
        split: option.splits elim!: after_bump_Inr intro!: blocked_filter_ok)
qed

section \<open>What the controller is asked to apply\<close>

lemma preset_count:
  "length (concat (map preset_hosts (filter P qs))) + k \<le> foldl (\<lambda>n p. n + length (preset_hosts p)) k qs"
proof (induction qs arbitrary: k)
  case (Cons q qs)
  show ?case using Cons [of k] Cons [of "k + length (preset_hosts q)"] by auto
qed simp

lemma entries_expanded:
  assumes "entries_ok es"
  shows "list_all isEgressHostName (map entry_value (filter (\<lambda>e. entry_kind e = HostEntry) (map ent_entry es)))"
    and "length (map entry_value (filter (\<lambda>e. entry_kind e = HostEntry) (map ent_entry es))) \<le> LIMIT_HOSTS"
    and "list_all (\<lambda>r. case parseIpv4Cidr r of None \<Rightarrow> False | Some parsed \<Rightarrow> deniedOverlap parsed = None)
      (map entry_value (filter (\<lambda>e. entry_kind e \<noteq> HostEntry) (map ent_entry es)))"
    and "length (map entry_value (filter (\<lambda>e. entry_kind e \<noteq> HostEntry) (map ent_entry es))) \<le> LIMIT_RANGES"
    and "distinct (map entry_value (filter (\<lambda>e. entry_kind e \<noteq> HostEntry) (map ent_entry es)))"
proof -
  have neq: "entry_kind e \<noteq> HostEntry \<longleftrightarrow> entry_kind e = RangeEntry" for e :: egress_entry
    by (cases "entry_kind e") auto
  show "list_all isEgressHostName (map entry_value (filter (\<lambda>e. entry_kind e = HostEntry) (map ent_entry es)))"
    and "list_all (\<lambda>r. case parseIpv4Cidr r of None \<Rightarrow> False | Some parsed \<Rightarrow> deniedOverlap parsed = None)
      (map entry_value (filter (\<lambda>e. entry_kind e \<noteq> HostEntry) (map ent_entry es)))"
    using assms by (auto simp: entries_ok_def entry_stored_ok_def list_all_iff split: if_splits)
  show "length (map entry_value (filter (\<lambda>e. entry_kind e = HostEntry) (map ent_entry es))) \<le> LIMIT_HOSTS"
    and "length (map entry_value (filter (\<lambda>e. entry_kind e \<noteq> HostEntry) (map ent_entry es))) \<le> LIMIT_RANGES"
    using assms by (simp_all add: entries_ok_def kind_count_def filter_map comp_def neq)
  show "distinct (map entry_value (filter (\<lambda>e. entry_kind e \<noteq> HostEntry) (map ent_entry es)))"
    using assms by (simp add: entries_ok_def filter_map distinct_map_filter comp_def)
qed

lemma presets_expanded:
  "list_all isEgressHostName (concat (map preset_hosts (filter P EGRESS_PRESETS)))"
  "length (concat (map preset_hosts (filter P EGRESS_PRESETS))) \<le> PRESET_HOST_COUNT"
  using preset_hosts_valid preset_count [of P EGRESS_PRESETS 0]
  by (auto simp: list_all_iff PRESET_HOST_COUNT_def)

lemma expanded_accepted:
  assumes "EgressPorts ports" "v \<le> MAX_INT4" "entries_ok es" "blocked_ok bs"
  shows "EgressApplyPolicy v (expandEgressPolicy \<lparr>policy_mode = m, policy_presets = ps, policy_ports = ports,
    policy_entries = map ent_entry es, policy_blockedSites = map blk_site bs\<rparr>)"
proof -
  let ?names = "concat (map preset_hosts (filter (\<lambda>p. preset_id p \<in> set ps) EGRESS_PRESETS)) @
    map entry_value (filter (\<lambda>e. entry_kind e = HostEntry) (map ent_entry es))"
  note e = entries_expanded [OF assms(3)] and p = presets_expanded [of "\<lambda>p. preset_id p \<in> set ps"]
  have "length (sort (remdups ?names)) \<le> LIMIT_HOSTS + PRESET_HOST_COUNT"
    using length_remdups_leq [of ?names] e(2) p(2) by simp
  moreover have "list_all isEgressHostName (sort (remdups ?names))"
    using e(1) p(1) by (auto simp: list_all_iff)
  moreover have "list_all isEgressHostName (sort (map site_value (map blk_site bs)))"
    "distinct (sort (map site_value (map blk_site bs)))"
    "length (sort (map site_value (map blk_site bs))) \<le> LIMIT_BLOCKED_SITES"
    using assms(4) by (auto simp: blocked_ok_def list_all_iff comp_def)
  ultimately show ?thesis
    using assms(1,2) e(3-5) sorted_ports [OF assms(1)]
    unfolding EgressApplyPolicy_def expandEgressPolicy_def
    by (auto simp: Let_def MAX_INT4_def list_all_iff)
qed

end
