(* ===== verification/Egress_System.thy ===== *)
theory Egress_System
  imports Egress_Sync Worker_System
begin

text \<open>
  The administrator's writes and the loop that applies the policy, as one system
  (\<open>apps/api/src/routes/admin-egress.ts\<close> and \<open>apps/worker/src/egress.ts\<close>). The administrators'
  transactions fall between any two statements of a tick; the controller accepts what its request
  schema accepts. The invariant says the version tells the truth: what a tick read is the stored
  policy unless the version has moved, and what is recorded as applied is in force.
\<close>

section \<open>The system\<close>

datatype sync_phase =
    SyncIdle
  | ReadSettings settings
  | ReadEntries settings "egress_entry list"
  | Applying nat expanded_policy

record egress_system =
  edb :: db
  last_failed :: last_failure
  phase :: sync_phase
  in_force :: "expanded_policy option"

text \<open>
  A failed call may or may not have taken effect, and the worker may lose the database after the
  controller answered, or be restarted, with a call in flight or without.
\<close>

inductive egress_step :: "egress_system \<Rightarrow> egress_system \<Rightarrow> bool" where
  admin_writes: "egress_write (edb s) d' \<Longrightarrow> egress_step s (s\<lparr>edb := d'\<rparr>)"
| tick_begins: "phase s = SyncIdle \<Longrightarrow> tick_settings (last_failed s) t (edb s) = Some r \<Longrightarrow>
    egress_step s (s\<lparr>phase := ReadSettings r\<rparr>)"
| reads_entries: "phase s = ReadSettings r \<Longrightarrow>
    egress_step s (s\<lparr>phase := ReadEntries r (map ent_entry (egress_entries (edb s)))\<rparr>)"
| reads_blocked: "phase s = ReadEntries r es \<Longrightarrow>
    egress_step s (s\<lparr>phase := Applying (egress_version r)
      (tick_expanded r es (map blk_site (egress_blocked_entries (edb s))))\<rparr>)"
| read_fails: "(\<And>v p. phase s \<noteq> Applying v p) \<Longrightarrow> egress_step s (s\<lparr>phase := SyncIdle\<rparr>)"
| applies: "phase s = Applying v p \<Longrightarrow> EgressApplyPolicy v p \<Longrightarrow>
    applyOne v p None t (last_failed s) (edb s) = (f, d') \<Longrightarrow>
    egress_step s (s\<lparr>edb := d', last_failed := f, phase := SyncIdle, in_force := Some p\<rparr>)"
| fails_to_apply: "phase s = Applying v p \<Longrightarrow>
    applyOne v p (Some refusal) t (last_failed s) (edb s) = (f, d') \<Longrightarrow> x = in_force s \<or> x = Some p \<Longrightarrow>
    egress_step s (s\<lparr>edb := d', last_failed := f, phase := SyncIdle, in_force := x\<rparr>)"
| loses_database: "phase s = Applying v p \<Longrightarrow> x = in_force s \<and> f = Some (v, t) \<or> x = Some p \<Longrightarrow>
    egress_step s (s\<lparr>last_failed := f, phase := SyncIdle, in_force := x\<rparr>)"
| restarts: "x = in_force s \<or> (\<exists>v p. phase s = Applying v p \<and> x = Some p) \<Longrightarrow>
    egress_step s (s\<lparr>last_failed := None, phase := SyncIdle, in_force := x\<rparr>)"

definition egress_start :: "egress_system \<Rightarrow> bool" where
  "egress_start s \<longleftrightarrow> egress_ok (edb s) \<and> phase s = SyncIdle \<and>
     (case db_settings (edb s) of None \<Rightarrow> True | Some c \<Rightarrow> egress_applied_version c = None)"

text \<open>What a tick has read so far is current, unless the version has moved on since.\<close>

definition current_read :: "settings \<Rightarrow> settings \<Rightarrow> bool" where
  "current_read c r \<longleftrightarrow> EgressPorts (egress_ports r) \<and> egress_version r \<le> egress_version c \<and>
     nullish (egress_applied_version c) 0 < egress_version r \<and>
     (egress_version r = egress_version c \<longrightarrow>
       egress_mode r = egress_mode c \<and> egress_presets r = egress_presets c \<and> egress_ports r = egress_ports c)"

definition phase_ok :: "settings \<Rightarrow> db \<Rightarrow> sync_phase \<Rightarrow> bool" where
  "phase_ok c d ph \<longleftrightarrow>
     (case ph of
        SyncIdle \<Rightarrow> True
      | ReadSettings r \<Rightarrow> current_read c r
      | ReadEntries r es \<Rightarrow> current_read c r \<and> (\<exists>rows. entries_ok rows \<and> es = map ent_entry rows) \<and>
          (egress_version r = egress_version c \<longrightarrow> es = map ent_entry (egress_entries d))
      | Applying v p \<Rightarrow> EgressApplyPolicy v p \<and> v \<le> egress_version c \<and>
          nullish (egress_applied_version c) 0 < v \<and>
          (v = egress_version c \<longrightarrow> p = expandEgressPolicy (stored_policy c d)))"

definition egress_inv :: "egress_system \<Rightarrow> bool" where
  "egress_inv s \<longleftrightarrow> egress_ok (edb s) \<and>
     (case db_settings (edb s) of
        None \<Rightarrow> phase s = SyncIdle
      | Some c \<Rightarrow> phase_ok c (edb s) (phase s) \<and>
          (egress_applied_version c = Some (egress_version c) \<longrightarrow>
             in_force s = Some (expandEgressPolicy (stored_policy c (edb s)))))"


section \<open>The invariant is kept\<close>

lemma egress_inv_start: "egress_start s \<Longrightarrow> egress_inv s"
  by (auto simp: egress_start_def egress_inv_def phase_ok_def split: option.splits)

lemma write_kept:
  assumes "egress_write (edb s) d'" and "egress_inv s"
  shows "egress_inv (s\<lparr>edb := d'\<rparr>)"
proof -
  have "egress_ok (edb s)" using assms(2) by (simp add: egress_inv_def)
  from write_ok [OF assms(1) this] have ok: "egress_ok d'" and one: "one_version (edb s) d'" by blast+
  from one obtain c c' where c: "db_settings (edb s) = Some c" "db_settings d' = Some c'"
    "egress_version c' = egress_version c + 1" "egress_applied_version c' = egress_applied_version c"
    by (auto simp: one_version_def)
  have "nullish (egress_applied_version c) 0 \<le> egress_version c"
    using \<open>egress_ok (edb s)\<close> c(1) by (simp add: egress_ok_def settings_ok_def)
  moreover have "phase_ok c (edb s) (phase s)" using assms(2) c(1) by (simp add: egress_inv_def)
  ultimately show ?thesis
    using ok c by (auto simp: egress_inv_def phase_ok_def current_read_def split: sync_phase.splits)
qed

lemma tick_settings_read:
  assumes "tick_settings f t d = Some r" and "egress_ok d"
  shows "db_settings d = Some r" "current_read r r"
  using assms
  by (auto simp: tick_settings_def egress_ok_def settings_ok_def current_read_def
      split: option.splits if_splits)

lemma reads_accepted:
  assumes "egress_ok d" "db_settings d = Some c" "phase_ok c d (ReadEntries r es)"
  shows "phase_ok c d (Applying (egress_version r) (tick_expanded r es (map blk_site (egress_blocked_entries d))))"
proof -
  from assms(3) obtain rows where r: "current_read c r" "entries_ok rows" "es = map ent_entry rows"
    "egress_version r = egress_version c \<longrightarrow> es = map ent_entry (egress_entries d)"
    by (auto simp: phase_ok_def)
  have "egress_version r \<le> MAX_INT4"
    using assms(1,2) r(1) by (auto simp: egress_ok_def settings_ok_def current_read_def)
  then have "EgressApplyPolicy (egress_version r) (tick_expanded r es (map blk_site (egress_blocked_entries d)))"
    using assms(1) r(1-3) unfolding tick_expanded_def
    by (auto simp: egress_ok_def current_read_def intro!: expanded_accepted)
  then show ?thesis
    using r(1,4) by (auto simp: phase_ok_def current_read_def tick_expanded_def stored_policy_def)
qed

lemma applyOne_refused:
  assumes "applyOne v p (Some refusal) t f d = (f', d')"
  shows "egress_entries d' = egress_entries d" "egress_blocked_entries d' = egress_blocked_entries d"
    "\<exists>m. db_settings d' = map_option (\<lambda>s. s\<lparr>egress_apply_error := m\<rparr>) (db_settings d)"
  using assms by (auto simp: applyOne_def on_settings_def Let_def split: prod.splits if_splits)

lemma applyOne_ok:
  assumes "applyOne v p None t f d = (f', d')"
  shows "egress_entries d' = egress_entries d" "egress_blocked_entries d' = egress_blocked_entries d"
    "db_settings d' = map_option (\<lambda>s. if egress_applied_version s = None \<or> the (egress_applied_version s) < v
       then s\<lparr>egress_applied_version := Some v, egress_applied_at := Some t, egress_apply_error := None\<rparr> else s)
     (db_settings d)"
  using assms by (auto simp: applyOne_def on_settings_def)

lemma apply_kept:
  assumes "egress_inv s" "phase s = Applying v p" "applyOne v p None t (last_failed s) (edb s) = (f, d')"
  shows "egress_inv (s\<lparr>edb := d', last_failed := f', phase := SyncIdle, in_force := Some p\<rparr>)"
proof (cases "db_settings (edb s)")
  case None
  then show ?thesis using assms(1,2) by (simp add: egress_inv_def)
next
  case (Some c)
  then have "phase_ok c (edb s) (Applying v p)" "egress_ok (edb s)"
    using assms(1,2) by (simp_all add: egress_inv_def)
  then show ?thesis
    using Some applyOne_ok [OF assms(3)]
    by (auto simp: egress_inv_def phase_ok_def egress_ok_def settings_ok_def stored_policy_def)
qed

lemma no_apply_kept:
  assumes "egress_inv s" "egress_entries d' = egress_entries (edb s)"
    "egress_blocked_entries d' = egress_blocked_entries (edb s)"
    "db_settings d' = map_option (\<lambda>s. s\<lparr>egress_apply_error := m s\<rparr>) (db_settings (edb s))"
    and "x = in_force s \<or> (\<exists>v p. phase s = Applying v p \<and> x = Some p)"
  shows "egress_inv (s\<lparr>edb := d', last_failed := f, phase := SyncIdle, in_force := x\<rparr>)"
  using assms
  by (cases "db_settings (edb s)")
    (auto simp: egress_inv_def phase_ok_def egress_ok_def settings_ok_def stored_policy_def split: sync_phase.splits)

lemma same_db_kept:
  "egress_inv s \<Longrightarrow> x = in_force s \<or> (\<exists>v p. phase s = Applying v p \<and> x = Some p) \<Longrightarrow>
   egress_inv (s\<lparr>last_failed := f, phase := SyncIdle, in_force := x\<rparr>)"
  using no_apply_kept [of s "edb s" egress_apply_error x f]
  by (simp add: option.map_ident)

lemma egress_inv_step:
  assumes "egress_inv s" and "egress_step s t"
  shows "egress_inv t"
  using assms(2)
proof cases
  case (admin_writes d')
  then show ?thesis using write_kept assms(1) by simp
next
  case (tick_begins now r)
  then show ?thesis using assms(1) tick_settings_read [OF tick_begins(3)]
    by (simp add: egress_inv_def phase_ok_def)
next
  case (reads_entries r)
  then show ?thesis using assms(1)
    by (cases "db_settings (edb s)") (auto simp: egress_inv_def phase_ok_def egress_ok_def)
next
  case (reads_blocked r es)
  then show ?thesis using assms(1)
    by (cases "db_settings (edb s)") (auto simp: egress_inv_def intro: reads_accepted)
next
  case read_fails
  then show ?thesis using assms(1)
    by (cases "db_settings (edb s)") (simp_all add: egress_inv_def phase_ok_def)
next
  case (applies v p now f d')
  show ?thesis unfolding applies(1) by (rule apply_kept [OF assms(1) applies(2,4)])
next
  case (fails_to_apply v p refusal now f d' x)
  from applyOne_refused(3) [OF fails_to_apply(3)] obtain m where
    "db_settings d' = map_option (\<lambda>s. s\<lparr>egress_apply_error := m\<rparr>) (db_settings (edb s))" by blast
  then show ?thesis unfolding fails_to_apply(1)
    using fails_to_apply(2,4) applyOne_refused(1,2) [OF fails_to_apply(3)]
    by (intro no_apply_kept [OF assms(1)]) auto
next
  case (loses_database v p x f now)
  then show ?thesis using same_db_kept [OF assms(1), of x f] by auto
next
  case (restarts x)
  then show ?thesis using same_db_kept [OF assms(1), of x None] by simp
qed

interpretation egress: step_system egress_start egress_step egress_inv
  by unfold_locales (auto intro: egress_inv_start egress_inv_step)

section \<open>A tick nobody interrupts\<close>

definition egress_tick ::
  "last_failure \<Rightarrow> millis \<Rightarrow> (string \<times> string) option \<Rightarrow> db \<Rightarrow> last_failure \<times> db" where
  "egress_tick failed t refusal d =
     (case tick_settings failed t d of
        None \<Rightarrow> (failed, d)
      | Some s \<Rightarrow> applyOne (egress_version s)
          (tick_expanded s (map ent_entry (egress_entries d)) (map blk_site (egress_blocked_entries d)))
          refusal t failed d)"

definition tick_due :: "last_failure \<Rightarrow> millis \<Rightarrow> settings \<Rightarrow> bool" where
  "tick_due failed t c \<longleftrightarrow> nullish (egress_applied_version c) 0 < egress_version c \<and>
     pred_option (\<lambda>(v, failed_at). v \<noteq> egress_version c \<or> failed_at + EGRESS_RETRY_SECONDS * 1000 \<le> t) failed"

lemma tick_settings_due:
  "db_settings d = Some c \<Longrightarrow> tick_settings failed t d = (if tick_due failed t c then Some c else None)"
  by (auto simp: tick_settings_def tick_due_def split: option.splits prod.splits)

lemma tick_expanded_stored:
  "tick_expanded c (map ent_entry (egress_entries d)) (map blk_site (egress_blocked_entries d)) =
     expandEgressPolicy (stored_policy c d)"
  by (simp add: tick_expanded_def stored_policy_def)

lemmas egress_tick_due =
  egress_tick_def tick_settings_due tick_expanded_stored

lemma tick_reads:
  assumes "phase s = SyncIdle" "db_settings (edb s) = Some c" "tick_due (last_failed s) t c"
  shows "egress_step\<^sup>*\<^sup>* s (s\<lparr>phase := Applying (egress_version c) (expandEgressPolicy (stored_policy c (edb s)))\<rparr>)"
proof -
  have "egress_step s (s\<lparr>phase := ReadSettings c\<rparr>)"
    using assms by (auto intro!: tick_begins [of _ t] simp: tick_settings_due)
  moreover have "egress_step (s\<lparr>phase := ReadSettings c\<rparr>)
      (s\<lparr>phase := ReadEntries c (map ent_entry (egress_entries (edb s)))\<rparr>)"
    using reads_entries [of "s\<lparr>phase := ReadSettings c\<rparr>" c] by simp
  moreover have "egress_step (s\<lparr>phase := ReadEntries c (map ent_entry (egress_entries (edb s)))\<rparr>)
      (s\<lparr>phase := Applying (egress_version c) (expandEgressPolicy (stored_policy c (edb s)))\<rparr>)"
    using reads_blocked [of "s\<lparr>phase := ReadEntries c (map ent_entry (egress_entries (edb s)))\<rparr>" c]
    by (simp add: tick_expanded_stored)
  ultimately show ?thesis by (meson converse_rtranclp_into_rtranclp r_into_rtranclp)
qed

text \<open>The uninterrupted tick is a run of the system.\<close>

lemma tick_runs:
  assumes "egress_inv s" "phase s = SyncIdle" "db_settings (edb s) = Some c" "tick_due (last_failed s) t c"
    and "egress_tick (last_failed s) t None (edb s) = (f, d')"
  shows "egress_step\<^sup>*\<^sup>* s (s\<lparr>edb := d', last_failed := f, phase := SyncIdle,
    in_force := Some (expandEgressPolicy (stored_policy c (edb s)))\<rparr>)"
proof -
  let ?p = "expandEgressPolicy (stored_policy c (edb s))"
  let ?s = "s\<lparr>phase := Applying (egress_version c) ?p\<rparr>"
  have run: "egress_step\<^sup>*\<^sup>* s ?s" by (rule tick_reads [OF assms(2-4)])
  then have "egress_inv ?s" by (rule egress.inv_steps [OF _ assms(1)])
  then have "EgressApplyPolicy (egress_version c) ?p"
    using assms(3) by (simp add: egress_inv_def phase_ok_def)
  moreover have "applyOne (egress_version c) ?p None t (last_failed s) (edb s) = (f, d')"
    using assms(3-5) by (simp add: egress_tick_due)
  ultimately have "egress_step ?s (?s\<lparr>edb := d', last_failed := f, phase := SyncIdle, in_force := Some ?p\<rparr>)"
    by (intro applies [of _ "egress_version c" ?p t]) simp_all
  with run show ?thesis by (simp add: rtranclp.rtrancl_into_rtrancl)
qed

section \<open>Properties\<close>

text \<open>A site whose administrator has just turned the allow-list on.\<close>

definition sample_guard :: guard_platform where
  "sample_guard =
     \<lparr>cpu_guard_threshold_percent = 80, memory_guard_threshold_percent = 80, guard_window_minutes = 10,
      cpu_throttle_share_percent = 50, idle_stop_minutes = 60, cpu_idle_lift_minutes = 5,
      cpu_idle_lift_percent = 10, cpu_throttle_hold_after = 3, cpu_throttle_hold_hours = 24\<rparr>"

definition sample_settings :: settings where
  "sample_settings =
     \<lparr>set_shutdown_grace_seconds = 300, guard_values = sample_guard, set_keep_running_max_hours = 24,
      set_acceptable_use_version = 1,
      controller_checked_at = None, egress_mode = AllowList, egress_presets = [Npm], egress_ports = [80, 443],
      egress_version = 1, egress_applied_version = None, egress_applied_at = None,
      egress_apply_error = None, docker_ghcr_enabled = False\<rparr>"

definition sample_egress :: egress_system where
  "sample_egress = \<lparr>edb = (sample_db [])\<lparr>db_settings := Some sample_settings\<rparr>, last_failed = None,
     phase = SyncIdle, in_force = None\<rparr>"

lemma sample_egress_start: "egress_start sample_egress"
  by (simp add: egress_start_def sample_egress_def sample_db_def sample_settings_def egress_ok_def
      settings_ok_def entries_ok_def blocked_ok_def kind_count_def EgressPorts_def MAX_INT4_def)

lemma sample_egress_due:
  "phase sample_egress = SyncIdle" "db_settings (edb sample_egress) = Some sample_settings"
  "tick_due (last_failed sample_egress) 0 sample_settings"
  by (simp_all add: sample_egress_def sample_settings_def tick_due_def)

definition sample_applied :: egress_system where
  "sample_applied =
     sample_egress\<lparr>edb := snd (egress_tick None 0 None (edb sample_egress)), last_failed := None,
       phase := SyncIdle, in_force := Some (expandEgressPolicy (stored_policy sample_settings (edb sample_egress)))\<rparr>"

lemma sample_applied_settings:
  "db_settings (edb sample_applied) = Some (sample_settings\<lparr>egress_applied_version := Some 1,
     egress_applied_at := Some 0, egress_apply_error := None\<rparr>)"
  using sample_egress_due
  by (simp add: sample_applied_def egress_tick_due applyOne_def on_settings_def tick_due_def)
    (simp add: sample_settings_def)

lemma sample_applied_reached: "egress_step\<^sup>*\<^sup>* sample_egress sample_applied"
proof -
  obtain f d' where t: "egress_tick (last_failed sample_egress) 0 None (edb sample_egress) = (f, d')"
    by fastforce
  moreover from t have "f = None" "last_failed sample_egress = None"
    using sample_egress_due by (auto simp: egress_tick_due applyOne_def) (simp_all add: sample_egress_def)
  moreover from tick_runs [OF egress.inv_start [OF sample_egress_start] sample_egress_due t]
  show ?thesis using calculation sample_egress_due(1) by (simp add: sample_applied_def)
qed



text \<open>
  The controller never refuses a policy for its shape. Whatever the administrators wrote and
  whenever, the request a tick is about to send is one \<open>EgressApplyPolicy\<close> accepts: its names are
  host names, its ranges are parsed and none overlaps a denied range, the limits hold, nothing is
  twice, and the version fits the column.
\<close>

theorem policy_never_refused:
  assumes "egress_start s" and "egress_step\<^sup>*\<^sup>* s t" and "phase t = Applying v p"
  shows "EgressApplyPolicy v p"
  using egress.inv_reachable [OF assms(1,2)] assms(3)
  by (cases "db_settings (edb t)") (simp_all add: egress_inv_def phase_ok_def)

lemma policy_never_refused_witness:
  "EgressApplyPolicy 1 (expandEgressPolicy (stored_policy sample_settings (edb sample_egress)))"
  by (rule policy_never_refused [OF sample_egress_start tick_reads [OF sample_egress_due]])
    (simp add: sample_settings_def)

text \<open>
  No step moves the policy backwards: the version and the applied version only rise, and the
  applied version never passes the version.
\<close>

theorem applied_never_back:
  assumes "egress_start s" and "egress_step\<^sup>*\<^sup>* s t" and "egress_step t u"
    and "db_settings (edb t) = Some c"
  shows "\<exists>c'. db_settings (edb u) = Some c' \<and> egress_version c \<le> egress_version c' \<and>
    nullish (egress_applied_version c) 0 \<le> nullish (egress_applied_version c') 0 \<and>
    nullish (egress_applied_version c') 0 \<le> egress_version c'"
proof -
  have inv: "egress_inv t" by (rule egress.inv_reachable [OF assms(1,2)])
  then have ok: "egress_ok (edb t)" by (simp add: egress_inv_def)
  have "egress_inv u" by (rule egress_inv_step [OF inv assms(3)])
  then have bound: "nullish (egress_applied_version c') 0 \<le> egress_version c'"
    if "db_settings (edb u) = Some c'" for c'
    using that by (simp add: egress_inv_def egress_ok_def settings_ok_def)
  have "\<exists>c'. db_settings (edb u) = Some c' \<and> egress_version c \<le> egress_version c' \<and>
      nullish (egress_applied_version c) 0 \<le> nullish (egress_applied_version c') 0"
    using assms(3)
  proof cases
    case (admin_writes d')
    then show ?thesis using write_ok [OF admin_writes(2) ok] assms(4) by (auto simp: one_version_def)
  next
    case (applies v p now f d')
    then show ?thesis using applyOne_ok(3) [OF applies(4)] assms(4)
      by (cases "egress_applied_version c") auto
  next
    case (fails_to_apply v p refusal now f d' x)
    then show ?thesis using applyOne_refused(3) [OF fails_to_apply(3)] assms(4) by auto
  qed (use assms(4) in auto)
  then show ?thesis using bound by blast
qed

lemma applied_never_back_witness:
  "\<exists>c'. db_settings (edb (sample_applied\<lparr>last_failed := None, phase := SyncIdle,
       in_force := in_force sample_applied\<rparr>)) = Some c' \<and> 1 \<le> egress_version c' \<and>
     1 \<le> nullish (egress_applied_version c') 0 \<and>
     nullish (egress_applied_version c') 0 \<le> egress_version c'"
  using applied_never_back [OF sample_egress_start sample_applied_reached
      restarts [of "in_force sample_applied" sample_applied] sample_applied_settings]
  by (simp add: sample_settings_def)

text \<open>
  The loop catches up. From every state reached in which no tick is running, a policy is waiting
  and no failure of it rests, one tick that nothing interrupts and the controller answers leads to
  the stored policy in force, its version recorded, the error cleared, one audit row and nothing
  else changed; the next tick has nothing to do.
\<close>

theorem egress_catches_up:
  assumes "egress_start s" and "egress_step\<^sup>*\<^sup>* s t" and "phase t = SyncIdle"
    and "db_settings (edb t) = Some c" and "tick_due (last_failed t) clock c"
  shows "\<exists>u c' e. egress_step\<^sup>*\<^sup>* t u \<and> phase u = SyncIdle \<and>
    egress_tick (last_failed t) clock None (edb t) = (last_failed u, edb u) \<and>
    c' = c\<lparr>egress_applied_version := Some (egress_version c), egress_applied_at := Some clock,
      egress_apply_error := None\<rparr> \<and>
    edb u = (edb t)\<lparr>db_settings := Some c', audit_events := audit_events (edb t) @ [e]\<rparr> \<and>
    in_force u = Some (expandEgressPolicy (stored_policy c' (edb u))) \<and>
    (\<forall>later refusal. snd (egress_tick (last_failed u) later refusal (edb u)) = edb u)"
proof -
  obtain f d' where tick: "egress_tick (last_failed t) clock None (edb t) = (f, d')" by fastforce
  let ?u = "t\<lparr>edb := d', last_failed := f, phase := SyncIdle,
    in_force := Some (expandEgressPolicy (stored_policy c (edb t)))\<rparr>"
  let ?c = "c\<lparr>egress_applied_version := Some (egress_version c), egress_applied_at := Some clock,
      egress_apply_error := None\<rparr>"
  have "egress_step\<^sup>*\<^sup>* t ?u"
    by (rule tick_runs [OF egress.inv_reachable [OF assms(1,2)] assms(3-5) tick])
  moreover have "\<exists>e. d' = (edb t)\<lparr>db_settings := Some ?c, audit_events := audit_events (edb t) @ [e]\<rparr>"
    using tick assms(4,5)
    by (auto simp: egress_tick_due applyOne_def on_settings_def egress_worker_audit_def recordAudit_def
        tick_due_def split: option.splits)
  moreover from this have "\<forall>later refusal. snd (egress_tick f later refusal d') = d'"
    by (auto simp: egress_tick_due tick_due_def)
  ultimately show ?thesis using tick
    by (intro exI [of _ ?u]) (auto simp: stored_policy_def)
qed

lemma egress_catches_up_witness:
  "\<exists>u c' e. egress_step\<^sup>*\<^sup>* sample_egress u \<and> phase u = SyncIdle \<and>
    egress_tick (last_failed sample_egress) 0 None (edb sample_egress) = (last_failed u, edb u) \<and>
    c' = sample_settings\<lparr>egress_applied_version := Some (egress_version sample_settings),
      egress_applied_at := Some 0, egress_apply_error := None\<rparr> \<and>
    edb u = (edb sample_egress)\<lparr>db_settings := Some c',
      audit_events := audit_events (edb sample_egress) @ [e]\<rparr> \<and>
    in_force u = Some (expandEgressPolicy (stored_policy c' (edb u))) \<and>
    (\<forall>later refusal. snd (egress_tick (last_failed u) later refusal (edb u)) = edb u)"
  by (rule egress_catches_up [OF sample_egress_start rtranclp.rtrancl_refl sample_egress_due])

text \<open>
  A refused apply is told once and rests. The tick keeps the applied version and the policy's
  tables, stores the first 500 characters of the message, and writes its audit row only if the last
  failure was of another version; every tick of the next 30 seconds then changes nothing, and the
  first one after them tries again.
\<close>

theorem failed_apply_rests:
  assumes "db_settings d = Some c" and "tick_due failed t c"
    and "egress_tick failed t (Some (message, errorCode)) d = (failed', d')"
  shows "failed' = Some (egress_version c, t) \<and>
    d' = d\<lparr>db_settings := Some (c\<lparr>egress_apply_error := Some (take 500 message)\<rparr>),
      audit_events := audit_events d'\<rparr> \<and>
    length (audit_events d') = length (audit_events d) +
      (if map_option fst failed = Some (egress_version c) then 0 else 1) \<and>
    tick_settings failed' later d' =
      (if later < t + 30000 then None else Some (c\<lparr>egress_apply_error := Some (take 500 message)\<rparr>))"
proof -
  let ?c = "c\<lparr>egress_apply_error := Some (take 500 message)\<rparr>"
  have d': "failed' = Some (egress_version c, t)" "db_settings d' = Some ?c"
    "d' = d\<lparr>db_settings := Some ?c, audit_events := audit_events d'\<rparr>"
    "length (audit_events d') = length (audit_events d) +
      (if map_option fst failed = Some (egress_version c) then 0 else 1)"
    using assms
    by (auto simp: egress_tick_due applyOne_def on_settings_def egress_worker_audit_def recordAudit_def
        Let_def split: option.splits prod.splits if_splits)
  have "tick_settings failed' later d' = (if later < t + 30000 then None else Some ?c)"
    using assms(2) d'(1) by (auto simp: tick_settings_due [OF d'(2)] tick_due_def EGRESS_RETRY_SECONDS_def)
  then show ?thesis using d' by blast
qed

lemma failed_apply_rests_witness:
  "(case egress_tick None 0 (Some (''refused'', ''BUSY'')) (edb sample_egress) of (f, d') \<Rightarrow>
     length (audit_events d') = 1 \<and> tick_settings f 29999 d' = None \<and> tick_settings f 30000 d' \<noteq> None)"
proof (cases "egress_tick None 0 (Some (''refused'', ''BUSY'')) (edb sample_egress)")
  case (Pair f d')
  have "tick_due None 0 sample_settings" by (simp add: tick_due_def sample_settings_def)
  note r = failed_apply_rests [OF sample_egress_due(2) this Pair]
  have "audit_events (edb sample_egress) = []" by (simp add: sample_egress_def sample_db_def)
  then show ?thesis using r [of 29999] r [of 30000] Pair by auto
qed

end
