(* ===== verification/Guard_Averages.thy ===== *)
theory Guard_Averages
  imports Guard_Loop
begin

text \<open>
  What the guard's CPU average is: the used time of neighbouring samples, summed, over the time
  since the anchor. If every neighbouring pair uses between \<open>lo\<close> and \<open>hi\<close> percent of the CPU limit,
  so does the average; the judgements follow.
\<close>

section \<open>Neighbouring samples\<close>

definition neighbours :: "'a list \<Rightarrow> ('a \<times> 'a) list" where
  "neighbours xs = zip xs (tl xs)"

lemma neighbours_simps [simp]:
  "neighbours [] = []" "neighbours [x] = []" "neighbours (x # y # xs) = (x, y) # neighbours (y # xs)"
  by (simp_all add: neighbours_def)

lemma used_loop_sum: "used_loop ss u = u + sum_list (map (\<lambda>(p, c). pair_used p c) (neighbours ss))"
  by (induction ss u rule: used_loop.induct) auto

lemma gaps_telescope:
  "ss \<noteq> [] \<Longrightarrow> sum_list (map (\<lambda>(p, c). (f c :: int) - f p) (neighbours ss)) = f (last ss) - f (hd ss)"
proof (induction ss)
  case (Cons a ss)
  then show ?case by (cases ss) auto
qed simp

lemma neighbours_append:
  "set (neighbours ys) \<subseteq> set (neighbours (xs @ ys @ zs))"
proof -
  have a: "set (neighbours zs') \<subseteq> set (neighbours (x # zs'))" for x :: 'a and zs' by (cases zs') auto
  have "set (neighbours (ys @ zs)) \<subseteq> set (neighbours (xs @ ys @ zs))"
  proof (induction xs)
    case (Cons x xs)
    then show ?case using a [of "xs @ ys @ zs" x] by (metis append_Cons subset_trans)
  qed simp
  moreover have "set (neighbours ys) \<subseteq> set (neighbours (ys @ zs))"
  proof (induction ys)
    case (Cons y ys)
    then show ?case by (cases ys) auto
  qed auto
  ultimately show ?thesis by blast
qed

text \<open>A window of a sorted list is a contiguous part of it.\<close>

lemma sorted_split:
  fixes f :: "'a \<Rightarrow> int"
  assumes "sorted (map f xs)"
  shows "filter (\<lambda>s. f s < a) xs @ filter (\<lambda>s. a \<le> f s) xs = xs"
  using assms
proof (induction xs)
  case (Cons x xs)
  show ?case
  proof (cases "f x < a")
    case False
    then have "filter (\<lambda>s. f s < a) xs = []" using Cons.prems by (auto simp: filter_empty_conv)
    then show ?thesis using Cons False by simp
  qed (use Cons in simp)
qed simp

lemma sorted_window:
  fixes f :: "'a \<Rightarrow> int"
  assumes "sorted (map f xs)"
  shows "\<exists>us vs. xs = us @ filter (\<lambda>s. a \<le> f s \<and> f s \<le> b) xs @ vs"
proof -
  have "sorted (map f (filter (\<lambda>s. a \<le> f s) xs))" by (rule sorted_filter [OF assms])
  from sorted_split [OF this, of "b + 1"]
  have "filter (\<lambda>s. a \<le> f s \<and> f s \<le> b) xs @ filter (\<lambda>s. a \<le> f s \<and> b + 1 \<le> f s) xs =
      filter (\<lambda>s. a \<le> f s) xs"
    by (simp add: conj_commute zless_add1_eq order_le_less disj_commute conj_disj_distribL)
  then show ?thesis using sorted_split [OF assms, of a] by metis
qed

lemma samples_where_sub:
  "samples_where i P d = filter P (samples_where i (\<lambda>_. True) d)"
proof -
  have "map snd (filter (\<lambda>(j, s). j = i \<and> P s) xs) = filter P (map snd (filter (\<lambda>(j, s). j = i \<and> True) xs))"
    for xs :: "(uuid \<times> usage_sample) list" by (induction xs) auto
  then show ?thesis by (simp add: samples_where_def filter_sort)
qed

lemma samples_sorted: "sorted (map observed_at (samples_where i P d))"
  by (simp add: samples_where_def)

lemma window_neighbours:
  "set (neighbours (samples_where i (\<lambda>s. a \<le> observed_at s \<and> observed_at s \<le> b) d)) \<subseteq>
   set (neighbours (samples_where i (\<lambda>_. True) d))"
proof -
  obtain us vs where "samples_where i (\<lambda>_. True) d =
      us @ samples_where i (\<lambda>s. a \<le> observed_at s \<and> observed_at s \<le> b) d @ vs"
    using sorted_window [OF samples_sorted [of i "\<lambda>_. True" d], of a b]
    unfolding samples_where_sub [of i "\<lambda>s. a \<le> observed_at s \<and> observed_at s \<le> b" d, symmetric] by blast
  then show ?thesis using neighbours_append by metis
qed

section \<open>Rates\<close>

text \<open>Every neighbouring pair of samples uses between \<open>lo\<close> and \<open>hi\<close> percent of the limit.\<close>

definition steady :: "uuid \<Rightarrow> int \<Rightarrow> rat \<Rightarrow> rat \<Rightarrow> db \<Rightarrow> bool" where
  "steady i cpuLimit lo hi d \<longleftrightarrow>
     list_all (\<lambda>(p, c). let full = of_int ((observed_at c - observed_at p) * 1000000 * cpuLimit)
        in lo * full \<le> 100 * of_int (pair_used p c) \<and> 100 * of_int (pair_used p c) \<le> hi * full)
      (neighbours (samples_where i (\<lambda>_. True) d))"

text \<open>The newest sample is the tick's own.\<close>

definition sampled :: "uuid \<Rightarrow> millis \<Rightarrow> db \<Rightarrow> bool" where
  "sampled i t d \<longleftrightarrow> list_all (\<lambda>s. observed_at s \<le> t) (samples_where i (\<lambda>_. True) d) \<and>
     list_ex (\<lambda>s. observed_at s = t) (samples_where i (\<lambda>_. True) d)"

lemma set_samples: "set (samples_where i P d) = {s. (i, s) \<in> set (usage_samples d) \<and> P s}"
  by (force simp: samples_where_def)

lemma anchor_sampled:
  assumes "cpu_anchor i since windowStart d = Some a"
  shows "a \<le> windowStart" "\<exists>s. (i, s) \<in> set (usage_samples d) \<and> observed_at s = a"
    "since = Some u \<longrightarrow> u < a"
proof -
  let ?P = "\<lambda>s. observed_at s \<le> windowStart \<and> (case since of None \<Rightarrow> True | Some t \<Rightarrow> t < observed_at s)"
  from assms obtain s ss where s: "rev (samples_where i ?P d) = s # ss" "observed_at s = a"
    by (auto simp: cpu_anchor_def split: list.splits)
  then have "s \<in> set (samples_where i ?P d)" by (metis list.set_intros(1) set_rev)
  then show "a \<le> windowStart" "\<exists>s. (i, s) \<in> set (usage_samples d) \<and> observed_at s = a"
    "since = Some u \<longrightarrow> u < a"
    using s(2) by (auto simp: set_samples)
qed

lemma window_ends:
  assumes "sampled i t d" "\<exists>s. (i, s) \<in> set (usage_samples d) \<and> observed_at s = a" "a \<le> t"
  defines "ws \<equiv> samples_where i (\<lambda>s. a \<le> observed_at s \<and> observed_at s \<le> t) d"
  shows "ws \<noteq> []" "observed_at (hd ws) = a" "observed_at (last ws) = t"
proof -
  have mem: "s \<in> set ws \<longleftrightarrow> (i, s) \<in> set (usage_samples d) \<and> a \<le> observed_at s \<and> observed_at s \<le> t" for s
    by (simp add: ws_def set_samples)
  from assms(2,3) mem obtain sa where sa: "sa \<in> set ws" "observed_at sa = a" by auto
  from assms(1,3) mem obtain st where st: "st \<in> set ws" "observed_at st = t"
    by (auto simp: sampled_def list_ex_iff set_samples)
  show ne: "ws \<noteq> []" using sa by auto
  have sorted: "sorted (map observed_at ws)" by (simp add: ws_def samples_sorted)
  have "observed_at (hd ws) \<le> observed_at s" if "s \<in> set ws" for s
    using sorted that by (cases ws) auto
  then show "observed_at (hd ws) = a"
    using sa mem [of "hd ws"] ne by (metis hd_in_set order_antisym)
  have "observed_at s \<le> observed_at (last ws)" if "s \<in> set ws" for s
    using sorted that ne by (induction ws rule: rev_induct) (auto simp: sorted_append)
  then show "observed_at (last ws) = t"
    using st mem [of "last ws"] ne by (metis last_in_set order_antisym)
qed

lemma sum_list_scaled_le:
  fixes f g :: "'a \<Rightarrow> rat"
  shows "list_all (\<lambda>x. f x \<le> g x) xs \<Longrightarrow> sum_list (map f xs) \<le> sum_list (map g xs)"
  by (induction xs) (auto intro: add_mono)

lemma rat_sum_list: "rat_of_int (sum_list (map f xs)) = sum_list (map (\<lambda>x. of_int (f x)) xs)"
  by (induction xs) simp_all

lemma sum_scaled:
  "sum_list (map (\<lambda>x. rat_of_int (f x * k * l)) xs) = of_int (sum_list (map f xs) * k * l)"
  by (induction xs) (simp_all add: algebra_simps)

lemma average_within:
  assumes "averageCpu i cpuLimit since windowStart t d = Some average"
    and "steady i cpuLimit lo hi d" "sampled i t d" "0 < cpuLimit"
  shows "lo \<le> average" "average \<le> hi"
proof -
  from assms(1) obtain a where a: "cpu_anchor i since windowStart d = Some a" "a < t"
    and avg: "average = of_int (used_loop (samples_where i (\<lambda>s. a \<le> observed_at s \<and> observed_at s \<le> t) d) 0) /
      of_int ((t - a) * 1000000 * cpuLimit) * 100"
    by (auto simp: averageCpu_def Let_def split: option.splits if_splits)
  define ws where "ws = samples_where i (\<lambda>s. a \<le> observed_at s \<and> observed_at s \<le> t) d"
  note ends = window_ends [OF assms(3) anchor_sampled(2) [OF a(1)] less_imp_le [OF a(2)], folded ws_def]
  let ?full = "\<lambda>x. of_int ((observed_at (snd x) - observed_at (fst x)) * 1000000 * cpuLimit) :: rat"
  let ?used = "\<lambda>x. 100 * of_int (pair_used (fst x) (snd x)) :: rat"
  have "list_all (\<lambda>x. lo * ?full x \<le> ?used x \<and> ?used x \<le> hi * ?full x) (neighbours ws)"
    using assms(2) window_neighbours [of i a t d]
    by (fastforce simp: steady_def list_all_iff ws_def Let_def)
  then have "list_all (\<lambda>x. lo * ?full x \<le> ?used x) (neighbours ws)"
    "list_all (\<lambda>x. ?used x \<le> hi * ?full x) (neighbours ws)" by (auto simp: list_all_iff)
  from this [THEN sum_list_scaled_le]
  have sums: "lo * sum_list (map ?full (neighbours ws)) \<le> 100 * of_int (used_loop ws 0)"
    "100 * of_int (used_loop ws 0) \<le> hi * sum_list (map ?full (neighbours ws))"
    by (simp_all add: used_loop_sum sum_list_const_mult case_prod_unfold rat_sum_list)
  have full: "sum_list (map ?full (neighbours ws)) = of_int ((t - a) * 1000000 * cpuLimit)"
    using gaps_telescope [OF ends(1), of observed_at] ends(2,3)
    by (simp only: sum_scaled case_prod_unfold)
  have pos: "(0::rat) < of_int ((t - a) * 1000000 * cpuLimit)" using a(2) assms(4) by simp
  have "average = 100 * of_int (used_loop ws 0) / of_int ((t - a) * 1000000 * cpuLimit)"
    by (simp add: avg ws_def)
  then show "lo \<le> average" "average \<le> hi"
    using sums pos unfolding full by (simp_all only: pos_le_divide_eq pos_divide_le_eq)
qed

end
