(* ===== verification/Guard_Rows.thy ===== *)
theory Guard_Rows
  imports Guard_Averages Worker_System
begin

text \<open>
  What a tick of the resource guard leaves of the rows: it writes only the guard's own columns, the
  throttle it goes on with is the row's, and after it every listed instance of a running workspace
  has the allowance its row says.
\<close>

section \<open>One row\<close>

text \<open>A row without the columns the guard writes.\<close>

definition unmarked :: "workspace \<Rightarrow> workspace" where
  "unmarked w = w\<lparr>cpu_throttle := None, cpu_throttle_recent := [], memory_flag := None\<rparr>"

lemma unmarked_update [simp]:
  "unmarked (w\<lparr>cpu_throttle := a\<rparr>) = unmarked w"
  "unmarked (w\<lparr>cpu_throttle := a, cpu_throttle_recent := b\<rparr>) = unmarked w"
  "unmarked (w\<lparr>memory_flag := c\<rparr>) = unmarked w"
  by (simp_all add: unmarked_def)

lemma unmarked_sel [simp]:
  "ws_id (unmarked w) = ws_id w" "ws_state (unmarked w) = ws_state w"
  "incus_instance_name (unmarked w) = incus_instance_name w" "guard_config (unmarked w) = guard_config w"
  "owner_user_id (unmarked w) = owner_user_id w"
  by (simp_all add: unmarked_def)

lemma unmarked_eqD:
  assumes "unmarked v = unmarked w"
  shows "ws_id v = ws_id w" "ws_state v = ws_state w"
    "incus_instance_name v = incus_instance_name w" "guard_config v = guard_config w"
  using arg_cong [OF assms, of ws_id] arg_cong [OF assms, of ws_state]
    arg_cong [OF assms, of incus_instance_name] arg_cong [OF assms, of guard_config]
  by (simp_all only: unmarked_sel)

text \<open>A write that touches only row \<open>i\<close>, and there only the guard's columns.\<close>

definition guard_writes :: "uuid \<Rightarrow> db \<Rightarrow> db \<Rightarrow> bool" where
  "guard_writes i d d' \<longleftrightarrow> pk d' = pk d \<and>
     (\<forall>j. j \<noteq> i \<longrightarrow> find_workspace j d' = find_workspace j d) \<and>
     map_option unmarked (find_workspace i d') = map_option unmarked (find_workspace i d)"

lemma guard_writes_refl: "guard_writes i d d"
  by (simp add: guard_writes_def)

lemma guard_writes_same:
  assumes "workspaces d' = workspaces d"
  shows "guard_writes i d d'"
  by (simp add: guard_writes_def same_workspaces(2,3) [OF assms])

lemma guard_writes_trans: "guard_writes i d1 d2 \<Longrightarrow> guard_writes i d2 d3 \<Longrightarrow> guard_writes i d1 d3"
  by (simp add: guard_writes_def)

lemma guard_writes_then: "guard_writes i d e \<Longrightarrow> workspaces d' = workspaces e \<Longrightarrow> guard_writes i d d'"
  by (rule guard_writes_trans [OF _ guard_writes_same])

lemma guard_writes_update:
  assumes "\<And>w. P w \<Longrightarrow> ws_id w = i" "\<And>w. P w \<Longrightarrow> unmarked (f w) = unmarked w"
  shows "guard_writes i d (update_workspaces P f d)"
proof -
  have same: "ws_id (f w) = ws_id w" if "P w" for w
    by (rule unmarked_eqD(1)) (rule assms(2) [OF that])
  have "find_workspace j (update_workspaces P f d) = find_workspace j d" if "j \<noteq> i" for j
  proof (cases "find_workspace j d")
    case (Some w)
    then have "ws_id w = j" using find_row_Some unfolding find_workspace_def by metis
    then have "\<not> P w" using assms(1) that by blast
    then show ?thesis using Some by (simp only: find_workspace_update [OF same] option.map if_False)
  qed (simp only: find_workspace_update [OF same] option.map)
  moreover have "map_option unmarked (find_workspace i (update_workspaces P f d)) =
      map_option unmarked (find_workspace i d)"
    using assms(2)
    by (cases "find_workspace i d") (simp_all only: find_workspace_update [OF same] option.map if_split, auto)
  ultimately show ?thesis
    by (simp only: guard_writes_def pk_update_workspaces [OF same]) blast
qed

text \<open>The judgements, each as a write of one row.\<close>

lemma recordSample_writes: "guard_writes i d (recordSample i inst t d)"
  by (rule guard_writes_same) (simp add: recordSample_def)

lemma lift_write_writes: "guard_writes i d (snd (lift_write i thr average new_id t d))"
proof (cases "rows_where (\<lambda>w. ws_id w = i \<and> map_option thr_at (cpu_throttle w) = Some (thr_at thr)) d")
  case (Cons u us)
  let ?hit = "\<lambda>w. ws_id w = i \<and> map_option thr_at (cpu_throttle w) = Some (thr_at thr)"
  have "guard_writes i d (update_workspaces ?hit (\<lambda>w. w\<lparr>cpu_throttle := None\<rparr>) d)"
    by (rule guard_writes_update) auto
  then show ?thesis unfolding lift_write_def Let_def Cons list.case snd_conv
    by (rule guard_writes_then) simp
qed (simp only: lift_write_def Let_def list.case snd_conv guard_writes_refl)

lemma throttle_write_writes: "guard_writes i d (snd (throttle_write i thr hold t new_ids d))"
proof -
  obtain recent held where h: "throttleHold hold (case find_workspace i d of None \<Rightarrow> [] | Some w \<Rightarrow> cpu_throttle_recent w) t =
      (recent, held)" by fastforce
  let ?hit = "\<lambda>w. ws_id w = i \<and> ws_state w = Running \<and> cpu_throttle w = None"
  have "guard_writes i d (update_workspaces ?hit
      (\<lambda>w. w\<lparr>cpu_throttle := Some (thr\<lparr>thr_held := held\<rparr>), cpu_throttle_recent := recent\<rparr>) d)"
    by (rule guard_writes_update) auto
  moreover have "rows_where ?hit d = [] \<Longrightarrow> snd (throttle_write i thr hold t new_ids d) = d"
    by (simp add: throttle_write_def h)
  moreover have "rows_where ?hit d \<noteq> [] \<Longrightarrow> workspaces (snd (throttle_write i thr hold t new_ids d)) =
      workspaces (update_workspaces ?hit
        (\<lambda>w. w\<lparr>cpu_throttle := Some (thr\<lparr>thr_held := held\<rparr>), cpu_throttle_recent := recent\<rparr>) d)"
    by (simp add: throttle_write_def h Let_def recordHold_def split: option.splits)
  ultimately show ?thesis
    by (cases "rows_where ?hit d = []") (simp add: guard_writes_refl, rule guard_writes_then)
qed

lemma flag_write_writes: "guard_writes i d (flag_write i flag d)"
proof -
  let ?hit = "\<lambda>w. ws_id w = i \<and> ws_state w = Running \<and> memory_flag w = None"
  have "guard_writes i d (update_workspaces ?hit (\<lambda>w. w\<lparr>memory_flag := Some flag\<rparr>) d)"
    by (rule guard_writes_update) auto
  then have "guard_writes i d (workerAudit i act res meta (update_workspaces ?hit (\<lambda>w. w\<lparr>memory_flag := Some flag\<rparr>) d))"
    for act res meta by (rule guard_writes_then) simp
  then show ?thesis by (simp add: flag_write_def Let_def guard_writes_refl)
qed

lemma judge_writes:
  assumes "judge row inst settings t new_ids d = (throttle, d')"
  shows "guard_writes (ws_id row) d d'"
proof (cases settings)
  case None
  then show ?thesis using assms by (simp add: judge_def guard_writes_refl)
next
  case (Some s)
  let ?i = "ws_id row" and ?e = "effectiveGuard s (guard_config row)"
  have lift: "guard_writes ?i d (snd (judgeLift ?i inst thr lift t (new_ids 0) d))" for thr lift
    by (simp add: judgeLift_def guard_writes_refl lift_write_writes split: option.split)
  have cpu: "guard_writes ?i d (snd (judgeCpu ?i inst ?e s t new_ids d))"
    by (simp add: judgeCpu_def guard_writes_refl throttle_write_writes split: option.split)
  have mem: "guard_writes ?i d1 (judgeMemory ?i ?e t d1)" for d1
    by (simp add: judgeMemory_def guard_writes_refl flag_write_writes split: option.split)
  show ?thesis using assms lift cpu mem Some
    by (auto simp: judge_def Let_def guard_writes_refl split: option.splits prod.splits if_splits
        intro: guard_writes_trans)
      (metis guard_writes_trans snd_conv)+
qed

section \<open>The throttle the tick goes on with\<close>

definition throttle_of :: "uuid \<Rightarrow> db \<Rightarrow> cpu_throttle option option" where
  "throttle_of i d = map_option cpu_throttle (find_workspace i d)"

lemma throttle_of_update:
  assumes "find_workspace i d = Some w" "\<And>v. P v \<Longrightarrow> ws_id (f v) = ws_id v"
  shows "throttle_of i (update_workspaces P f d) = Some (cpu_throttle (if P w then f w else w))"
  using assms(1) by (simp only: throttle_of_def find_workspace_update [OF assms(2)] option.map)

lemma throttle_of_same: "workspaces d' = workspaces d \<Longrightarrow> throttle_of i d' = throttle_of i d"
  by (simp add: throttle_of_def find_workspace_def)

lemma found_hit:
  assumes "find_workspace i d = Some w" "P w"
  shows "rows_where P d \<noteq> []"
  using find_row_Some [of ws_id i "workspaces d" w] assms
  by (auto simp: rows_where_def find_workspace_def filter_empty_conv)

lemma found_id: "find_workspace i d = Some w \<Longrightarrow> ws_id w = i"
  using find_row_Some [of ws_id i "workspaces d" w] by (simp add: find_workspace_def)

lemma lift_write_throttle:
  assumes "find_workspace i d = Some w" "cpu_throttle w = Some thr"
  shows "fst (lift_write i thr average new_id t d)"
    "throttle_of i (snd (lift_write i thr average new_id t d)) = Some None"
proof -
  let ?hit = "\<lambda>w. ws_id w = i \<and> map_option thr_at (cpu_throttle w) = Some (thr_at thr)"
  have hit: "?hit w" using assms found_id by simp
  obtain u us where us: "rows_where ?hit d = u # us"
    using found_hit [OF assms(1), of ?hit] hit by (cases "rows_where ?hit d") auto
  show "fst (lift_write i thr average new_id t d)"
    unfolding lift_write_def Let_def us by simp
  have "workspaces (snd (lift_write i thr average new_id t d)) =
      workspaces (update_workspaces ?hit (\<lambda>w. w\<lparr>cpu_throttle := None\<rparr>) d)"
    unfolding lift_write_def Let_def us list.case snd_conv by simp
  from throttle_of_same [OF this]
  show "throttle_of i (snd (lift_write i thr average new_id t d)) = Some None"
    using throttle_of_update [OF assms(1), of ?hit "\<lambda>w. w\<lparr>cpu_throttle := None\<rparr>"]
    by (simp only: if_P [OF hit]) simp
qed

lemma throttle_write_throttle:
  assumes "find_workspace i d = Some w" "cpu_throttle w = None" "ws_state w = Running"
  shows "throttle_of i (snd (throttle_write i thr hold t new_ids d)) = Some (fst (throttle_write i thr hold t new_ids d))"
    "fst (throttle_write i thr hold t new_ids d) \<noteq> None"
proof -
  obtain recent held where h: "throttleHold hold (cpu_throttle_recent w) t = (recent, held)" by fastforce
  let ?hit = "\<lambda>w. ws_id w = i \<and> ws_state w = Running \<and> cpu_throttle w = None"
  let ?f = "\<lambda>w. w\<lparr>cpu_throttle := Some (thr\<lparr>thr_held := held\<rparr>), cpu_throttle_recent := recent\<rparr>"
  have hit: "?hit w" using assms found_id by simp
  have ne: "rows_where ?hit d \<noteq> []" by (rule found_hit [OF assms(1), of ?hit, OF hit])
  have written: "workspaces (snd (throttle_write i thr hold t new_ids d)) = workspaces (update_workspaces ?hit ?f d)"
    "fst (throttle_write i thr hold t new_ids d) = Some (thr\<lparr>thr_held := held\<rparr>)"
    using ne assms(1) h by (simp_all add: throttle_write_def Let_def recordHold_def split: option.splits)
  have "throttle_of i (update_workspaces ?hit ?f d) = Some (Some (thr\<lparr>thr_held := held\<rparr>))"
    using throttle_of_update [OF assms(1), of ?hit ?f] by (simp only: if_P [OF hit]) simp
  then show "throttle_of i (snd (throttle_write i thr hold t new_ids d)) = Some (fst (throttle_write i thr hold t new_ids d))"
    by (simp only: throttle_of_same [OF written(1)] written(2))
  show "fst (throttle_write i thr hold t new_ids d) \<noteq> None" by (simp only: written(2)) simp
qed

lemma judgeMemory_throttle: "throttle_of j (judgeMemory i e t d) = throttle_of j d"
proof -
  have "throttle_of j (flag_write i flag d) = throttle_of j d" for flag
  proof (cases "find_workspace j d")
    case None
    then show ?thesis
      by (simp add: throttle_of_def flag_write_def Let_def find_workspace_update)
  next
    case (Some w)
    let ?hit = "\<lambda>w. ws_id w = i \<and> ws_state w = Running \<and> memory_flag w = None"
    have "throttle_of j (update_workspaces ?hit (\<lambda>w. w\<lparr>memory_flag := Some flag\<rparr>) d) = throttle_of j d"
      using throttle_of_update [OF Some, of ?hit "\<lambda>w. w\<lparr>memory_flag := Some flag\<rparr>"] Some
      by (simp add: throttle_of_def split: if_splits)
    then show ?thesis by (simp add: flag_write_def Let_def throttle_of_def)
  qed
  then show ?thesis by (simp add: judgeMemory_def split: option.split)
qed

lemma judge_throttle:
  assumes "judge row inst settings t new_ids d = (throttle, d')"
    and "find_workspace (ws_id row) d = Some w" "cpu_throttle w = cpu_throttle row" "ws_state w = Running"
  shows "throttle_of (ws_id row) d' = Some throttle"
proof (cases settings)
  case None
  then show ?thesis using assms by (simp add: judge_def throttle_of_def)
next
  case (Some s)
  let ?i = "ws_id row" and ?e = "effectiveGuard s (guard_config row)"
  have now: "throttle_of ?i d = Some (cpu_throttle row)" using assms(2,3) by (simp add: throttle_of_def)
  have lift: "throttle_of ?i d1 = Some (if lifted then None else Some thr)"
    if "cpu_throttle row = Some thr" "judgeLift ?i inst thr lift t (new_ids 0) d = (lifted, d1)" for thr lift lifted d1
    using that now lift_write_throttle [OF assms(2), of thr] assms(3)
    by (auto simp: judgeLift_def split: option.splits) (metis fst_conv snd_conv)+
  have cpu: "throttle_of ?i d1 = Some throttle1"
    if "cpu_throttle row = None" "judgeCpu ?i inst ?e s t new_ids d = (throttle1, d1)" for throttle1 d1
    using that now throttle_write_throttle(1) [OF assms(2)] assms(3,4)
    by (auto simp: judgeCpu_def split: option.splits) (metis fst_conv snd_conv)
  show ?thesis using assms(1) Some now lift cpu
    by (auto simp: judge_def Let_def judgeMemory_throttle split: option.splits prod.splits if_splits)
qed

section \<open>The loop over the running rows\<close>

text \<open>Row \<open>i\<close> is settled: its instance's allowance is its own, and no failure is remembered.\<close>

definition settled :: "uuid \<Rightarrow> string \<Rightarrow> failures \<times> allowances \<times> db \<Rightarrow> bool" where
  "settled i name s = (case s of (failures, incus, d) \<Rightarrow>
     \<exists>thr. throttle_of i d = Some thr \<and> incus name = map_option thr_allowance thr \<and> failures i = None)"

lemma checkWorkspace_settles:
  assumes "checkWorkspace row inst settings t new_ids None (failures, incus, d) = (failures', incus', d')"
    and "find_workspace (ws_id row) d = Some row" "ws_state row = Running"
    and "incus (iu_name inst) = iu_cpuAllowance inst"
  shows "guard_writes (ws_id row) d d'" "settled (ws_id row) (iu_name inst) (failures', incus', d')"
    "n \<noteq> iu_name inst \<Longrightarrow> incus' n = incus n" "j \<noteq> ws_id row \<Longrightarrow> failures' j = failures j"
proof -
  obtain thr d1 where j: "judge row inst settings t new_ids (recordSample (ws_id row) inst t d) = (thr, d1)"
    by fastforce
  have found: "find_workspace (ws_id row) (recordSample (ws_id row) inst t d) = Some row"
    using assms(2) by (simp add: recordSample_def find_workspace_def)
  note w = guard_writes_trans [OF recordSample_writes judge_writes [OF j]]
  have thr: "throttle_of (ws_id row) d1 = Some thr"
    by (rule judge_throttle [OF j found refl assms(3)])
  have out: "d' = d1" "incus' = incus(iu_name inst := map_option thr_allowance thr)"
    "failures' = failures(ws_id row := None)"
    using assms(1,4) j by (auto simp: checkWorkspace_def syncAllowance_def Let_def split: if_splits)
  show "guard_writes (ws_id row) d d'" unfolding out by (rule w)
  show "settled (ws_id row) (iu_name inst) (failures', incus', d')" using thr by (simp add: out settled_def)
  show "n \<noteq> iu_name inst \<Longrightarrow> incus' n = incus n" "j \<noteq> ws_id row \<Longrightarrow> failures' j = failures j"
    by (simp_all add: out)
qed

lemma truthy_eq_Some: "truthy x = Some n \<longleftrightarrow> x = Some n \<and> n \<noteq> []"
  by (cases x rule: truthy.cases) auto

text \<open>What the usage list and the rows are like: names are unique, and the list is up to date.\<close>

definition listed :: "(string \<Rightarrow> instance_usage option) \<Rightarrow> allowances \<Rightarrow> workspace list \<Rightarrow> db \<Rightarrow> bool" where
  "listed usage incus rows d \<longleftrightarrow> distinct (map ws_id rows) \<and> distinct (map incus_instance_name rows) \<and>
     (\<forall>r\<in>set rows. find_workspace (ws_id r) d = Some r \<and> ws_state r = Running \<and>
        (\<forall>inst. Option.bind (truthy (incus_instance_name r)) usage = Some inst \<longrightarrow>
           incus_instance_name r = Some (iu_name inst) \<and> incus (iu_name inst) = iu_cpuAllowance inst))"

lemma listed_ConsD:
  assumes "listed usage incus (r # rows) d"
  shows "listed usage incus rows d" "ws_id r \<notin> ws_id ` set rows"
    "incus_instance_name r \<notin> incus_instance_name ` set rows"
    "find_workspace (ws_id r) d = Some r" "ws_state r = Running"
    "Option.bind (truthy (incus_instance_name r)) usage = Some inst \<Longrightarrow> incus_instance_name r = Some (iu_name inst)"
    "Option.bind (truthy (incus_instance_name r)) usage = Some inst \<Longrightarrow> incus (iu_name inst) = iu_cpuAllowance inst"
  using assms unfolding listed_def by simp_all

lemma listed_kept:
  assumes "listed usage incus rows d"
    and "\<And>q. q \<in> set rows \<Longrightarrow> find_workspace (ws_id q) d1 = find_workspace (ws_id q) d"
    and "\<And>q n. q \<in> set rows \<Longrightarrow> incus_instance_name q = Some n \<Longrightarrow> incus1 n = incus n"
  shows "listed usage incus1 rows d1"
  using assms unfolding listed_def by metis

lemma settled_kept:
  "find_workspace i d' = find_workspace i d \<Longrightarrow> failures' i = failures i \<Longrightarrow> incus' n = incus n \<Longrightarrow>
   settled i n (failures, incus, d) \<Longrightarrow> settled i n (failures', incus', d')"
  by (simp add: settled_def throttle_of_def)

definition rows_settled ::
  "(string \<Rightarrow> instance_usage option) \<Rightarrow> workspace list \<Rightarrow> failures \<times> allowances \<times> db \<Rightarrow> bool" where
  "rows_settled usage rows s \<longleftrightarrow> (\<forall>r\<in>set rows. \<forall>inst.
     Option.bind (truthy (incus_instance_name r)) usage = Some inst \<longrightarrow> settled (ws_id r) (iu_name inst) s)"

definition rows_frame :: "workspace list \<Rightarrow> failures \<times> allowances \<times> db \<Rightarrow> failures \<times> allowances \<times> db \<Rightarrow> bool" where
  "rows_frame rows s s' = (case (s, s') of ((failures, incus, d), (failures', incus', d')) \<Rightarrow>
     (\<forall>i. i \<notin> ws_id ` set rows \<longrightarrow> find_workspace i d' = find_workspace i d \<and> failures' i = failures i) \<and>
     (\<forall>n. Some n \<notin> incus_instance_name ` set rows \<longrightarrow> incus' n = incus n))"

lemma rows_frame_step:
  assumes "rows_frame [r] s s1" "rows_frame rows s1 s2"
  shows "rows_frame (r # rows) s s2"
  using assms by (cases s; cases s1; cases s2) (simp add: rows_frame_def)

lemma checkWorkspace_frame:
  assumes "checkWorkspace row inst settings t new_ids None (failures, incus, d) = (failures', incus', d')"
    and "find_workspace (ws_id row) d = Some row" "ws_state row = Running"
    and "incus (iu_name inst) = iu_cpuAllowance inst" "incus_instance_name row = Some (iu_name inst)"
  shows "rows_frame [row] (failures, incus, d) (failures', incus', d')"
  using checkWorkspace_settles [OF assms(1-4)] assms(5)
  by (auto simp: rows_frame_def guard_writes_def)

lemma check_rows_settles:
  assumes "listed usage incus rows d"
    and "check_rows rows usage settings t new_ids (\<lambda>_. None) (failures, incus, d) = s'"
  shows "rows_frame rows (failures, incus, d) s' \<and> rows_settled usage rows s'"
  using assms
proof (induction rows arbitrary: failures incus d)
  case Nil
  then show ?case by (cases s') (simp add: rows_frame_def rows_settled_def)
next
  case (Cons r rows)
  note l = listed_ConsD [OF Cons.prems(1)]
  show ?case
  proof (cases "Option.bind (truthy (incus_instance_name r)) usage")
    case None
    then have "check_rows rows usage settings t new_ids (\<lambda>_. None) (failures, incus, d) = s'"
      using Cons.prems(2) by simp
    from Cons.IH [OF l(1) this] None show ?thesis
      by (cases s') (simp add: rows_frame_def rows_settled_def)
  next
    case (Some inst)
    obtain f1 i1 d1 where c: "checkWorkspace r inst settings t (new_ids (ws_id r)) None (failures, incus, d) = (f1, i1, d1)"
      by (metis prod_cases3)
    note step = checkWorkspace_settles [OF c l(4,5) l(7) [OF Some]]
    have frame: "rows_frame [r] (failures, incus, d) (f1, i1, d1)"
      by (rule checkWorkspace_frame [OF c l(4,5) l(7) [OF Some] l(6) [OF Some]])
    have "listed usage i1 rows d1"
    proof (rule listed_kept [OF l(1)])
      fix q assume "q \<in> set rows"
      then have "ws_id q \<noteq> ws_id r" "incus_instance_name q \<noteq> incus_instance_name r"
        using l(2,3) by (metis image_eqI)+
      then show "find_workspace (ws_id q) d1 = find_workspace (ws_id q) d"
        and "incus_instance_name q = Some n \<Longrightarrow> i1 n = incus n" for n
        using frame by (auto simp: rows_frame_def)
    qed
    moreover have "check_rows rows usage settings t new_ids (\<lambda>_. None) (f1, i1, d1) = s'"
      using Cons.prems(2) Some c by simp
    ultimately have ih: "rows_frame rows (f1, i1, d1) s'" "rows_settled usage rows s'"
      using Cons.IH by blast+
    obtain f2 i2 d2 where s': "s' = (f2, i2, d2)" by (metis prod_cases3)
    have "settled (ws_id r) (iu_name inst) s'"
      using ih(1) step(2) l(2,3) l(6) [OF Some] unfolding s'
      by (intro settled_kept [of _ d2 d1 f2 f1 i2 _ i1]) (simp_all add: rows_frame_def)
    then show ?thesis
      using rows_frame_step [OF frame ih(1)] ih(2) Some by (simp add: rows_settled_def)
  qed
qed

section \<open>Properties\<close>

lemma byName_name: "byName us n = Some u \<Longrightarrow> u \<in> set us \<and> iu_name u = n"
  by (auto simp: byName_def dest!: map_of_SomeD)

lemma byName_None: "byName us n = None \<longleftrightarrow> n \<notin> iu_name ` set us"
  by (auto simp: byName_def map_of_eq_None_iff image_image)

lemma running_listed:
  assumes "pk d" and "distinct (map incus_instance_name (loadRunning d))"
    and "\<forall>u\<in>set us. iu_name u \<noteq> [] \<and> incus (iu_name u) = iu_cpuAllowance u"
  shows "listed (byName us) incus (loadRunning d) d"
proof -
  have "find_workspace (ws_id r) d = Some r" if "r \<in> set (loadRunning d)" for r
    using that assms(1) by (simp add: loadRunning_def rows_where_def pk_def find_workspace_def find_row_Some_iff)
  moreover have "distinct (map ws_id (loadRunning d))"
    using assms(1) by (simp add: loadRunning_def rows_where_def pk_def distinct_map_filter)
  ultimately show ?thesis using assms(2,3)
    by (auto simp: listed_def loadRunning_def rows_where_def bind_eq_Some_conv truthy_eq_Some dest: byName_name)
qed


definition sample_busy :: workspace where
  "sample_busy = sample_row\<lparr>ws_state := Running, cpu_throttle := Some
     \<lparr>thr_at = 0, thr_averagePercent = 95, thr_thresholdPercent = 80, thr_windowMinutes = 30,
      thr_sharePercent = 25, thr_allowance = ''50ms/100ms'', thr_held = None\<rparr>\<rparr>"

definition sample_usage :: "instance_usage list" where
  "sample_usage = [\<lparr>iu_name = ''ws-1'', iu_cpuUsageNs = 0, iu_bootMarker = None, iu_cpuLimit = 2,
     iu_memoryBytes = 0, iu_memoryLimitBytes = 1, iu_cpuAllowance = None\<rparr>]"


lemma average_known:
  assumes "cpu_anchor i since windowStart d \<noteq> None" "windowStart < t"
  shows "averageCpu i cpuLimit since windowStart t d \<noteq> None"
  using assms anchor_sampled(1) [of i since windowStart d]
  by (fastforce simp: averageCpu_def Let_def)

lemma judgeCpu_over:
  assumes "averageCpu i (iu_cpuLimit inst) None (t - windowMinutes e * 60000) t d = Some average"
    and "of_int (cpuThresholdPercent e) < average"
    and "find_workspace i d = Some w" "ws_state w = Running" "cpu_throttle w = None"
  shows "fst (judgeCpu i inst e hold t new_ids d) \<noteq> None"
  using assms(1,2) throttle_write_throttle(2) [OF assms(3,5,4)]
  by (simp add: judgeCpu_def cpu_over_def Let_def)

lemma judgeLift_quiet:
  assumes "averageCpu i (iu_cpuLimit inst) (Some (thr_at thr)) (t - lift_minutes lift * 60000) t d = Some average"
    and "average < min (of_int (lift_percent lift)) (of_int (thr_sharePercent thr) / 2)"
    and "find_workspace i d = Some w" "cpu_throttle w = Some thr"
  shows "fst (judgeLift i inst thr lift t new_id d)"
  using assms(1,2) lift_write_throttle(1) [OF assms(3,4)]
  by (simp add: judgeLift_def lift_average_def Let_def)


text \<open>Half an hour at nine tenths of two CPUs.\<close>

definition sample_sampled :: db where
  "sample_sampled = (sample_db [sample_row\<lparr>ws_state := Running\<rparr>])\<lparr>usage_samples :=
     [(''w1'', \<lparr>observed_at = 0, bootMarker = None, cpuUsageNs = 0, cpu_limit = 2, memory_bytes = 0,
        memory_limit_bytes = 1\<rparr>),
      (''w1'', \<lparr>observed_at = 1800000, bootMarker = None, cpuUsageNs = 3240000000000, cpu_limit = 2,
        memory_bytes = 0, memory_limit_bytes = 1\<rparr>)]\<rparr>"

definition sample_effective :: effective_guard where
  "sample_effective = \<lparr>cpuThresholdPercent = 80, memoryThresholdPercent = 90, windowMinutes = 30,
     throttleSharePercent = 25, idleStopMinutes = 60\<rparr>"

lemma sample_sampled_samples:
  "samples_where ''w1'' P sample_sampled = filter P
     [\<lparr>observed_at = 0, bootMarker = None, cpuUsageNs = 0, cpu_limit = 2, memory_bytes = 0,
        memory_limit_bytes = 1\<rparr>,
      \<lparr>observed_at = 1800000, bootMarker = None, cpuUsageNs = 3240000000000, cpu_limit = 2,
        memory_bytes = 0, memory_limit_bytes = 1\<rparr>]"
  by (simp add: samples_where_def sample_sampled_def)


end
