(* ===== verification/Config_System.thy ===== *)
theory Config_System
  imports Config_Sync Worker_System
begin

text \<open>
  The administrator's writes and the two loops that apply them, run against each other. For the
  volume sizes, which may only grow, the applied sizes, the volumes and the wanted sizes stay in
  order however a tick, its calls and the administrators interleave, so that when applied and wanted
  agree the volumes are what the row says. The limits may go back to an earlier value while a call
  is under way, and then the same scheme loses the change (\<open>limits_change_lost\<close>).
\<close>

section \<open>The volumes of a workspace as one system\<close>

text \<open>
  \<open>reads\<close> are the requests whose route has read the row and not yet written, \<open>todo\<close> the rows the
  tick has still to do, \<open>asking\<close> the call under way. A call that fails may have grown a volume.
\<close>

record quota_system =
  qdb :: db
  qfailures :: "sizes sync_failures"
  volumes :: "uuid \<Rightarrow> sizes"
  reads :: "(uuid \<times> quota option \<times> sizes \<times> sizes) list"
  todo :: "workspace list"
  asking :: "(uuid \<times> sizes \<times> quota option) option"

inductive quota_step :: "sizes \<Rightarrow> quota_system \<Rightarrow> quota_system \<Rightarrow> bool" for defaults :: sizes where
  admin_reads: "quota_wanted defaults i to (qdb s) = Inr (stored, sizes_from) \<Longrightarrow>
    quota_step defaults s (s\<lparr>reads := (i, stored, sizes_from, to) # reads s\<rparr>)"
| admin_writes: "(i, stored, sizes_from, to) \<in> set (reads s) \<Longrightarrow>
    quota_write admin i stored sizes_from to t (qdb s) = Inr d' \<Longrightarrow> quota_step defaults s (s\<lparr>qdb := d'\<rparr>)"
| tick_begins: "todo s = [] \<Longrightarrow> asking s = None \<Longrightarrow>
    quota_step defaults s (s\<lparr>todo := quota_rows (qdb s)\<rparr>)"
| row_skipped: "todo s = row # rows \<Longrightarrow> asking s = None \<Longrightarrow> quota_due (qfailures s) t row = None \<Longrightarrow>
    quota_step defaults s (s\<lparr>todo := rows\<rparr>)"
| asks: "todo s = row # rows \<Longrightarrow> asking s = None \<Longrightarrow> quota_due (qfailures s) t row = Some v \<Longrightarrow>
    quota_step defaults s (s\<lparr>todo := rows, asking := Some (ws_id row, v, quota_applied row)\<rparr>)"
| grows: "asking s = Some (i, v, a) \<Longrightarrow>
    applyOne_quota i v a None t (qfailures s, qdb s) = (f, d') \<Longrightarrow>
    quota_step defaults s (s\<lparr>qdb := d', qfailures := f, volumes := (volumes s)(i := v), asking := None\<rparr>)"
| fails: "asking s = Some (i, v, a) \<Longrightarrow>
    applyOne_quota i v a (Some errorCode) t (qfailures s, qdb s) = (f, d') \<Longrightarrow>
    isQuotaGrowOnly (volumes s i) x \<Longrightarrow> isQuotaGrowOnly x v \<Longrightarrow>
    quota_step defaults s (s\<lparr>qdb := d', qfailures := f, volumes := (volumes s)(i := x), asking := None\<rparr>)"

text \<open>Every workspace has its sizes and its volumes, and nothing is under way.\<close>

definition sizes_in_order :: "(uuid \<Rightarrow> sizes) \<Rightarrow> workspace \<Rightarrow> bool" where
  "sizes_in_order vols w \<longleftrightarrow>
     (case (quota_applied w, quota_config w) of
        (Some a, Some c) \<Rightarrow> isQuotaGrowOnly (quota_sizes a) (vols (ws_id w)) \<and>
          isQuotaGrowOnly (vols (ws_id w)) (quota_sizes c)
      | _ \<Rightarrow> False)"

definition quota_start :: "quota_system \<Rightarrow> bool" where
  "quota_start s \<longleftrightarrow> pk (qdb s) \<and> list_all (sizes_in_order (volumes s)) (workspaces (qdb s)) \<and>
     reads s = [] \<and> todo s = [] \<and> asking s = None"

text \<open>What was read of a row is behind the row, and ahead of its volumes.\<close>

definition behind :: "db \<Rightarrow> uuid \<Rightarrow> sizes \<Rightarrow> bool" where
  "behind d i v \<longleftrightarrow> list_all (\<lambda>w. ws_id w = i \<longrightarrow>
     (case quota_config w of None \<Rightarrow> False | Some c \<Rightarrow> isQuotaGrowOnly v (quota_sizes c))) (workspaces d)"

definition quota_inv :: "quota_system \<Rightarrow> bool" where
  "quota_inv s \<longleftrightarrow> pk (qdb s) \<and> list_all (sizes_in_order (volumes s)) (workspaces (qdb s)) \<and>
     list_all (\<lambda>(i, stored, sizes_from, to). isQuotaGrowOnly sizes_from to) (reads s) \<and>
     distinct (map ws_id (todo s)) \<and>
     list_all (\<lambda>r. pred_option (\<lambda>c. behind (qdb s) (ws_id r) (quota_sizes c) \<and>
       isQuotaGrowOnly (volumes s (ws_id r)) (quota_sizes c)) (quota_config r)) (todo s) \<and>
     pred_option (\<lambda>(i, v, a). behind (qdb s) i v \<and> isQuotaGrowOnly (volumes s i) v \<and>
       i \<notin> ws_id ` set (todo s)) (asking s)"

section \<open>The order is kept\<close>

lemma grow_refl [simp]: "isQuotaGrowOnly a a"
  by (simp add: isQuotaGrowOnly_def)

lemma grow_trans: "isQuotaGrowOnly a b \<Longrightarrow> isQuotaGrowOnly b c \<Longrightarrow> isQuotaGrowOnly a c"
  by (auto simp: isQuotaGrowOnly_def)

lemma grow_antisym: "isQuotaGrowOnly a b \<Longrightarrow> isQuotaGrowOnly b a \<Longrightarrow> a = b"
  by (simp add: isQuotaGrowOnly_def prod_eq_iff)

lemma merge_sizes_sizes [simp]: "quota_sizes (merge_sizes s q) = s"
  by (simp add: quota_sizes_def merge_sizes_def)

lemma quota_of_sizes [simp]: "quota_sizes (quota_of s) = s"
  by (simp add: quota_sizes_def quota_of_def)

text \<open>A write of the route: wanted sizes only grow.\<close>

definition row_grown :: "workspace \<Rightarrow> workspace \<Rightarrow> bool" where
  "row_grown w w' \<longleftrightarrow> ws_id w' = ws_id w \<and> quota_applied w' = quota_applied w \<and>
     (\<exists>c c'. quota_config w = Some c \<and> quota_config w' = Some c' \<and>
       isQuotaGrowOnly (quota_sizes c) (quota_sizes c'))"

lemma quota_write_grown:
  assumes "quota_write admin i stored sizes_from to t d = Inr d'" "isQuotaGrowOnly sizes_from to"
    and "list_all (\<lambda>w. quota_config w \<noteq> None) (workspaces d)"
  shows "list_all2 row_grown (workspaces d) (workspaces d')"
proof -
  have same: "list_all2 row_grown (workspaces d) (workspaces d)"
    using assms(3) by (intro list.rel_refl_strong) (auto simp: list_all_iff row_grown_def)
  have "list_all2 row_grown (workspaces d) (upd_where
      (\<lambda>w. ws_id w = i \<and> map_option quota_sizes (quota_config w) =
        (case stored of None \<Rightarrow> None | Some _ \<Rightarrow> Some sizes_from))
      (\<lambda>w. w\<lparr>quota_config := Some (merge_sizes to (quota_config w)), updated_at := t\<rparr>) (workspaces d))"
    using assms(2,3)
    by (intro upd_where_list_all2) (auto simp: list_all_iff row_grown_def split: option.splits)
  then show ?thesis using assms(1) same by (auto simp: quota_write_def Let_def split: if_splits)
qed

text \<open>The end of a call: the row's applied sizes become what it asked for, if they are still wanted.\<close>

definition row_applied :: "uuid \<Rightarrow> sizes \<Rightarrow> workspace \<Rightarrow> workspace \<Rightarrow> bool" where
  "row_applied i v w w' \<longleftrightarrow> ws_id w' = ws_id w \<and> quota_config w' = quota_config w \<and>
     (quota_applied w' = quota_applied w \<or> ws_id w = i \<and> quota_applied w' = Some (quota_of v))"

lemma applyOne_rows:
  assumes "applyOne_quota i v a refusal t (f, d) = (f', d')"
  shows "list_all2 (row_applied i v) (workspaces d) (workspaces d')"
proof -
  have same: "list_all2 (row_applied i v) (workspaces d) (workspaces d)"
    by (auto simp: row_applied_def intro: list.rel_refl_strong)
  have "list_all2 (row_applied i v) (workspaces d) (upd_where
      (\<lambda>w. ws_id w = i \<and> map_option quota_sizes (quota_config w) = Some v)
      (\<lambda>w. w\<lparr>quota_applied := Some (quota_of v)\<rparr>) (workspaces d))"
    by (intro upd_where_list_all2) (auto simp: row_applied_def)
  then show ?thesis using assms same
    by (auto simp: applyOne_quota_def Let_def split: option.splits if_splits)
qed

lemma rows_ids:
  assumes "list_all2 R xs ys" "\<And>x y. R x y \<Longrightarrow> ws_id y = ws_id x"
  shows "map ws_id ys = map ws_id xs"
  using assms by (induction rule: list_all2_induct) auto

lemma grown_kept:
  assumes "list_all2 row_grown (workspaces d) (workspaces d')"
  shows "pk d' = pk d" "list_all (sizes_in_order vols) (workspaces d) \<Longrightarrow> list_all (sizes_in_order vols) (workspaces d')"
    "behind d i v \<Longrightarrow> behind d' i v"
proof -
  have "map ws_id (workspaces d') = map ws_id (workspaces d)"
    by (rule rows_ids [OF assms]) (simp add: row_grown_def)
  then show "pk d' = pk d" by (simp add: pk_def)
  show "list_all (sizes_in_order vols) (workspaces d')" if "list_all (sizes_in_order vols) (workspaces d)"
    using assms that
    by (induction rule: list_all2_induct)
      (auto simp: row_grown_def sizes_in_order_def intro: grow_trans split: option.splits)
  show "behind d' i v" if "behind d i v"
    using assms that unfolding behind_def
    by (induction rule: list_all2_induct)
      (auto simp: row_grown_def intro: grow_trans split: option.splits)
qed

abbreviation wants_more :: "uuid \<Rightarrow> sizes \<Rightarrow> workspace \<Rightarrow> bool" where
  "wants_more i v w \<equiv> ws_id w = i \<longrightarrow>
     (case quota_config w of None \<Rightarrow> False | Some c \<Rightarrow> isQuotaGrowOnly v (quota_sizes c))"

lemma grown_in_order:
  "list_all2 (row_applied i v) ws ws' \<Longrightarrow> isQuotaGrowOnly (vols i) v \<Longrightarrow> list_all (wants_more i v) ws \<Longrightarrow>
   list_all (sizes_in_order vols) ws \<Longrightarrow> list_all (sizes_in_order (vols(i := v))) ws'"
proof (induction rule: list_all2_induct)
  case (Cons w ws w' ws')
  then have "sizes_in_order (vols(i := v)) w'"
    by (auto simp: row_applied_def sizes_in_order_def split: option.splits intro: grow_trans)
  then show ?case using Cons by (simp del: fun_upd_apply)
qed simp

lemma failed_in_order:
  "isQuotaGrowOnly (vols i) x \<Longrightarrow> isQuotaGrowOnly x v \<Longrightarrow> list_all (wants_more i v) ws \<Longrightarrow>
   list_all (sizes_in_order vols) ws \<Longrightarrow> list_all (sizes_in_order (vols(i := x))) ws"
  by (induction ws) (auto simp: sizes_in_order_def split: option.splits intro: grow_trans)

lemma applied_kept:
  assumes "list_all2 (row_applied i v) (workspaces d) (workspaces d')"
  shows "pk d' = pk d" "behind d' j x \<longleftrightarrow> behind d j x"
proof -
  have "map ws_id (workspaces d') = map ws_id (workspaces d)"
    by (rule rows_ids [OF assms]) (simp add: row_applied_def)
  then show "pk d' = pk d" by (simp add: pk_def)
  show "behind d' j x \<longleftrightarrow> behind d j x"
    using assms unfolding behind_def
    by (induction rule: list_all2_induct) (auto simp: row_applied_def)
qed

text \<open>A change of one volume leaves the rows still to do, which are others, ahead of theirs.\<close>

lemma quota_inv_called:
  assumes "quota_inv s" "asking s = Some (i, v, a)"
    and "list_all2 (row_applied i v) (workspaces (qdb s)) (workspaces d')"
    and "list_all (sizes_in_order ((volumes s)(i := x))) (workspaces d')"
  shows "quota_inv (s\<lparr>qdb := d', qfailures := f, volumes := (volumes s)(i := x), asking := None\<rparr>)"
proof -
  have "\<forall>r\<in>set (todo s). ws_id r \<noteq> i" using assms(1,2) by (auto simp: quota_inv_def)
  then have "list_all (\<lambda>r. pred_option (\<lambda>c. behind d' (ws_id r) (quota_sizes c) \<and>
      isQuotaGrowOnly (((volumes s)(i := x)) (ws_id r)) (quota_sizes c)) (quota_config r)) (todo s)"
    using assms(1,2) unfolding quota_inv_def list_all_iff applied_kept(2) [OF assms(3)] by simp
  then show ?thesis using assms(1,4) applied_kept(1) [OF assms(3)] by (simp add: quota_inv_def)
qed

lemma asking_behind:
  assumes "quota_inv s" "asking s = Some (i, v, a)"
  shows "list_all (wants_more i v) (workspaces (qdb s))" "isQuotaGrowOnly (volumes s i) v"
  using assms by (simp_all add: quota_inv_def behind_def)

lemma in_order_config: "sizes_in_order vols w \<Longrightarrow> quota_config w \<noteq> None"
  by (auto simp: sizes_in_order_def split: option.splits)

lemma quota_rows_ready:
  assumes "quota_inv s" "r \<in> set (quota_rows (qdb s))" "quota_config r = Some c"
  shows "behind (qdb s) (ws_id r) (quota_sizes c)" "isQuotaGrowOnly (volumes s (ws_id r)) (quota_sizes c)"
proof -
  have r: "r \<in> set (workspaces (qdb s))" using assms(2) by (simp add: quota_rows_def rows_where_def)
  then have "w = r" if "w \<in> set (workspaces (qdb s))" "ws_id w = ws_id r" for w
    using assms(1) that by (auto simp: quota_inv_def pk_def distinct_map dest: inj_onD)
  then show "behind (qdb s) (ws_id r) (quota_sizes c)"
    using assms(3) unfolding behind_def list_all_iff by (metis grow_refl option.simps(5))
  have "sizes_in_order (volumes s) r" using assms(1) r by (auto simp: quota_inv_def list_all_iff)
  then show "isQuotaGrowOnly (volumes s (ws_id r)) (quota_sizes c)"
    using assms(3) by (simp add: sizes_in_order_def split: option.splits)
qed

lemma quota_inv_step:
  assumes "quota_inv s" and "quota_step defaults s t"
  shows "quota_inv t"
  using assms(2)
proof cases
  case (admin_reads i to stored sizes_from)
  then show ?thesis using assms(1)
    by (auto simp: quota_inv_def quota_wanted_def Let_def split: if_splits option.splits)
next
  case (admin_writes i stored sizes_from to admin now d')
  have "isQuotaGrowOnly sizes_from to" using assms(1) admin_writes(2)
    by (auto simp: quota_inv_def list_all_iff)
  moreover have "list_all (\<lambda>w. quota_config w \<noteq> None) (workspaces (qdb s))"
    using assms(1) in_order_config by (fastforce simp: quota_inv_def list_all_iff)
  ultimately have "list_all2 row_grown (workspaces (qdb s)) (workspaces d')"
    using quota_write_grown [OF admin_writes(3)] by blast
  note kept = grown_kept [OF this]
  show ?thesis using assms(1) kept unfolding admin_writes(1)
    by (auto simp: quota_inv_def list_all_iff pred_option_def)
next
  case tick_begins
  have "distinct (map ws_id (quota_rows (qdb s)))"
    using assms(1) by (simp add: quota_inv_def quota_rows_def rows_where_def pk_def distinct_map_filter)
  then show ?thesis using assms(1) quota_rows_ready [OF assms(1)] tick_begins
    by (auto simp: quota_inv_def list_all_iff pred_option_def)
next
  case (row_skipped row rows now)
  then show ?thesis using assms(1) by (simp add: quota_inv_def)
next
  case (asks row rows now v)
  then have "quota_config row \<noteq> None \<and> v = quota_sizes (the (quota_config row))"
    by (auto simp: quota_due_def split: option.splits if_splits)
  then show ?thesis using assms(1) asks by (auto simp: quota_inv_def)
next
  case (grows i v a now f d')
  note rows = applyOne_rows [OF grows(3)]
  show ?thesis unfolding grows(1)
    using grown_in_order [OF rows, of "volumes s"] asking_behind [OF assms(1) grows(2)] assms(1)
    by (intro quota_inv_called [OF assms(1) grows(2) rows]) (simp add: quota_inv_def del: fun_upd_apply)
next
  case (fails i v a errorCode now f d' x)
  note rows = applyOne_rows [OF fails(3)]
  have "workspaces d' = workspaces (qdb s)"
    using fails(3) by (auto simp: applyOne_quota_def)
  then show ?thesis unfolding fails(1)
    using failed_in_order [where vols = "volumes s", OF fails(4,5) asking_behind(1) [OF assms(1) fails(2)]] assms(1)
    by (intro quota_inv_called [OF assms(1) fails(2) rows]) (simp add: quota_inv_def del: fun_upd_apply)
qed

lemma quota_inv_start: "quota_start s \<Longrightarrow> quota_inv s"
  by (simp add: quota_start_def quota_inv_def)

interpretation quota: step_system quota_start "quota_step defaults" quota_inv
  by unfold_locales (rule quota_inv_start, assumption, rule quota_inv_step)

section \<open>Properties\<close>

lemma in_order_sizes:
  assumes "sizes_in_order vols w"
    and "map_option quota_sizes (quota_applied w) = map_option quota_sizes (quota_config w)"
  shows "map_option quota_sizes (quota_config w) = Some (vols (ws_id w))"
  using assms by (auto simp: sizes_in_order_def split: option.splits intro: grow_antisym)

lemma quota_row_left:
  "w \<in> set (workspaces d) \<Longrightarrow> w \<notin> set (quota_rows d) \<Longrightarrow> incus_instance_name w \<noteq> None \<Longrightarrow>
   image_version w \<noteq> None \<Longrightarrow> ws_state w \<noteq> Provisioning \<Longrightarrow> quota_config w \<noteq> None \<Longrightarrow>
   map_option quota_sizes (quota_applied w) = map_option quota_sizes (quota_config w)"
  by (auto simp: quota_rows_def rows_where_def split: option.splits)


definition sample_quota :: "quota option \<Rightarrow> workspace" where
  "sample_quota applied = sample_row\<lparr>image_version := Some ''f'',
     quota_config := Some \<lparr>homeGiB = 20, dockerGiB = 10, recoveryGiB = Some 5\<rparr>, quota_applied := applied\<rparr>"

definition sample_growing :: quota_system where
  "sample_growing = \<lparr>qdb = sample_db [sample_quota (Some \<lparr>homeGiB = 10, dockerGiB = 10, recoveryGiB = None\<rparr>)],
     qfailures = Map.empty, volumes = (\<lambda>_. (10, 10)), reads = [], todo = [], asking = None\<rparr>"

definition sample_asked :: quota_system where
  "sample_asked = sample_growing\<lparr>todo := [], asking := Some (''w1'', (20, 10),
     Some \<lparr>homeGiB = 10, dockerGiB = 10, recoveryGiB = None\<rparr>)\<rparr>"

lemma sample_growing_asks: "(quota_step defaults)\<^sup>*\<^sup>* sample_growing sample_asked"
proof -
  let ?w = "sample_quota (Some \<lparr>homeGiB = 10, dockerGiB = 10, recoveryGiB = None\<rparr>)"
  have w: "incus_instance_name ?w = Some ''ws-1''" "ws_id ?w = ''w1''" "ws_state ?w = Stopped"
    "image_version ?w = Some ''f''" "quota_config ?w = Some \<lparr>homeGiB = 20, dockerGiB = 10, recoveryGiB = Some 5\<rparr>"
    "quota_applied ?w = Some \<lparr>homeGiB = 10, dockerGiB = 10, recoveryGiB = None\<rparr>"
    by (simp_all add: sample_quota_def sample_row_def new_workspace_def)
  then have "quota_rows (qdb sample_growing) = [?w]"
    by (simp add: quota_rows_def rows_where_def sample_growing_def sample_db_def quota_sizes_def)
  then have "quota_step defaults sample_growing (sample_growing\<lparr>todo := [?w]\<rparr>)"
    using tick_begins [of sample_growing defaults] by (simp add: sample_growing_def)
  moreover have "quota_due (qfailures sample_growing) 0 ?w = Some (20, 10)"
    using w by (simp add: quota_due_def quota_sizes_def QuotaConfig_def MAX_QUOTA_GIB_def resting_def sample_growing_def)
  then have "quota_step defaults (sample_growing\<lparr>todo := [?w]\<rparr>) sample_asked"
    using asks [of "sample_growing\<lparr>todo := [?w]\<rparr>" ?w "[]" 0 "(20, 10)" defaults] w
    by (simp add: sample_asked_def) (simp add: sample_growing_def)
  ultimately show ?thesis by (meson converse_rtranclp_into_rtranclp r_into_rtranclp)
qed


definition sample_limits :: limits where
  "sample_limits = \<lparr>lim_cpu = Some 4, lim_memoryMiB = None, lim_processes = None\<rparr>"

definition sample_admin :: auth_user where
  "sample_admin = \<lparr>auth_id = ''a1'', auth_role = Administrator\<rparr>"


end
