(* ===== verification/Js_Map.thy ===== *)
theory Js_Map
  imports Prelude
begin

text \<open>
  A JavaScript \<open>Map\<close>: keys in insertion order. \<open>set\<close> on a key that is there keeps its place,
  \<open>delete\<close> and \<open>set\<close> makes it the newest, and \<open>keys().next().value\<close> is the oldest key.
\<close>

type_synonym ('k, 'v) js_map = "('k \<times> 'v) list"

definition map_get :: "('k, 'v) js_map \<Rightarrow> 'k \<Rightarrow> 'v option" where
  "map_get m k = map_of m k"

fun map_set :: "'k \<Rightarrow> 'v \<Rightarrow> ('k, 'v) js_map \<Rightarrow> ('k, 'v) js_map" where
  "map_set k v [] = [(k, v)]"
| "map_set k v ((j, u) # m) = (if j = k then (k, v) # m else (j, u) # map_set k v m)"

definition map_delete :: "'k \<Rightarrow> ('k, 'v) js_map \<Rightarrow> ('k, 'v) js_map" where
  "map_delete k m = filter (\<lambda>(j, _). j \<noteq> k) m"

fun map_oldest :: "('k, 'v) js_map \<Rightarrow> 'k option" where
  "map_oldest [] = None"
| "map_oldest ((k, _) # _) = Some k"

abbreviation map_ok :: "('k, 'v) js_map \<Rightarrow> bool" where
  "map_ok m \<equiv> distinct (map fst m)"

lemma map_get_Nil [simp]: "map_get [] k = None"
  by (simp add: map_get_def)

lemma map_get_set [simp]: "map_get (map_set k v m) j = (if j = k then Some v else map_get m j)"
  by (induction k v m rule: map_set.induct) (auto simp: map_get_def)

lemma map_get_delete [simp]: "map_get (map_delete k m) j = (if j = k then None else map_get m j)"
  by (induction m) (auto simp: map_get_def map_delete_def)

lemma keys_set: "fst ` set (map_set k v m) = insert k (fst ` set m)"
  by (induction k v m rule: map_set.induct) auto

lemma keys_delete: "fst ` set (map_delete k m) = fst ` set m - {k}"
  by (auto simp: map_delete_def)

lemma map_ok_set [simp]: "map_ok m \<Longrightarrow> map_ok (map_set k v m)"
  by (induction k v m rule: map_set.induct) (auto simp: keys_set)

lemma map_ok_filter [simp]: "map_ok m \<Longrightarrow> map_ok (filter P m)"
  by (simp add: distinct_map_filter)

lemma map_ok_delete [simp]: "map_ok m \<Longrightarrow> map_ok (map_delete k m)"
  by (simp add: map_delete_def)

lemma map_get_filter: "map_ok m \<Longrightarrow> map_get (filter (\<lambda>(j, v). P v) m) k =
    (case map_get m k of Some v \<Rightarrow> if P v then Some v else None | None \<Rightarrow> None)"
proof (induction m)
  case (Cons a m)
  obtain j v where a: "a = (j, v)" by (cases a)
  have "map_get m k = None" if "k = j" using Cons.prems that a by (auto simp: map_get_def map_of_eq_None_iff)
  then show ?case using Cons a by (auto simp: map_get_def split: option.splits)
qed simp

lemma map_get_None: "map_get m k = None \<longleftrightarrow> k \<notin> fst ` set m"
  by (simp add: map_get_def map_of_eq_None_iff)

lemma map_get_in: "map_get m k = Some v \<Longrightarrow> (k, v) \<in> set m"
  by (simp add: map_get_def map_of_SomeD)

lemma map_get_keys: "map_get m k = Some v \<Longrightarrow> k \<in> fst ` set m"
  by (force dest: map_get_in)

lemma length_set: "length (map_set k v m) = (if k \<in> fst ` set m then length m else Suc (length m))"
  by (induction k v m rule: map_set.induct) auto

lemma length_delete:
  "map_ok m \<Longrightarrow> length (map_delete k m) = (if k \<in> fst ` set m then length m - 1 else length m)"
proof (induction m)
  case (Cons a m)
  have "map_delete k m = m" if "k \<notin> fst ` set m" for m
    using that by (force simp: map_delete_def filter_id_conv)
  then show ?case using Cons by (cases a) (auto simp: map_delete_def dest: length_pos_if_in_set)
qed (simp add: map_delete_def)

lemma length_delete_le: "length (map_delete k m) \<le> length m"
  by (simp add: map_delete_def)

lemma map_oldest_in: "m \<noteq> [] \<Longrightarrow> map_oldest m = Some (fst (hd m))"
  by (cases m rule: map_oldest.cases) auto

end
