(* ===== verification/Fixed_Window.thy ===== *)
theory Fixed_Window
  imports Prelude
begin

text \<open>
  The contract of a fixed-window counter, whatever keeps it: a hit in a live window adds one to it,
  a hit after the window ended begins a new one at the time of the hit, and nothing else moves the
  count of a live window. Proved from it, once for the counters in memory and those in the
  database: a window's limit bounds any span of its length by twice the limit, and a key that keeps
  within the limit in every such span is never refused.
\<close>

section \<open>A run of hits and of other work\<close>

datatype ('k, 'e) counter_event = Hit 'k | Other 'e

type_synonym 'k hit = "'k \<times> millis \<times> nat"

text \<open>The hits of a run, each with its time and the count it was answered.\<close>

fun counted :: "('k \<Rightarrow> millis \<Rightarrow> 's \<Rightarrow> nat \<times> 's) \<Rightarrow> ('e \<Rightarrow> millis \<Rightarrow> 's \<Rightarrow> 's) \<Rightarrow>
    (('k, 'e) counter_event \<times> millis) list \<Rightarrow> 's \<Rightarrow> 'k hit list" where
  "counted count_one other [] s = []"
| "counted count_one other ((Hit k, t) # es) s =
     (case count_one k t s of (n, s') \<Rightarrow> (k, t, n) # counted count_one other es s')"
| "counted count_one other ((Other e, t) # es) s = counted count_one other es (other e t s)"

definition hits_in :: "'k \<Rightarrow> millis \<Rightarrow> millis \<Rightarrow> 'k hit list \<Rightarrow> 'k hit list" where
  "hits_in k a b hs = filter (\<lambda>(j, t, n). j = k \<and> a \<le> t \<and> t < b) hs"

definition granted :: "nat \<Rightarrow> 'k hit list \<Rightarrow> nat" where
  "granted limit hs = length (filter (\<lambda>(j, t, n). n \<le> limit) hs)"

lemma hits_in_append [simp]: "hits_in k a b (xs @ ys) = hits_in k a b xs @ hits_in k a b ys"
  by (simp add: hits_in_def)

lemma hits_in_Nil [simp]: "hits_in k a b [] = []"
  by (simp add: hits_in_def)

lemma hits_in_Cons [simp]: "hits_in k a b ((j, t, n) # hs) =
    (if j = k \<and> a \<le> t \<and> t < b then (j, t, n) # hits_in k a b hs else hits_in k a b hs)"
  by (simp add: hits_in_def)

lemma granted_append [simp]: "granted limit (xs @ ys) = granted limit xs + granted limit ys"
  by (simp add: granted_def)

lemma granted_Nil [simp]: "granted limit [] = 0"
  by (simp add: granted_def)

lemma granted_Cons [simp]:
  "granted limit ((j, t, n) # hs) = (if n \<le> limit then Suc (granted limit hs) else granted limit hs)"
  by (simp add: granted_def)

lemma granted_le: "granted limit hs \<le> length hs"
  by (simp add: granted_def)

lemma granted_cut:
  assumes "a \<le> b" and "b \<le> c"
  shows "granted limit (hits_in k a c hs) = granted limit (hits_in k a b hs) + granted limit (hits_in k b c hs)"
  using assms by (induction hs) auto

lemma hits_in_sub: "a \<le> a' \<Longrightarrow> b' \<le> b \<Longrightarrow> granted limit (hits_in k a' b' hs) \<le> granted limit (hits_in k a b hs)"
  by (induction hs) auto

lemma hits_in_length: "a \<le> a' \<Longrightarrow> length (hits_in k a' b hs) \<le> length (hits_in k a b hs)"
  by (induction hs) auto

lemma hits_in_empty: "(\<And>h. h \<in> set hs \<Longrightarrow> fst h = k \<Longrightarrow> fst (snd h) < a) \<Longrightarrow> hits_in k a b hs = []"
  by (force simp: hits_in_def filter_empty_conv)

section \<open>The contract\<close>

locale fixed_window =
  fixes window_of :: "'s \<Rightarrow> 'k \<Rightarrow> (millis \<times> nat) option"
    and count_one :: "'k \<Rightarrow> millis \<Rightarrow> 's \<Rightarrow> nat \<times> 's"
    and other :: "'e \<Rightarrow> millis \<Rightarrow> 's \<Rightarrow> 's"
    and ok :: "'s \<Rightarrow> bool"
    and width :: millis
  assumes width: "0 < width"
    and ok_hit: "ok s \<Longrightarrow> ok (snd (count_one k t s))"
    and ok_other: "ok s \<Longrightarrow> ok (other e t s)"
    and hit_live: "ok s \<Longrightarrow> window_of s k = Some (b, n) \<Longrightarrow> t < b + width \<Longrightarrow>
      fst (count_one k t s) = Suc n \<and> window_of (snd (count_one k t s)) k = Some (b, Suc n)"
    and hit_new: "ok s \<Longrightarrow> \<forall>b n. window_of s k = Some (b, n) \<longrightarrow> b + width \<le> t \<Longrightarrow>
      fst (count_one k t s) = 1 \<and> window_of (snd (count_one k t s)) k = Some (t, 1)"
    and hit_other: "ok s \<Longrightarrow> j \<noteq> k \<Longrightarrow> window_of (snd (count_one k t s)) j = window_of s j \<or>
      (\<exists>b n. window_of s j = Some (b, n) \<and> b + width \<le> t \<and> window_of (snd (count_one k t s)) j = None)"
    and other_live: "ok s \<Longrightarrow> window_of s k = Some (b, n) \<Longrightarrow> t < b + width \<Longrightarrow>
      window_of (other e t s) k = Some (b, n)"
    and other_ended: "ok s \<Longrightarrow> \<forall>b n. window_of s k = Some (b, n) \<longrightarrow> b + width \<le> t \<Longrightarrow>
      window_of (other e t s) k \<in> {window_of s k, None, Some (t, 0)}"
begin

text \<open>
  After the hits \<open>hs\<close>, all made by \<open>t\<close>: \<open>b\<close> is when the last window of \<open>k\<close> began and \<open>n\<close> its
  count. Within the limit are at most \<open>limit\<close> hits of the window, at most \<open>limit\<close> of the span of
  a width before it, and at most twice that of any earlier span.
\<close>

definition tallied :: "nat \<Rightarrow> 'k hit list \<Rightarrow> 'k \<Rightarrow> millis \<Rightarrow> millis \<Rightarrow> nat \<Rightarrow> bool" where
  "tallied limit hs k t b n \<longleftrightarrow>
     (\<forall>h\<in>set hs. fst (snd h) \<le> t \<and> (fst h = k \<longrightarrow> fst (snd h) < b + width)) \<and> b \<le> t \<and>
     length (hits_in k b (b + width) hs) = n \<and>
     granted limit (hits_in k b (b + width) hs) \<le> min n limit \<and>
     (\<forall>a. b - width < a \<longrightarrow> granted limit (hits_in k a b hs) \<le> limit) \<and>
     (\<forall>a. a + width \<le> b \<longrightarrow> granted limit (hits_in k a (a + width) hs) \<le> 2 * limit) \<and>
     (\<forall>h\<in>set hs. fst h = k \<longrightarrow>
        snd (snd h) \<le> length (hits_in k (fst (snd h) - width + 1) (fst (snd h) + 1) hs))"

definition tells :: "'s \<Rightarrow> 'k \<Rightarrow> millis \<Rightarrow> millis \<Rightarrow> nat \<Rightarrow> bool" where
  "tells s k t b n \<longleftrightarrow> window_of s k = Some (b, n) \<or> b + width \<le> t \<and> window_of s k = None"

lemma tallied_after:
  assumes tally: "tallied limit hs k t b n" and c: "b \<le> c"
  shows "granted limit (hits_in k c d hs) \<le> limit"
proof -
  have rest: "hits_in k (b + width) e hs = []" for e
    using tally unfolding tallied_def by (intro hits_in_empty) blast
  have "granted limit (hits_in k c d hs) \<le> granted limit (hits_in k b (max d (b + width)) hs)"
    using c by (intro hits_in_sub) auto
  also have "\<dots> = granted limit (hits_in k b (b + width) hs)"
    using granted_cut [of b "b + width" "max d (b + width)" limit k hs] width rest by simp
  also have "\<dots> \<le> limit" using tally unfolding tallied_def by simp
  finally show ?thesis .
qed

lemma tallied_span:
  assumes tally: "tallied limit hs k t b n"
  shows "granted limit (hits_in k a (a + width) hs) \<le> 2 * limit"
proof -
  consider "a + width \<le> b" | "a + width > b" "a < b" | "b \<le> a" by linarith
  then show ?thesis
  proof cases
    case 2
    then have "granted limit (hits_in k a b hs) \<le> limit" using tally unfolding tallied_def by simp
    then show ?thesis
      using 2 granted_cut [of a b "a + width" limit k hs] tallied_after [OF tally, of b "a + width"] by simp
  qed (use tally tallied_after [OF tally, of a "a + width"] in \<open>auto simp: tallied_def\<close>)
qed

lemma hits_in_longer: "length (hits_in k a b hs) \<le> length (hits_in k a b (hs @ hs'))"
  by simp

lemma tallied_later: "tallied limit hs k t b n \<Longrightarrow> t \<le> t' \<Longrightarrow> tallied limit hs k t' b n"
  unfolding tallied_def by force

lemma tallied_other_key:
  assumes "tallied limit hs k t b n" and "t \<le> t'" and "j \<noteq> k"
  shows "tallied limit (hs @ [(j, t', m)]) k t' b n"
proof -
  have "hits_in k c d (hs @ [(j, t', m)]) = hits_in k c d hs" for c d using assms(3) by simp
  then show ?thesis using tallied_later [OF assms(1,2)] assms(3) unfolding tallied_def by auto
qed

lemma tallied_live:
  assumes tally: "tallied limit hs k t b n" and "t \<le> t'" and live: "t' < b + width"
  shows "tallied limit (hs @ [(k, t', Suc n)]) k t' b (Suc n)"
proof -
  let ?hs = "hs @ [(k, t', Suc n)]"
  have b: "b \<le> t'" using assms unfolding tallied_def by linarith
  have n: "length (hits_in k b (b + width) ?hs) = Suc n"
    using tally b live unfolding tallied_def by simp
  have "length (hits_in k b (t' + 1) ?hs) = Suc n"
  proof -
    have "hits_in k b (t' + 1) hs = hits_in k b (b + width) hs"
      unfolding hits_in_def using tally assms(2,3) b unfolding tallied_def by (intro filter_cong) fastforce+
    then show ?thesis using tally b live unfolding tallied_def by simp
  qed
  moreover have "length (hits_in k b (t' + 1) ?hs) \<le> length (hits_in k (t' - width + 1) (t' + 1) ?hs)"
    using live by (intro hits_in_length) simp
  ultimately have new: "Suc n \<le> length (hits_in k (t' - width + 1) (t' + 1) ?hs)" by simp
  have "\<forall>h\<in>set ?hs. fst h = k \<longrightarrow>
      snd (snd h) \<le> length (hits_in k (fst (snd h) - width + 1) (fst (snd h) + 1) ?hs)"
    using tally new hits_in_longer order_trans unfolding tallied_def by fastforce
  moreover have "\<forall>h\<in>set ?hs. fst (snd h) \<le> t' \<and> (fst h = k \<longrightarrow> fst (snd h) < b + width)"
    using tally assms(2) live unfolding tallied_def by force
  moreover have "granted limit (hits_in k b (b + width) ?hs) \<le> min (Suc n) limit"
    using tally b live unfolding tallied_def by auto
  moreover have "hits_in k a d ?hs = hits_in k a d hs" if "d \<le> b" for a d
    using that b by simp
  ultimately show ?thesis using tally b n unfolding tallied_def by auto
qed

lemma tallied_reset:
  assumes tally: "tallied limit hs k t b n" and "t \<le> t'" and ended: "b + width \<le> t'"
  shows "tallied limit hs k t' t' 0"
proof -
  have "hits_in k t' (t' + width) hs = []"
    using tally ended unfolding tallied_def by (intro hits_in_empty) force
  moreover have "granted limit (hits_in k a t' hs) \<le> limit" if "t' - width < a" for a
    using that ended by (intro tallied_after [OF tally]) simp
  ultimately show ?thesis
    using tally tallied_span [OF tally] assms(2) ended width unfolding tallied_def by force
qed

lemma tallied_start: "tallied limit [] k t (t - width) 0"
  using width by (simp add: tallied_def)

section \<open>Runs\<close>

lemma tells_hit:
  assumes "ok s" and tells: "tells s k t b n" and tally: "tallied limit hs k t b n" and "t \<le> t'"
    and hit: "count_one j t' s = (m, s')"
  shows "\<exists>b' n'. tells s' k t' b' n' \<and> tallied limit (hs @ [(j, t', m)]) k t' b' n'"
proof (cases "j = k")
  case True
  show ?thesis
  proof (cases "t' < b + width")
    case live: True
    then have "window_of s k = Some (b, n)" using tells assms(4) unfolding tells_def by auto
    from hit_live [OF \<open>ok s\<close> this live] have "m = Suc n" "window_of s' k = Some (b, Suc n)"
      using hit True by auto
    then show ?thesis using tallied_live [OF tally assms(4) live] True by (auto simp: tells_def)
  next
    case False
    then have "\<forall>d e. window_of s k = Some (d, e) \<longrightarrow> d + width \<le> t'"
      using tells by (auto simp: tells_def)
    from hit_new [OF \<open>ok s\<close> this] have "m = 1" "window_of s' k = Some (t', 1)"
      using hit True by auto
    moreover have "tallied limit hs k t' t' 0"
      using False by (intro tallied_reset [OF tally assms(4)]) simp
    then have "tallied limit (hs @ [(k, t', Suc 0)]) k t' t' (Suc 0)"
      using width by (intro tallied_live) auto
    ultimately show ?thesis using True by (auto simp: tells_def)
  qed
next
  case False
  then have "tells s' k t' b n" using hit_other [OF \<open>ok s\<close> not_sym [OF False], of t'] hit tells assms(4)
    by (auto simp: tells_def)
  then show ?thesis using tallied_other_key [OF tally assms(4) False] by blast
qed

lemma tells_other:
  assumes "ok s" and tells: "tells s k t b n" and tally: "tallied limit hs k t b n" and "t \<le> t'"
  shows "\<exists>b' n'. tells (other e t' s) k t' b' n' \<and> tallied limit hs k t' b' n'"
proof (cases "t' < b + width")
  case live: True
  then have "window_of s k = Some (b, n)" using tells assms(4) unfolding tells_def by auto
  from other_live [OF \<open>ok s\<close> this live]
  show ?thesis using tallied_later [OF tally assms(4)] by (auto simp: tells_def)
next
  case False
  then have "\<forall>d c. window_of s k = Some (d, c) \<longrightarrow> d + width \<le> t'"
    using tells by (auto simp: tells_def)
  from other_ended [OF \<open>ok s\<close> this, of e] consider
      "tells (other e t' s) k t' b n" | "tells (other e t' s) k t' t' 0"
    using tells False assms(4) by (auto simp: tells_def)
  then show ?thesis
  proof cases
    case 1
    then show ?thesis using tallied_later [OF tally assms(4)] by blast
  next
    case 2
    then show ?thesis using tallied_reset [OF tally assms(4)] False by fastforce
  qed
qed

lemma run_tallied:
  assumes "ok s" and "tells s k t b n" and "tallied limit hs k t b n"
    and "sorted (t # map snd es)"
  shows "\<exists>t' b' n'. tallied limit (hs @ counted count_one other es s) k t' b' n'"
  using assms
proof (induction es arbitrary: s hs t b n)
  case (Cons e es)
  obtain ev t' where e: "e = (ev, t')" by (cases e)
  have t: "t \<le> t'" "sorted (t' # map snd es)" using Cons.prems(4) e by auto
  show ?case
  proof (cases ev)
    case (Hit j)
    obtain m s' where hit: "count_one j t' s = (m, s')" by fastforce
    from tells_hit [OF Cons.prems(1-3) t(1) hit] obtain b' n' where
      "tells s' k t' b' n'" "tallied limit (hs @ [(j, t', m)]) k t' b' n'" by blast
    moreover have "ok s'" using ok_hit [OF Cons.prems(1), of j t'] hit by simp
    ultimately show ?thesis using Cons.IH [of s' t' b' n' "hs @ [(j, t', m)]"] t e Hit hit by simp
  next
    case (Other x)
    from tells_other [OF Cons.prems(1-3) t(1)] obtain b' n' where
      "tells (other x t' s) k t' b' n'" "tallied limit hs k t' b' n'" by blast
    then show ?thesis using Cons.IH [of "other x t' s" t' b' n' hs] ok_other [OF Cons.prems(1)] t e Other
      by simp
  qed
qed (simp, blast)

lemma fresh_run_tallied:
  assumes "ok s" and "window_of s k = None" and "sorted (map snd es)"
  shows "\<exists>t b n. tallied limit (counted count_one other es s) k t b n"
proof (cases es)
  case Nil
  then show ?thesis using tallied_start [of limit k 0] by (simp only: counted.simps) blast
next
  case (Cons e es')
  let ?t = "snd e"
  have "tells s k ?t (?t - width) 0" using assms(2) by (simp add: tells_def)
  from run_tallied [OF assms(1) this tallied_start] assms(3) Cons show ?thesis by fastforce
qed

text \<open>In any span of a width, at most twice the limit of hits are within it.\<close>

lemma span_bound:
  assumes "ok s" and "window_of s k = None" and "sorted (map snd es)"
  shows "granted limit (hits_in k a (a + width) (counted count_one other es s)) \<le> 2 * limit"
  using fresh_run_tallied [OF assms] tallied_span by blast

text \<open>A hit is answered with no more than the hits of its key in the last width.\<close>

lemma count_recent:
  assumes "ok s" and "window_of s k = None" and "sorted (map snd es)"
    and "(k, t, n) \<in> set (counted count_one other es s)"
  shows "n \<le> length (hits_in k (t - width + 1) (t + 1) (counted count_one other es s))"
  using fresh_run_tallied [OF assms(1-3), of 0] assms(4) unfolding tallied_def by force

end

end
