(* ===== verification/Rate_Limit.thy ===== *)
theory Rate_Limit
  imports Js_Map Fixed_Window
begin

text \<open>
  \<open>apps/api/src/rate-limit.ts\<close>: fixed-window request counters kept in the API process, the
  per-user limits made of them, and the guard of anonymous requests and session cookies. The
  counter meets the contract of \<open>Fixed_Window\<close>; that it drops old windows only now and then is not
  to be seen from outside.
\<close>

section \<open>The counter\<close>

record window =
  startedAt :: millis
  win_count :: nat
  reported :: bool

record 'k counter =
  ctr_limit :: nat
  windowMs :: millis
  windows :: "('k, window) js_map"
  lastSweep :: millis

definition createCounter :: "nat \<Rightarrow> millis \<Rightarrow> millis \<Rightarrow> 'k counter" where
  "createCounter limit ms t = \<lparr>ctr_limit = limit, windowMs = ms, windows = [], lastSweep = t\<rparr>"

definition swept :: "millis \<Rightarrow> 'k counter \<Rightarrow> 'k counter" where
  "swept t c =
     (if t - lastSweep c \<ge> windowMs c
      then c\<lparr>windows := filter (\<lambda>(k, w). \<not> t - startedAt w \<ge> windowMs c) (windows c), lastSweep := t\<rparr>
      else c)"

definition current :: "'k \<Rightarrow> millis \<Rightarrow> 'k counter \<Rightarrow> window \<times> 'k counter" where
  "current key t c =
     (let c = swept t c; fresh = \<lparr>startedAt = t, win_count = 0, reported = False\<rparr> in
      case map_get (windows c) key of
        None \<Rightarrow> (fresh, c\<lparr>windows := map_set key fresh (windows c)\<rparr>)
      | Some w \<Rightarrow>
          if t - startedAt w \<ge> windowMs c
          then (fresh, c\<lparr>windows := map_set key fresh (windows c)\<rparr>)
          else (w, c))"

text \<open>The window a hit returns is the one in the map; a write to it is a write to the map.\<close>

definition hit :: "'k \<Rightarrow> millis \<Rightarrow> 'k counter \<Rightarrow> window \<times> 'k counter" where
  "hit key t c =
     (case current key t c of
        (w, c) \<Rightarrow> let w = w\<lparr>win_count := win_count w + 1\<rparr> in (w, c\<lparr>windows := map_set key w (windows c)\<rparr>))"

definition peek :: "'k \<Rightarrow> millis \<Rightarrow> 'k counter \<Rightarrow> window \<times> 'k counter" where
  "peek = current"

text \<open>\<open>Math.ceil (x / 1000)\<close> on whole milliseconds.\<close>

definition ceil_seconds :: "int \<Rightarrow> int" where
  "ceil_seconds x = - (- x div 1000)"

definition retryAfterSeconds :: "window \<Rightarrow> millis \<Rightarrow> 'k counter \<Rightarrow> int" where
  "retryAfterSeconds w t c = max 1 (ceil_seconds (startedAt w + windowMs c - t))"

record limit_decision =
  allowed :: bool
  firstRefusal :: bool
  retryAfter :: int

text \<open>The clock is read for the hit, and again for the answer.\<close>

definition check :: "'k \<Rightarrow> millis \<Rightarrow> millis \<Rightarrow> 'k counter \<Rightarrow> limit_decision \<times> 'k counter" where
  "check key t later c =
     (case hit key t c of
        (w, c) \<Rightarrow>
          if win_count w \<le> ctr_limit c
          then (\<lparr>allowed = True, firstRefusal = False, retryAfter = 0\<rparr>, c)
          else (\<lparr>allowed = False, firstRefusal = \<not> reported w, retryAfter = retryAfterSeconds w later c\<rparr>,
                c\<lparr>windows := map_set key (w\<lparr>reported := True\<rparr>) (windows c)\<rparr>))"

section \<open>Per-user limits\<close>

datatype limit_answer = Through | TooMany (retry_header: int) (warned: bool)

definition allowUser :: "string option \<Rightarrow> millis \<Rightarrow> millis \<Rightarrow> string counter \<Rightarrow> limit_answer \<times> string counter" where
  "allowUser userId t later c =
     (case userId of
        None \<Rightarrow> (Through, c)
      | Some u \<Rightarrow>
          (case check u t later c of
             (d, c) \<Rightarrow> (if allowed d then Through else TooMany (retryAfter d) (firstRefusal d), c)))"

definition MINUTE_MS :: millis where "MINUTE_MS = 60000"
definition TEST_ALERTS_PER_MINUTE :: nat where "TEST_ALERTS_PER_MINUTE = 5"
definition LIVE_HELP_SOCKETS_PER_MINUTE :: nat where "LIVE_HELP_SOCKETS_PER_MINUTE = 20"

definition fileWriteLimit :: "nat \<Rightarrow> millis \<Rightarrow> string counter" where
  "fileWriteLimit perMinute t = createCounter perMinute MINUTE_MS t"

definition testAlertLimit :: "millis \<Rightarrow> string counter" where
  "testAlertLimit t = createCounter TEST_ALERTS_PER_MINUTE MINUTE_MS t"

definition lifecycleLimit :: "nat \<Rightarrow> millis \<Rightarrow> string counter" where
  "lifecycleLimit perMinute t = createCounter perMinute MINUTE_MS t"

definition liveHelpSocketLimit :: "millis \<Rightarrow> string counter" where
  "liveHelpSocketLimit t = createCounter LIVE_HELP_SOCKETS_PER_MINUTE MINUTE_MS t"

section \<open>Made-up cookies\<close>

definition RECENT_MISS_MS :: millis where "RECENT_MISS_MS = MINUTE_MS"
definition RECENT_MISSES_PER_ADDRESS :: nat where "RECENT_MISSES_PER_ADDRESS = 16"
definition RECENT_MISS_ADDRESSES :: nat where "RECENT_MISS_ADDRESSES = 1024"

type_synonym misses = "(string, (string, millis) js_map) js_map"

definition drop_oldest :: "('k, 'v) js_map \<Rightarrow> ('k, 'v) js_map" where
  "drop_oldest m = (case map_oldest m of None \<Rightarrow> m | Some k \<Rightarrow> map_delete k m)"

text \<open>
  \<open>missKey\<close>, the SHA-256 of the cookie, is an argument. An address already there is deleted first,
  so that setting it makes it the newest.
\<close>

definition add_miss :: "(string \<Rightarrow> string) \<Rightarrow> string \<Rightarrow> string \<Rightarrow> millis \<Rightarrow> misses \<Rightarrow> misses" where
  "add_miss missKey address token t byAddress =
     (let (found, byAddress) =
        (case map_get byAddress address of
           Some found \<Rightarrow> (found, map_delete address byAddress)
         | None \<Rightarrow>
             ([], if length byAddress \<ge> RECENT_MISS_ADDRESSES then drop_oldest byAddress else byAddress));
        hash = missKey token;
        found = map_delete hash found;
        found = (if length found \<ge> RECENT_MISSES_PER_ADDRESS then drop_oldest found else found)
      in map_set address (map_set hash (t + RECENT_MISS_MS) found) byAddress)"

definition has_miss :: "(string \<Rightarrow> string) \<Rightarrow> string \<Rightarrow> string \<Rightarrow> millis \<Rightarrow> misses \<Rightarrow> bool \<times> misses" where
  "has_miss missKey address token t byAddress =
     (case map_get byAddress address of
        None \<Rightarrow> (False, byAddress)
      | Some found \<Rightarrow>
          (case map_get found (missKey token) of
             None \<Rightarrow> (False, byAddress)
           | Some expiresAt \<Rightarrow>
               if expiresAt > t then (True, byAddress)
               else (False, map_set address (map_delete (missKey token) found) byAddress)))"

section \<open>The guard of anonymous requests\<close>

definition ANONYMOUS_ROUTES :: "string list" where
  "ANONYMOUS_ROUTES =
     [''GET /health'', ''GET /auth/login'', ''HEAD /auth/login'', ''GET /auth/callback'',
      ''HEAD /auth/callback'', ''POST /auth/logout'', ''POST /auth/password-reset'',
      ''POST /auth/password-reset/complete'', ''GET /edge/signin-throttle'',
      ''HEAD /edge/signin-throttle'', ''POST /dex/auth/*'',
      ''GET /.well-known/portikus-preflight/:nonce'', ''HEAD /.well-known/portikus-preflight/:nonce'',
      ''GET /lti/login'', ''HEAD /lti/login'', ''POST /lti/login'', ''POST /lti/launch'',
      ''POST /lti/deep-link'', ''GET /lti/jwks'', ''HEAD /lti/jwks'',
      ''GET /__portikus/bootstrap'', ''HEAD /__portikus/bootstrap'', ''GET /__portikus/reset'',
      ''HEAD /__portikus/reset'']"

definition isAnonymousRoute :: "string \<Rightarrow> string option \<Rightarrow> bool" where
  "isAnonymousRoute meth url \<longleftrightarrow> meth @ '' '' @ nullish url '''' \<in> set ANONYMOUS_ROUTES"

definition createAnonymousCounter :: "nat \<Rightarrow> millis \<Rightarrow> string counter" where
  "createAnonymousCounter perMinute t = createCounter perMinute MINUTE_MS t"

record session_guard =
  guard_counter :: "string counter"
  guard_misses :: misses

definition new_guard :: "nat \<Rightarrow> millis \<Rightarrow> session_guard" where
  "new_guard perMinute t = \<lparr>guard_counter = createAnonymousCounter perMinute t, guard_misses = []\<rparr>"

text \<open>\<open>key\<close> is the \<open>addressKey\<close> of the client; the answer is whether the request goes on.\<close>

definition allow_anonymous :: "string \<Rightarrow> millis \<Rightarrow> millis \<Rightarrow> session_guard \<Rightarrow> limit_answer \<times> session_guard" where
  "allow_anonymous key t later g =
     (case check key t later (guard_counter g) of
        (d, c) \<Rightarrow> (if allowed d then Through else TooMany (retryAfter d) (firstRefusal d),
                   g\<lparr>guard_counter := c\<rparr>))"

definition on_request :: "bool \<Rightarrow> string \<Rightarrow> millis \<Rightarrow> millis \<Rightarrow> session_guard \<Rightarrow> limit_answer \<times> session_guard" where
  "on_request anonymous key t later g =
     (if anonymous then allow_anonymous key t later g else (Through, g))"

definition beforeLookup :: "(string \<Rightarrow> string) \<Rightarrow> bool \<Rightarrow> string \<Rightarrow> string \<Rightarrow> millis \<Rightarrow> millis \<Rightarrow>
    session_guard \<Rightarrow> limit_answer \<times> session_guard" where
  "beforeLookup missKey anonymous key token t later g =
     (case peek key t (guard_counter g) of
        (w, c) \<Rightarrow>
          let g = g\<lparr>guard_counter := c\<rparr> in
          if win_count w < ctr_limit c then (Through, g)
          else (case has_miss missKey key token t (guard_misses g) of
             (missed, ms) \<Rightarrow>
               let g = g\<lparr>guard_misses := ms\<rparr> in
               if \<not> missed then (Through, g)
               else if anonymous then (Through, g)
               else allow_anonymous key t later g))"

definition unknownSession :: "(string \<Rightarrow> string) \<Rightarrow> bool \<Rightarrow> string \<Rightarrow> string \<Rightarrow> millis \<Rightarrow> millis \<Rightarrow>
    session_guard \<Rightarrow> limit_answer \<times> session_guard" where
  "unknownSession missKey anonymous key token t later g =
     (let g = g\<lparr>guard_misses := add_miss missKey key token t (guard_misses g)\<rparr> in
      if anonymous then (Through, g) else allow_anonymous key t later g)"

section \<open>The counter keeps its contract\<close>

lemmas counter_defs = hit_def current_def swept_def Let_def

definition counter_ok :: "'k counter \<Rightarrow> bool" where
  "counter_ok c \<longleftrightarrow> map_ok (windows c)"

definition window_at :: "'k counter \<Rightarrow> 'k \<Rightarrow> (millis \<times> nat) option" where
  "window_at c k = map_option (\<lambda>w. (startedAt w, win_count w)) (map_get (windows c) k)"

lemma counter_config [simp]:
  "windowMs (swept t c) = windowMs c" "ctr_limit (swept t c) = ctr_limit c"
  "windowMs (snd (current k t c)) = windowMs c" "ctr_limit (snd (current k t c)) = ctr_limit c"
  "windowMs (snd (hit k t c)) = windowMs c" "ctr_limit (snd (hit k t c)) = ctr_limit c"
  "windowMs (snd (check k t t' c)) = windowMs c" "ctr_limit (snd (check k t t' c)) = ctr_limit c"
  by (auto simp: counter_defs check_def split: option.splits prod.splits)

lemma swept_ok: "counter_ok c \<Longrightarrow> counter_ok (swept t c)"
  by (simp add: swept_def counter_ok_def)

lemma swept_window: "counter_ok c \<Longrightarrow> map_get (windows (swept t c)) k =
    (case map_get (windows c) k of
       Some w \<Rightarrow> if windowMs c \<le> t - lastSweep c \<and> startedAt w + windowMs c \<le> t then None else Some w
     | None \<Rightarrow> None)"
  by (auto simp: swept_def counter_ok_def map_get_filter split: option.splits)

lemma swept_at: "counter_ok c \<Longrightarrow> window_at (swept t c) k =
    (case window_at c k of
       Some (b, n) \<Rightarrow> if windowMs c \<le> t - lastSweep c \<and> b + windowMs c \<le> t then None else Some (b, n)
     | None \<Rightarrow> None)"
  by (simp add: window_at_def swept_window split: option.splits)

text \<open>The window of the key that is asked for, and the other windows.\<close>

definition live_window :: "'k counter \<Rightarrow> millis \<Rightarrow> 'k \<Rightarrow> window" where
  "live_window c t k =
     (case map_get (windows c) k of
        Some w \<Rightarrow> if t < startedAt w + windowMs c then w
                  else \<lparr>startedAt = t, win_count = 0, reported = False\<rparr>
      | None \<Rightarrow> \<lparr>startedAt = t, win_count = 0, reported = False\<rparr>)"

lemma current_window: "counter_ok c \<Longrightarrow> fst (current k t c) = live_window c t k"
  by (auto simp: current_def Let_def swept_window live_window_def split: option.splits)

lemma current_windows: "counter_ok c \<Longrightarrow> map_get (windows (snd (current k t c))) j =
    (if j = k then Some (live_window c t k) else map_get (windows (swept t c)) j)"
  by (auto simp: current_def Let_def swept_window live_window_def split: option.splits)

lemma current_ok: "counter_ok c \<Longrightarrow> counter_ok (snd (current k t c))"
  by (auto simp: current_def Let_def counter_ok_def swept_def split: option.splits)

lemma hit_window:
  "counter_ok c \<Longrightarrow> fst (hit k t c) = (live_window c t k)\<lparr>win_count := Suc (win_count (live_window c t k))\<rparr>"
  using current_window [of c k t] by (auto simp: hit_def Let_def split: prod.splits)

lemma hit_ok: "counter_ok c \<Longrightarrow> counter_ok (snd (hit k t c))"
  using current_ok [of c k t] by (auto simp: hit_def Let_def counter_ok_def split: prod.splits)

lemma check_ok: "counter_ok c \<Longrightarrow> counter_ok (snd (check k t t' c))"
  using hit_ok [of c k t] by (auto simp: check_def counter_ok_def split: prod.splits)

lemma hit_windows: "counter_ok c \<Longrightarrow> map_get (windows (snd (hit k t c))) j =
    (if j = k then Some (fst (hit k t c)) else map_get (windows (swept t c)) j)"
  using current_windows [of c k t] by (auto simp: hit_def Let_def split: prod.splits)

lemma check_windows: "counter_ok c \<Longrightarrow> window_at (snd (check k t t' c)) j =
    (if j = k then Some (startedAt (live_window c t k), Suc (win_count (live_window c t k)))
     else window_at (swept t c) j)"
  using hit_windows [of c k t] hit_window [of c k t]
  by (auto simp: check_def window_at_def split: prod.splits)

lemma check_allowed:
  "counter_ok c \<Longrightarrow> allowed (fst (check k t t' c)) \<longleftrightarrow> Suc (win_count (live_window c t k)) \<le> ctr_limit c"
  using hit_window [of c k t] counter_config(6) [of k t c]
  by (auto simp: check_def simp del: counter_config split: prod.splits)

lemma live_window_live:
  "window_at c k = Some (b, n) \<Longrightarrow> t < b + windowMs c \<Longrightarrow>
    startedAt (live_window c t k) = b \<and> win_count (live_window c t k) = n"
  by (auto simp: window_at_def live_window_def)

lemma live_window_new:
  "\<forall>b n. window_at c k = Some (b, n) \<longrightarrow> b + windowMs c \<le> t \<Longrightarrow>
    startedAt (live_window c t k) = t \<and> win_count (live_window c t k) = 0"
  by (auto simp: window_at_def live_window_def split: option.splits)

text \<open>One check, as the contract counts it.\<close>

definition counted_check :: "'k \<Rightarrow> millis \<Rightarrow> 'k counter \<Rightarrow> nat \<times> 'k counter" where
  "counted_check k t c = (win_count (fst (hit k t c)), snd (check k t t c))"

definition counter_of :: "nat \<Rightarrow> millis \<Rightarrow> 'k counter \<Rightarrow> bool" where
  "counter_of limit ms c \<longleftrightarrow> counter_ok c \<and> ctr_limit c = limit \<and> windowMs c = ms"

lemma counter_window:
  assumes "0 < ms"
  shows "fixed_window window_at counted_check (\<lambda>k t c. snd (peek k t c)) (counter_of limit ms) ms"
proof
  fix c :: "'k counter" and k t b n and j :: 'k
  assume ok: "counter_of limit ms c"
  then have c: "counter_ok c" "windowMs c = ms" by (simp_all add: counter_of_def)
  show "counter_of limit ms (snd (counted_check k t c))"
    using ok by (simp add: counted_check_def counter_of_def check_ok)
  show "counter_of limit ms (snd (peek k t c))"
    using ok by (simp add: peek_def counter_of_def current_ok)
  show "fst (counted_check k t c) = Suc n \<and> window_at (snd (counted_check k t c)) k = Some (b, Suc n)"
    if "window_at c k = Some (b, n)" "t < b + ms"
    using live_window_live [OF that(1)] that(2) c by (simp add: counted_check_def check_windows hit_window)
  show "fst (counted_check k t c) = 1 \<and> window_at (snd (counted_check k t c)) k = Some (t, 1)"
    if "\<forall>b n. window_at c k = Some (b, n) \<longrightarrow> b + ms \<le> t"
    using live_window_new [of c k t] that c by (simp add: counted_check_def check_windows hit_window)
  show "window_at (snd (counted_check k t c)) j = window_at c j \<or>
      (\<exists>b n. window_at c j = Some (b, n) \<and> b + ms \<le> t \<and> window_at (snd (counted_check k t c)) j = None)"
    if "j \<noteq> k"
    using that c by (auto simp: counted_check_def check_windows swept_at split: option.splits)
  show "window_at (snd (peek j t c)) k = Some (b, n)" if "window_at c k = Some (b, n)" "t < b + ms"
    using that c by (auto simp: peek_def window_at_def current_windows swept_window live_window_def)
  show "window_at (snd (peek j t c)) k \<in> {window_at c k, None, Some (t, 0)}"
    if "\<forall>b n. window_at c k = Some (b, n) \<longrightarrow> b + ms \<le> t"
    using that c
    by (auto simp: peek_def window_at_def current_windows swept_window live_window_def split: option.splits)
qed (rule assms)

interpretation minute: fixed_window window_at counted_check "\<lambda>k t c. snd (peek k t c)"
    "counter_of limit MINUTE_MS" MINUTE_MS for limit
  by (rule counter_window) (simp add: MINUTE_MS_def)

section \<open>What a run of checks decides\<close>

text \<open>A run of checks (\<open>Hit\<close>) and peeks (\<open>Other\<close>), each at a time: key, time and whether allowed.\<close>

fun decisions :: "(('k, 'k) counter_event \<times> millis) list \<Rightarrow> 'k counter \<Rightarrow> ('k \<times> millis \<times> bool) list" where
  "decisions [] c = []"
| "decisions ((Hit k, t) # es) c =
     (case check k t t c of (d, c) \<Rightarrow> (k, t, allowed d) # decisions es c)"
| "decisions ((Other k, t) # es) c = decisions es (snd (peek k t c))"

lemma decisions_counted:
  "counter_ok c \<Longrightarrow> decisions es c =
    map (\<lambda>(k, t, n). (k, t, n \<le> ctr_limit c)) (counted counted_check (\<lambda>k t c. snd (peek k t c)) es c)"
proof (induction es c rule: decisions.induct)
  case (2 k t es c)
  obtain d c' where check: "check k t t c = (d, c')" by fastforce
  then have "counter_ok c'" "ctr_limit c' = ctr_limit c" "allowed d \<longleftrightarrow> win_count (fst (hit k t c)) \<le> ctr_limit c"
    using 2(2) check_ok [of c k t t] counter_config(8) [of k t t c] check_allowed [of c k t t] hit_window [of c k t]
    by simp_all
  then show ?case using 2(1) [OF check [symmetric]] check by (simp add: counted_check_def)
qed (simp_all add: peek_def current_ok)

lemma fresh_counter: "counter_of limit ms (createCounter limit ms t)" "window_at (createCounter limit ms t) k = None"
  by (simp_all add: counter_of_def createCounter_def counter_ok_def window_at_def)

definition allowed_between :: "'k \<Rightarrow> millis \<Rightarrow> millis \<Rightarrow> ('k \<times> millis \<times> bool) list \<Rightarrow> nat" where
  "allowed_between k a b ds = length (filter (\<lambda>(j, t, y). j = k \<and> a \<le> t \<and> t < b \<and> y) ds)"

definition tries_between :: "'k \<Rightarrow> millis \<Rightarrow> millis \<Rightarrow> ('k \<times> millis \<times> bool) list \<Rightarrow> nat" where
  "tries_between k a b ds = length (filter (\<lambda>(j, t, y). j = k \<and> a \<le> t \<and> t < b) ds)"

lemma between_counted:
  "allowed_between k a b (map (\<lambda>(k, t, n). (k, t, n \<le> limit)) hs) = granted limit (hits_in k a b hs)"
  "tries_between k a b (map (\<lambda>(k, t, n). (k, t, n \<le> limit)) hs) = length (hits_in k a b hs)"
  by (simp_all add: allowed_between_def tries_between_def granted_def hits_in_def filter_map o_def
      case_prod_unfold conj_ac)

text \<open>
  C36: However the requests of all keys mix, whatever is peeked at in between and whenever old
  windows are swept, a counter lets a key through at most twice its limit in any span as long as
  its window, and it refuses a request only when the key made more than the limit of requests in
  the window's length before it.
\<close>

theorem limit_holds:
  fixes es :: "(('k, 'k) counter_event \<times> millis) list" and limit :: nat and t0 :: millis
  assumes "0 < ms" and "sorted (map snd es)"
  defines "ds \<equiv> decisions es (createCounter limit ms t0)"
  shows "allowed_between k a (a + ms) ds \<le> 2 * limit \<and>
    (\<forall>t. (k, t, False) \<in> set ds \<longrightarrow> limit < tries_between k (t - ms + 1) (t + 1) ds)"
proof -
  let ?hs = "counted counted_check (\<lambda>k t c. snd (peek k t c)) es (createCounter limit ms t0)"
  have ds: "ds = map (\<lambda>(k, t, n). (k, t, n \<le> limit)) ?hs"
    unfolding ds_def by (subst decisions_counted) (simp_all add: createCounter_def counter_ok_def)
  note window = counter_window [OF assms(1)] fresh_counter assms(2)
  have "n \<le> length (hits_in k (t - ms + 1) (t + 1) ?hs)" if "(k, t, n) \<in> set ?hs" for t n
    using fixed_window.count_recent [OF window that] .
  then show ?thesis
    using fixed_window.span_bound [OF window] by (fastforce simp: ds between_counted)
qed

definition sample_run :: "((string, string) counter_event \<times> millis) list" where
  "sample_run = [(Hit ''u'', 0), (Other ''u'', 5), (Hit ''u'', 7), (Hit ''u'', 9), (Hit ''u'', 12)]"

lemma sample_decisions: "decisions sample_run (createCounter 2 10 0) =
    [(''u'', 0, True), (''u'', 7, True), (''u'', 9, False), (''u'', 12, True)]"
  by code_simp

lemma limit_holds_witness:
  "decisions sample_run (createCounter 2 10 0) =
     [(''u'', 0, True), (''u'', 7, True), (''u'', 9, False), (''u'', 12, True)] \<and>
   allowed_between ''u'' 0 (0 + 10) (decisions sample_run (createCounter 2 10 0)) \<le> 2 * 2"
proof -
  have "sorted (map snd sample_run)" by code_simp
  from limit_holds [OF _ this, of 10 "''u''" 0 2 0] show ?thesis by (simp add: sample_decisions)
qed

section \<open>Sweeping old windows is not to be seen\<close>

text \<open>The same counter without sweeps: a function from keys to windows that only grows.\<close>

definition plain_window :: "millis \<Rightarrow> millis \<Rightarrow> ('k \<Rightarrow> window option) \<Rightarrow> 'k \<Rightarrow> window" where
  "plain_window ms t m k =
     (case m k of
        Some w \<Rightarrow> if t < startedAt w + ms then w else \<lparr>startedAt = t, win_count = 0, reported = False\<rparr>
      | None \<Rightarrow> \<lparr>startedAt = t, win_count = 0, reported = False\<rparr>)"

definition plain_check :: "nat \<Rightarrow> millis \<Rightarrow> 'k \<Rightarrow> millis \<Rightarrow> millis \<Rightarrow> ('k \<Rightarrow> window option) \<Rightarrow>
    limit_decision \<times> ('k \<Rightarrow> window option)" where
  "plain_check limit ms k t later m =
     (let w = plain_window ms t m k; w = w\<lparr>win_count := Suc (win_count w)\<rparr> in
      if win_count w \<le> limit
      then (\<lparr>allowed = True, firstRefusal = False, retryAfter = 0\<rparr>, m(k \<mapsto> w))
      else (\<lparr>allowed = False, firstRefusal = \<not> reported w,
              retryAfter = max 1 (ceil_seconds (startedAt w + ms - later))\<rparr>,
            m(k \<mapsto> w\<lparr>reported := True\<rparr>)))"

text \<open>The answers of a run; a check carries its later reading of the clock.\<close>

fun answers :: "(('k \<times> millis, 'k) counter_event \<times> millis) list \<Rightarrow> 'k counter \<Rightarrow> limit_decision list" where
  "answers [] c = []"
| "answers ((Hit (k, later), t) # es) c = (case check k t later c of (d, c) \<Rightarrow> d # answers es c)"
| "answers ((Other k, t) # es) c = answers es (snd (peek k t c))"

fun plain_answers :: "nat \<Rightarrow> millis \<Rightarrow> (('k \<times> millis, 'k) counter_event \<times> millis) list \<Rightarrow>
    ('k \<Rightarrow> window option) \<Rightarrow> limit_decision list" where
  "plain_answers limit ms [] m = []"
| "plain_answers limit ms ((Hit (k, later), t) # es) m =
     (case plain_check limit ms k t later m of (d, m) \<Rightarrow> d # plain_answers limit ms es m)"
| "plain_answers limit ms ((Other k, t) # es) m =
     plain_answers limit ms es (m(k \<mapsto> plain_window ms t m k))"

definition alike :: "millis \<Rightarrow> 'k counter \<Rightarrow> ('k \<Rightarrow> window option) \<Rightarrow> bool" where
  "alike t c m \<longleftrightarrow> counter_ok c \<and>
     (\<forall>k. map_get (windows c) k = m k \<or>
        map_get (windows c) k = None \<and> (\<exists>w. m k = Some w \<and> startedAt w + windowMs c \<le> t))"

lemma alike_later: "alike t c m \<Longrightarrow> t \<le> t' \<Longrightarrow> alike t' c m"
  unfolding alike_def by (meson order_trans)

lemma alike_window: "alike t c m \<Longrightarrow> live_window c t k = plain_window (windowMs c) t m k"
  unfolding alike_def live_window_def plain_window_def
  by (drule conjunct2, erule allE [of _ k]) (auto split: option.splits)

lemma alike_swept: "alike t c m \<Longrightarrow> alike t (swept t c) m"
  unfolding alike_def
  by (auto simp: swept_ok swept_window split: option.splits) (metis option.distinct(1) option.inject)+

lemma alike_update:
  assumes "alike t c m" and "counter_ok c'" and "windowMs c' = windowMs c"
    and "\<And>j. map_get (windows c') j = (if j = k then Some w else map_get (windows (swept t c)) j)"
  shows "alike t c' (m(k \<mapsto> w))"
  using alike_swept [OF assms(1)] assms unfolding alike_def by simp

lemma check_alike:
  assumes "alike t c m"
  shows "fst (check k t later c) = fst (plain_check (ctr_limit c) (windowMs c) k t later m)"
    and "alike t (snd (check k t later c)) (snd (plain_check (ctr_limit c) (windowMs c) k t later m))"
proof -
  have ok: "counter_ok c" using assms by (simp add: alike_def)
  obtain w c' where hit: "hit k t c = (w, c')" by fastforce
  obtain p where p: "plain_window (windowMs c) t m k = p" by simp
  then have w: "w = p\<lparr>win_count := Suc (win_count p)\<rparr>"
    using hit_window [OF ok, of k t] alike_window [OF assms, of k] hit by simp
  have c': "counter_ok c'" "windowMs c' = windowMs c" "ctr_limit c' = ctr_limit c"
    "\<And>j. map_get (windows c') j = (if j = k then Some w else map_get (windows (swept t c)) j)"
    using hit_ok [OF ok, of k t] counter_config(5,6) [of k t c] hit_windows [OF ok, of k t] hit by simp_all
  show "fst (check k t later c) = fst (plain_check (ctr_limit c) (windowMs c) k t later m)"
    using c' by (simp add: check_def plain_check_def hit p Let_def retryAfterSeconds_def w)
  have "alike t (c'\<lparr>windows := map_set k v (windows c')\<rparr>) (m(k \<mapsto> v))" for v
    by (rule alike_update [OF assms]) (use c' in \<open>simp_all add: counter_ok_def\<close>)
  then show "alike t (snd (check k t later c)) (snd (plain_check (ctr_limit c) (windowMs c) k t later m))"
    using c' alike_update [OF assms c'(1,2,4)] by (simp add: check_def plain_check_def hit p Let_def w)
qed

lemma peek_alike:
  assumes "alike t c m"
  shows "alike t (snd (peek k t c)) (m(k \<mapsto> plain_window (windowMs c) t m k))"
  using assms alike_window [OF assms]
  by (intro alike_update [OF assms]) (simp_all add: peek_def current_ok current_windows alike_def)

text \<open>
  Dropping old windows only now and then changes no answer: on any run of checks and peeks with
  a clock that does not go back, the counter allows, refuses, reports the first refusal and names
  the seconds to wait as one that never drops a window would.
\<close>

theorem sweep_unseen:
  assumes "sorted (map snd es)"
  shows "answers es (createCounter limit ms t0) = plain_answers limit ms es (\<lambda>_. None)"
proof -
  have "answers es c = plain_answers (ctr_limit c) (windowMs c) es m"
    if "alike t c m" "sorted (t # map snd es)" for t c m
    using that assms
  proof (induction es arbitrary: t c m)
    case (Cons e es)
    obtain ev t' where e: "e = (ev, t')" by (cases e)
    have same: "alike t' c m" and times: "sorted (t' # map snd es)"
      using Cons.prems e by (auto intro: alike_later)
    show ?case
    proof (cases ev)
      case (Hit x)
      obtain k later where x: "x = (k, later)" by (cases x)
      show ?thesis
        using check_alike [OF same, of k later] Cons.IH [OF _ times] times e Hit x
        by (simp add: prod.case_eq_if)
    next
      case (Other k)
      show ?thesis using Cons.IH [OF peek_alike [OF same] times] times e Other
          by (simp add: fun_upd_def peek_def)
    qed
  qed simp
  moreover have "alike t (createCounter limit ms t0) (\<lambda>_. None)" for t
    by (simp add: alike_def createCounter_def counter_ok_def)
  ultimately show ?thesis
    using assms by (cases es) (fastforce simp: createCounter_def)+
qed

lemma sweep_unseen_witness:
  "answers [(Hit (''u'', 0), 0), (Hit (''u'', 1), 1), (Other ''v'', 10), (Hit (''u'', 12), 12)]
     (createCounter 1 10 0) =
   plain_answers 1 10 [(Hit (''u'', 0), 0), (Hit (''u'', 1), 1), (Other ''v'', 10), (Hit (''u'', 12), 12)]
     (\<lambda>_. None)"
  by (rule sweep_unseen) simp

end
