(* ===== verification/Session_Guard.thy ===== *)
theory Session_Guard
  imports Rate_Limit
begin

text \<open>
  What the guard of anonymous requests keeps and whom it refuses, over any sequence of its calls:
  the made-up cookies it remembers are bounded, a cookie of a real session is never refused by it,
  and a made-up one is refused before any query once its address is over the limit.
\<close>

section \<open>Runs of the guard\<close>

datatype guard_call =
    Request bool string
  | Lookup bool string string
  | Unknown bool string string

text \<open>The answer of one call, which reads the clock at \<open>t\<close> and \<open>later\<close>.\<close>

fun guard_step :: "(string \<Rightarrow> string) \<Rightarrow> guard_call \<Rightarrow> millis \<Rightarrow> millis \<Rightarrow> session_guard \<Rightarrow>
    limit_answer \<times> session_guard" where
  "guard_step h (Request anonymous key) t later g = on_request anonymous key t later g"
| "guard_step h (Lookup anonymous key token) t later g = beforeLookup h anonymous key token t later g"
| "guard_step h (Unknown anonymous key token) t later g = unknownSession h anonymous key token t later g"

definition guard_run :: "(string \<Rightarrow> string) \<Rightarrow> (guard_call \<times> millis \<times> millis) list \<Rightarrow> session_guard \<Rightarrow>
    session_guard" where
  "guard_run h cs g = fold (\<lambda>(c, t, later) g. snd (guard_step h c t later g)) cs g"

lemma guard_run_simps [simp]:
  "guard_run h [] g = g"
  "guard_run h ((c, t, later) # cs) g = guard_run h cs (snd (guard_step h c t later g))"
  by (simp_all add: guard_run_def)

lemma allow_anonymous_simps [simp]:
  "guard_misses (snd (allow_anonymous key t later g)) = guard_misses g"
  by (simp add: allow_anonymous_def split: prod.splits)

text \<open>What a call makes of the remembered cookies.\<close>

lemma guard_step_misses:
  "guard_misses (snd (guard_step h c t later g)) \<in>
    {guard_misses g} \<union>
    (case c of
       Request a k \<Rightarrow> {}
     | Lookup a k token \<Rightarrow> {snd (has_miss h k token t (guard_misses g))}
     | Unknown a k token \<Rightarrow> {add_miss h k token t (guard_misses g)})"
  by (cases c) (auto simp: on_request_def beforeLookup_def unknownSession_def Let_def split: prod.splits)

section \<open>The memory it needs\<close>

definition kept_ok :: "string set \<Rightarrow> (string, millis) js_map \<Rightarrow> bool" where
  "kept_ok H found \<longleftrightarrow>
     map_ok found \<and> length found \<le> RECENT_MISSES_PER_ADDRESS \<and> fst ` set found \<subseteq> H"

definition misses_bounded :: "(string \<Rightarrow> string set) \<Rightarrow> misses \<Rightarrow> bool" where
  "misses_bounded A m \<longleftrightarrow> map_ok m \<and> length m \<le> RECENT_MISS_ADDRESSES \<and>
     (\<forall>x\<in>set m. kept_ok (A (fst x)) (snd x))"

lemma bounded_get: "misses_bounded A m \<Longrightarrow> map_get m k = Some found \<Longrightarrow> kept_ok (A k) found"
  by (fastforce simp: misses_bounded_def dest: map_get_in)

lemma drop_oldest_ok: "map_ok m \<Longrightarrow> map_ok (drop_oldest m)"
  by (simp add: drop_oldest_def split: option.splits)

lemma drop_oldest_sub: "set (drop_oldest m) \<subseteq> set m"
  by (auto simp: drop_oldest_def map_delete_def split: option.splits)

lemma drop_oldest_shorter:
  assumes "map_ok m" and "m \<noteq> []"
  shows "length (drop_oldest m) = length m - 1"
proof -
  have "fst (hd m) \<in> fst ` set m" using assms(2) by simp
  then show ?thesis using assms by (simp add: drop_oldest_def map_oldest_in length_delete)
qed

text \<open>Making room for a key, and setting it.\<close>

definition make_room :: "nat \<Rightarrow> ('k, 'v) js_map \<Rightarrow> ('k, 'v) js_map" where
  "make_room n m = (if length m \<ge> n then drop_oldest m else m)"

lemma make_room_set:
  assumes "map_ok m" and "length m \<le> n" and "0 < n"
  shows "map_ok (map_set k v (make_room n m))" and "length (map_set k v (make_room n m)) \<le> n"
proof -
  have "length (make_room n m) \<le> n - 1"
    using assms drop_oldest_shorter [of m] by (cases "m = []") (auto simp: make_room_def)
  then show "length (map_set k v (make_room n m)) \<le> n"
    using assms(3) by (auto simp: length_set)
  show "map_ok (map_set k v (make_room n m))"
    using assms(1) by (simp add: make_room_def drop_oldest_ok)
qed

lemma set_map_set: "set (map_set k v m) \<subseteq> insert (k, v) (set m)"
  by (induction k v m rule: map_set.induct) auto

lemma make_room_sub: "set (make_room n m) \<subseteq> set m"
  using drop_oldest_sub by (auto simp: make_room_def)

lemma add_miss_alt:
  "add_miss h address token t m =
    (case map_get m address of
       Some found \<Rightarrow> map_set address
         (map_set (h token) (t + RECENT_MISS_MS) (make_room RECENT_MISSES_PER_ADDRESS (map_delete (h token) found)))
         (map_delete address m)
     | None \<Rightarrow> map_set address
         (map_set (h token) (t + RECENT_MISS_MS) (make_room RECENT_MISSES_PER_ADDRESS []))
         (make_room RECENT_MISS_ADDRESSES m))"
  by (auto simp: add_miss_def make_room_def Let_def map_delete_def split: option.splits)

lemma miss_limits [simp]: "0 < RECENT_MISSES_PER_ADDRESS" "0 < RECENT_MISS_ADDRESSES"
  by (simp_all add: RECENT_MISSES_PER_ADDRESS_def RECENT_MISS_ADDRESSES_def)

lemma keys_make_room: "fst ` set (map_set k v (make_room n m)) \<subseteq> insert k (fst ` set m)"
  using make_room_sub [of n m] by (auto simp: keys_set)

lemma add_miss_bounded:
  assumes m: "misses_bounded A m" and A: "h token \<in> A address"
  shows "misses_bounded A (add_miss h address token t m)"
proof (cases "map_get m address")
  case None
  let ?new = "map_set (h token) (t + RECENT_MISS_MS) (make_room RECENT_MISSES_PER_ADDRESS [])"
  have "kept_ok (A address) ?new"
    unfolding kept_ok_def
    using make_room_set [of "[]" RECENT_MISSES_PER_ADDRESS "h token" "t + RECENT_MISS_MS"] A
    by (auto intro!: order_trans [OF keys_make_room])
  moreover have "map_ok (map_set address v (make_room RECENT_MISS_ADDRESSES m))"
      "length (map_set address v (make_room RECENT_MISS_ADDRESSES m)) \<le> RECENT_MISS_ADDRESSES" for v
    using m make_room_set [of m RECENT_MISS_ADDRESSES address v] by (simp_all add: misses_bounded_def)
  moreover have "set (map_set address ?new (make_room RECENT_MISS_ADDRESSES m)) \<subseteq> insert (address, ?new) (set m)"
    by (rule order_trans [OF set_map_set insert_mono [OF make_room_sub]])
  ultimately show ?thesis using None m unfolding misses_bounded_def add_miss_alt by auto
next
  case (Some found)
  note found = bounded_get [OF m Some, unfolded kept_ok_def]
  let ?old = "map_delete (h token) found"
  let ?new = "map_set (h token) (t + RECENT_MISS_MS) (make_room RECENT_MISSES_PER_ADDRESS ?old)"
  have "insert (h token) (fst ` set ?old) \<subseteq> A address" using found A unfolding keys_delete by blast
  then have "fst ` set ?new \<subseteq> A address" by (rule order_trans [OF keys_make_room])
  then have "kept_ok (A address) ?new"
    unfolding kept_ok_def
    using make_room_set [of ?old RECENT_MISSES_PER_ADDRESS "h token" "t + RECENT_MISS_MS"] found
      length_delete_le [of "h token" found]
    by simp
  moreover have "length (map_set address ?new (map_delete address m)) = length m"
  proof -
    have "address \<in> fst ` set m" "map_ok m" using map_get_keys [OF Some] m by (simp_all add: misses_bounded_def)
    moreover have "length m > 0" using Some by (cases m) simp_all
    ultimately show ?thesis by (simp add: length_set keys_delete length_delete)
  qed
  moreover have "set (map_set address ?new (map_delete address m)) \<subseteq> insert (address, ?new) (set m)"
    using set_map_set [of address ?new "map_delete address m"] by (auto simp: map_delete_def)
  ultimately show ?thesis using Some m unfolding misses_bounded_def add_miss_alt by auto
qed

lemma has_miss_bounded:
  assumes m: "misses_bounded A m"
  shows "misses_bounded A (snd (has_miss h address token t m))"
proof (cases "map_get m address")
  case (Some found)
  note found = bounded_get [OF m Some, unfolded kept_ok_def]
  let ?new = "map_delete (h token) found"
  have "kept_ok (A address) ?new"
    unfolding kept_ok_def
    using found length_delete_le [of "h token" found] by (auto simp: keys_delete)
  moreover have "length (map_set address ?new m) = length m"
    using map_get_keys [OF Some] by (simp add: length_set)
  ultimately have "misses_bounded A (map_set address ?new m)"
    using m set_map_set [of address ?new m] unfolding misses_bounded_def by auto
  then show ?thesis using Some m by (simp add: has_miss_def split: option.splits)
qed (simp add: has_miss_def m)

lemma guard_step_bounded:
  assumes "misses_bounded A (guard_misses g)"
    and "\<And>a key token. c = Unknown a key token \<Longrightarrow> h token \<in> A key"
  shows "misses_bounded A (guard_misses (snd (guard_step h c t later g)))"
  using guard_step_misses [of h c t later g] add_miss_bounded [OF assms(1)] has_miss_bounded [OF assms(1)] assms
  by (cases c) auto

lemma guard_run_bounded:
  assumes "misses_bounded A (guard_misses g)"
    and "\<And>a key token. Unknown a key token \<in> fst ` set cs \<Longrightarrow> h token \<in> A key"
  shows "misses_bounded A (guard_misses (guard_run h cs g))"
  using assms
proof (induction cs arbitrary: g)
  case (Cons x cs)
  obtain c t later where "x = (c, t, later)" by (cases x)
  then show ?case
    using Cons.prems(2) by (auto intro!: Cons.IH [OF guard_step_bounded [OF Cons.prems(1)]])
qed simp

lemma new_guard_bounded: "misses_bounded A (guard_misses (new_guard perMinute t))"
  by (simp add: new_guard_def misses_bounded_def)

text \<open>
  Whatever cookies are made up from whatever addresses, the guard remembers at most 16 of them
  for each of at most 1024 addresses, each under the hash of the cookie.
\<close>

theorem guard_memory_bounded:
  "length (guard_misses (guard_run h cs (new_guard perMinute t0))) \<le> 1024 \<and>
   list_all (\<lambda>(address, found). length found \<le> 16 \<and> fst ` set found \<subseteq> range h)
     (guard_misses (guard_run h cs (new_guard perMinute t0)))"
proof -
  have "misses_bounded (\<lambda>_. range h) (guard_misses (guard_run h cs (new_guard perMinute t0)))"
    by (intro guard_run_bounded new_guard_bounded) simp
  then show ?thesis
    by (simp add: misses_bounded_def kept_ok_def list_all_iff RECENT_MISSES_PER_ADDRESS_def
        RECENT_MISS_ADDRESSES_def case_prod_unfold)
qed

section \<open>Whom it refuses\<close>

lemma has_miss_unknown:
  assumes m: "misses_bounded A m" and A: "h token \<notin> A key"
  shows "\<not> fst (has_miss h key token t m)"
proof (cases "map_get m key")
  case (Some found)
  have "map_get found (h token) = None"
    using bounded_get [OF m Some] A by (auto simp: kept_ok_def map_get_None)
  then show ?thesis using Some by (simp add: has_miss_def)
qed (simp add: has_miss_def)

text \<open>
  C37: A cookie that never failed to match a session is let through to its lookup, whatever requests
  and made-up cookies came from the same address and however far that address is over its limit.
  The hash is taken to tell that cookie from the made-up ones.
\<close>

theorem real_cookie_let_through:
  assumes "\<And>a made_up. Unknown a key made_up \<in> fst ` set cs \<Longrightarrow> missKey made_up \<noteq> missKey token"
  shows "fst (beforeLookup missKey anonymous key token t later (guard_run missKey cs (new_guard perMinute t0)))
    = Through"
proof -
  let ?g = "guard_run missKey cs (new_guard perMinute t0)"
  have "misses_bounded (\<lambda>k. if k = key then - {missKey token} else UNIV) (guard_misses ?g)"
    using assms by (intro guard_run_bounded new_guard_bounded) auto
  then have "\<not> fst (has_miss missKey key token t (guard_misses ?g))"
    by (rule has_miss_unknown) simp
  then show ?thesis by (auto simp: beforeLookup_def Let_def split: prod.splits)
qed

lemma real_cookie_let_through_witness:
  "fst (beforeLookup rev False ''10.0.0.9'' ''real'' 6 6
     (guard_run rev [(Unknown False ''10.0.0.9'' ''guess'', 1, 1), (Unknown False ''10.0.0.9'' ''again'', 2, 2)]
       (new_guard 1 0))) = Through"
  by (rule real_cookie_let_through) auto

lemma add_miss_kept:
  "\<exists>found. map_get (add_miss h key token t m) key = Some found \<and>
     map_get found (h token) = Some (t + RECENT_MISS_MS)"
  by (simp add: add_miss_alt split: option.splits)

lemma live_window_peeked:
  assumes "counter_ok c"
  shows "live_window (snd (peek k t c)) t k = live_window c t k"
proof -
  have "map_get (windows (snd (peek k t c))) k = Some (live_window c t k)"
    using assms by (simp add: peek_def current_windows)
  then show ?thesis by (auto simp: live_window_def peek_def split: option.splits)
qed

lemma unknownSession_ok:
  "counter_ok (guard_counter g) \<Longrightarrow>
    counter_ok (guard_counter (snd (unknownSession missKey anonymous key token t later g)))"
  using check_ok [of "guard_counter g"]
  by (auto simp: unknownSession_def allow_anonymous_def Let_def prod.case_eq_if)

lemma unknownSession_misses:
  "guard_misses (snd (unknownSession missKey anonymous key token t later g)) =
    add_miss missKey key token t (guard_misses g)"
  by (simp add: unknownSession_def Let_def)

lemma full_refuses:
  assumes ok: "counter_ok (guard_counter g)"
    and full: "ctr_limit (guard_counter g) \<le> win_count (live_window (guard_counter g) t key)"
    and missed: "fst (has_miss missKey key token t (guard_misses g))"
  shows "\<exists>retry warned. fst (beforeLookup missKey False key token t later g) = TooMany retry warned"
proof -
  obtain w c where peek: "peek key t (guard_counter g) = (w, c)" by fastforce
  have c: "counter_ok c" "ctr_limit c = ctr_limit (guard_counter g)"
    "w = live_window (guard_counter g) t key" "live_window c t key = w"
    using current_window [OF ok, of key t] current_ok [OF ok, of key t] live_window_peeked [OF ok, of key t]
      counter_config(4) [of key t "guard_counter g"] peek
    by (simp_all add: peek_def del: counter_config)
  obtain ms where "has_miss missKey key token t (guard_misses g) = (True, ms)"
    using missed by (metis prod.collapse)
  moreover have "\<not> allowed (fst (check key t later c))"
    using check_allowed [OF c(1), of key t later] full c by simp
  ultimately show ?thesis
    using peek c full by (auto simp: beforeLookup_def allow_anonymous_def Let_def split: prod.splits)
qed

text \<open>
  A cookie that matched no session is refused before any query while its address is over the
  limit: within the minute after it failed, and with the limit used up in the address's window,
  the same cookie from the same address gets 429 and no lookup.
\<close>

theorem guess_refused_unasked:
  fixes missKey anonymous key token t later g
  defines "g' \<equiv> snd (unknownSession missKey anonymous key token t later g)"
  assumes "counter_ok (guard_counter g)" and "t2 < t + RECENT_MISS_MS"
    and "ctr_limit (guard_counter g') \<le> win_count (live_window (guard_counter g') t2 key)"
  shows "\<exists>retry warned. fst (beforeLookup missKey False key token t2 later2 g') = TooMany retry warned"
proof (rule full_refuses)
  show "counter_ok (guard_counter g')" unfolding g'_def by (rule unknownSession_ok [OF assms(2)])
  show "fst (has_miss missKey key token t2 (guard_misses g'))"
    using add_miss_kept [of missKey key token t "guard_misses g"] assms(3)
    by (auto simp: g'_def unknownSession_misses has_miss_def)
qed (rule assms(4))

lemma guess_refused_unasked_witness:
  "\<exists>retry warned. fst (beforeLookup rev False ''10.0.0.9'' ''guess'' 5 5
     (snd (unknownSession rev False ''10.0.0.9'' ''guess'' 1 1 (new_guard 1 0)))) = TooMany retry warned"
proof (rule guess_refused_unasked)
  show "counter_ok (guard_counter (new_guard 1 0))" by code_simp
  show "(5::int) < 1 + RECENT_MISS_MS" by code_simp
  show "ctr_limit (guard_counter (snd (unknownSession rev False ''10.0.0.9'' ''guess'' 1 1 (new_guard 1 0))))
    \<le> win_count (live_window (guard_counter (snd (unknownSession rev False ''10.0.0.9'' ''guess'' 1 1
        (new_guard 1 0)))) 5 ''10.0.0.9'')" by code_simp
qed

end
