(* ===== verification/Stored_Counter.thy ===== *)
theory Stored_Counter
  imports Fixed_Window
begin

text \<open>
  \<open>apps/api/src/stored-counter.ts\<close>: fixed-window counts of sign-in guesses kept in the table
  \<open>signin_counters\<close>. Each statement is a function on the table; the requests of any number of
  processes interleave statement by statement (\<open>counter_step\<close>). For every counter that shares the
  table: the tries let through in one window and not given back never exceed the limit, windows of a
  key do not overlap, and a window's refusal is audited once.
\<close>

section \<open>The table and its statements\<close>

record counter_row =
  cr_scope :: string
  cr_key :: string
  cr_started :: millis
  cr_expires :: millis
  cr_count :: nat
  cr_reported :: bool

record stored_counter =
  sc_scope :: string
  sc_limit :: nat
  sc_windowMs :: millis

record counter_receipt =
  rc_scope :: string
  rc_key :: string
  rc_window :: millis
  spent :: bool

record stored_decision =
  sd_allowed :: bool
  sd_audit :: bool
  sd_receipt :: "counter_receipt option"

datatype counter_error = CounterUnavailable

definition row_key :: "counter_row \<Rightarrow> string \<times> string" where
  "row_key r = (cr_scope r, cr_key r)"

definition counter_row :: "string \<Rightarrow> string \<Rightarrow> counter_row list \<Rightarrow> counter_row option" where
  "counter_row scope key rows = find_row row_key (scope, key) rows"

text \<open>The upsert: each \<open>SET\<close> expression reads the old row.\<close>

definition hit_row :: "millis \<Rightarrow> millis \<Rightarrow> counter_row \<Rightarrow> counter_row" where
  "hit_row t ends r =
     r\<lparr>cr_started := if cr_expires r \<le> t then t else cr_started r,
       cr_expires := if cr_expires r \<le> t then ends else cr_expires r,
       cr_count := if cr_expires r \<le> t then 1 else cr_count r + 1,
       cr_reported := if cr_expires r \<le> t then False else cr_reported r\<rparr>"

definition hit_stored :: "stored_counter \<Rightarrow> string \<Rightarrow> millis \<Rightarrow> counter_row list \<Rightarrow>
    (nat \<times> millis) \<times> counter_row list" where
  "hit_stored c key t rows =
     (let ends = t + sc_windowMs c in
      case counter_row (sc_scope c) key rows of
        None \<Rightarrow> ((1, t), rows @ [\<lparr>cr_scope = sc_scope c, cr_key = key, cr_started = t,
                   cr_expires = ends, cr_count = 1, cr_reported = False\<rparr>])
      | Some r \<Rightarrow> ((cr_count (hit_row t ends r), cr_started (hit_row t ends r)),
          upd_where (\<lambda>r. row_key r = (sc_scope c, key)) (hit_row t ends) rows))"

definition refusal_row :: "string \<Rightarrow> string \<Rightarrow> millis \<Rightarrow> counter_row \<Rightarrow> bool" where
  "refusal_row scope key start r \<longleftrightarrow> row_key r = (scope, key) \<and> cr_started r = start \<and> \<not> cr_reported r"

definition firstRefusal_stored :: "stored_counter \<Rightarrow> string \<Rightarrow> millis \<Rightarrow> counter_row list \<Rightarrow>
    bool \<times> counter_row list" where
  "firstRefusal_stored c key start rows =
     (list_ex (refusal_row (sc_scope c) key start) rows,
      upd_where (refusal_row (sc_scope c) key start) (\<lambda>r. r\<lparr>cr_reported := True\<rparr>) rows)"

text \<open>
  \<open>up\<close> says of each statement whether the store answers it; one that fails has changed nothing.
\<close>

definition attempt_stored :: "stored_counter \<Rightarrow> string \<Rightarrow> millis \<Rightarrow> bool \<times> bool \<Rightarrow> counter_row list \<Rightarrow>
    (counter_error + stored_decision) \<times> counter_row list" where
  "attempt_stored c key t up rows =
     (if \<not> fst up then (Inl CounterUnavailable, rows)
      else case hit_stored c key t rows of
        ((n, start), rows) \<Rightarrow>
          if n \<le> sc_limit c
          then (Inr \<lparr>sd_allowed = True, sd_audit = False,
                     sd_receipt = Some \<lparr>rc_scope = sc_scope c, rc_key = key, rc_window = start, spent = False\<rparr>\<rparr>,
                rows)
          else if \<not> snd up then (Inl CounterUnavailable, rows)
          else case firstRefusal_stored c key start rows of
            (audit, rows) \<Rightarrow> (Inr \<lparr>sd_allowed = False, sd_audit = audit, sd_receipt = None\<rparr>, rows))"

definition add_stored :: "stored_counter \<Rightarrow> string \<Rightarrow> millis \<Rightarrow> bool \<Rightarrow> counter_row list \<Rightarrow>
    (counter_error + unit) \<times> counter_row list" where
  "add_stored c key t up rows =
     (if up then (Inr (), snd (hit_stored c key t rows)) else (Inl CounterUnavailable, rows))"

definition given_row :: "string \<Rightarrow> string \<Rightarrow> millis \<Rightarrow> counter_row \<Rightarrow> bool" where
  "given_row scope key start r \<longleftrightarrow> row_key r = (scope, key) \<and> cr_started r = start \<and> cr_count r > 0"

definition giveBack_stored :: "stored_counter \<Rightarrow> counter_receipt \<Rightarrow> bool \<Rightarrow> counter_row list \<Rightarrow>
    counter_receipt \<times> counter_row list" where
  "giveBack_stored c receipt up rows =
     (if spent receipt \<or> rc_scope receipt \<noteq> sc_scope c then (receipt, rows)
      else (receipt\<lparr>spent := True\<rparr>,
            if up then upd_where (given_row (sc_scope c) (rc_key receipt) (rc_window receipt))
                         (\<lambda>r. r\<lparr>cr_count := cr_count r - 1\<rparr>) rows
            else rows))"

definition pruneEndedCounters :: "millis \<Rightarrow> counter_row list \<Rightarrow> nat \<times> counter_row list" where
  "pruneEndedCounters t rows =
     (length (filter (\<lambda>r. cr_expires r \<le> t) rows), filter (\<lambda>r. \<not> cr_expires r \<le> t) rows)"

section \<open>What each statement does to a row\<close>

abbreviation rows_ok :: "counter_row list \<Rightarrow> bool" where
  "rows_ok rows \<equiv> distinct (map row_key rows)"

lemma row_key_simps [simp]:
  "row_key (hit_row t ends r) = row_key r"
  "row_key (r\<lparr>cr_reported := b\<rparr>) = row_key r"
  "row_key (r\<lparr>cr_count := n\<rparr>) = row_key r"
  by (simp_all add: row_key_def hit_row_def)

lemma hit_stored_ok: "rows_ok rows \<Longrightarrow> rows_ok (snd (hit_stored c key t rows))"
  by (auto simp: hit_stored_def Let_def counter_row_def find_row_None map_upd_where_frame split: option.splits)
    (auto simp: row_key_def)

lemma firstRefusal_ok: "rows_ok rows \<Longrightarrow> rows_ok (snd (firstRefusal_stored c key start rows))"
  by (simp add: firstRefusal_stored_def map_upd_where_frame)

lemma giveBack_ok: "rows_ok rows \<Longrightarrow> rows_ok (snd (giveBack_stored c receipt up rows))"
  by (simp add: giveBack_stored_def map_upd_where_frame)

lemma prune_ok: "rows_ok rows \<Longrightarrow> rows_ok (snd (pruneEndedCounters t rows))"
  by (simp add: pruneEndedCounters_def distinct_map_filter)

lemma counter_row_key: "counter_row scope key rows = Some r \<Longrightarrow> r \<in> set rows \<and> row_key r = (scope, key)"
  unfolding counter_row_def by (rule find_row_Some)

lemma counter_row_upd:
  assumes "\<And>r. P r \<Longrightarrow> row_key (f r) = row_key r"
  shows "counter_row scope key (upd_where P f rows) =
    map_option (\<lambda>r. if P r then f r else r) (counter_row scope key rows)"
  unfolding counter_row_def using assms by (rule find_row_upd_where)

lemma counter_row_hit: "counter_row scope k (snd (hit_stored c key t rows)) =
    (if scope = sc_scope c \<and> k = key
     then Some (case counter_row scope key rows of
        None \<Rightarrow> \<lparr>cr_scope = scope, cr_key = key, cr_started = t, cr_expires = t + sc_windowMs c,
                 cr_count = 1, cr_reported = False\<rparr>
      | Some r \<Rightarrow> hit_row t (t + sc_windowMs c) r)
     else counter_row scope k rows)"
proof (cases "counter_row (sc_scope c) key rows")
  case None
  then show ?thesis
    by (auto simp: hit_stored_def Let_def counter_row_def find_row_append split: option.splits)
      (auto simp: find_row_def row_key_def)
next
  case (Some r)
  then have "snd (hit_stored c key t rows) =
      upd_where (\<lambda>r. row_key r = (sc_scope c, key)) (hit_row t (t + sc_windowMs c)) rows"
    by (simp add: hit_stored_def Let_def)
  moreover have "row_key r' = (scope, k)" if "counter_row scope k rows = Some r'" for r'
    using counter_row_key [OF that] by simp
  ultimately show ?thesis
    using Some by (cases "counter_row scope k rows") (auto simp: counter_row_upd)
qed

lemma hit_answer: "fst (hit_stored c key t rows) =
    (case counter_row (sc_scope c) key (snd (hit_stored c key t rows)) of
       Some r \<Rightarrow> (cr_count r, cr_started r))"
  by (simp add: counter_row_hit) (simp add: hit_stored_def Let_def split: option.splits)

lemma counter_row_refusal: "counter_row scope k (snd (firstRefusal_stored c key start rows)) =
    map_option (\<lambda>r. if refusal_row (sc_scope c) key start r then r\<lparr>cr_reported := True\<rparr> else r)
      (counter_row scope k rows)"
  by (simp add: firstRefusal_stored_def counter_row_upd)

lemma counter_row_in: "rows_ok rows \<Longrightarrow> r \<in> set rows \<Longrightarrow> counter_row (cr_scope r) (cr_key r) rows = Some r"
  by (simp add: counter_row_def find_row_Some_iff row_key_def)

lemma first_refusal_iff: "rows_ok rows \<Longrightarrow> fst (firstRefusal_stored c key start rows) \<longleftrightarrow>
    (\<exists>r. counter_row (sc_scope c) key rows = Some r \<and> cr_started r = start \<and> \<not> cr_reported r)"
  by (fastforce simp: firstRefusal_stored_def list_ex_iff refusal_row_def row_key_def
      dest: counter_row_in counter_row_key)

lemma counter_row_given: "counter_row scope k (snd (giveBack_stored c receipt True rows)) =
    (if spent receipt \<or> rc_scope receipt \<noteq> sc_scope c then counter_row scope k rows
     else map_option (\<lambda>r. if given_row (sc_scope c) (rc_key receipt) (rc_window receipt) r
                          then r\<lparr>cr_count := cr_count r - 1\<rparr> else r) (counter_row scope k rows))"
  by (simp add: giveBack_stored_def counter_row_upd del: One_nat_def)

lemma counter_row_pruned:
  assumes "rows_ok rows"
  shows "counter_row scope k (snd (pruneEndedCounters t rows)) =
    (case counter_row scope k rows of Some r \<Rightarrow> if cr_expires r \<le> t then None else Some r | None \<Rightarrow> None)"
proof (cases "counter_row scope k (snd (pruneEndedCounters t rows))")
  case None
  then show ?thesis
    by (auto simp: counter_row_def pruneEndedCounters_def find_row_None split: option.splits
        dest!: find_row_Some) force
next
  case (Some r)
  then have "r \<in> set rows" "\<not> cr_expires r \<le> t" "row_key r = (scope, k)"
    using counter_row_key [OF Some] by (auto simp: pruneEndedCounters_def)
  moreover from this have "counter_row scope k rows = Some r"
    using counter_row_in [OF assms] by (auto simp: row_key_def)
  ultimately show ?thesis using Some by simp
qed

text \<open>The rows of the other scopes stay what they are.\<close>

lemma counter_row_upd_other:
  assumes "\<And>r. P r \<Longrightarrow> row_key (f r) = row_key r" and "\<And>r. row_key r = (scope, k) \<Longrightarrow> \<not> P r"
  shows "counter_row scope k (upd_where P f rows) = counter_row scope k rows"
  using assms counter_row_key [of scope k rows]
  by (cases "counter_row scope k rows") (auto simp: counter_row_upd)

lemma counter_row_elsewhere:
  assumes "scope \<noteq> sc_scope c"
  shows "counter_row scope k (snd (hit_stored c key t rows)) = counter_row scope k rows"
    and "counter_row scope k (snd (firstRefusal_stored c key start rows)) = counter_row scope k rows"
    and "counter_row scope k (snd (giveBack_stored c receipt up rows)) = counter_row scope k rows"
  using assms
  by (auto simp: counter_row_hit firstRefusal_stored_def giveBack_stored_def refusal_row_def given_row_def
      intro!: counter_row_upd_other)

section \<open>The counter keeps the fixed-window contract\<close>

definition stored_window :: "string \<Rightarrow> counter_row list \<Rightarrow> string \<Rightarrow> (millis \<times> nat) option" where
  "stored_window scope rows key = map_option (\<lambda>r. (cr_started r, cr_count r)) (counter_row scope key rows)"

definition stored_hit :: "stored_counter \<Rightarrow> string \<Rightarrow> millis \<Rightarrow> counter_row list \<Rightarrow> nat \<times> counter_row list" where
  "stored_hit c key t rows = (case hit_stored c key t rows of ((n, start), rows) \<Rightarrow> (n, rows))"

text \<open>A row ends a window's length after it began.\<close>

definition scope_ok :: "stored_counter \<Rightarrow> counter_row list \<Rightarrow> bool" where
  "scope_ok c rows \<longleftrightarrow> rows_ok rows \<and>
     (\<forall>key r. counter_row (sc_scope c) key rows = Some r \<longrightarrow> cr_expires r = cr_started r + sc_windowMs c)"

lemma stored_hit_simps [simp]:
  "fst (stored_hit c key t rows) = fst (fst (hit_stored c key t rows))"
  "snd (stored_hit c key t rows) = snd (hit_stored c key t rows)"
  by (simp_all add: stored_hit_def split: prod.splits)

lemma stored_counter_window:
  assumes "0 < sc_windowMs c"
  shows "fixed_window (stored_window (sc_scope c)) (stored_hit c)
    (\<lambda>(_::unit) t rows. snd (pruneEndedCounters t rows)) (scope_ok c) (sc_windowMs c)"
proof
  fix rows and key j :: string and t b n and e :: unit
  assume ok: "scope_ok c rows"
  then have rows: "rows_ok rows" by (simp add: scope_ok_def)
  have ends: "cr_expires r = cr_started r + sc_windowMs c" if "counter_row (sc_scope c) key rows = Some r" for key r
    using ok that by (simp add: scope_ok_def)
  note hit = stored_window_def counter_row_hit hit_answer hit_row_def
  show "scope_ok c (snd (stored_hit c key t rows))"
    using ok by (auto simp: scope_ok_def hit_stored_ok hit split: option.splits if_splits)
  show "scope_ok c (snd (pruneEndedCounters t rows))"
    using ok by (auto simp: scope_ok_def prune_ok counter_row_pruned split: option.splits if_splits)
  show "fst (stored_hit c key t rows) = Suc n \<and>
      stored_window (sc_scope c) (snd (stored_hit c key t rows)) key = Some (b, Suc n)"
    if "stored_window (sc_scope c) rows key = Some (b, n)" "t < b + sc_windowMs c"
    using that ends by (auto simp: hit)
  show "fst (stored_hit c key t rows) = 1 \<and>
      stored_window (sc_scope c) (snd (stored_hit c key t rows)) key = Some (t, 1)"
    if "\<forall>b n. stored_window (sc_scope c) rows key = Some (b, n) \<longrightarrow> b + sc_windowMs c \<le> t"
    using that ends by (auto simp: hit split: option.splits)
  show "stored_window (sc_scope c) (snd (stored_hit c key t rows)) j = stored_window (sc_scope c) rows j \<or>
      (\<exists>b n. stored_window (sc_scope c) rows j = Some (b, n) \<and> b + sc_windowMs c \<le> t \<and>
        stored_window (sc_scope c) (snd (stored_hit c key t rows)) j = None)"
    if "j \<noteq> key" using that by (simp add: hit)
  show "stored_window (sc_scope c) (snd (pruneEndedCounters t rows)) key = Some (b, n)"
    if "stored_window (sc_scope c) rows key = Some (b, n)" "t < b + sc_windowMs c"
    using that ends by (auto simp: stored_window_def counter_row_pruned [OF rows])
  show "stored_window (sc_scope c) (snd (pruneEndedCounters t rows)) key \<in>
      {stored_window (sc_scope c) rows key, None, Some (t, 0)}"
    if "\<forall>b n. stored_window (sc_scope c) rows key = Some (b, n) \<longrightarrow> b + sc_windowMs c \<le> t"
    by (auto simp: stored_window_def counter_row_pruned [OF rows] split: option.splits)
qed (rule assms)

end
