(* ===== verification/Counter_System.thy ===== *)
theory Counter_System
  imports Stored_Counter
begin

text \<open>
  The counters that share the table \<open>signin_counters\<close>, as requests use them: an attempt counts
  first and reports a refusal in a second statement, a receipt is given back later or never, and
  the hourly prune runs in between. A request reads the clock before its statement runs, so hits
  may arrive with readings out of order; only a reading from before a prune that has already run is
  left out (\<open>pruned\<close>).
\<close>

section \<open>Steps\<close>

record counter_system =
  rows :: "counter_row list"
  receipts :: "counter_receipt list"
  refusing :: "(string \<times> string \<times> millis) list"
  audits :: "(string \<times> string \<times> millis) list"
  pruned :: millis

inductive counter_step :: "stored_counter list \<Rightarrow> counter_system \<Rightarrow> counter_system \<Rightarrow> bool"
  for C :: "stored_counter list" where
  counted_in: "c \<in> set C \<Longrightarrow> pruned s \<le> t \<Longrightarrow> hit_stored c key t (rows s) = ((n, w), rows') \<Longrightarrow>
    n \<le> sc_limit c \<Longrightarrow>
    counter_step C s (s\<lparr>rows := rows', receipts := receipts s @
      [\<lparr>rc_scope = sc_scope c, rc_key = key, rc_window = w, spent = False\<rparr>]\<rparr>)"
| counted_out: "c \<in> set C \<Longrightarrow> pruned s \<le> t \<Longrightarrow> hit_stored c key t (rows s) = ((n, w), rows') \<Longrightarrow>
    \<not> n \<le> sc_limit c \<Longrightarrow>
    counter_step C s (s\<lparr>rows := rows', refusing := (sc_scope c, key, w) # refusing s\<rparr>)"
| reported: "c \<in> set C \<Longrightarrow> (sc_scope c, key, w) \<in> set (refusing s) \<Longrightarrow>
    firstRefusal_stored c key w (rows s) = (audit, rows') \<Longrightarrow>
    counter_step C s (s\<lparr>rows := rows', refusing := remove1 (sc_scope c, key, w) (refusing s),
      audits := if audit then (sc_scope c, key, w) # audits s else audits s\<rparr>)"
| added: "c \<in> set C \<Longrightarrow> pruned s \<le> t \<Longrightarrow>
    counter_step C s (s\<lparr>rows := snd (hit_stored c key t (rows s))\<rparr>)"
| given_back: "c \<in> set C \<Longrightarrow> i < length (receipts s) \<Longrightarrow>
    giveBack_stored c (receipts s ! i) up (rows s) = (r', rows') \<Longrightarrow>
    counter_step C s (s\<lparr>rows := rows', receipts := (receipts s)[i := r']\<rparr>)"
| pruned_at: "counter_step C s (s\<lparr>rows := snd (pruneEndedCounters t (rows s)), pruned := max t (pruned s)\<rparr>)"

definition counter_start :: "counter_system \<Rightarrow> bool" where
  "counter_start s \<longleftrightarrow> rows s = [] \<and> receipts s = [] \<and> refusing s = [] \<and> audits s = []"

definition counters_ok :: "stored_counter list \<Rightarrow> bool" where
  "counters_ok C \<longleftrightarrow> distinct (map sc_scope C) \<and> (\<forall>c\<in>set C. 0 < sc_windowMs c)"

section \<open>The invariant\<close>

definition outstanding :: "counter_receipt list \<Rightarrow> string \<Rightarrow> string \<Rightarrow> millis \<Rightarrow> nat" where
  "outstanding rs scope key w =
     length (filter (\<lambda>r. rc_scope r = scope \<and> rc_key r = key \<and> rc_window r = w \<and> \<not> spent r) rs)"

text \<open>A window that was counted in is the row's, or ended before it, or before the last prune.\<close>

definition behind :: "stored_counter \<Rightarrow> counter_system \<Rightarrow> string \<Rightarrow> millis \<Rightarrow> bool" where
  "behind c s key w \<longleftrightarrow>
     (case counter_row (sc_scope c) key (rows s) of
        Some r \<Rightarrow> w = cr_started r \<or> w + sc_windowMs c \<le> cr_started r
      | None \<Rightarrow> w + sc_windowMs c \<le> pruned s)"

definition apart :: "millis \<Rightarrow> millis \<Rightarrow> millis \<Rightarrow> bool" where
  "apart width v w \<longleftrightarrow> v = w \<or> v + width \<le> w \<or> w + width \<le> v"

definition seen :: "counter_system \<Rightarrow> string \<Rightarrow> string \<Rightarrow> millis set" where
  "seen s scope key =
     rc_window ` set (filter (\<lambda>r. rc_scope r = scope \<and> rc_key r = key) (receipts s)) \<union>
     {w. (scope, key, w) \<in> set (audits s)}"

definition counter_good :: "stored_counter \<Rightarrow> counter_system \<Rightarrow> bool" where
  "counter_good c s \<longleftrightarrow>
     (\<forall>key. \<forall>w\<in>seen s (sc_scope c) key. behind c s key w \<and> (\<forall>v\<in>seen s (sc_scope c) key. apart (sc_windowMs c) v w)) \<and>
     (\<forall>key w. outstanding (receipts s) (sc_scope c) key w \<le> sc_limit c) \<and>
     (\<forall>key r. counter_row (sc_scope c) key (rows s) = Some r \<longrightarrow>
        cr_expires r = cr_started r + sc_windowMs c \<and>
        outstanding (receipts s) (sc_scope c) key (cr_started r) \<le> cr_count r \<and>
        ((sc_scope c, key, cr_started r) \<in> set (audits s) \<longrightarrow> cr_reported r))"

definition counter_inv :: "stored_counter list \<Rightarrow> counter_system \<Rightarrow> bool" where
  "counter_inv C s \<longleftrightarrow> rows_ok (rows s) \<and> distinct (audits s) \<and> (\<forall>c\<in>set C. counter_good c s)"

lemma length_filter_update:
  "i < length xs \<Longrightarrow> length (filter P (xs[i := y])) + (if P (xs ! i) then 1 else 0) =
    length (filter P xs) + (if P y then 1 else 0)"
proof (induction xs arbitrary: i)
  case (Cons x xs)
  then show ?case by (cases i) auto
qed simp

lemma counter_goodI:
  assumes "\<And>key w. w \<in> seen s (sc_scope c) key \<Longrightarrow> behind c s key w"
    and "\<And>key v w. v \<in> seen s (sc_scope c) key \<Longrightarrow> w \<in> seen s (sc_scope c) key \<Longrightarrow> apart (sc_windowMs c) v w"
    and "\<And>key w. outstanding (receipts s) (sc_scope c) key w \<le> sc_limit c"
    and "\<And>key r. counter_row (sc_scope c) key (rows s) = Some r \<Longrightarrow> cr_expires r = cr_started r + sc_windowMs c \<and>
      outstanding (receipts s) (sc_scope c) key (cr_started r) \<le> cr_count r \<and>
      ((sc_scope c, key, cr_started r) \<in> set (audits s) \<longrightarrow> cr_reported r)"
  shows "counter_good c s"
  using assms unfolding counter_good_def by blast

lemma counter_goodD:
  assumes "counter_good c s"
  shows "w \<in> seen s (sc_scope c) key \<Longrightarrow> behind c s key w"
    and "v \<in> seen s (sc_scope c) key \<Longrightarrow> w \<in> seen s (sc_scope c) key \<Longrightarrow> apart (sc_windowMs c) v w"
    and "outstanding (receipts s) (sc_scope c) key w \<le> sc_limit c"
    and "counter_row (sc_scope c) key (rows s) = Some r \<Longrightarrow> cr_expires r = cr_started r + sc_windowMs c \<and>
      outstanding (receipts s) (sc_scope c) key (cr_started r) \<le> cr_count r \<and>
      ((sc_scope c, key, cr_started r) \<in> set (audits s) \<longrightarrow> cr_reported r)"
  using assms unfolding counter_good_def by blast+

lemma behind_row: "counter_row (sc_scope c) key (rows s) = Some r \<Longrightarrow>
    behind c s key w \<longleftrightarrow> w = cr_started r \<or> w + sc_windowMs c \<le> cr_started r"
  by (simp add: behind_def)

lemma behind_no_row: "counter_row (sc_scope c) key (rows s) = None \<Longrightarrow>
    behind c s key w \<longleftrightarrow> w + sc_windowMs c \<le> pruned s"
  by (simp add: behind_def)

lemma apart_sym: "apart width v w \<longleftrightarrow> apart width w v"
  by (auto simp: apart_def)

lemma apart_refl [simp]: "apart width w w"
  by (simp add: apart_def)

lemma good_frame:
  assumes "counter_good c s"
    and "\<And>key. counter_row (sc_scope c) key (rows s') = counter_row (sc_scope c) key (rows s)"
    and "\<And>key. seen s' (sc_scope c) key = seen s (sc_scope c) key"
    and "\<And>key w. outstanding (receipts s') (sc_scope c) key w = outstanding (receipts s) (sc_scope c) key w"
    and "\<And>key w. (sc_scope c, key, w) \<in> set (audits s') \<longleftrightarrow> (sc_scope c, key, w) \<in> set (audits s)"
    and "pruned s' = pruned s"
  shows "counter_good c s'"
proof -
  have "behind c s' = behind c s" by (simp add: behind_def assms fun_eq_iff cong: option.case_cong)
  then show ?thesis using assms(1) unfolding counter_good_def assms(2-5) by simp
qed

lemma seenI:
  "r \<in> set (receipts s) \<Longrightarrow> rc_scope r = scope \<Longrightarrow> rc_key r = key \<Longrightarrow> rc_window r \<in> seen s scope key"
  by (auto simp: seen_def)

lemma outstanding_unseen: "w \<notin> seen s scope key \<Longrightarrow> outstanding (receipts s) scope key w = 0"
  by (auto simp: outstanding_def seen_def filter_empty_conv)

lemma behind_apart:
  "behind c s key v \<Longrightarrow> counter_row (sc_scope c) key (rows s) = Some r \<Longrightarrow> apart (sc_windowMs c) v (cr_started r)"
  by (auto simp: behind_def apart_def)

text \<open>A hit keeps the invariant, and its window has room for one more receipt below its count.\<close>

lemma good_hit:
  assumes good: "counter_good c s" and ms: "0 < sc_windowMs c" and t: "pruned s \<le> t"
    and hit: "hit_stored c key t (rows s) = ((n, w), rows')"
  defines "s' \<equiv> s\<lparr>rows := rows'\<rparr>"
  shows "counter_good c s'" and "outstanding (receipts s) (sc_scope c) key w < n"
    and "\<exists>r. counter_row (sc_scope c) key rows' = Some r \<and> cr_started r = w \<and> cr_count r = n"
proof -
  have rows': "rows' = snd (hit_stored c key t (rows s))" using hit by simp
  have same: "seen s' scope k = seen s scope k" for scope k by (simp add: s'_def seen_def)
  obtain r' where r': "counter_row (sc_scope c) key rows' = Some r'"
    by (simp add: rows' counter_row_hit)
  have nw: "n = cr_count r'" "w = cr_started r'"
    using hit_answer [of c key t "rows s"] hit r' by simp_all
  then show "\<exists>r. counter_row (sc_scope c) key rows' = Some r \<and> cr_started r = w \<and> cr_count r = n"
    using r' by blast
  have key: "(\<forall>v\<in>seen s (sc_scope c) key. v = w \<or> v + sc_windowMs c \<le> w) \<and>
      cr_expires r' = w + sc_windowMs c \<and> outstanding (receipts s) (sc_scope c) key w < n \<and>
      ((sc_scope c, key, w) \<in> set (audits s) \<longrightarrow> cr_reported r')"
  proof (cases "\<exists>r. counter_row (sc_scope c) key (rows s) = Some r \<and> t < cr_expires r")
    case True
    then obtain r where r: "counter_row (sc_scope c) key (rows s) = Some r" "t < cr_expires r" by blast
    then have "r' = r\<lparr>cr_count := Suc (cr_count r)\<rparr>"
      using r' by (simp add: rows' counter_row_hit hit_row_def)
    then show ?thesis using good r nw unfolding counter_good_def behind_def by fastforce
  next
    case False
    then have "cr_count r' = 1" "cr_started r' = t" "cr_expires r' = t + sc_windowMs c" "\<not> cr_reported r'"
      using r' by (auto simp: rows' counter_row_hit hit_row_def split: option.splits)
    moreover have "v + sc_windowMs c \<le> t" if "v \<in> seen s (sc_scope c) key" for v
      using good that False t ms unfolding counter_good_def behind_def
      by (fastforce split: option.splits)
    moreover have "t \<notin> seen s (sc_scope c) key" using calculation(5) [of t] ms by auto
    ultimately show ?thesis
      using nw outstanding_unseen [of t s "sc_scope c" key] by (auto simp: seen_def)
  qed
  then show "outstanding (receipts s) (sc_scope c) key w < n" by blast
  have other: "counter_row (sc_scope c) k rows' = counter_row (sc_scope c) k (rows s)" if "k \<noteq> key" for k
    using that by (simp add: rows' counter_row_hit)
  show "counter_good c s'"
  proof (rule counter_goodI)
    fix k v assume "v \<in> seen s' (sc_scope c) k"
    then have v: "v \<in> seen s (sc_scope c) k" by (simp add: same)
    show "behind c s' k v"
    proof (cases "k = key")
      case True
      then show ?thesis using key v r' nw by (simp add: s'_def behind_row)
    next
      case False
      then show ?thesis
        using counter_goodD(1) [OF good v] other by (auto simp: s'_def behind_def split: option.splits)
    qed
  next
    fix k r assume r: "counter_row (sc_scope c) k (rows s') = Some r"
    show "cr_expires r = cr_started r + sc_windowMs c \<and>
      outstanding (receipts s') (sc_scope c) k (cr_started r) \<le> cr_count r \<and>
      ((sc_scope c, k, cr_started r) \<in> set (audits s') \<longrightarrow> cr_reported r)"
    proof (cases "k = key")
      case True
      then show ?thesis using key r r' nw by (auto simp: s'_def)
    next
      case False
      then show ?thesis using counter_goodD(4) [OF good, of k r] r other by (simp add: s'_def)
    qed
  qed (use counter_goodD(2,3) [OF good] in \<open>simp_all add: same, simp_all add: s'_def\<close>)
qed

lemma good_receipt:
  assumes good: "counter_good c s"
    and row: "counter_row (sc_scope c) key (rows s) = Some r"
    and room: "outstanding (receipts s) (sc_scope c) key (cr_started r) < cr_count r" "cr_count r \<le> sc_limit c"
  shows "counter_good c (s\<lparr>receipts := receipts s @
    [\<lparr>rc_scope = sc_scope c, rc_key = key, rc_window = cr_started r, spent = False\<rparr>]\<rparr>)" (is "counter_good c ?s")
proof -
  have seen: "seen ?s (sc_scope c) k =
      (if k = key then insert (cr_started r) (seen s (sc_scope c) k) else seen s (sc_scope c) k)" for k
    by (auto simp: seen_def)
  have out: "outstanding (receipts ?s) (sc_scope c) k w = outstanding (receipts s) (sc_scope c) k w +
      (if k = key \<and> w = cr_started r then 1 else 0)" for k w
    by (simp add: outstanding_def)
  have behind: "behind c ?s = behind c s" by (auto simp: behind_def fun_eq_iff split: option.splits)
  have new: "apart (sc_windowMs c) w (cr_started r)" if "w \<in> seen s (sc_scope c) key" for w
    by (rule behind_apart [OF counter_goodD(1) [OF good that] row])
  show ?thesis
  proof (rule counter_goodI)
    fix k w assume "w \<in> seen ?s (sc_scope c) k"
    then show "behind c ?s k w"
      using counter_goodD(1) [OF good, of w k] row unfolding behind seen
      by (auto simp: behind_row split: if_splits)
  next
    fix k v w assume "v \<in> seen ?s (sc_scope c) k" "w \<in> seen ?s (sc_scope c) k"
    then show "apart (sc_windowMs c) v w"
      using counter_goodD(2) [OF good] new apart_sym unfolding seen by (auto split: if_splits)
  next
    fix k w show "outstanding (receipts ?s) (sc_scope c) k w \<le> sc_limit c"
      using counter_goodD(3) [OF good, of k w] room unfolding out by auto
  next
    fix k r' assume r': "counter_row (sc_scope c) k (rows ?s) = Some r'"
    then have "r' = r" if "k = key" using that row by simp
    then show "cr_expires r' = cr_started r' + sc_windowMs c \<and>
      outstanding (receipts ?s) (sc_scope c) k (cr_started r') \<le> cr_count r' \<and>
      ((sc_scope c, k, cr_started r') \<in> set (audits ?s) \<longrightarrow> cr_reported r')"
      using counter_goodD(4) [OF good, of k r'] r' room unfolding out by auto
  qed
qed

lemma good_report:
  assumes good: "counter_good c s" and ok: "rows_ok (rows s)"
    and report: "firstRefusal_stored c key w (rows s) = (audit, rows')"
  shows "counter_good c (s\<lparr>rows := rows', refusing := x,
      audits := if audit then (sc_scope c, key, w) # audits s else audits s\<rparr>)" (is "counter_good c ?s")
    and "audit \<Longrightarrow> (sc_scope c, key, w) \<notin> set (audits s)"
proof -
  have rows': "counter_row (sc_scope c) k rows' =
      map_option (\<lambda>r. if refusal_row (sc_scope c) key w r then r\<lparr>cr_reported := True\<rparr> else r)
        (counter_row (sc_scope c) k (rows s))" for k
    using counter_row_refusal [of "sc_scope c" k c key w "rows s"] report by simp
  have audit: "audit \<longleftrightarrow> (\<exists>r. counter_row (sc_scope c) key (rows s) = Some r \<and> cr_started r = w \<and> \<not> cr_reported r)"
    using first_refusal_iff [OF ok, of c key w] report by simp
  then show "audit \<Longrightarrow> (sc_scope c, key, w) \<notin> set (audits s)"
    using good unfolding counter_good_def by blast
  have seen: "seen ?s (sc_scope c) k =
      (if audit \<and> k = key then insert w (seen s (sc_scope c) k) else seen s (sc_scope c) k)" for k
    by (auto simp: seen_def)
  have behind: "behind c ?s k v \<longleftrightarrow> behind c s k v" for k v
    by (auto simp: behind_def rows' split: option.splits)
  have new: "behind c s key w" "v \<in> seen s (sc_scope c) key \<Longrightarrow> apart (sc_windowMs c) v w" if audit for v
    using that audit behind_apart [OF counter_goodD(1) [OF good], of v key] by (auto simp: behind_row)
  show "counter_good c ?s"
  proof (rule counter_goodI)
    fix k v assume "v \<in> seen ?s (sc_scope c) k"
    then show "behind c ?s k v"
      using counter_goodD(1) [OF good] new(1) unfolding behind seen by (auto split: if_splits)
  next
    fix k u v assume "u \<in> seen ?s (sc_scope c) k" "v \<in> seen ?s (sc_scope c) k"
    then show "apart (sc_windowMs c) u v"
      using counter_goodD(2) [OF good] new(2) apart_sym unfolding seen by (auto split: if_splits)
  next
    fix k r' assume r': "counter_row (sc_scope c) k (rows ?s) = Some r'"
    obtain r where r: "counter_row (sc_scope c) k (rows s) = Some r"
        "r' = (if refusal_row (sc_scope c) key w r then r\<lparr>cr_reported := True\<rparr> else r)"
      using r' by (auto simp: rows')
    then have "row_key r = (sc_scope c, k)" using counter_row_key by blast
    then have "refusal_row (sc_scope c) key w r" if "k = key" "cr_started r = w" "\<not> cr_reported r"
      using that by (simp add: refusal_row_def)
    then show "cr_expires r' = cr_started r' + sc_windowMs c \<and>
      outstanding (receipts ?s) (sc_scope c) k (cr_started r') \<le> cr_count r' \<and>
      ((sc_scope c, k, cr_started r') \<in> set (audits ?s) \<longrightarrow> cr_reported r')"
      using counter_goodD(4) [OF good r(1)] r(2) by (auto split: if_splits)
  qed (use counter_goodD(3) [OF good] in simp)
qed

lemma outstanding_update:
  assumes "i < length rs" and "\<not> spent (rs ! i)"
  shows "outstanding (rs[i := (rs ! i)\<lparr>spent := True\<rparr>]) scope key w +
      (if rc_scope (rs ! i) = scope \<and> rc_key (rs ! i) = key \<and> rc_window (rs ! i) = w then 1 else 0) =
    outstanding rs scope key w"
  using length_filter_update [OF assms(1), of "\<lambda>r. rc_scope r = scope \<and> rc_key r = key \<and> rc_window r = w \<and> \<not> spent r"
      "(rs ! i)\<lparr>spent := True\<rparr>"] assms(2)
  unfolding outstanding_def by simp

lemma seen_update:
  assumes "i < length (receipts s)"
  shows "seen (s\<lparr>rows := rows', receipts := (receipts s)[i := (receipts s ! i)\<lparr>spent := b\<rparr>]\<rparr>) scope key =
    seen s scope key"
proof -
  let ?f = "\<lambda>r :: counter_receipt. (rc_scope r, rc_key r, rc_window r)" and ?rs = "(receipts s)[i := (receipts s ! i)\<lparr>spent := b\<rparr>]"
  have "map ?f ?rs = map ?f (receipts s)"
    using assms by (simp add: map_update) (simp add: list_update_same_conv)
  then have "?f ` set ?rs = ?f ` set (receipts s)" by (metis (lifting) list.set_map)
  moreover have "rc_window ` set (filter (\<lambda>r. rc_scope r = scope \<and> rc_key r = key) rs) =
      {w. (scope, key, w) \<in> ?f ` set rs}" for rs :: "counter_receipt list"
    by force
  ultimately show ?thesis by (simp add: seen_def)
qed

lemma good_given:
  assumes good: "counter_good c s" and i: "i < length (receipts s)"
    and give: "giveBack_stored c (receipts s ! i) up (rows s) = (r', rows')"
  shows "counter_good c (s\<lparr>rows := rows', receipts := (receipts s)[i := r']\<rparr>)" (is "counter_good c ?s")
proof (cases "spent (receipts s ! i) \<or> rc_scope (receipts s ! i) \<noteq> sc_scope c")
  case True
  then have "?s = s" using give i by (auto simp: giveBack_stored_def list_update_id)
  then show ?thesis using good by simp
next
  case False
  let ?r = "receipts s ! i"
  have r': "r' = ?r\<lparr>spent := True\<rparr>" using give False by (auto simp: giveBack_stored_def)
  have seen: "seen ?s scope key = seen s scope key" for scope key unfolding r' by (rule seen_update [OF i])
  have out: "outstanding (receipts ?s) (sc_scope c) key w +
      (if rc_key ?r = key \<and> rc_window ?r = w then 1 else 0) = outstanding (receipts s) (sc_scope c) key w" for key w
    using outstanding_update [OF i, of "sc_scope c" key w] False by (simp add: r')
  have row: "counter_row (sc_scope c) key rows' =
      (if up then map_option (\<lambda>r. if given_row (sc_scope c) (rc_key ?r) (rc_window ?r) r
                          then r\<lparr>cr_count := cr_count r - 1\<rparr> else r) (counter_row (sc_scope c) key (rows s))
       else counter_row (sc_scope c) key (rows s))" for key
    using counter_row_given [of "sc_scope c" key c ?r "rows s"] give False
    by (cases up) (simp_all add: giveBack_stored_def)
  have behind: "behind c ?s = behind c s" by (auto simp: behind_def row fun_eq_iff split: option.splits)
  show ?thesis
  proof (rule counter_goodI)
    fix key w show "outstanding (receipts ?s) (sc_scope c) key w \<le> sc_limit c"
      using counter_goodD(3) [OF good, of key w] out [of key w] by linarith
  next
    fix key x assume "counter_row (sc_scope c) key (rows ?s) = Some x"
    then obtain y where y: "counter_row (sc_scope c) key (rows s) = Some y"
        "x = y \<or> given_row (sc_scope c) (rc_key ?r) (rc_window ?r) y \<and> x = y\<lparr>cr_count := cr_count y - 1\<rparr>"
      by (auto simp: row split: if_splits)
    have "rc_key ?r = key \<and> rc_window ?r = cr_started y"
      if "given_row (sc_scope c) (rc_key ?r) (rc_window ?r) y"
      using that counter_row_key [OF y(1)] by (auto simp: given_row_def)
    then show "cr_expires x = cr_started x + sc_windowMs c \<and>
      outstanding (receipts ?s) (sc_scope c) key (cr_started x) \<le> cr_count x \<and>
      ((sc_scope c, key, cr_started x) \<in> set (audits ?s) \<longrightarrow> cr_reported x)"
      using counter_goodD(4) [OF good y(1)] y(2) out [of key "cr_started y"] by (auto split: if_splits)
  qed (use counter_goodD(1,2) [OF good] in \<open>simp_all add: seen behind\<close>)
qed

lemma good_pruned:
  assumes good: "counter_good c s" and ok: "rows_ok (rows s)" and ms: "0 < sc_windowMs c"
  shows "counter_good c (s\<lparr>rows := snd (pruneEndedCounters t (rows s)), pruned := max t (pruned s)\<rparr>)"
    (is "counter_good c ?s")
proof (rule counter_goodI)
  have seen: "seen ?s scope key = seen s scope key" for scope key by (simp add: seen_def)
  fix key w assume "w \<in> seen ?s (sc_scope c) key"
  then have w: "behind c s key w" using counter_goodD(1) [OF good] by (simp add: seen)
  show "behind c ?s key w"
  proof (cases "counter_row (sc_scope c) key (rows s)")
    case None
    then show ?thesis using w by (simp add: behind_def counter_row_pruned [OF ok])
  next
    case (Some r)
    then show ?thesis using w counter_goodD(4) [OF good Some] ms
      by (auto simp: behind_def counter_row_pruned [OF ok])
  qed
  fix v assume "v \<in> seen ?s (sc_scope c) key"
  then show "apart (sc_windowMs c) v w"
    using \<open>w \<in> seen ?s (sc_scope c) key\<close> counter_goodD(2) [OF good] by (simp add: seen)
next
  fix key r assume "counter_row (sc_scope c) key (rows ?s) = Some r"
  then have "counter_row (sc_scope c) key (rows s) = Some r"
    by (auto simp: counter_row_pruned [OF ok] split: option.splits if_splits)
  then show "cr_expires r = cr_started r + sc_windowMs c \<and>
      outstanding (receipts ?s) (sc_scope c) key (cr_started r) \<le> cr_count r \<and>
      ((sc_scope c, key, cr_started r) \<in> set (audits ?s) \<longrightarrow> cr_reported r)"
    using counter_goodD(4) [OF good] by simp
qed (use counter_goodD(3) [OF good] in simp)

section \<open>Every step keeps it\<close>

lemma same_scope: "counters_ok C \<Longrightarrow> c \<in> set C \<Longrightarrow> d \<in> set C \<Longrightarrow> sc_scope c = sc_scope d \<Longrightarrow> c = d"
  by (auto simp: counters_ok_def distinct_map inj_on_def)

text \<open>A step on one counter leaves the others what they are.\<close>

definition elsewhere :: "stored_counter \<Rightarrow> counter_system \<Rightarrow> counter_system \<Rightarrow> bool" where
  "elsewhere c s s' \<longleftrightarrow> pruned s' = pruned s \<and>
     (\<forall>scope key w. scope \<noteq> sc_scope c \<longrightarrow>
        counter_row scope key (rows s') = counter_row scope key (rows s) \<and>
        seen s' scope key = seen s scope key \<and>
        outstanding (receipts s') scope key w = outstanding (receipts s) scope key w \<and>
        ((scope, key, w) \<in> set (audits s') \<longleftrightarrow> (scope, key, w) \<in> set (audits s)))"

lemma counter_invI:
  assumes C: "counters_ok C" and inv: "counter_inv C s" and c: "c \<in> set C"
    and good: "counter_good c s'" and else: "elsewhere c s s'"
    and rest: "rows_ok (rows s')" "distinct (audits s')"
  shows "counter_inv C s'"
proof -
  have "counter_good d s'" if d: "d \<in> set C" for d
  proof (cases "d = c")
    case False
    then have "sc_scope d \<noteq> sc_scope c" using same_scope [OF C d c] by blast
    then show ?thesis
      using inv d else unfolding counter_inv_def elsewhere_def by (intro good_frame [of d s s']) auto
  qed (simp add: good)
  then show ?thesis using rest by (simp add: counter_inv_def)
qed

lemma counter_invD:
  assumes "counters_ok C" and "counter_inv C s" and "c \<in> set C"
  shows "counter_good c s" and "0 < sc_windowMs c" and "rows_ok (rows s)" and "distinct (audits s)"
  using assms by (simp_all add: counter_inv_def counters_ok_def)

lemma inv_counted_in:
  assumes inv: "counters_ok C" "counter_inv C s" "c \<in> set C" and t: "pruned s \<le> t"
    and hit: "hit_stored c key t (rows s) = ((n, w), rows')" and n: "n \<le> sc_limit c"
  shows "counter_inv C (s\<lparr>rows := rows', receipts := receipts s @
      [\<lparr>rc_scope = sc_scope c, rc_key = key, rc_window = w, spent = False\<rparr>]\<rparr>)" (is "counter_inv C ?s")
proof (rule counter_invI [OF inv])
  note good = counter_invD [OF inv]
  let ?t = "s\<lparr>rows := rows'\<rparr>"
  obtain r where r: "counter_row (sc_scope c) key (rows ?t) = Some r" "cr_started r = w" "cr_count r = n"
    using good_hit(3) [OF good(1,2) t hit] by auto
  show "counter_good c ?s"
    using good_receipt [OF good_hit(1) [OF good(1,2) t hit] r(1)] good_hit(2) [OF good(1,2) t hit] r(2,3) n
    by simp
  show "elsewhere c s ?s"
    using counter_row_hit [of _ _ c key t "rows s"] hit by (simp add: elsewhere_def seen_def outstanding_def)
  show "rows_ok (rows ?s)" using hit_stored_ok [OF good(3), of c key t] hit by simp
  show "distinct (audits ?s)" using good(4) by simp
qed

lemma inv_hit:
  assumes inv: "counters_ok C" "counter_inv C s" "c \<in> set C" and t: "pruned s \<le> t"
  shows "counter_inv C (s\<lparr>rows := snd (hit_stored c key t (rows s)), refusing := x\<rparr>)" (is "counter_inv C ?s")
proof (rule counter_invI [OF inv])
  note good = counter_invD [OF inv]
  obtain n w rows' where hit: "hit_stored c key t (rows s) = ((n, w), rows')" by (metis prod.exhaust)
  show "counter_good c ?s"
    by (rule good_frame [OF good_hit(1) [OF good(1,2) t hit]]) (simp_all add: hit seen_def)
  show "elsewhere c s ?s" by (simp add: elsewhere_def seen_def counter_row_hit)
  show "rows_ok (rows ?s)" using hit_stored_ok [OF good(3), of c key t] by simp
  show "distinct (audits ?s)" using good(4) by simp
qed

lemma inv_reported:
  assumes inv: "counters_ok C" "counter_inv C s" "c \<in> set C"
    and report: "firstRefusal_stored c key w (rows s) = (audit, rows')"
  shows "counter_inv C (s\<lparr>rows := rows', refusing := x,
      audits := if audit then (sc_scope c, key, w) # audits s else audits s\<rparr>)" (is "counter_inv C ?s")
proof (rule counter_invI [OF inv])
  note good = counter_invD [OF inv]
  show "counter_good c ?s" by (rule good_report(1) [OF good(1,3) report])
  have "counter_row scope k rows' = counter_row scope k (rows s)" if "scope \<noteq> sc_scope c" for scope k
    using counter_row_elsewhere(2) [OF that, of k key w "rows s"] report by simp
  then show "elsewhere c s ?s" by (auto simp: elsewhere_def seen_def)
  show "rows_ok (rows ?s)" using firstRefusal_ok [OF good(3), of c key w] report by simp
  show "distinct (audits ?s)" using good_report(2) [OF good(1,3) report] good(4) by simp
qed

lemma inv_given_back:
  assumes inv: "counters_ok C" "counter_inv C s" "c \<in> set C" and i: "i < length (receipts s)"
    and give: "giveBack_stored c (receipts s ! i) up (rows s) = (r', rows')"
  shows "counter_inv C (s\<lparr>rows := rows', receipts := (receipts s)[i := r']\<rparr>)" (is "counter_inv C ?s")
proof (cases "spent (receipts s ! i) \<or> rc_scope (receipts s ! i) \<noteq> sc_scope c")
  case True
  then have "?s = s" using give i by (auto simp: giveBack_stored_def list_update_id)
  then show ?thesis using inv by simp
next
  case False
  note good = counter_invD [OF inv]
  let ?r = "receipts s ! i"
  have r': "r' = ?r\<lparr>spent := True\<rparr>" using give False by (auto simp: giveBack_stored_def)
  have row: "counter_row scope k rows' = counter_row scope k (rows s)" if "scope \<noteq> sc_scope c" for scope k
    using counter_row_elsewhere(3) [OF that, of k ?r up "rows s"] give by simp
  have "outstanding (receipts ?s) scope k w = outstanding (receipts s) scope k w"
    if "scope \<noteq> sc_scope c" for scope k w
    using outstanding_update [OF i, of scope k w] False that by (simp add: r')
  then have "elsewhere c s ?s" using row seen_update [OF i, where rows' = rows' and b = True] by (simp add: elsewhere_def r')
  moreover have "counter_good c ?s" by (rule good_given [OF good(1) i give])
  moreover have "rows_ok (rows ?s)" using giveBack_ok [OF good(3), of c ?r up] give by simp
  ultimately show ?thesis using good(4) by (intro counter_invI [OF inv]) simp_all
qed

lemma counter_inv_step:
  assumes C: "counters_ok C" and inv: "counter_inv C s" and step: "counter_step C s s'"
  shows "counter_inv C s'"
  using step
proof cases
  case (counted_in c t key n w rows')
  then show ?thesis using inv_counted_in [OF C inv] by blast
next
  case (counted_out c t key n w rows')
  then show ?thesis using inv_hit [OF C inv counted_out(2,3), where key = key] by simp
next
  case (reported c key w audit rows')
  then show ?thesis using inv_reported [OF C inv reported(2,4)] by simp
next
  case (added c t key)
  then show ?thesis using inv_hit [OF C inv added(2,3), where key = key and x = "refusing s"] by simp
next
  case (given_back c i up r' rows')
  then show ?thesis using inv_given_back [OF C inv given_back(2-4)] by simp
next
  case (pruned_at t)
  have "counter_good c s'" if "c \<in> set C" for c
    using good_pruned [OF counter_invD(1) [OF C inv that] _ counter_invD(2) [OF C inv that]] inv pruned_at
    by (simp add: counter_inv_def)
  then show ?thesis using inv prune_ok [of "rows s" t] pruned_at by (simp add: counter_inv_def)
qed

lemma counter_inv_start: "counter_start s \<Longrightarrow> counter_inv C s"
  by (auto simp: counter_start_def counter_inv_def seen_def outstanding_def counter_row_def find_row_def
      intro!: counter_goodI)

end
