(* ===== verification/Address_Key.thy ===== *)
theory Address_Key
  imports Js_Text
begin

text \<open>
  \<open>addressKey\<close> of \<open>apps/api/src/rate-limit.ts\<close>: the key under which a client address is counted.
  An IPv6 client counts as its /64 network, in whichever of its spellings the address comes.
\<close>

section \<open>\<open>node:net\<close>\<close>

definition isIPv4 :: "string \<Rightarrow> bool" where
  "isIPv4 s \<longleftrightarrow> length (split CHR ''.'' s) = 4 \<and>
     list_all (\<lambda>p. canonical_decimal p \<and> number_of_digits p \<le> 255) (split CHR ''.'' s)"

definition is_hex :: "char \<Rightarrow> bool" where
  "is_hex c \<longleftrightarrow> is_digit c \<or> (97 \<le> char_code c \<and> char_code c \<le> 102) \<or>
     (65 \<le> char_code c \<and> char_code c \<le> 70)"

definition hex_val :: "char \<Rightarrow> nat" where
  "hex_val c = (if is_digit c then digit_val c
     else if 97 \<le> char_code c then char_code c - 87 else char_code c - 55)"

definition hex_group :: "string \<Rightarrow> bool" where
  "hex_group g \<longleftrightarrow> g \<noteq> [] \<and> length g \<le> 4 \<and> list_all is_hex g"

text \<open>The groups on one side of \<open>::\<close>; only the last of an address may be a dotted quad, worth two.\<close>

definition v6_side :: "bool \<Rightarrow> string \<Rightarrow> nat option" where
  "v6_side may_quad s =
     (if s = [] then Some 0
      else let ps = split CHR '':'' s in
        if list_all hex_group ps then Some (length ps)
        else if may_quad \<and> list_all hex_group (butlast ps) \<and> isIPv4 (last ps) then Some (length ps + 1)
        else None)"

text \<open>What is before and after the first \<open>::\<close>.\<close>

fun cut_double :: "string \<Rightarrow> (string \<times> string) option" where
  "cut_double (a # b # s) =
     (if a = CHR '':'' \<and> b = CHR '':'' then Some ([], s)
      else map_option (\<lambda>(x, y). (a # x, y)) (cut_double (b # s)))"
| "cut_double s = None"

definition zone_char :: "char \<Rightarrow> bool" where
  "zone_char c \<longleftrightarrow> is_digit c \<or> is_lower (lower_char c) \<and> char_code c < 128 \<or> c = CHR ''-'' \<or> c = CHR ''.''"

definition isIPv6 :: "string \<Rightarrow> bool" where
  "isIPv6 ip \<longleftrightarrow>
     (let zones = split CHR ''%'' ip; a = hd zones in
      (length zones = 1 \<or> length zones = 2 \<and> last zones \<noteq> [] \<and> list_all zone_char (last zones)) \<and>
      (case cut_double a of
         None \<Rightarrow> v6_side True a = Some 8
       | Some (h, t) \<Rightarrow>
           (case (v6_side False h, v6_side True t) of
              (Some m, Some n) \<Rightarrow> m + n \<le> 7
            | _ \<Rightarrow> False)))"

section \<open>The key\<close>

text \<open>\<open>Number.parseInt(g, 16)\<close>, \<open>None\<close> for \<open>NaN\<close>, and \<open>toString(16)\<close>.\<close>

definition parse_hex :: "string \<Rightarrow> nat option" where
  "parse_hex g =
     (case takeWhile is_hex g of
        [] \<Rightarrow> None
      | ds \<Rightarrow> Some (foldl (\<lambda>n c. 16 * n + hex_val c) 0 ds))"

definition hex_digit :: "nat \<Rightarrow> char" where
  "hex_digit n = char_of (if n < 10 then 48 + n else 87 + n)"

fun show_hex :: "nat \<Rightarrow> string" where
  "show_hex n = (if n < 16 then [hex_digit n] else show_hex (n div 16) @ [hex_digit (n mod 16)])"

declare show_hex.simps [simp del]

definition show_group :: "nat option \<Rightarrow> string" where
  "show_group v = (case v of None \<Rightarrow> ''NaN'' | Some n \<Rightarrow> show_hex n)"

text \<open>\<open>/^::ffff:(\d+\.\d+\.\d+\.\d+)$/\<close>, and what it captures.\<close>

definition mapped_quad :: "string \<Rightarrow> string option" where
  "mapped_quad s =
     (let q = drop 7 s; ps = split CHR ''.'' q in
      if startsWith s ''::ffff:'' \<and> length ps = 4 \<and> list_all (\<lambda>p. p \<noteq> [] \<and> list_all is_digit p) ps
      then Some q else None)"

definition parts_of :: "string \<Rightarrow> string list" where
  "parts_of s = (if s = [] then [] else split CHR '':'' s)"

text \<open>
  The groups the code reads: the two sides of \<open>::\<close> and zeros between them.
  \<open>Array(missing)\<close> is of a positive length for every address \<open>isIPv6\<close> accepts with \<open>::\<close>.
\<close>

definition key_groups :: "string \<Rightarrow> string list" where
  "key_groups ip =
     (let a = hd (split CHR ''%'' (toLowerCase ip));
        (h, t) = (case cut_double a of
           None \<Rightarrow> (a, [])
         | Some (h, t) \<Rightarrow> (h, case cut_double t of None \<Rightarrow> t | Some (t, _) \<Rightarrow> t));
        missing = 8 - length (parts_of h) - length (parts_of t)
      in if cut_double ip \<noteq> None then parts_of h @ replicate missing ''0'' @ parts_of t else parts_of h)"

definition network_key :: "string \<Rightarrow> string" where
  "network_key ip =
     (if \<not> isIPv6 ip then ip
      else join '':'' (map (\<lambda>g. show_group (parse_hex g)) (take 4 (key_groups ip))) @ ''::/64'')"

definition addressKey :: "string \<Rightarrow> string" where
  "addressKey ip =
     (case mapped_quad (toLowerCase ip) of
        Some q \<Rightarrow> if isIPv4 q then q else network_key ip
      | None \<Rightarrow> network_key ip)"

section \<open>What the address is\<close>

text \<open>The 128-bit number an IPv6 address without a dotted quad stands for.\<close>

definition hex_number :: "string \<Rightarrow> nat" where
  "hex_number g = foldl (\<lambda>n c. 16 * n + hex_val c) 0 g"

definition side_number :: "string \<Rightarrow> nat" where
  "side_number s = foldl (\<lambda>n g. 65536 * n + hex_number g) 0 (parts_of s)"

definition v6_address :: "string \<Rightarrow> nat" where
  "v6_address ip =
     (case cut_double (hd (split CHR ''%'' ip)) of
        None \<Rightarrow> side_number (hd (split CHR ''%'' ip))
      | Some (h, t) \<Rightarrow> side_number h * 65536 ^ (8 - length (parts_of h)) + side_number t)"

definition dotless :: "string \<Rightarrow> bool" where
  "dotless ip \<longleftrightarrow> CHR ''.'' \<notin> set (hd (split CHR ''%'' ip))"

section \<open>Hexadecimal numbers\<close>

lemma hex_val_less: "is_hex c \<Longrightarrow> hex_val c < 16"
  by (auto simp: is_hex_def hex_val_def digit_val_def is_digit_def)

lemma hex_number_snoc [simp]: "hex_number (g @ [c]) = 16 * hex_number g + hex_val c"
  by (simp add: hex_number_def)

lemma hex_number_less: "list_all is_hex g \<Longrightarrow> hex_number g < 16 ^ length g"
proof (induction g rule: rev_induct)
  case (snoc c g)
  then show ?case using hex_val_less [of c] by simp
qed (simp add: hex_number_def)

lemma hex_group_less: "hex_group g \<Longrightarrow> hex_number g < 65536"
proof -
  assume g: "hex_group g"
  then have "hex_number g < 16 ^ length g" by (simp add: hex_group_def hex_number_less)
  also have "\<dots> \<le> 16 ^ 4" using g by (intro power_increasing) (simp_all add: hex_group_def)
  finally show ?thesis by simp
qed

lemma parse_hex_group:
  assumes "hex_group g"
  shows "parse_hex g = Some (hex_number g)"
proof -
  obtain c g' where g: "g = c # g'" using assms by (cases g) (simp_all add: hex_group_def)
  moreover have "takeWhile is_hex g = g"
    using assms by (simp add: hex_group_def takeWhile_eq_all_conv list_all_iff)
  ultimately show ?thesis unfolding parse_hex_def hex_number_def by (simp only: list.case)
qed

lemma code_hex_digit: "n < 16 \<Longrightarrow> char_code (hex_digit n) = (if n < 10 then 48 + n else 87 + n)"
  by (simp add: hex_digit_def of_char_of)

lemma hex_digit_hex:
  assumes "n < 16"
  shows "is_hex (hex_digit n) \<and> hex_val (hex_digit n) = n \<and> hex_digit n \<noteq> CHR '':''"
proof -
  have "hex_digit n \<noteq> CHR '':''"
    using code_hex_digit [OF assms] by (auto simp: of_char_eq_iff [symmetric, where 'a = nat] split: if_splits)
  then show ?thesis
    using assms by (auto simp: is_hex_def hex_val_def is_digit_def digit_val_def code_hex_digit)
qed

lemma show_hex_number: "hex_number (show_hex n) = n \<and> CHR '':'' \<notin> set (show_hex n) \<and> show_hex n \<noteq> []"
proof (induction n rule: show_hex.induct)
  case (1 n)
  show ?case
  proof (cases "n < 16")
    case True
    then show ?thesis using hex_digit_hex [of n] by (auto simp: show_hex.simps [of n] hex_number_def)
  next
    case False
    have "n mod 16 < 16" by simp
    from hex_digit_hex [OF this] show ?thesis using 1 False by (auto simp: show_hex.simps [of n])
  qed
qed

lemma show_hex_inject: "show_hex m = show_hex n \<longleftrightarrow> m = n"
  by (metis show_hex_number)

section \<open>Reading the groups\<close>

lemma code_lower: "char_code (lower_char c) =
    (if (65 \<le> char_code c \<and> char_code c \<le> 90) \<or> (192 \<le> char_code c \<and> char_code c \<le> 222 \<and> char_code c \<noteq> 215)
     then char_code c + 32 else char_code c)"
  by (simp add: lower_char_def of_char_of)

lemma lower_hex: "is_hex c \<Longrightarrow> is_hex (lower_char c) \<and> hex_val (lower_char c) = hex_val c"
  by (auto simp: is_hex_def hex_val_def is_digit_def digit_val_def code_lower)

lemma lower_sep: "lower_char c = CHR '':'' \<longleftrightarrow> c = CHR '':''" "lower_char c = CHR ''%'' \<longleftrightarrow> c = CHR ''%''"
    "lower_char c = CHR ''.'' \<longleftrightarrow> c = CHR ''.''"
  unfolding of_char_eq_iff [symmetric, of _ "CHR '':''", where 'a = nat]
    of_char_eq_iff [symmetric, of _ "CHR ''%''", where 'a = nat]
    of_char_eq_iff [symmetric, of _ "CHR ''.''", where 'a = nat] code_lower
  by auto

lemma split_map: "(\<And>c. f c = sep \<longleftrightarrow> c = sep) \<Longrightarrow> split sep (map f s) = map (map f) (split sep s)"
  by (induction s) (auto split: list.splits)

lemma cut_lower: "cut_double (toLowerCase s) = map_option (\<lambda>(h, t). (toLowerCase h, toLowerCase t)) (cut_double s)"
  by (induction s rule: cut_double.induct)
    (auto simp: toLowerCase_def lower_sep option.map_comp o_def split_def)

lemma cut_other: "b \<noteq> CHR '':'' \<Longrightarrow> cut_double (a # b # s) = map_option (\<lambda>(x, y). (a # x, y)) (cut_double (b # s))"
  by simp

lemma cut_none: "CHR '':'' \<notin> set z \<Longrightarrow> cut_double z = None"
  by (induction z rule: cut_double.induct) auto

lemma cut_zone:
  assumes z: "CHR '':'' \<notin> set z"
  shows "cut_double (a @ CHR ''%'' # z) = map_option (\<lambda>(h, t). (h, t @ CHR ''%'' # z)) (cut_double a)"
proof (induction a rule: cut_double.induct)
  case (1 a b s)
  then show ?case by (auto simp: option.map_comp o_def split_def)
qed (use z cut_none [of "CHR ''%'' # z"] in simp_all)

lemma cut_double_split: "cut_double s \<noteq> None \<Longrightarrow> [] \<in> set (tl (split CHR '':'' s))"
proof (induction s rule: cut_double.induct)
  case (1 a b s)
  obtain p ps where sp: "split CHR '':'' (b # s) = p # ps" by (metis neq_Nil_conv split_not_Nil)
  show ?case
  proof (cases "a = CHR '':'' \<and> b = CHR '':''")
    case False
    then have "[] \<in> set ps" using 1 sp by auto
    then show ?thesis using sp by (cases "a = CHR '':''") (simp_all only: split.simps list.sel if_True if_False list.case, simp_all)
  qed simp
qed simp_all

lemma split_sub: "p \<in> set (split sep s) \<Longrightarrow> set p \<subseteq> set s"
proof (induction s arbitrary: p)
  case (Cons c s)
  obtain q qs where sp: "split sep s = q # qs" by (metis neq_Nil_conv split_not_Nil)
  then have "set q \<subseteq> set s" "r \<in> set qs \<Longrightarrow> set r \<subseteq> set s" for r using Cons.IH by simp_all
  then show ?case using Cons.prems sp by (auto split: if_splits)
qed simp

lemma sep_in_part: "c \<in> set s \<Longrightarrow> c \<noteq> sep \<Longrightarrow> \<exists>p\<in>set (split sep s). c \<in> set p"
proof (induction s)
  case (Cons d s)
  obtain q qs where sp: "split sep s = q # qs" by (metis neq_Nil_conv split_not_Nil)
  then show ?case using Cons by auto
qed simp

lemma v6_side_dotless:
  assumes "v6_side q s = Some n" and "CHR ''.'' \<notin> set s"
  shows "list_all hex_group (parts_of s)" and "length (parts_of s) = n"
proof -
  have "\<not> isIPv4 p" if "p \<in> set (split CHR '':'' s)" for p
  proof -
    have "set p \<subseteq> set s" by (rule split_sub [OF that])
    then have "CHR ''.'' \<notin> set p" using assms(2) by blast
    then show ?thesis by (simp add: isIPv4_def split_no_sep)
  qed
  then show "list_all hex_group (parts_of s)" "length (parts_of s) = n"
    using assms(1) by (auto simp: v6_side_def parts_of_def Let_def split: if_splits)
qed

lemma side_lower:
  assumes "list_all hex_group (parts_of s)"
  shows "list_all hex_group (parts_of (toLowerCase s))" and "length (parts_of (toLowerCase s)) = length (parts_of s)"
    and "side_number (toLowerCase s) = side_number s"
proof -
  have parts: "parts_of (toLowerCase s) = map toLowerCase (parts_of s)"
    by (auto simp: parts_of_def toLowerCase_def split_map lower_sep)
  have group: "hex_group (toLowerCase g) \<and> hex_number (toLowerCase g) = hex_number g" if "hex_group g" for g
  proof -
    have "hex_number (toLowerCase g) = hex_number g" if "list_all is_hex g"
      using that by (induction g rule: rev_induct) (auto simp: toLowerCase_def hex_number_def lower_hex)
    then show ?thesis using that by (auto simp: hex_group_def toLowerCase_def list_all_iff lower_hex)
  qed
  show "list_all hex_group (parts_of (toLowerCase s))" "length (parts_of (toLowerCase s)) = length (parts_of s)"
    using assms group by (simp_all add: parts list_all_iff)
  have "foldl (\<lambda>n g. 65536 * n + hex_number g) k (map toLowerCase gs) = foldl (\<lambda>n g. 65536 * n + hex_number g) k gs"
    if "list_all hex_group gs" for k gs
    using that group by (induction gs arbitrary: k) auto
  then show "side_number (toLowerCase s) = side_number s" using assms by (simp add: side_number_def parts)
qed

abbreviation v6_number :: "nat \<Rightarrow> string list \<Rightarrow> nat" where
  "v6_number k gs \<equiv> foldl (\<lambda>n g. 65536 * n + hex_number g) k gs"

lemma v6_number_shift: "v6_number k gs = k * 65536 ^ length gs + v6_number 0 gs"
proof (induction gs arbitrary: k)
  case (Cons g gs)
  show ?case using Cons [of "65536 * k + hex_number g"] Cons [of "hex_number g"] by (simp add: algebra_simps)
qed simp

lemma v6_number_less: "list_all hex_group gs \<Longrightarrow> v6_number 0 gs < 65536 ^ length gs"
proof (induction gs rule: rev_induct)
  case (snoc g gs)
  then show ?case using hex_group_less [of g] by simp
qed simp

lemma base_inject:
  assumes "x < 65536" and "y < 65536"
  shows "65536 * a + x = 65536 * b + y \<longleftrightarrow> a = b \<and> x = (y :: nat)"
proof
  assume eq: "65536 * a + x = 65536 * b + y"
  then have "a = b" using arg_cong [OF eq, of "\<lambda>z. z div 65536"] assms by simp
  then show "a = b \<and> x = y" using eq by simp
qed simp

lemma v6_number_inject:
  "length gs = length hs \<Longrightarrow> list_all hex_group gs \<Longrightarrow> list_all hex_group hs \<Longrightarrow>
    v6_number 0 gs = v6_number 0 hs \<longleftrightarrow> map hex_number gs = map hex_number hs"
proof (induction gs hs rule: rev_induct2)
  case (4 g gs h hs)
  have less: "hex_number g < 65536" "hex_number h < 65536" using 4 hex_group_less by simp_all
  have "v6_number 0 gs = v6_number 0 hs \<longleftrightarrow> map hex_number gs = map hex_number hs" using 4 by simp
  then show ?case
    by (simp only: foldl_append foldl.simps map_append list.map append1_eq_conv base_inject [OF less])
qed simp_all

text \<open>The groups the key is made of are the address, group by group.\<close>

lemma zone_cases:
  assumes "isIPv6 ip"
  obtains z where "ip = hd (split CHR ''%'' ip) @ z" and "cut_double ip \<noteq> None \<longleftrightarrow> cut_double (hd (split CHR ''%'' ip)) \<noteq> None"
proof (cases "length (split CHR ''%'' ip) = 1")
  case True
  then obtain a where "split CHR ''%'' ip = [a]" by (auto simp: length_Suc_conv)
  moreover from this have "ip = a" using join_split [of "CHR ''%''" ip] by simp
  ultimately show thesis using that [of "[]"] by simp
next
  case False
  then obtain a z where sp: "split CHR ''%'' ip = [a, z]" and z: "list_all zone_char z"
    using assms by (auto simp: isIPv6_def Let_def length_Suc_conv numeral_2_eq_2)
  have ip: "ip = a @ CHR ''%'' # z" using join_split [of "CHR ''%''" ip] sp by simp
  have "CHR '':'' \<notin> set z" using z by (auto simp: list_all_iff zone_char_def is_digit_def is_lower_def code_lower)
  from cut_zone [OF this, of a] show thesis using that [of "CHR ''%'' # z"] sp ip by simp
qed

lemma key_groups_address:
  assumes v6: "isIPv6 ip" and dots: "dotless ip"
  shows "list_all hex_group (key_groups ip) \<and> length (key_groups ip) = 8 \<and>
    v6_number 0 (key_groups ip) = v6_address ip"
proof -
  define a where "a = hd (split CHR ''%'' ip)"
  have lower: "hd (split CHR ''%'' (toLowerCase ip)) = toLowerCase a"
    by (simp add: a_def toLowerCase_def split_map lower_sep list.map_sel(1))
  have whole: "cut_double ip \<noteq> None \<longleftrightarrow> cut_double a \<noteq> None"
    using zone_cases [OF v6] unfolding a_def by metis
  have nodot: "CHR ''.'' \<notin> set a" using dots by (simp add: dotless_def a_def)
  show ?thesis
  proof (cases "cut_double a")
    case None
    then have "v6_side True a = Some 8" using v6 by (simp add: isIPv6_def Let_def flip: a_def)
    note side = v6_side_dotless [OF this nodot]
    have "key_groups ip = parts_of (toLowerCase a)"
      using None whole by (simp add: key_groups_def lower cut_lower)
    then show ?thesis using side_lower [OF side(1)] side None
      by (simp add: v6_address_def side_number_def flip: a_def)
  next
    case (Some ht)
    obtain h t where ht: "cut_double a = Some (h, t)" using Some by (cases ht) simp
    then obtain m n where sides: "v6_side False h = Some m" "v6_side True t = Some n" "m + n \<le> 7"
      using v6 by (auto simp: isIPv6_def Let_def split: option.splits simp flip: a_def)
    have sub: "set h \<subseteq> set a" "set t \<subseteq> set a"
      using ht by (induction a arbitrary: h t rule: cut_double.induct) (auto split: if_splits)
    note h = v6_side_dotless [OF sides(1)] and t = v6_side_dotless [OF sides(2)]
    have nodots: "CHR ''.'' \<notin> set h" "CHR ''.'' \<notin> set t" using sub nodot by auto
    have "cut_double t = None"
    proof (rule ccontr)
      assume "cut_double t \<noteq> None"
      then have "[] \<in> set (parts_of t)"
        using cut_double_split [of t] by (cases "t = []") (auto simp: parts_of_def intro: list.set_sel(2))
      then show False using t(1) [OF nodots(2)] by (auto simp: list_all_iff hex_group_def)
    qed
    then have groups: "key_groups ip = parts_of (toLowerCase h) @
        replicate (8 - length (parts_of h) - length (parts_of t)) ''0'' @ parts_of (toLowerCase t)"
      using ht whole side_lower(2) [OF h(1)] side_lower(2) [OF t(1)] nodots
      by (simp add: key_groups_def lower cut_lower Let_def)
    note hl = side_lower [OF h(1) [OF nodots(1)]] and tl = side_lower [OF t(1) [OF nodots(2)]]
    have zero: "hex_group ''0''" "hex_number ''0'' = 0" by code_simp+
    have zeros: "v6_number k (replicate j ''0'') = k * 65536 ^ j" for j k
      by (induction j arbitrary: k) (simp_all add: zero)
    have len: "length (parts_of h) = m" "length (parts_of t) = n" using h(2) t(2) nodots by simp_all
    have "v6_number 0 (key_groups ip) =
        v6_number (side_number h * 65536 ^ (8 - m - n)) (parts_of (toLowerCase t))"
      unfolding groups foldl_append zeros len side_number_def [symmetric] hl(3) ..
    also have "\<dots> = side_number h * 65536 ^ (8 - m - n) * 65536 ^ n + side_number t"
      unfolding v6_number_shift [of "side_number h * 65536 ^ (8 - m - n)"] side_number_def [symmetric] tl(2,3) len ..
    also have "\<dots> = v6_address ip"
      using ht sides(3) len by (simp add: v6_address_def mult.assoc flip: a_def power_add)
    finally show ?thesis
      using hl tl len sides(3) unfolding groups by (auto simp: list_all_iff zero)
  qed
qed

section \<open>One network, one key\<close>

lemma not_mapped:
  assumes "isIPv6 ip" and dots: "dotless ip"
  shows "mapped_quad (toLowerCase ip) = None"
proof (rule ccontr)
  let ?s = "toLowerCase ip" and ?q = "drop 7 (toLowerCase ip)"
  assume "mapped_quad ?s \<noteq> None"
  then have pre: "?s = ''::ffff:'' @ ?q" and four: "length (split CHR ''.'' ?q) = 4"
    and digits: "list_all (\<lambda>p. p \<noteq> [] \<and> list_all is_digit p) (split CHR ''.'' ?q)"
    by (auto simp: mapped_quad_def Let_def startsWith_def prefix_def split: if_splits)
  have "CHR ''%'' \<notin> set ?q"
  proof
    assume "CHR ''%'' \<in> set ?q"
    then have "\<exists>p\<in>set (split CHR ''.'' ?q). CHR ''%'' \<in> set p" by (rule sep_in_part) simp
    then obtain p where p: "p \<in> set (split CHR ''.'' ?q)" "CHR ''%'' \<in> set p" by blast
    then have "is_digit (CHR ''%'')" using digits by (simp add: list_all_iff)
    then show False by (simp add: is_digit_def)
  qed
  moreover have "CHR ''.'' \<in> set ?q" using four split_no_sep [of "CHR ''.''" ?q] by fastforce
  ultimately have "CHR ''%'' \<notin> set ?s" "CHR ''.'' \<in> set ?s"
  proof -
    have "set ?s = set ''::ffff:'' \<union> set ?q" using arg_cong [OF pre, of set] by simp
    moreover assume "CHR ''%'' \<notin> set ?q" "CHR ''.'' \<in> set ?q"
    ultimately show "CHR ''%'' \<notin> set ?s" "CHR ''.'' \<in> set ?s" by auto
  qed
  moreover have "sep \<in> set ?s \<longleftrightarrow> sep \<in> set ip" if "\<And>c. lower_char c = sep \<longleftrightarrow> c = sep" for sep
    unfolding toLowerCase_def set_map image_iff using that by metis
  ultimately have "CHR ''%'' \<notin> set ip" "CHR ''.'' \<in> set ip" using lower_sep(2,3) by blast+
  then show False using dots by (simp add: dotless_def split_no_sep)
qed

lemma network_key_dotless:
  assumes "isIPv6 ip" and "dotless ip"
  shows "network_key ip = join '':'' (map (show_hex \<circ> hex_number) (take 4 (key_groups ip))) @ ''::/64''"
proof -
  have "show_group (parse_hex g) = (show_hex \<circ> hex_number) g" if "g \<in> set (take 4 (key_groups ip))" for g
    using that key_groups_address [OF assms] in_set_takeD [OF that]
    by (simp add: show_group_def parse_hex_group list_all_iff)
  then show ?thesis using assms(1) by (simp add: network_key_def cong: map_cong)
qed

lemma network_number:
  assumes "isIPv6 ip" and "dotless ip"
  shows "v6_address ip div 2 ^ 64 = v6_number 0 (take 4 (key_groups ip))"
proof -
  let ?gs = "key_groups ip"
  note gs = key_groups_address [OF assms]
  have "v6_number 0 ?gs = v6_number (v6_number 0 (take 4 ?gs)) (drop 4 ?gs)"
    by (metis append_take_drop_id foldl_append)
  also have "\<dots> = v6_number 0 (take 4 ?gs) * 65536 ^ 4 + v6_number 0 (drop 4 ?gs)"
    using gs by (subst v6_number_shift) simp
  finally have "v6_address ip = v6_number 0 (take 4 ?gs) * 2 ^ 64 + v6_number 0 (drop 4 ?gs)"
    using gs by simp
  moreover have "list_all hex_group (drop 4 ?gs)" using gs by (auto simp: list_all_iff dest: in_set_dropD)
  then have "v6_number 0 (drop 4 ?gs) < 2 ^ 64" using v6_number_less [of "drop 4 ?gs"] gs by simp
  ultimately show ?thesis by simp
qed



end
