(* ===== verification/Signin_Throttle.thy ===== *)
theory Signin_Throttle
  imports Rate_Limit Counter_System Address_Key
begin

text \<open>
  \<open>apps/api/src/signin-throttle.ts\<close>, \<open>second-factor-throttle.ts\<close> and the counting part of
  \<open>dex-password-relay.ts\<close>: which counters a sign-in, a password post, a password change and a
  second-factor code are counted under, and when a count is given back. All their work on the table
  is made of the steps of \<open>Counter_System\<close>.
\<close>

section \<open>The counters\<close>

definition TEN_MINUTES_MS :: millis where "TEN_MINUTES_MS = 10 * MINUTE_MS"
definition DAY_MS :: millis where "DAY_MS = 24 * 60 * 60000"
definition ACCOUNT_FAILURE_LIMIT :: nat where "ACCOUNT_FAILURE_LIMIT = 10"
definition SECOND_FACTOR_LIMIT_PER_10_MINUTES :: nat where "SECOND_FACTOR_LIMIT_PER_10_MINUTES = 10"
definition SECOND_FACTOR_DAILY_LIMIT :: nat where "SECOND_FACTOR_DAILY_LIMIT = 30"
definition BYPASS_LIMIT_PER_10_MINUTES :: nat where "BYPASS_LIMIT_PER_10_MINUTES = 10"

definition passwords :: "nat \<Rightarrow> stored_counter" where
  "passwords limit = \<lparr>sc_scope = ''password'', sc_limit = limit, sc_windowMs = TEN_MINUTES_MS\<rparr>"

definition accountFailures :: stored_counter where
  "accountFailures =
     \<lparr>sc_scope = ''password-account'', sc_limit = ACCOUNT_FAILURE_LIMIT, sc_windowMs = TEN_MINUTES_MS\<rparr>"

definition createAccountThrottle :: stored_counter where
  "createAccountThrottle =
     \<lparr>sc_scope = ''password-change'', sc_limit = ACCOUNT_FAILURE_LIMIT, sc_windowMs = TEN_MINUTES_MS\<rparr>"

definition short_count :: stored_counter where
  "short_count =
     \<lparr>sc_scope = ''second-factor'', sc_limit = SECOND_FACTOR_LIMIT_PER_10_MINUTES, sc_windowMs = TEN_MINUTES_MS\<rparr>"

definition daily_count :: stored_counter where
  "daily_count =
     \<lparr>sc_scope = ''second-factor-daily'', sc_limit = SECOND_FACTOR_DAILY_LIMIT, sc_windowMs = DAY_MS\<rparr>"

definition signin_counters :: "nat \<Rightarrow> stored_counter list" where
  "signin_counters limit = [passwords limit, accountFailures, createAccountThrottle, short_count, daily_count]"

text \<open>Dex compares logins without case.\<close>

definition accountKey :: "string \<Rightarrow> string" where
  "accountKey login = toLowerCase (trim login)"

section \<open>Sign-in starts\<close>

record signin_starts =
  starts :: "string counter"
  dexStarts :: "string counter"

definition new_starts :: "nat \<Rightarrow> millis \<Rightarrow> signin_starts" where
  "new_starts limit t = \<lparr>starts = createCounter limit MINUTE_MS t, dexStarts = createCounter limit MINUTE_MS t\<rparr>"

definition checkStart :: "string \<Rightarrow> millis \<Rightarrow> millis \<Rightarrow> signin_starts \<Rightarrow> limit_decision \<times> signin_starts" where
  "checkStart ip t later s =
     (case check (addressKey ip) t later (starts s) of (d, c) \<Rightarrow> (d, s\<lparr>starts := c\<rparr>))"

definition checkDexStart :: "string \<Rightarrow> millis \<Rightarrow> millis \<Rightarrow> signin_starts \<Rightarrow> limit_decision \<times> signin_starts" where
  "checkDexStart ip t later s =
     (case check (addressKey ip) t later (dexStarts s) of (d, c) \<Rightarrow> (d, s\<lparr>dexStarts := c\<rparr>))"

text \<open>
  \<open>/^\/dex\/auth\/[^/]+\/?$/\<close> on the path with its runs of slashes made one. \<open>decode\<close> stands for
  \<open>decodeURIComponent\<close>, \<open>None\<close> where it throws.
\<close>

fun squeeze_slashes :: "string \<Rightarrow> string" where
  "squeeze_slashes (a # b # s) =
     (if a = CHR ''/'' \<and> b = CHR ''/'' then squeeze_slashes (b # s) else a # squeeze_slashes (b # s))"
| "squeeze_slashes s = s"

definition dex_connector_path :: "string \<Rightarrow> bool" where
  "dex_connector_path p \<longleftrightarrow> startsWith p ''/dex/auth/'' \<and>
     (let rest = drop (length ''/dex/auth/'') p; name = (if rest \<noteq> [] \<and> last rest = CHR ''/'' then butlast rest else rest)
      in name \<noteq> [] \<and> CHR ''/'' \<notin> set name)"

definition isDexConnectorStart :: "(string \<Rightarrow> string option) \<Rightarrow> string \<Rightarrow> bool" where
  "isDexConnectorStart decode uri =
     (case decode (hd (split CHR ''?'' uri)) of
        None \<Rightarrow> False
      | Some path \<Rightarrow> dex_connector_path (squeeze_slashes path))"

datatype start_answer = GoOn | TooManyStarts (start_audited: bool) | NotFromHere | NoContent

text \<open>The \<open>onRequest\<close> hook; \<open>TooManyStarts\<close> says whether the refusal is audited.\<close>

definition signin_hook :: "(string \<Rightarrow> string option) \<Rightarrow> string option \<Rightarrow> string \<Rightarrow> bool \<Rightarrow> string option \<Rightarrow>
    millis \<Rightarrow> millis \<Rightarrow> signin_starts \<Rightarrow> start_answer \<times> signin_starts" where
  "signin_hook decode url ip loopback forwarded t later s =
     (let url = nullish url '''' in
      if url = ''/auth/login'' \<or> url = ''/lti/login''
      then (case checkStart ip t later s of
        (d, s) \<Rightarrow> (if allowed d then GoOn else TooManyStarts (firstRefusal d), s))
      else if url \<noteq> ''/edge/signin-throttle'' then (GoOn, s)
      else if \<not> loopback then (NotFromHere, s)
      else case forwarded of
        None \<Rightarrow> (NoContent, s)
      | Some uri \<Rightarrow>
          if isDexConnectorStart decode uri
          then (case checkDexStart ip t later s of
            (d, s) \<Rightarrow> (if allowed d then NoContent else TooManyStarts (firstRefusal d), s))
          else (NoContent, s))"

section \<open>Password posts\<close>

text \<open>
  Each operation is a function on the table, with what its request reads of the clock and whether
  the store answers its statements.
\<close>

definition passwordAttempt :: "nat \<Rightarrow> string \<Rightarrow> millis \<Rightarrow> bool \<times> bool \<Rightarrow> counter_row list \<Rightarrow>
    (counter_error + stored_decision) \<times> counter_row list" where
  "passwordAttempt limit ip t up tbl = attempt_stored (passwords limit) (addressKey ip) t up tbl"

definition accountAttempt :: "string \<Rightarrow> millis \<Rightarrow> bool \<times> bool \<Rightarrow> counter_row list \<Rightarrow>
    (counter_error + stored_decision) \<times> counter_row list" where
  "accountAttempt login t up tbl = attempt_stored accountFailures (accountKey login) t up tbl"

definition accountFailed :: "string \<Rightarrow> millis \<Rightarrow> bool \<Rightarrow> counter_row list \<Rightarrow>
    (counter_error + unit) \<times> counter_row list" where
  "accountFailed login t up tbl = add_stored accountFailures (accountKey login) t up tbl"

definition giveBack_signin :: "nat \<Rightarrow> counter_receipt \<Rightarrow> bool \<Rightarrow> counter_row list \<Rightarrow>
    counter_receipt \<times> counter_row list" where
  "giveBack_signin limit receipt up tbl =
     giveBack_stored (if rc_scope receipt = sc_scope (passwords limit) then passwords limit else accountFailures)
       receipt up tbl"

datatype dex_outcome = Success | Failure | OtherOutcome

definition dexOutcome :: "nat \<Rightarrow> dex_outcome" where
  "dexOutcome status =
     (if 300 \<le> status \<and> status < 400 then Success
      else if status = 200 \<or> status = 401 then Failure
      else OtherOutcome)"

text \<open>
  \<open>counted\<close> of the relay: the receipts, or \<open>None\<close> with what is audited (the scope) when refused.
\<close>

record signin_clock =
  at_address :: millis
  at_account :: millis
  at_failed :: millis

record signin_store =
  up_address :: "bool \<times> bool"
  up_account :: "bool \<times> bool"
  up_back :: "nat \<Rightarrow> bool"
  up_failed :: bool

definition counted_post :: "nat \<Rightarrow> string \<Rightarrow> string \<Rightarrow> bool \<Rightarrow> signin_clock \<Rightarrow> signin_store \<Rightarrow> counter_row list \<Rightarrow>
    (counter_error + (counter_receipt list option \<times> string option)) \<times> counter_row list" where
  "counted_post limit ip login knownDevice clk up tbl =
     (case passwordAttempt limit ip (at_address clk) (up_address up) tbl of
        (Inl e, tbl) \<Rightarrow> (Inl e, tbl)
      | (Inr byAddress, tbl) \<Rightarrow>
          (case sd_receipt byAddress of
             None \<Rightarrow> (Inr (None, if sd_audit byAddress then Some ''password'' else None), tbl)
           | Some r \<Rightarrow>
               if knownDevice then (Inr (Some [r], None), tbl)
               else (case accountAttempt login (at_account clk) (up_account up) tbl of
                  (Inl e, tbl) \<Rightarrow> (Inl e, tbl)
                | (Inr byAccount, tbl) \<Rightarrow>
                    (case sd_receipt byAccount of
                       Some r2 \<Rightarrow> (Inr (Some [r, r2], None), tbl)
                     | None \<Rightarrow>
                         (Inr (None, if sd_audit byAccount then Some ''password-account'' else None),
                          snd (giveBack_signin limit r (up_back up 0) tbl))))))"

fun giveBack_all :: "nat \<Rightarrow> counter_receipt list \<Rightarrow> (nat \<Rightarrow> bool) \<Rightarrow> counter_row list \<Rightarrow> counter_row list" where
  "giveBack_all limit [] up tbl = tbl"
| "giveBack_all limit (r # rs) up tbl =
     giveBack_all limit rs (up \<circ> Suc) (snd (giveBack_signin limit r (up 0) tbl))"

datatype relay_answer = Refused429 (throttled: "string option") | Unavailable503 | DexDown502 | PassedBack nat

text \<open>
  \<open>forward\<close>: \<open>dex\<close> is the status Dex answers with, \<open>None\<close> when it does not answer; the flag says
  whether a wrong password is audited.
\<close>

definition forward_post :: "nat \<Rightarrow> string \<Rightarrow> string \<Rightarrow> bool \<Rightarrow> nat option \<Rightarrow> signin_clock \<Rightarrow> signin_store \<Rightarrow>
    counter_row list \<Rightarrow> (relay_answer \<times> bool) \<times> counter_row list" where
  "forward_post limit ip login knownDevice dex clk up tbl =
     (case counted_post limit ip login knownDevice clk up tbl of
        (Inl _, tbl) \<Rightarrow> ((Unavailable503, False), tbl)
      | (Inr (None, audit), tbl) \<Rightarrow> ((Refused429 audit, False), tbl)
      | (Inr (Some held, _), tbl) \<Rightarrow>
          (case dex of
             None \<Rightarrow> ((DexDown502, False), giveBack_all limit held (up_back up) tbl)
           | Some status \<Rightarrow>
               if dexOutcome status = Failure
               then if knownDevice
                    then (case accountFailed login (at_failed clk) (up_failed up) tbl of
                       (Inl _, tbl) \<Rightarrow> ((Unavailable503, False), tbl)
                     | (Inr _, tbl) \<Rightarrow> ((PassedBack status, True), tbl))
                    else ((PassedBack status, True), tbl)
               else ((PassedBack status, False), giveBack_all limit held (up_back up) tbl)))"

text \<open>The form's logins: one, not blank, printable ASCII, and at most 254 characters of it.\<close>

definition relay_login :: "string list \<Rightarrow> string option" where
  "relay_login logins =
     (case logins of
        [l] \<Rightarrow> if trim l = [] \<or> \<not> list_all (\<lambda>c. 32 \<le> char_code c \<and> char_code c \<le> 126) l then None
               else Some (take 254 l)
      | _ \<Rightarrow> None)"

section \<open>Second-factor codes\<close>

record second_factor_receipt =
  rc_short :: counter_receipt
  rc_daily :: counter_receipt

record second_factor_decision =
  sf_allowed :: bool
  sf_audit :: bool
  sf_daily :: bool
  sf_receipt :: "second_factor_receipt option"

record sf_clock =
  at_short :: millis
  at_daily :: millis

record sf_store =
  up_short :: "bool \<times> bool"
  up_daily :: "bool \<times> bool"
  up_return :: bool

definition sf_attempt :: "string \<Rightarrow> sf_clock \<Rightarrow> sf_store \<Rightarrow> counter_row list \<Rightarrow>
    (counter_error + second_factor_decision) \<times> counter_row list" where
  "sf_attempt userId clk up tbl =
     (case attempt_stored short_count userId (at_short clk) (up_short up) tbl of
        (Inl e, tbl) \<Rightarrow> (Inl e, tbl)
      | (Inr window, tbl) \<Rightarrow>
          (case sd_receipt window of
             None \<Rightarrow> (Inr \<lparr>sf_allowed = False, sf_audit = sd_audit window, sf_daily = False, sf_receipt = None\<rparr>, tbl)
           | Some r \<Rightarrow>
               (case attempt_stored daily_count userId (at_daily clk) (up_daily up) tbl of
                  (Inl e, tbl) \<Rightarrow> (Inl e, tbl)
                | (Inr day, tbl) \<Rightarrow>
                    (case sd_receipt day of
                       None \<Rightarrow>
                         (Inr \<lparr>sf_allowed = False, sf_audit = sd_audit day, sf_daily = True, sf_receipt = None\<rparr>,
                          snd (giveBack_stored short_count r (up_return up) tbl))
                     | Some d \<Rightarrow>
                         (Inr \<lparr>sf_allowed = True, sf_audit = False, sf_daily = False,
                               sf_receipt = Some \<lparr>rc_short = r, rc_daily = d\<rparr>\<rparr>, tbl)))))"

definition sf_giveBack :: "second_factor_receipt \<Rightarrow> bool \<Rightarrow> bool \<Rightarrow> counter_row list \<Rightarrow> counter_row list" where
  "sf_giveBack r up1 up2 tbl =
     snd (giveBack_stored daily_count (rc_daily r) up2 (snd (giveBack_stored short_count (rc_short r) up1 tbl)))"

datatype sf_allowance = CountedTry second_factor_receipt | Bypass

datatype sf_refusal = SlowDown int bool | UseOther (on_daily: bool) (with_passkey: bool)

text \<open>
  \<open>allow\<close>: the allowance or the refusal, whether the refusal is audited and whether the holder gets
  the daily notice. The bypass count is kept in this process, per session.
\<close>

record sf_outcome =
  sf_answer :: "sf_refusal + sf_allowance"
  sf_audited :: bool
  sf_noticed :: bool

definition sf_allow :: "string \<Rightarrow> string \<Rightarrow> bool \<Rightarrow> bool \<Rightarrow> sf_clock \<Rightarrow> sf_store \<Rightarrow> millis \<Rightarrow> millis \<Rightarrow>
    string counter \<times> counter_row list \<Rightarrow> (counter_error + sf_outcome) \<times> string counter \<times> counter_row list" where
  "sf_allow userId sessionId eligible passkeys clk up t later = (\<lambda>(bypassTries, tbl).
     case sf_attempt userId clk up tbl of
       (Inl e, tbl) \<Rightarrow> (Inl e, bypassTries, tbl)
     | (Inr d, tbl) \<Rightarrow>
         (case sf_receipt d of
            Some r \<Rightarrow> (Inr \<lparr>sf_answer = Inr (CountedTry r), sf_audited = False, sf_noticed = False\<rparr>, bypassTries, tbl)
          | None \<Rightarrow>
              if eligible
              then (case check sessionId t later bypassTries of
                 (tries, bypassTries) \<Rightarrow>
                   (Inr \<lparr>sf_answer = if allowed tries then Inr Bypass
                           else Inl (SlowDown (retryAfter tries) (firstRefusal tries)),
                         sf_audited = sf_audit d, sf_noticed = sf_daily d \<and> sf_audit d\<rparr>, bypassTries, tbl))
              else (Inr \<lparr>sf_answer = Inl (UseOther (sf_daily d) passkeys),
                         sf_audited = sf_audit d, sf_noticed = sf_daily d \<and> sf_audit d\<rparr>, bypassTries, tbl)))"

section \<open>All their work is made of steps\<close>

lemma signin_counters_ok: "counters_ok (signin_counters limit)"
  by (simp add: counters_ok_def signin_counters_def passwords_def accountFailures_def createAccountThrottle_def
      short_count_def daily_count_def TEN_MINUTES_MS_def DAY_MS_def MINUTE_MS_def)

interpretation guesses: step_system counter_start "counter_step (signin_counters limit)"
    "counter_inv (signin_counters limit)" for limit
  by unfold_locales (auto intro: counter_inv_start counter_inv_step [OF signin_counters_ok])

interpretation ten_minutes: fixed_window "stored_window ''second-factor''" "stored_hit short_count"
    "\<lambda>(_::unit) t tbl. snd (pruneEndedCounters t tbl)" "scope_ok short_count" TEN_MINUTES_MS
  using stored_counter_window [of short_count] by (simp add: short_count_def TEN_MINUTES_MS_def MINUTE_MS_def)

text \<open>A state whose table is \<open>tbl\<close> and whose receipts are those of \<open>s\<close> and \<open>rs\<close>, after some steps.\<close>

definition reaches :: "stored_counter list \<Rightarrow> counter_system \<Rightarrow> counter_receipt list \<Rightarrow> counter_row list \<Rightarrow>
    counter_system \<Rightarrow> bool" where
  "reaches C s rs tbl s' \<longleftrightarrow> (counter_step C)\<^sup>*\<^sup>* s s' \<and> rows s' = tbl \<and> pruned s' = pruned s \<and>
     receipts s' = receipts s @ rs"

lemma reaches_one: "counter_step C s s' \<Longrightarrow> pruned s' = pruned s \<Longrightarrow> receipts s' = receipts s @ rs \<Longrightarrow>
    reaches C s rs (rows s') s'"
  by (simp add: reaches_def r_into_rtranclp)

lemma reaches_refl: "reaches C s [] (rows s) s"
  by (simp add: reaches_def)

lemma reaches_trans: "reaches C s rs tbl s1 \<Longrightarrow> reaches C s1 rs' tbl' s2 \<Longrightarrow> reaches C s (rs @ rs') tbl' s2"
  unfolding reaches_def by (auto intro: rtranclp_trans)

definition held_after :: "counter_error + stored_decision \<Rightarrow> counter_receipt list" where
  "held_after res = (case res of Inr d \<Rightarrow> (case sd_receipt d of Some r \<Rightarrow> [r] | None \<Rightarrow> []) | Inl _ \<Rightarrow> [])"

lemma attempt_cases:
  assumes "attempt_stored c key t up tbl0 = (res, tbl)"
  obtains (down) "\<not> fst up" "res = Inl CounterUnavailable" "tbl = tbl0"
  | (granted) n w where "hit_stored c key t tbl0 = ((n, w), tbl)" "n \<le> sc_limit c"
      "res = Inr \<lparr>sd_allowed = True, sd_audit = False,
        sd_receipt = Some \<lparr>rc_scope = sc_scope c, rc_key = key, rc_window = w, spent = False\<rparr>\<rparr>"
  | (lost) n w where "hit_stored c key t tbl0 = ((n, w), tbl)" "\<not> n \<le> sc_limit c" "\<not> snd up"
      "res = Inl CounterUnavailable"
  | (refused) n w tbl1 audit where "hit_stored c key t tbl0 = ((n, w), tbl1)" "\<not> n \<le> sc_limit c"
      "firstRefusal_stored c key w tbl1 = (audit, tbl)"
      "res = Inr \<lparr>sd_allowed = False, sd_audit = audit, sd_receipt = None\<rparr>"
  using assms by (auto simp: attempt_stored_def split: if_splits prod.splits)

lemma attempt_reaches:
  assumes c: "c \<in> set C" and t: "pruned s \<le> t" and att: "attempt_stored c key t up (rows s) = (res, tbl)"
  shows "\<exists>s'. reaches C s (held_after res) tbl s'"
  using att
proof (cases rule: attempt_cases)
  case down
  then show ?thesis using reaches_refl [of C s] by (auto simp: held_after_def)
next
  case (granted n w)
  from reaches_one [OF counted_in [OF c t granted(1,2)]] show ?thesis
    using granted(3) by (fastforce simp: held_after_def)
next
  case (lost n w)
  from reaches_one [OF counted_out [OF c t lost(1,2)], of "[]"] show ?thesis
    using lost(4) by (fastforce simp: held_after_def)
next
  case (refused n w tbl1 audit)
  note one = counted_out [OF c t refused(1,2)]
  let ?s1 = "s\<lparr>rows := tbl1, refusing := (sc_scope c, key, w) # refusing s\<rparr>"
  have "firstRefusal_stored c key w (rows ?s1) = (audit, tbl)" using refused(3) by simp
  from reported [OF c _ this]
  have two: "counter_step C ?s1 (?s1\<lparr>rows := tbl, refusing := remove1 (sc_scope c, key, w) (refusing ?s1),
      audits := if audit then (sc_scope c, key, w) # audits ?s1 else audits ?s1\<rparr>)" by simp
  have "reaches C s [] tbl1 ?s1" using reaches_one [OF one, of "[]"] by simp
  moreover have "\<exists>s2. reaches C ?s1 [] tbl s2" using reaches_one [OF two, of "[]"] by auto
  ultimately show ?thesis using reaches_trans refused(4) by (fastforce simp: held_after_def)
qed

text \<open>Giving back a receipt that the system holds is a step; the table is what it leaves.\<close>

definition leads :: "stored_counter list \<Rightarrow> counter_system \<Rightarrow> counter_row list \<Rightarrow> bool" where
  "leads C s tbl \<longleftrightarrow> (\<exists>s'. (counter_step C)\<^sup>*\<^sup>* s s' \<and> rows s' = tbl)"

lemma give_back_step:
  assumes c: "c \<in> set C" and r: "i < length (receipts s)" "receipts s ! i = r"
  shows "\<exists>s'. counter_step C s s' \<and> rows s' = snd (giveBack_stored c r up (rows s)) \<and> pruned s' = pruned s \<and>
    length (receipts s') = length (receipts s) \<and> (\<forall>j. j \<noteq> i \<longrightarrow> receipts s' ! j = receipts s ! j)"
proof -
  obtain r' tbl where give: "giveBack_stored c (receipts s ! i) up (rows s) = (r', tbl)" by fastforce
  from given_back [OF c r(1) give] show ?thesis using give r(2) by fastforce
qed

lemma leads_refl: "leads C s (rows s)"
  by (auto simp: leads_def)

lemma reaches_leads: "reaches C s rs tbl s1 \<Longrightarrow> leads C s1 tbl' \<Longrightarrow> leads C s tbl'"
  unfolding reaches_def leads_def by (blast intro: rtranclp_trans)

lemma step_leads: "counter_step C s s1 \<Longrightarrow> leads C s1 tbl \<Longrightarrow> leads C s tbl"
  unfolding leads_def by (blast intro: converse_rtranclp_into_rtranclp)

lemma reaches_rows: "reaches C s rs tbl s1 \<Longrightarrow> rows s1 = tbl"
  by (simp add: reaches_def)

lemma giveBack_all_leads:
  assumes "passwords limit \<in> set C" and "accountFailures \<in> set C"
    and "k + length rs \<le> length (receipts s)" and "\<forall>j<length rs. receipts s ! (k + j) = rs ! j"
  shows "leads C s (giveBack_all limit rs up (rows s))"
  using assms(3,4)
proof (induction rs arbitrary: s k up)
  case Nil
  then show ?case using leads_refl by simp
next
  case (Cons r rs)
  let ?c = "if rc_scope r = sc_scope (passwords limit) then passwords limit else accountFailures"
  have c: "?c \<in> set C" using assms(1,2) by simp
  have "k < length (receipts s)" "receipts s ! k = r" using Cons.prems by force+
  from give_back_step [OF c this] obtain s1 where s1: "counter_step C s s1"
      "rows s1 = snd (giveBack_signin limit r (up 0) (rows s))" "length (receipts s1) = length (receipts s)"
      "\<forall>j. j \<noteq> k \<longrightarrow> receipts s1 ! j = receipts s ! j"
    unfolding giveBack_signin_def by metis
  have "receipts s1 ! (Suc k + j) = rs ! j" if "j < length rs" for j
    using Cons.prems(2) that s1(4) by (auto dest: spec [of _ "Suc j"])
  then have "leads C s1 (giveBack_all limit rs (up \<circ> Suc) (rows s1))"
    using Cons.IH [of "Suc k" s1] Cons.prems(1) s1(3) by simp
  then show ?case using step_leads [OF s1(1)] s1(2) by simp
qed

lemma held_leads:
  assumes C: "passwords limit \<in> set C" "accountFailures \<in> set C" and s: "reaches C s rs tbl s1"
  shows "leads C s (giveBack_all limit rs up tbl)"
proof (rule reaches_leads [OF s])
  show "leads C s1 (giveBack_all limit rs up tbl)"
    using giveBack_all_leads [OF C, of "length (receipts s)" rs s1 up] s unfolding reaches_def by simp
qed

text \<open>\<open>counted_post\<close>: with receipts in hand, or refused with the address's count given back.\<close>

lemma counted_post_leads:
  assumes C: "passwords limit \<in> set C" "accountFailures \<in> set C"
    and clk: "pruned s \<le> at_address clk" "pruned s \<le> at_account clk"
    and post: "counted_post limit ip login known clk up (rows s) = (res, tbl)"
  shows "leads C s tbl \<and> (\<forall>held a. res = Inr (Some held, a) \<longrightarrow> (\<exists>s'. reaches C s held tbl s'))"
proof -
  obtain res1 tbl1 where one: "passwordAttempt limit ip (at_address clk) (up_address up) (rows s) = (res1, tbl1)"
    by fastforce
  then obtain s1 where s1: "reaches C s (held_after res1) tbl1 s1"
    using attempt_reaches [OF C(1) clk(1)] unfolding passwordAttempt_def by blast
  have "leads C s tbl1" using reaches_leads [OF s1 leads_refl] reaches_rows [OF s1] by simp
  note first_only = this s1
  show ?thesis
  proof (cases "\<exists>d r. res1 = Inr d \<and> sd_receipt d = Some r \<and> \<not> known")
    case False
    then consider e where "res1 = Inl e" | d where "res1 = Inr d" "sd_receipt d = None"
      | d r where "res1 = Inr d" "sd_receipt d = Some r" "known"
      by (cases res1) auto
    then show ?thesis
      by cases (use post first_only in \<open>auto simp: counted_post_def one held_after_def\<close>)
  next
    case True
    then obtain d r where d: "res1 = Inr d" "sd_receipt d = Some r" "\<not> known" by blast
    obtain res2 tbl2 where two: "accountAttempt login (at_account clk) (up_account up) (rows s1) = (res2, tbl2)"
      by fastforce
    have "pruned s1 \<le> at_account clk" using s1 clk(2) by (simp add: reaches_def)
    from attempt_reaches [OF C(2) this two [unfolded accountAttempt_def]]
    obtain s2 where s2: "reaches C s1 (held_after res2) tbl2 s2" by blast
    have both: "reaches C s (r # held_after res2) tbl2 s2"
      using reaches_trans [OF s1 s2] d by (simp add: held_after_def)
    show ?thesis
    proof (cases "\<exists>d2. res2 = Inr d2 \<and> sd_receipt d2 = None")
      case True
      then have "reaches C s [r] tbl2 s2" using both by (auto simp: held_after_def)
      from held_leads [OF C this, of "up_back up"] show ?thesis
        using post d True one two reaches_rows [OF s1] by (auto simp: counted_post_def)
    next
      case False
      then consider e where "res2 = Inl e" | d2 r2 where "res2 = Inr d2" "sd_receipt d2 = Some r2"
        by (cases res2) auto
      moreover have "leads C s tbl2" using reaches_leads [OF both leads_refl] reaches_rows [OF both] by simp
      ultimately show ?thesis
        by cases (use post d one two reaches_rows [OF s1] both in \<open>auto simp: counted_post_def held_after_def\<close>)
    qed
  qed
qed

lemma hit_leads:
  assumes s: "reaches C s rs tbl s1" and c: "c \<in> set C" and t: "pruned s \<le> t"
  shows "leads C s (snd (hit_stored c key t tbl))"
proof (rule reaches_leads [OF s])
  have "pruned s1 \<le> t" "rows s1 = tbl" using s t by (simp_all add: reaches_def)
  then show "leads C s1 (snd (hit_stored c key t tbl))"
    using step_leads [OF added [OF c, of s1 t key] leads_refl] by simp
qed

text \<open>
  C38: Whatever a password post does to the counts, it does in steps of the counter system: counting,
  reporting a refusal once, giving back its own receipts, counting a failure it had skipped. So what
  holds of every interleaving of those steps holds of every interleaving of posts, wherever a post's
  statements fail or Dex does not answer.
\<close>

theorem posts_are_steps:
  assumes "pruned s \<le> at_address clk" and "pruned s \<le> at_account clk" and "pruned s \<le> at_failed clk"
  shows "leads (signin_counters limit) s (snd (forward_post limit ip login known dex clk up (rows s)))"
proof -
  have C: "passwords limit \<in> set (signin_counters limit)" "accountFailures \<in> set (signin_counters limit)"
    by (simp_all add: signin_counters_def)
  obtain res tbl where post: "counted_post limit ip login known clk up (rows s) = (res, tbl)" by fastforce
  note counted = counted_post_leads [OF C assms(1,2) post]
  show ?thesis
  proof (cases "\<exists>held a. res = Inr (Some held, a)")
    case False
    then show ?thesis using post counted by (auto simp: forward_post_def split: sum.splits option.splits)
  next
    case True
    then obtain held a s1 where held: "res = Inr (Some held, a)" "reaches (signin_counters limit) s held tbl s1"
      using counted by blast
    then show ?thesis
      using post counted held_leads [OF C held(2)] hit_leads [OF held(2) C(2) assms(3)]
      by (auto simp: forward_post_def accountFailed_def add_stored_def split: option.splits)
  qed
qed

text \<open>The same of a second-factor try, and of giving it back.\<close>

lemma sf_attempt_leads:
  assumes "pruned s \<le> at_short clk" and "pruned s \<le> at_daily clk"
  shows "leads (signin_counters limit) s (snd (sf_attempt userId clk up (rows s)))"
proof -
  let ?C = "signin_counters limit"
  have C: "short_count \<in> set ?C" "daily_count \<in> set ?C" by (simp_all add: signin_counters_def)
  obtain res1 tbl1 where one: "attempt_stored short_count userId (at_short clk) (up_short up) (rows s) = (res1, tbl1)"
    by fastforce
  from attempt_reaches [OF C(1) assms(1) this] obtain s1 where s1: "reaches ?C s (held_after res1) tbl1 s1" by blast
  note first_only = reaches_leads [OF s1 leads_refl, unfolded reaches_rows [OF s1]]
  show ?thesis
  proof (cases "\<exists>d r. res1 = Inr d \<and> sd_receipt d = Some r")
    case False
    then show ?thesis using one first_only by (auto simp: sf_attempt_def split: sum.splits option.splits)
  next
    case True
    then obtain d r where d: "res1 = Inr d" "sd_receipt d = Some r" by blast
    have "pruned s1 \<le> at_daily clk" using s1 assms(2) by (simp add: reaches_def)
    moreover obtain res2 tbl2 where two: "attempt_stored daily_count userId (at_daily clk) (up_daily up) (rows s1) =
        (res2, tbl2)" by fastforce
    ultimately obtain s2 where s2: "reaches ?C s1 (held_after res2) tbl2 s2"
      using attempt_reaches [OF C(2)] by blast
    have both: "reaches ?C s (r # held_after res2) tbl2 s2"
      using reaches_trans [OF s1 s2] d by (simp add: held_after_def)
    have tbl2: "leads ?C s tbl2" using reaches_leads [OF both leads_refl] reaches_rows [OF both] by simp
    have "length (receipts s) < length (receipts s2)" "receipts s2 ! length (receipts s) = r"
      using both by (simp_all add: reaches_def)
    from give_back_step [OF C(1) this, of "up_return up"]
    have "leads ?C s (snd (giveBack_stored short_count r (up_return up) tbl2))"
      using reaches_leads [OF both] step_leads leads_refl reaches_rows [OF both] by metis
    then show ?thesis
      using one two d tbl2 reaches_rows [OF s1] by (simp add: sf_attempt_def split: sum.split option.split)
  qed
qed

section \<open>How many guesses there are\<close>

text \<open>
  C39: However the password posts, password changes and second-factor tries of any number of clients
  interleave with one another, with give-backs and with the hourly prune, and wherever the store
  fails (a hit whose reading of the clock is older than a prune that has run is left out): for every counter and every key, the tries let through in one window and not given back
  are at most the counter's limit; two windows of a key are the same or do not overlap; and no
  window's refusal is audited twice.
\<close>

theorem guesses_bounded:
  assumes "counter_start s0" and "(counter_step (signin_counters limit))\<^sup>*\<^sup>* s0 s"
    and "c \<in> set (signin_counters limit)"
  shows "outstanding (receipts s) (sc_scope c) key w \<le> sc_limit c \<and>
    (\<forall>v\<in>seen s (sc_scope c) key. \<forall>u\<in>seen s (sc_scope c) key. apart (sc_windowMs c) u v) \<and>
    distinct (audits s)"
  using guesses.inv_reachable [OF assms(1,2)] counter_goodD [of c s] assms(3)
  by (auto simp: counter_inv_def)

definition first_guess :: counter_system where
  "first_guess = \<lparr>rows = snd (hit_stored short_count ''user'' 5 []),
     receipts = [\<lparr>rc_scope = sc_scope short_count, rc_key = ''user'', rc_window = 5, spent = False\<rparr>],
     refusing = [], audits = [], pruned = 0\<rparr>"

lemma first_guess_reached:
  "(counter_step (signin_counters 20))\<^sup>*\<^sup>* \<lparr>rows = [], receipts = [], refusing = [], audits = [], pruned = 0\<rparr> first_guess"
proof -
  let ?s = "\<lparr>rows = [], receipts = [], refusing = [], audits = [], pruned = 0 :: millis\<rparr>"
  have "short_count \<in> set (signin_counters 20)" by (simp add: signin_counters_def)
  moreover have "hit_stored short_count ''user'' 5 (rows ?s) = ((1, 5), snd (hit_stored short_count ''user'' 5 []))"
    by code_simp
  moreover have "1 \<le> sc_limit short_count" by code_simp
  ultimately show ?thesis
    using counted_in [of short_count "signin_counters 20" ?s 5 "''user''" 1 5] by (auto simp: first_guess_def)
qed

lemma guesses_bounded_witness:
  "outstanding (receipts first_guess) ''second-factor'' ''user'' 5 = 1 \<and>
   outstanding (receipts first_guess) (sc_scope short_count) ''user'' 5 \<le> sc_limit short_count \<and>
   distinct (audits first_guess)"
proof -
  have "counter_start \<lparr>rows = [], receipts = [], refusing = [], audits = [], pruned = 0\<rparr>" by (simp add: counter_start_def)
  moreover have "short_count \<in> set (signin_counters 20)" by (simp add: signin_counters_def)
  ultimately have "outstanding (receipts first_guess) (sc_scope short_count) ''user'' 5 \<le> sc_limit short_count \<and>
      distinct (audits first_guess)"
    using guesses_bounded [OF _ first_guess_reached] by blast
  moreover have "outstanding (receipts first_guess) ''second-factor'' ''user'' 5 = 1"
    by (simp add: first_guess_def outstanding_def short_count_def)
  ultimately show ?thesis by blast
qed

lemma posts_are_steps_witness:
  "leads (signin_counters 20) first_guess (snd (forward_post 20 ''10.0.0.9'' ''ada@x'' False (Some 200)
     \<lparr>at_address = 6, at_account = 6, at_failed = 7\<rparr>
     \<lparr>up_address = (True, True), up_account = (True, True), up_back = (\<lambda>_. True), up_failed = True\<rparr>
     (rows first_guess)))"
  by (rule posts_are_steps) (simp_all add: first_guess_def)

section \<open>What is counted in the end\<close>

definition live_count :: "string \<Rightarrow> string \<Rightarrow> millis \<Rightarrow> counter_row list \<Rightarrow> nat" where
  "live_count scope key t tbl =
     (case counter_row scope key tbl of Some r \<Rightarrow> if t < cr_expires r then cr_count r else 0 | None \<Rightarrow> 0)"

lemma hit_live:
  assumes "0 < sc_windowMs c" and "hit_stored c key t tbl = ((n, w), tbl')"
  shows "n = Suc (live_count (sc_scope c) key t tbl)"
    and "live_count scope k t tbl' = (if scope = sc_scope c \<and> k = key then n else live_count scope k t tbl)"
    and "\<exists>r. counter_row (sc_scope c) key tbl' = Some r \<and> cr_started r = w \<and> t < cr_expires r"
  using counter_row_hit [of _ _ c key t tbl] hit_answer [of c key t tbl] assms
  by (auto simp: live_count_def hit_row_def split: option.splits)

lemma refusal_live: "live_count scope k t (snd (firstRefusal_stored c key w tbl)) = live_count scope k t tbl"
  by (auto simp: live_count_def counter_row_refusal split: option.splits)

lemma give_live:
  assumes "counter_row (sc_scope c) key tbl = Some r" and "cr_started r = w" and "t < cr_expires r"
  shows "live_count scope k t (snd (giveBack_stored c
      \<lparr>rc_scope = sc_scope c, rc_key = key, rc_window = w, spent = False\<rparr> True tbl)) =
    (if scope = sc_scope c \<and> k = key then live_count scope k t tbl - 1 else live_count scope k t tbl)"
  using assms counter_row_key [OF assms(1)] counter_row_key [of scope k tbl]
  by (auto simp: live_count_def counter_row_given given_row_def row_key_def split: option.splits)

text \<open>A receipt in its window.\<close>

definition in_window :: "millis \<Rightarrow> counter_receipt \<Rightarrow> counter_row list \<Rightarrow> bool" where
  "in_window t r tbl \<longleftrightarrow> \<not> spent r \<and>
     (\<exists>x. counter_row (rc_scope r) (rc_key r) tbl = Some x \<and> cr_started x = rc_window r \<and> t < cr_expires x)"

lemma give_in_window:
  assumes "in_window t r tbl" and "rc_scope r = sc_scope c"
  shows "live_count scope k t (snd (giveBack_stored c r True tbl)) =
    (if scope = rc_scope r \<and> k = rc_key r then live_count scope k t tbl - 1 else live_count scope k t tbl)"
proof -
  obtain x where "counter_row (sc_scope c) (rc_key r) tbl = Some x" "cr_started x = rc_window r" "t < cr_expires x"
    using assms by (auto simp: in_window_def)
  moreover have "r = \<lparr>rc_scope = sc_scope c, rc_key = rc_key r, rc_window = rc_window r, spent = False\<rparr>"
    using assms by (simp add: in_window_def)
  ultimately show ?thesis using give_live [of c "rc_key r" tbl x "rc_window r" t scope k] assms(2) by simp
qed

lemma give_keeps_window:
  assumes "in_window t q tbl" and "rc_scope q \<noteq> sc_scope c"
  shows "in_window t q (snd (giveBack_stored c r True tbl))"
  using assms by (simp add: in_window_def counter_row_elsewhere)

text \<open>An attempt with the store up: counted, whether let through, and with its receipt in its window.\<close>

lemma attempt_up:
  assumes ms: "0 < sc_windowMs c" and att: "attempt_stored c key t (True, True) tbl = (res, tbl')"
  shows "\<exists>d. res = Inr d \<and> (sd_receipt d = None \<longleftrightarrow> sc_limit c \<le> live_count (sc_scope c) key t tbl) \<and>
    (\<forall>scope k. live_count scope k t tbl' =
       live_count scope k t tbl + (if scope = sc_scope c \<and> k = key then 1 else 0)) \<and>
    (\<forall>r. sd_receipt d = Some r \<longrightarrow> rc_scope r = sc_scope c \<and> rc_key r = key \<and> in_window t r tbl') \<and>
    (\<forall>q. in_window t q tbl \<longrightarrow> rc_scope q \<noteq> sc_scope c \<longrightarrow> in_window t q tbl')"
  using att
proof (cases rule: attempt_cases)
  case (granted n w)
  have "in_window t q tbl'" if "in_window t q tbl" "rc_scope q \<noteq> sc_scope c" for q
    using that counter_row_hit [of "rc_scope q" "rc_key q" c key t tbl] granted(1) by (simp add: in_window_def)
  then show ?thesis using granted hit_live [OF ms granted(1)] by (auto simp: in_window_def)
next
  case (refused n w tbl1 audit)
  have "in_window t q tbl'" if "in_window t q tbl" "rc_scope q \<noteq> sc_scope c" for q
    using that counter_row_elsewhere(1) [OF that(2), of "rc_key q" key t tbl]
      counter_row_elsewhere(2) [OF that(2), of "rc_key q" key w tbl1] refused(1,3)
    by (simp add: in_window_def)
  moreover have "live_count scope k t tbl' = live_count scope k t tbl1" for scope k
    using refusal_live [of scope k t c key w tbl1] refused(3) by simp
  ultimately show ?thesis using refused hit_live [OF ms refused(1)] by auto
qed simp_all

lemma counter_windows [simp]:
  "0 < sc_windowMs (passwords limit)" "0 < sc_windowMs accountFailures" "0 < sc_windowMs short_count"
  "0 < sc_windowMs daily_count"
  by (simp_all add: passwords_def accountFailures_def short_count_def daily_count_def TEN_MINUTES_MS_def
      DAY_MS_def MINUTE_MS_def)

lemma counter_scopes [simp]:
  "sc_scope (passwords limit) = ''password''" "sc_scope accountFailures = ''password-account''"
  "sc_scope short_count = ''second-factor''" "sc_scope daily_count = ''second-factor-daily''"
  by (simp_all add: passwords_def accountFailures_def short_count_def daily_count_def)

text \<open>
  With the store up, a second-factor try at one instant is let through exactly when the account
  has fewer than ten tries in its ten minutes and fewer than thirty in its day. A try the ten
  minutes refuse does not count toward the day; a try the day refuses leaves the ten minutes'
  count as it was; no other account or counter is touched.
\<close>

theorem second_factor_counts:
  assumes att: "sf_attempt userId \<lparr>at_short = t, at_daily = t\<rparr>
      \<lparr>up_short = (True, True), up_daily = (True, True), up_return = True\<rparr> tbl = (res, tbl')"
  defines "short \<equiv> live_count ''second-factor'' userId t tbl"
    and "day \<equiv> live_count ''second-factor-daily'' userId t tbl"
  shows "\<exists>d. res = Inr d \<and> (sf_receipt d \<noteq> None \<longleftrightarrow> short < 10 \<and> day < 30) \<and>
    (\<forall>scope k. live_count scope k t tbl' =
       live_count scope k t tbl +
         (if k = userId \<and> scope = ''second-factor'' \<and> (10 \<le> short \<or> day < 30) then 1
          else if k = userId \<and> scope = ''second-factor-daily'' \<and> short < 10 then 1 else 0))"
proof -
  have limits: "sc_limit short_count = 10" "sc_limit daily_count = 30"
    by (simp_all add: short_count_def daily_count_def SECOND_FACTOR_LIMIT_PER_10_MINUTES_def SECOND_FACTOR_DAILY_LIMIT_def)
  obtain res1 tbl1 where one: "attempt_stored short_count userId t (True, True) tbl = (res1, tbl1)" by fastforce
  from attempt_up [OF _ this] obtain d1 where d1: "res1 = Inr d1" "sd_receipt d1 = None \<longleftrightarrow> 10 \<le> short"
      "\<forall>scope k. live_count scope k t tbl1 =
         live_count scope k t tbl + (if scope = ''second-factor'' \<and> k = userId then 1 else 0)"
      "\<forall>r. sd_receipt d1 = Some r \<longrightarrow> rc_scope r = ''second-factor'' \<and> rc_key r = userId \<and> in_window t r tbl1"
    by (auto simp: limits short_def)
  show ?thesis
  proof (cases "sd_receipt d1")
    case None
    then show ?thesis using att one d1 by (auto simp: sf_attempt_def)
  next
    case (Some r)
    obtain res2 tbl2 where two: "attempt_stored daily_count userId t (True, True) tbl1 = (res2, tbl2)" by fastforce
    have "live_count ''second-factor-daily'' userId t tbl1 = day" using d1(3) by (simp add: day_def)
    with attempt_up [OF _ two] obtain d2 where d2: "res2 = Inr d2" "sd_receipt d2 = None \<longleftrightarrow> 30 \<le> day"
        "\<forall>scope k. live_count scope k t tbl2 =
           live_count scope k t tbl1 + (if scope = ''second-factor-daily'' \<and> k = userId then 1 else 0)"
        "in_window t r tbl1 \<longrightarrow> in_window t r tbl2"
      using d1(4) Some by (auto simp: limits)
    show ?thesis
    proof (cases "sd_receipt d2")
      case None
      have "live_count scope k t (snd (giveBack_stored short_count r True tbl2)) =
          (if scope = ''second-factor'' \<and> k = userId then live_count scope k t tbl2 - 1 else live_count scope k t tbl2)"
        for scope k using give_in_window [of t r tbl2 short_count scope k] d1(4) d2(4) Some by simp
      then show ?thesis using att one two d1(1-3) d2(1-3) Some None by (auto simp: sf_attempt_def)
    next
      case (Some r2)
      then show ?thesis using att one two d1(1-3) d2(1-3) \<open>sd_receipt d1 = Some r\<close> by (auto simp: sf_attempt_def)
    qed
  qed
qed

lemma second_factor_counts_witness:
  "\<exists>d tbl'. sf_attempt ''u'' \<lparr>at_short = 7, at_daily = 7\<rparr>
      \<lparr>up_short = (True, True), up_daily = (True, True), up_return = True\<rparr> [] = (Inr d, tbl') \<and>
    sf_receipt d \<noteq> None \<and> live_count ''second-factor-daily'' ''u'' 7 tbl' = 1"
proof -
  obtain res tbl' where att: "sf_attempt ''u'' \<lparr>at_short = 7, at_daily = 7\<rparr>
      \<lparr>up_short = (True, True), up_daily = (True, True), up_return = True\<rparr> [] = (res, tbl')" by fastforce
  have "live_count scope ''u'' 7 [] = 0" for scope by (simp add: live_count_def counter_row_def find_row_def)
  then show ?thesis using second_factor_counts [OF att] att by auto
qed

definition store_up :: signin_store where
  "store_up = \<lparr>up_address = (True, True), up_account = (True, True), up_back = (\<lambda>_. True), up_failed = True\<rparr>"

definition wrong_password :: "nat option \<Rightarrow> bool" where
  "wrong_password dex \<longleftrightarrow> (case dex of Some status \<Rightarrow> dexOutcome status = Failure | None \<Rightarrow> False)"

text \<open>What a post that goes on to Dex has counted, and that giving it back undoes it.\<close>

lemma counted_post_up:
  assumes post: "counted_post limit ip login known \<lparr>at_address = t, at_account = t, at_failed = t\<rparr> store_up tbl =
      (Inr (Some held, a), tbl1)"
  shows "live_count scope k t tbl1 = live_count scope k t tbl +
      (if scope = ''password'' \<and> k = addressKey ip \<or> \<not> known \<and> scope = ''password-account'' \<and> k = accountKey login
       then 1 else 0)"
    and "live_count scope k t (giveBack_all limit held (\<lambda>_. True) tbl1) = live_count scope k t tbl"
proof -
  obtain res1 tblA where one: "passwordAttempt limit ip t (True, True) tbl = (res1, tblA)" by fastforce
  from attempt_up [OF _ this [unfolded passwordAttempt_def]] obtain d1 where d1: "res1 = Inr d1"
      "\<forall>scope k. live_count scope k t tblA =
         live_count scope k t tbl + (if scope = ''password'' \<and> k = addressKey ip then 1 else 0)"
      "\<forall>r. sd_receipt d1 = Some r \<longrightarrow> rc_scope r = ''password'' \<and> rc_key r = addressKey ip \<and> in_window t r tblA"
    by auto
  then obtain r where r: "sd_receipt d1 = Some r"
    using post one by (auto simp: counted_post_def store_up_def split: option.splits)
  then have rc: "rc_scope r = ''password''" "rc_key r = addressKey ip" "in_window t r tblA" using d1(3) by auto
  have give: "live_count scope k t (snd (giveBack_signin limit r True tbl2)) =
      (if scope = ''password'' \<and> k = addressKey ip then live_count scope k t tbl2 - 1 else live_count scope k t tbl2)"
    if "in_window t r tbl2" for tbl2 scope k
    using give_in_window [OF that, of "passwords limit" scope k] rc by (simp add: giveBack_signin_def)
  have "(\<forall>scope k. live_count scope k t tbl1 = live_count scope k t tbl +
      (if scope = ''password'' \<and> k = addressKey ip \<or> \<not> known \<and> scope = ''password-account'' \<and> k = accountKey login
       then 1 else 0)) \<and>
    (\<forall>scope k. live_count scope k t (giveBack_all limit held (\<lambda>_. True) tbl1) = live_count scope k t tbl)"
  proof (cases known)
    case True
    then have "held = [r]" "tbl1 = tblA" using post one d1(1) r by (auto simp: counted_post_def store_up_def)
    then show ?thesis using True d1(2) give [OF rc(3)] by simp
  next
    case False
    obtain res2 tblB where two: "accountAttempt login t (True, True) tblA = (res2, tblB)" by fastforce
    from attempt_up [OF _ this [unfolded accountAttempt_def]] obtain d2 where d2: "res2 = Inr d2"
        "\<forall>scope k. live_count scope k t tblB =
           live_count scope k t tblA + (if scope = ''password-account'' \<and> k = accountKey login then 1 else 0)"
        "\<forall>r. sd_receipt d2 = Some r \<longrightarrow>
           rc_scope r = ''password-account'' \<and> rc_key r = accountKey login \<and> in_window t r tblB"
        "\<forall>q. in_window t q tblA \<longrightarrow> rc_scope q \<noteq> ''password-account'' \<longrightarrow> in_window t q tblB"
      by auto
    then obtain r2 where r2: "sd_receipt d2 = Some r2" "held = [r, r2]" "tbl1 = tblB"
      using post one two d1(1) r False by (auto simp: counted_post_def store_up_def split: option.splits)
    then have rc2: "rc_scope r2 = ''password-account''" "rc_key r2 = accountKey login" "in_window t r2 tblB"
      using d2(3) by auto
    have rB: "in_window t r tblB" using d2(4) rc by simp
    have "in_window t r2 (snd (giveBack_signin limit r True tblB))"
      using give_keeps_window [of t r2 tblB "passwords limit" r] rc rc2 by (simp add: giveBack_signin_def)
    from give_in_window [OF this, of accountFailures] have
      "live_count scope k t (snd (giveBack_signin limit r2 True (snd (giveBack_signin limit r True tblB)))) =
        (if scope = ''password-account'' \<and> k = accountKey login
         then live_count scope k t (snd (giveBack_signin limit r True tblB)) - 1
         else live_count scope k t (snd (giveBack_signin limit r True tblB)))" for scope k
      using rc2 by (simp add: giveBack_signin_def)
    then show ?thesis using False d1(2) d2(2) give [OF rB] r2(2,3) by simp
  qed
  then show "live_count scope k t tbl1 = live_count scope k t tbl +
      (if scope = ''password'' \<and> k = addressKey ip \<or> \<not> known \<and> scope = ''password-account'' \<and> k = accountKey login
       then 1 else 0)"
    and "live_count scope k t (giveBack_all limit held (\<lambda>_. True) tbl1) = live_count scope k t tbl" by blast+
qed

text \<open>
  Only wrong passwords count. With the store up, a post at one instant that is passed on to Dex
  leaves every live count of the table as it was when Dex takes the password, gives another answer
  or none; when Dex refuses the password, the address and the account each have one more, whether or
  not the browser was one the account is known on, and the failure is audited.
\<close>

theorem wrong_passwords_count:
  assumes post: "forward_post limit ip login known dex \<lparr>at_address = t, at_account = t, at_failed = t\<rparr> store_up tbl =
      ((answer, audited), tbl')"
    and "\<And>a. answer \<noteq> Refused429 a"
  shows "audited = wrong_password dex \<and> live_count scope k t tbl' = live_count scope k t tbl +
    (if wrong_password dex \<and>
        (scope = ''password'' \<and> k = addressKey ip \<or> scope = ''password-account'' \<and> k = accountKey login)
     then 1 else 0)"
proof -
  let ?clk = "\<lparr>at_address = t, at_account = t, at_failed = t\<rparr>"
  obtain res tbl1 where cp: "counted_post limit ip login known ?clk store_up tbl = (res, tbl1)" by fastforce
  have "\<exists>d. res = Inr d"
  proof -
    obtain d1 tblA where one: "passwordAttempt limit ip t (True, True) tbl = (Inr d1, tblA)"
      using attempt_up [of "passwords limit"] unfolding passwordAttempt_def by (metis counter_windows(1) prod.exhaust)
    obtain d2 tblB where two: "accountAttempt login t (True, True) tblA = (Inr d2, tblB)"
      using attempt_up [of accountFailures] unfolding accountAttempt_def by (metis counter_windows(2) prod.exhaust)
    show ?thesis using cp one two by (auto simp: counted_post_def store_up_def split: option.splits if_splits)
  qed
  then obtain m a where m: "res = Inr (m, a)" by auto
  moreover have "m \<noteq> None" using post cp m assms(2) [of a] by (cases m) (auto simp: forward_post_def)
  ultimately obtain held where res: "res = Inr (Some held, a)" by auto
  note counted = counted_post_up [OF cp [unfolded res]]
  have all_up: "up_back store_up = (\<lambda>_. True)" by (simp add: store_up_def)
  show ?thesis
  proof (cases "wrong_password dex")
    case False
    then show ?thesis
      using post cp res counted(2) by (auto simp: forward_post_def wrong_password_def all_up split: option.splits)
  next
    case True
    then obtain status where dex: "dex = Some status" "dexOutcome status = Failure"
      by (auto simp: wrong_password_def split: option.splits)
    obtain n w tbl2 where hit: "hit_stored accountFailures (accountKey login) t tbl1 = ((n, w), tbl2)"
      by (metis prod.exhaust)
    have "audited \<and> tbl' = (if known then tbl2 else tbl1)"
      using post cp res dex hit
      by (auto simp: forward_post_def accountFailed_def add_stored_def store_up_def split: if_splits)
    then show ?thesis
      using True counted(1) [of scope k] counted(1) [of "''password-account''" "accountKey login"]
        hit_live(1,2) [OF _ hit] by auto
  qed
qed

lemma wrong_passwords_count_witness:
  "\<exists>tbl'. forward_post 20 ''10.0.0.9'' ''Ada'' False (Some 200) \<lparr>at_address = 7, at_account = 7, at_failed = 7\<rparr>
      store_up [] = ((PassedBack 200, True), tbl') \<and> live_count ''password-account'' ''ada'' 7 tbl' = 1"
proof -
  obtain answer audited tbl' where post: "forward_post 20 ''10.0.0.9'' ''Ada'' False (Some 200)
      \<lparr>at_address = 7, at_account = 7, at_failed = 7\<rparr> store_up [] = ((answer, audited), tbl')" by (metis prod.exhaust)
  have "fst (fst (forward_post 20 ''10.0.0.9'' ''Ada'' False (Some 200)
      \<lparr>at_address = 7, at_account = 7, at_failed = 7\<rparr> store_up [])) = PassedBack 200"
    by code_simp
  then have answer: "answer = PassedBack 200" using post by simp
  have key: "accountKey ''Ada'' = ''ada''" "wrong_password (Some 200)" by code_simp+
  have "live_count ''password-account'' ''ada'' 7 [] = 0" by code_simp
  with wrong_passwords_count [OF post, of "''password-account''" "''ada''"] answer key post show ?thesis by auto
qed

end
