(* ===== verification/Totp.thy ===== *)
theory Totp
  imports Js_Text "HOL-Library.Word"
begin

text \<open>
  One-time codes, \<open>packages/auth/src/totp.ts\<close>. A byte is an \<open>8 word\<close>; the accumulator of the base32
  loops is a \<open>32 word\<close>, as JavaScript's shifts make it, and it does overflow. HMAC-SHA-1 is
  \<open>node:crypto\<close>'s: the argument \<open>hmac\<close>.
\<close>

unbundle bit_operations_syntax

type_synonym byte = "8 word"

section \<open>Base32\<close>

definition BASE32 :: string where "BASE32 = ''ABCDEFGHIJKLMNOPQRSTUVWXYZ234567''"

definition base32_digit :: "32 word \<Rightarrow> char" where
  "base32_digit v = BASE32 ! unat (v AND 31)"

text \<open>The inner \<open>while\<close> of the encoder: digits while five bits are there.\<close>

function emit32 :: "32 word \<Rightarrow> nat \<Rightarrow> string \<Rightarrow> nat \<times> string" where
  "emit32 v bits out =
     (if 5 \<le> bits then emit32 v (bits - 5) (out @ [base32_digit (drop_bit (bits - 5) v)]) else (bits, out))"
  by pat_completeness auto
termination by (relation "measure (\<lambda>(v, bits, out). bits)") auto

declare emit32.simps [simp del]

fun encode_loop :: "byte list \<Rightarrow> nat \<Rightarrow> 32 word \<Rightarrow> string \<Rightarrow> nat \<times> 32 word \<times> string" where
  "encode_loop [] bits v out = (bits, v, out)"
| "encode_loop (b # bs) bits v out =
     (let v = push_bit 8 v OR ucast b; (bits, out) = emit32 v (bits + 8) out in encode_loop bs bits v out)"

definition base32Encode :: "byte list \<Rightarrow> string" where
  "base32Encode bytes =
     (case encode_loop bytes 0 0 [] of (bits, v, out) \<Rightarrow>
        if 0 < bits then out @ [base32_digit (push_bit (5 - bits) v)] else out)"

definition upper_char :: "char \<Rightarrow> char" where
  "upper_char c = (if is_lower c then char_of (char_code c - 32) else c)"

fun index_of :: "char \<Rightarrow> string \<Rightarrow> nat option" where
  "index_of c [] = None"
| "index_of c (d # ds) = (if c = d then Some 0 else map_option Suc (index_of c ds))"

text \<open>\<open>None\<close> is the throw of a character that is not base32.\<close>

fun decode_loop :: "string \<Rightarrow> nat \<Rightarrow> 32 word \<Rightarrow> byte list \<Rightarrow> byte list option" where
  "decode_loop [] bits v out = Some out"
| "decode_loop (c # cs) bits v out =
     (case index_of c BASE32 of
        None \<Rightarrow> None
      | Some i \<Rightarrow>
          (let v = push_bit 5 v OR of_nat i; bits = bits + 5
           in if 8 \<le> bits then decode_loop cs (bits - 8) v (out @ [ucast (drop_bit (bits - 8) v AND 255)])
              else decode_loop cs bits v out))"

definition base32Decode :: "string \<Rightarrow> byte list option" where
  "base32Decode s =
     decode_loop (map upper_char (filter (\<lambda>c. \<not> is_space c \<and> c \<noteq> CHR ''='') s)) 0 0 []"

section \<open>Bits of a digit\<close>

text \<open>The low \<open>n\<close> bits, the highest first.\<close>

definition low :: "nat \<Rightarrow> 'a::len word \<Rightarrow> bool list" where
  "low n v = map (bit v) (rev [0..<n])"

lemma length_low [simp]: "length (low n v) = n"
  by (simp add: low_def)

lemma low_0 [simp]: "low 0 v = []"
  by (simp add: low_def)

lemma low_Suc: "low (Suc n) v = bit v n # low n v"
  by (simp add: low_def)

lemma low_split: "low (m + n) v = low m (drop_bit n v) @ low n v"
  by (induction m) (simp_all add: low_Suc bit_drop_bit_eq add.commute)

lemma low_push:
  fixes v x :: "32 word"
  assumes "\<And>i. k \<le> i \<Longrightarrow> \<not> bit x i" and "n + k \<le> 32"
  shows "low (n + k) (push_bit k v OR x) = low n v @ low k x"
proof -
  have "low n (drop_bit k (push_bit k v OR x)) = low n v"
    using assms by (auto simp: low_def bit_simps)
  moreover have "low k (push_bit k v OR x) = low k x"
    using assms by (auto simp: low_def bit_simps)
  ultimately show ?thesis by (simp add: low_split)
qed

lemma low_byte: "low 8 (ucast (b :: byte) :: 32 word) = low 8 b"
  by (simp add: low_def bit_simps)

lemma low_byte_inject: "low 8 (a :: byte) = low 8 b \<Longrightarrow> a = b"
  by (rule bit_word_eqI) (auto simp: low_def)

section \<open>The round trip\<close>

text \<open>The five bits a character stands for.\<close>

definition digit_bits :: "char \<Rightarrow> bool list" where
  "digit_bits c = (case index_of c BASE32 of None \<Rightarrow> [] | Some i \<Rightarrow> low 5 (of_nat i :: 32 word))"

lemma digits_indexed: "i < 32 \<Longrightarrow> index_of (BASE32 ! i) BASE32 = Some i"
proof -
  have "\<forall>i\<in>set [0..<32]. index_of (BASE32 ! i) BASE32 = Some i" by code_simp
  then show "i < 32 \<Longrightarrow> index_of (BASE32 ! i) BASE32 = Some i" by simp
qed

lemma mask_31: "v AND 31 = v AND mask 5" for v :: "32 word"
  by (simp add: mask_eq_exp_minus_1)

lemma low_masked: "low 5 (v AND 31 :: 32 word) = low 5 v"
  unfolding mask_31 by (auto simp: low_def bit_and_iff bit_mask_iff)

lemma bit_masked: "bit (v AND 31 :: 32 word) i \<longleftrightarrow> i < 5 \<and> bit v i"
  unfolding mask_31 by (auto simp: bit_and_iff bit_mask_iff)

lemma unat_31: "unat (v AND 31 :: 32 word) < 32"
proof -
  have "v AND 31 \<le> (31 :: 32 word)" by (rule word_and_le1)
  then show ?thesis by (simp add: word_le_nat_alt)
qed

lemma digit_index: "index_of (base32_digit v) BASE32 = Some (unat (v AND 31))"
  by (simp add: base32_digit_def digits_indexed unat_31)

lemma digit_bits_digit [simp]: "digit_bits (base32_digit v) = low 5 v"
  by (simp add: digit_bits_def digit_index low_masked)

abbreviation bits_of :: "string \<Rightarrow> bool list" where
  "bits_of s \<equiv> concat (map digit_bits s)"

abbreviation byte_bits :: "byte list \<Rightarrow> bool list" where
  "byte_bits bs \<equiv> concat (map (low 8) bs)"

lemma emit32_bits:
  "emit32 v bits out = (bits', out') \<Longrightarrow>
    bits' < 5 \<and> bits_of out' @ low bits' v = bits_of out @ low bits v \<and>
    (set out \<subseteq> range base32_digit \<longrightarrow> set out' \<subseteq> range base32_digit)"
proof (induction v bits out rule: emit32.induct)
  case (1 v bits out)
  have "low bits v = low 5 (drop_bit (bits - 5) v) @ low (bits - 5) v" if "5 \<le> bits"
    using low_split [of 5 "bits - 5" v] that by simp
  then show ?case using 1 by (auto simp: emit32.simps [of v bits out] split: if_splits)
qed

lemma encode_loop_bits:
  "encode_loop bs bits v out = (bits', v', out') \<Longrightarrow> bits < 5 \<Longrightarrow>
    bits' < 5 \<and> bits_of out' @ low bits' v' = bits_of out @ low bits v @ byte_bits bs \<and>
    (set out \<subseteq> range base32_digit \<longrightarrow> set out' \<subseteq> range base32_digit)"
proof (induction bs arbitrary: bits v out)
  case (Cons b bs)
  let ?v = "push_bit 8 v OR ucast b"
  obtain bits1 out1 where e: "emit32 ?v (bits + 8) out = (bits1, out1)" by fastforce
  have "low (bits + 8) ?v = low bits v @ low 8 b"
    using Cons.prems(2) by (subst low_push) (auto simp: bit_simps low_byte dest: bit_imp_le_length)
  then show ?case using emit32_bits [OF e] Cons.IH [of bits1 ?v out1] Cons.prems e by simp
qed simp

lemma decode_loop_bits:
  assumes "set s \<subseteq> range base32_digit" "bits < 8"
  shows "\<exists>bs n v'. decode_loop s bits v out = Some bs \<and> n < 8 \<and>
    byte_bits bs @ low n (v' :: 32 word) = byte_bits out @ low bits v @ bits_of s"
  using assms
proof (induction s arbitrary: bits v out)
  case (Cons c s)
  obtain w where c: "c = base32_digit w" using Cons.prems by auto
  define y where "y = push_bit 5 v OR of_nat (unat (w AND 31))"
  have push: "low (bits + 5) y = low bits v @ low 5 w"
    unfolding y_def using Cons.prems(2) by (subst low_push) (auto simp: bit_masked low_masked)
  show ?case
  proof (cases "8 \<le> bits + 5")
    case True
    define n where "n = bits + 5 - 8"
    have "(ucast (x AND 255) :: byte) = ucast x" for x :: "32 word"
    proof -
      have "x AND 255 = x AND mask 8" by (simp add: mask_eq_exp_minus_1)
      then show ?thesis by (simp only:) (auto intro!: bit_word_eqI simp: bit_simps)
    qed
    then have step: "decode_loop (c # s) bits v out = decode_loop s n y (out @ [ucast (drop_bit n y)])"
      using True by (simp add: c digit_index Let_def y_def n_def)
    have byte: "low 8 (ucast (x :: 32 word) :: byte) = low 8 x" for x
      by (auto simp: low_def bit_simps)
    have split: "low bits v @ low 5 w @ bs = low 8 (drop_bit n y) @ low n y @ bs" for bs
    proof -
      have "low (bits + 5) y = low 8 (drop_bit n y) @ low n y"
        using low_split [of 8 n y] True by (simp add: n_def add.commute)
      then show ?thesis using push by (metis append_assoc)
    qed
    have "n < 8" using Cons.prems(2) by (simp add: n_def)
    then show ?thesis
      using Cons.IH [of n y "out @ [ucast (drop_bit n y)]"] Cons.prems(1)
      unfolding step by (simp add: c byte split)
  next
    case False
    then have step: "decode_loop (c # s) bits v out = decode_loop s (bits + 5) y out"
      by (simp add: c digit_index Let_def y_def)
    then show ?thesis
      using Cons.IH [of "bits + 5" y out] Cons.prems(1) push False unfolding step by (simp add: c)
  qed
qed auto

lemma byte_bits_inject:
  "byte_bits bs @ r = byte_bits cs @ p \<Longrightarrow> length r < 8 \<Longrightarrow> length p < 8 \<Longrightarrow> bs = cs"
proof (induction bs arbitrary: cs)
  case Nil
  then show ?case by (cases cs) auto
next
  case (Cons b bs)
  then show ?case by (cases cs) (auto dest: low_byte_inject)
qed

lemma digits_kept: "set s \<subseteq> range base32_digit \<Longrightarrow>
    map upper_char (filter (\<lambda>c. \<not> is_space c \<and> c \<noteq> CHR ''='') s) = s"
proof -
  have "\<forall>c\<in>set BASE32. upper_char c = c \<and> \<not> is_space c \<and> c \<noteq> CHR ''=''" by code_simp
  moreover have "range base32_digit \<subseteq> set BASE32"
  proof -
    have "length BASE32 = 32" by code_simp
    then show ?thesis using unat_31 nth_mem [of _ BASE32] by (auto simp: base32_digit_def)
  qed
  ultimately have "\<forall>c\<in>range base32_digit. upper_char c = c \<and> \<not> is_space c \<and> c \<noteq> CHR ''=''" by blast
  then show "set s \<subseteq> range base32_digit \<Longrightarrow> ?thesis" by (induction s) auto
qed

text \<open>
  A secret of any length survives: decoding what \<open>base32Encode\<close> writes gives it back, although the
  accumulator of either loop drops its high bits.
\<close>

theorem base32_roundtrip: "base32Decode (base32Encode bytes) = Some bytes"
proof -
  obtain bits v out where e: "encode_loop bytes 0 0 [] = (bits, v, out)" by (cases "encode_loop bytes 0 0 []") auto
  have bits: "bits < 5" "bits_of out @ low bits v = byte_bits bytes" "set out \<subseteq> range base32_digit"
    using encode_loop_bits [OF e] by auto
  have "low 5 (push_bit (5 - bits) v OR 0) = low bits v @ low (5 - bits) (0 :: 32 word)"
    using low_push [of "5 - bits" 0 bits v] bits(1) by simp
  then have all: "set (base32Encode bytes) \<subseteq> range base32_digit"
    "bits_of (base32Encode bytes) = byte_bits bytes @ (if bits = 0 then [] else low (5 - bits) (0 :: 32 word))"
    using bits by (auto simp: base32Encode_def e)
  moreover have "length (if bits = 0 then [] else low (5 - bits) (0 :: 32 word)) < 8"
    by (auto intro: le_less_trans [OF diff_le_self])
  ultimately obtain p where p: "length p < 8" "bits_of (base32Encode bytes) = byte_bits bytes @ p" by blast
  obtain bs n and v' :: "32 word" where "decode_loop (base32Encode bytes) 0 0 [] = Some bs" "n < 8"
    "byte_bits bs @ low n v' = bits_of (base32Encode bytes)"
    using decode_loop_bits [OF all(1), of 0 0 "[]"] by auto
  then show ?thesis
    using byte_bits_inject [of bs "low n v'" bytes p] p digits_kept [OF all(1)]
    by (simp add: base32Decode_def)
qed

section \<open>Codes\<close>

definition STEP_SECONDS :: int where "STEP_SECONDS = 30"
definition DIGITS :: nat where "DIGITS = 6"
definition DRIFT_STEPS :: int where "DRIFT_STEPS = 1"

text \<open>The time is in milliseconds since 1970; the quotient of doubles is exact at this size.\<close>

definition totpStep :: "int \<Rightarrow> int" where
  "totpStep nowMs = nowMs div (1000 * STEP_SECONDS)"

type_synonym hmac = "byte list \<Rightarrow> byte list \<Rightarrow> byte list"

definition counter_bytes :: "int \<Rightarrow> byte list" where
  "counter_bytes step = map (\<lambda>i. of_int (step div 256 ^ i)) (rev [0..<8])"

definition padStart :: "nat \<Rightarrow> char \<Rightarrow> string \<Rightarrow> string" where
  "padStart n c s = replicate (n - length s) c @ s"

text \<open>
  Dynamic truncation. A SHA-1 value has 20 bytes, so the four bytes at the offset are there; \<open>hmac\<close>
  is not assumed to have that length, and what is missing then reads as nothing.
\<close>

definition truncated :: "byte list \<Rightarrow> 32 word" where
  "truncated mac =
     (let offset = (if mac = [] then 0 else unat (last mac AND 0x0f))
      in word_rcat (take 4 (drop offset mac)) AND 0x7fffffff)"

definition totpCode :: "hmac \<Rightarrow> byte list \<Rightarrow> int \<Rightarrow> string" where
  "totpCode hmac secret step =
     padStart DIGITS CHR ''0'' (show_nat (unat (truncated (hmac secret (counter_bytes step))) mod 10 ^ DIGITS))"

definition six_digits :: "string \<Rightarrow> bool" where
  "six_digits code \<longleftrightarrow> length code = 6 \<and> list_all is_digit code"

definition matchTotp :: "hmac \<Rightarrow> byte list \<Rightarrow> string \<Rightarrow> int \<Rightarrow> int option \<Rightarrow> int option" where
  "matchTotp hmac secret code nowMs lastStep =
     (if \<not> six_digits code then None
      else
        let current = totpStep nowMs
        in find (\<lambda>step. \<not> (lastStep \<noteq> None \<and> step \<le> the lastStep) \<and> totpCode hmac secret step = code)
             [current - DRIFT_STEPS..current + DRIFT_STEPS])"

lemma show_nat_six: "n < 10 ^ m \<Longrightarrow> 0 < m \<Longrightarrow> length (show_nat n) \<le> m"
proof (induction n arbitrary: m rule: show_nat.induct)
  case (1 n)
  show ?case
  proof (cases "n < 10")
    case False
    then obtain k where m: "m = Suc k" "0 < k" using 1(2,3) by (cases m; cases "m - 1") auto
    then have "n div 10 < 10 ^ k" using 1(2) by (simp add: div_less_iff_less_mult mult.commute)
    then show ?thesis using 1(1) [OF False, of k] m False by (subst show_nat.simps) simp
  qed (use 1(3) in \<open>subst show_nat.simps, simp\<close>)
qed

text \<open>So \<open>timingSafeEqual\<close>, which throws on different lengths, is given equal ones.\<close>

lemma totp_code_digits: "six_digits (totpCode hmac secret step)"
proof -
  have "length (show_nat (n mod 10 ^ 6)) \<le> 6" for n by (rule show_nat_six) simp_all
  moreover have "is_digit CHR ''0''" by code_simp
  ultimately show ?thesis
    using show_nat_digits by (auto simp: totpCode_def six_digits_def padStart_def DIGITS_def list_all_iff)
qed

lemma find_upto:
  "find P [i..j] = Some k \<longleftrightarrow> i \<le> k \<and> k \<le> j \<and> P k \<and> (\<forall>m. i \<le> m \<and> m < k \<longrightarrow> \<not> P m)"
proof (induction i j rule: upto.induct)
  case (1 i j)
  show ?case
  proof (cases "i \<le> j")
    case True
    then have "find P [i..j] = (if P i then Some i else find P [i + 1..j])" by (simp add: upto_rec1)
    then show ?thesis using True 1 by (cases "P i") (auto, (metis add1_zle_eq less_le not_less)+)
  qed simp
qed

text \<open>
  What a match means: the code of the step named, at most one step from the clock and later than the
  last one used, and the earliest such step. A refused code is the code of no such step.
\<close>

lemma matchTotp_Some:
  "matchTotp hmac secret code nowMs lastStep = Some step \<longleftrightarrow>
    \<bar>step - totpStep nowMs\<bar> \<le> 1 \<and> (\<forall>l. lastStep = Some l \<longrightarrow> l < step) \<and> totpCode hmac secret step = code \<and>
    (\<forall>m. totpStep nowMs - 1 \<le> m \<and> m < step \<and> (\<forall>l. lastStep = Some l \<longrightarrow> l < m) \<longrightarrow> totpCode hmac secret m \<noteq> code)"
proof -
  have "six_digits code" if "totpCode hmac secret step = code" using that totp_code_digits by blast
  then show ?thesis by (auto simp: matchTotp_def Let_def find_upto DRIFT_STEPS_def abs_le_iff not_le)
qed

end
