(* ===== verification/Dex_Subject.thy ===== *)
theory Dex_Subject
  imports Totp
begin

text \<open>
  The subjects Dex puts in an ID token, \<open>packages/auth/src/dex-subject.ts\<close>: the user's id and the
  connector's, length-prefixed, in base64url. A string stands for its UTF-8 bytes, one character
  each; an id that is not UTF-8, which Node would print with replacement characters, is kept as it is.
\<close>

definition DEX_ACCOUNT_ISSUER :: string where
  "DEX_ACCOUNT_ISSUER = ''urn:portikus:dex''"

section \<open>Base64url\<close>

text \<open>
  Node's \<open>base64url\<close>: no padding. Its decoder reads the other alphabet too, skips what is in neither
  and stops at \<open>=\<close>.
\<close>

definition BASE64URL :: string where
  "BASE64URL = ''ABCDEFGHIJKLMNOPQRSTUVWXYZabcdefghijklmnopqrstuvwxyz0123456789-_''"

definition sextet_char :: "byte \<Rightarrow> char" where
  "sextet_char v = BASE64URL ! unat (v AND 63)"

fun base64url :: "byte list \<Rightarrow> string" where
  "base64url (a # b # c # bs) =
     sextet_char (drop_bit 2 a) # sextet_char (push_bit 4 a OR drop_bit 4 b) #
     sextet_char (push_bit 2 b OR drop_bit 6 c) # sextet_char c # base64url bs"
| "base64url [a, b] =
     [sextet_char (drop_bit 2 a), sextet_char (push_bit 4 a OR drop_bit 4 b), sextet_char (push_bit 2 b)]"
| "base64url [a] = [sextet_char (drop_bit 2 a), sextet_char (push_bit 4 a)]"
| "base64url [] = []"

definition sextet :: "char \<Rightarrow> byte option" where
  "sextet c =
     map_option of_nat (index_of (if c = CHR ''+'' then CHR ''-'' else if c = CHR ''/'' then CHR ''_'' else c) BASE64URL)"

fun sextets_bytes :: "byte list \<Rightarrow> byte list" where
  "sextets_bytes (p # q # r # s # xs) =
     (push_bit 2 p OR drop_bit 4 q) # (push_bit 4 q OR drop_bit 2 r) # (push_bit 6 r OR s) # sextets_bytes xs"
| "sextets_bytes [p, q, r] = [push_bit 2 p OR drop_bit 4 q, push_bit 4 q OR drop_bit 2 r]"
| "sextets_bytes [p, q] = [push_bit 2 p OR drop_bit 4 q]"
| "sextets_bytes [p] = []"
| "sextets_bytes [] = []"

definition from_base64url :: "string \<Rightarrow> byte list" where
  "from_base64url s = sextets_bytes (List.map_filter sextet (takeWhile (\<lambda>c. c \<noteq> CHR ''='') s))"

lemma mask_63: "v AND 63 = v AND mask 6" for v :: byte
  by (simp add: mask_eq_exp_minus_1)

lemma unat_63: "unat (v AND 63 :: byte) < 64"
proof -
  have "v AND 63 \<le> (63 :: byte)" by (rule word_and_le1)
  then show ?thesis by (simp add: word_le_nat_alt)
qed

lemma sextets_indexed:
  assumes "i < 64"
  shows "sextet (BASE64URL ! i) = Some (of_nat i)" "BASE64URL ! i \<noteq> CHR ''=''"
proof -
  have "\<forall>i\<in>set [0..<64]. sextet (BASE64URL ! i) = Some (of_nat i) \<and> BASE64URL ! i \<noteq> CHR ''=''" by code_simp
  then show "sextet (BASE64URL ! i) = Some (of_nat i)" "BASE64URL ! i \<noteq> CHR ''=''" using assms by auto
qed

lemma sextet_digit [simp]: "sextet (sextet_char v) = Some (v AND mask 6)" "sextet_char v \<noteq> CHR ''=''"
  using sextets_indexed [OF unat_63, of v] by (simp_all add: sextet_char_def mask_63)

lemma byte_eqI:
  fixes a b :: byte
  assumes "bit a 0 = bit b 0" "bit a 1 = bit b 1" "bit a 2 = bit b 2" "bit a 3 = bit b 3"
    "bit a 4 = bit b 4" "bit a 5 = bit b 5" "bit a 6 = bit b 6" "bit a 7 = bit b 7"
  shows "a = b"
proof (rule bit_word_eqI)
  fix n assume "n < LENGTH(8)"
  then have "n = 0 \<or> n = 1 \<or> n = 2 \<or> n = 3 \<or> n = 4 \<or> n = 5 \<or> n = 6 \<or> n = 7" by auto
  then show "bit a n = bit b n" using assms by auto
qed

lemma sextet_bits:
  "push_bit 2 (drop_bit 2 a AND mask 6) OR drop_bit 4 ((push_bit 4 a OR drop_bit 4 b) AND mask 6) = a"
  "push_bit 2 (drop_bit 2 a AND mask 6) OR drop_bit 4 (push_bit 4 a AND mask 6) = a"
  "push_bit 4 ((push_bit 4 a OR drop_bit 4 b) AND mask 6) OR drop_bit 2 ((push_bit 2 b OR drop_bit 6 c) AND mask 6) = b"
  "push_bit 4 ((push_bit 4 a OR drop_bit 4 b) AND mask 6) OR drop_bit 2 (push_bit 2 b AND mask 6) = b"
  "push_bit 6 ((push_bit 2 b OR drop_bit 6 c) AND mask 6) OR (c AND mask 6) = c"
  for a b c :: byte
  by (rule byte_eqI; auto simp: bit_simps dest: bit_imp_le_length)+

lemma from_sextets:
  "from_base64url (sextet_char p # sextet_char q # sextet_char r # sextet_char s # cs) =
     (push_bit 2 (p AND mask 6) OR drop_bit 4 (q AND mask 6)) #
     (push_bit 4 (q AND mask 6) OR drop_bit 2 (r AND mask 6)) #
     (push_bit 6 (r AND mask 6) OR (s AND mask 6)) # from_base64url cs"
  "from_base64url [sextet_char p, sextet_char q, sextet_char r] =
     [push_bit 2 (p AND mask 6) OR drop_bit 4 (q AND mask 6),
      push_bit 4 (q AND mask 6) OR drop_bit 2 (r AND mask 6)]"
  "from_base64url [sextet_char p, sextet_char q] = [push_bit 2 (p AND mask 6) OR drop_bit 4 (q AND mask 6)]"
  "from_base64url [] = []"
  by (simp_all add: from_base64url_def List.map_filter_def)

lemma base64url_inverse: "from_base64url (base64url bs) = bs"
  by (induction bs rule: base64url.induct) (simp_all only: base64url.simps from_sextets sextet_bits)

section \<open>Subjects\<close>

definition utf8 :: "string \<Rightarrow> byte list" where
  "utf8 s = map (\<lambda>c. of_int (of_char c)) s"

definition utf8_text :: "byte list \<Rightarrow> string" where
  "utf8_text bs = map (\<lambda>b. char_of (uint b)) bs"

definition LOCAL :: string where "LOCAL = ''local''"

text \<open>\<open>None\<close> is the throw of an id that does not fit its length byte.\<close>

definition dexSubject :: "string \<Rightarrow> string \<Rightarrow> string option" where
  "dexSubject userId connectorId =
     (if userId = [] \<or> 128 \<le> length userId then None
      else if connectorId = [] \<or> 128 \<le> length connectorId then None
      else Some (base64url (0x0a # of_nat (length userId) # utf8 userId @
                            0x12 # of_nat (length connectorId) # utf8 connectorId)))"

definition dexLocalSubject :: "string \<Rightarrow> string option" where
  "dexLocalSubject userId = dexSubject userId LOCAL"

definition dexLocalUserId :: "string \<Rightarrow> string option" where
  "dexLocalUserId subject =
     (let bytes = from_base64url subject
      in if base64url bytes \<noteq> subject then None
         else if length bytes < 2 \<or> bytes ! 0 \<noteq> 0x0a then None
         else
           let idLength = unat (bytes ! 1);
               userId = take idLength (drop 2 bytes);
               rest = drop (2 + idLength) bytes
           in if length userId \<noteq> idLength \<or> idLength = 0 \<or> 128 \<le> idLength then None
              else if rest \<noteq> 0x12 # 5 # utf8 LOCAL then None
              else Some (utf8_text userId))"

definition localDexUserId :: "string \<Rightarrow> string \<Rightarrow> string option" where
  "localDexUserId issuer subject = (if issuer = DEX_ACCOUNT_ISSUER then dexLocalUserId subject else None)"

text \<open>A varint of at most four bytes: its value and where it ends.\<close>

fun varint_loop :: "nat list \<Rightarrow> 32 word \<Rightarrow> byte list \<Rightarrow> nat \<Rightarrow> (32 word \<times> nat) option" where
  "varint_loop [] v bytes start = None"
| "varint_loop (i # is) v bytes start =
     (case nth_opt bytes (start + i) of
        None \<Rightarrow> None
      | Some byte \<Rightarrow>
          (let v = v OR push_bit (7 * i) (ucast (byte AND 0x7f))
           in if byte AND 0x80 = 0 then Some (v, start + i + 1) else varint_loop is v bytes start))"

definition readVarint :: "byte list \<Rightarrow> nat \<Rightarrow> (32 word \<times> nat) option" where
  "readVarint bytes start = varint_loop [0..<4] 0 bytes start"

definition dexConnectorId :: "string \<Rightarrow> string option" where
  "dexConnectorId subject =
     (let bytes = from_base64url subject
      in if bytes = [] \<or> base64url bytes \<noteq> subject then None
         else if bytes ! 0 \<noteq> 0x0a then None
         else case readVarint bytes 1 of
           None \<Rightarrow> None
         | Some (idLength, idFrom) \<Rightarrow>
             if idLength = 0 then None
             else
               let connAt = idFrom + unat idLength
               in if nth_opt bytes connAt \<noteq> Some 0x12 then None
                  else case readVarint bytes (connAt + 1) of
                    None \<Rightarrow> None
                  | Some (connLength, connFrom) \<Rightarrow>
                      if connLength = 0 \<or> connFrom + unat connLength \<noteq> length bytes then None
                      else Some (utf8_text (drop connFrom bytes)))"

lemma utf8_text_inverse [simp]: "utf8_text (utf8 s) = s" "utf8 (utf8_text bs) = bs"
proof -
  have "char_of (uint (of_int (of_char c) :: byte)) = c" for c
  proof -
    have "uint (of_int (of_char c) :: byte) = of_char c" by (simp add: uint_word_of_int)
    then show ?thesis by simp
  qed
  then show "utf8_text (utf8 s) = s" by (induction s) (simp_all add: utf8_def utf8_text_def)
  have "of_int (of_char (char_of (uint b))) = b" for b :: byte
  proof -
    have "uint b < 256" using uint_lt2p [of b] by simp
    then show ?thesis by (simp add: of_char_of)
  qed
  then show "utf8 (utf8_text bs) = bs" by (induction bs) (simp_all add: utf8_def utf8_text_def)
qed

lemma length_utf8 [simp]: "length (utf8 s) = length s" "length (utf8_text bs) = length bs"
  by (simp_all add: utf8_def utf8_text_def)

text \<open>
  A subject is read as a local one exactly when it is the one Dex makes for that user: no other
  spelling, padding or trailing byte passes, so two subjects never stand for one local account.
\<close>

theorem local_subject_exact:
  "dexLocalUserId subject = Some userId \<longleftrightarrow> dexLocalSubject userId = Some subject"
proof
  assume "dexLocalUserId subject = Some userId"
  then obtain n rest where b: "base64url (from_base64url subject) = subject"
    "from_base64url subject = 0x0a # n # rest" "take (unat n) rest = utf8 userId"
    "length (take (unat n) rest) = unat n" "unat n \<noteq> 0" "unat n < 128"
    "drop (unat n) rest = 0x12 # 5 # utf8 LOCAL"
    by (cases "from_base64url subject" rule: remdups_adj.cases)
      (auto simp: dexLocalUserId_def Let_def split: if_splits)
  then have "rest = utf8 userId @ 0x12 # 5 # utf8 LOCAL" by (metis append_take_drop_id)
  moreover have len: "unat n = length userId" using b(3,4) by (metis length_utf8(1))
  moreover have "n = of_nat (unat n)" by simp
  ultimately show "dexLocalSubject userId = Some subject"
    using b len by (auto simp: dexLocalSubject_def dexSubject_def LOCAL_def)
next
  assume "dexLocalSubject userId = Some subject"
  then have s: "subject = base64url (0x0a # of_nat (length userId) # utf8 userId @ 0x12 # 5 # utf8 LOCAL)"
    "userId \<noteq> []" "length userId < 128"
    by (auto simp: dexLocalSubject_def dexSubject_def LOCAL_def split: if_splits)
  then have "unat (of_nat (length userId) :: byte) = length userId" by (simp add: unat_of_nat)
  then show "dexLocalUserId subject = Some userId"
    using s(2,3) by (simp add: dexLocalUserId_def s(1) base64url_inverse Let_def)
qed

text \<open>The connector of any subject this site makes is read back.\<close>

lemma one_byte_varint:
  assumes "nth_opt bytes start = Some (of_nat n)" "n < 128"
  shows "readVarint bytes start = Some (of_nat n, start + 1)"
proof -
  have len: "unat (of_nat n :: byte) = n" using assms(2) by (simp add: unat_of_nat)
  have "(of_nat n :: byte) AND 0x7f = of_nat n" "(of_nat n :: byte) AND 0x80 = 0"
  proof -
    have "\<not> bit (of_nat n :: byte) 7" using assms(2) by (simp add: bit_of_nat_iff, simp add: bit_iff_odd)
    then show "(of_nat n :: byte) AND 0x7f = of_nat n" "(of_nat n :: byte) AND 0x80 = 0"
      by (auto intro!: byte_eqI simp: bit_simps)
  qed
  moreover have "(ucast (of_nat n :: byte) :: 32 word) = of_nat n"
    using assms(2) by (simp add: unsigned_of_nat take_bit_nat_eq_self)
  ultimately show ?thesis using assms(1) by (simp add: readVarint_def upt_rec)
qed

theorem subject_connector:
  assumes "dexSubject userId connectorId = Some subject"
  shows "dexConnectorId subject = Some connectorId"
proof -
  let ?bytes = "0x0a # of_nat (length userId) # utf8 userId @ 0x12 # of_nat (length connectorId) # utf8 connectorId"
  have s: "subject = base64url ?bytes" and len: "0 < length userId" "length userId < 128"
    "0 < length connectorId" "length connectorId < 128"
    using assms by (auto simp: dexSubject_def split: if_splits)
  have id_length: "readVarint ?bytes 1 = Some (of_nat (length userId), 2)"
    using one_byte_varint [of ?bytes 1 "length userId"] len by simp
  have conn_length: "readVarint ?bytes (length userId + 3) = Some (of_nat (length connectorId), length userId + 4)"
    using one_byte_varint [of ?bytes "length userId + 3" "length connectorId"] len
    by (simp add: nth_opt_def nth_append)
  have "unat (of_nat n :: 32 word) = n \<and> (0 < n \<longrightarrow> (of_nat n :: 32 word) \<noteq> 0)" if "n < 128" for n
  proof -
    have "unat (of_nat n :: 32 word) = n" using that by (simp add: unat_of_nat)
    then show ?thesis by (metis less_irrefl unat_0)
  qed
  then have words: "unat (of_nat (length userId) :: 32 word) = length userId" "(of_nat (length userId) :: 32 word) \<noteq> 0"
    "unat (of_nat (length connectorId) :: 32 word) = length connectorId" "(of_nat (length connectorId) :: 32 word) \<noteq> 0"
    using len by blast+
  have "nth_opt ?bytes (length userId + 2) = Some 0x12" by (simp add: nth_opt_def nth_append)
  then show ?thesis
    using id_length conn_length words
    by (simp add: dexConnectorId_def s base64url_inverse Let_def eval_nat_numeral)
qed

end
