(* ===== verification/Auth_Db.thy ===== *)
theory Auth_Db
  imports Api_Workspaces Dex_Subject
begin

text \<open>
  The tables of sign-in (\<open>packages/db/src/schema.ts\<close>, migrations 0002, 0008, 0015 to 0017, 0037, 0038
  and 0049) beside the rest of the database. A session's id is the hash of its token, which is
  random: new ids are arguments. Deleting a session deletes its preview sessions and its link intent,
  as the foreign keys do. Hashes of codes and tokens are arguments too.
\<close>

section \<open>Rows\<close>

datatype session_method = Oidc | Lti | Link

record session =
  sess_id :: string
  sess_user_id :: uuid
  sess_created_at :: millis
  sess_expires_at :: millis
  sess_method :: session_method
  sess_course_user_id :: "uuid option"
  second_factor_at :: "millis option"

record preview_session =
  prev_id :: uuid
  prev_user_id :: uuid
  prev_session_id :: string
  prev_revoked_at :: "millis option"

datatype factor_kind = TotpFactor | PasskeyFactor

record second_factor =
  factor_id :: uuid
  factor_user_id :: uuid
  factor_kind :: factor_kind
  factor_secret :: string
  factor_label :: string
  last_step :: "int option"
  last_used_at :: "millis option"

record recovery_code =
  rec_user_id :: uuid
  code_hash :: string
  rec_used_at :: "millis option"

record account_link =
  link_course_user_id :: uuid
  link_user_id :: uuid
  link_platform_issuer :: string
  link_archived_at :: "millis option"

record link_intent =
  intent_state_hash :: string
  intent_session_id :: string
  intent_course_user_id :: uuid
  intent_user_id :: "uuid option"
  intent_expires_at :: millis

record invitation =
  inv_id :: uuid
  inv_email :: string
  inv_username :: "string option"
  inv_display_name :: string
  inv_role :: user_role
  inv_created_at :: millis
  inv_claimed_at :: "millis option"
  inv_claimed_by :: "uuid option"
  inv_revoked_at :: "millis option"

record membership =
  mem_context_id :: uuid
  mem_user_id :: uuid
  mem_role :: user_role
  mem_last_launch_at :: millis

datatype email_purpose = ResetLink | InviteLink

record email_token =
  tok_id :: uuid
  tok_user_id :: uuid
  tok_purpose :: email_purpose
  tok_hash :: string
  tok_created_at :: millis
  tok_expires_at :: millis
  tok_used_at :: "millis option"
  tok_revoked_at :: "millis option"

record auth_db =
  core :: db
  sessions :: "session list"
  preview_sessions :: "preview_session list"
  second_factors :: "second_factor list"
  recovery_codes :: "recovery_code list"
  account_links :: "account_link list"
  link_intents :: "link_intent list"
  invitations :: "invitation list"
  memberships :: "membership list"
  email_tokens :: "email_token list"

section \<open>Users\<close>

text \<open>\<open>UPDATE users SET \<dots> WHERE id = \<dots>\<close>\<close>

definition update_user :: "uuid \<Rightarrow> (user \<Rightarrow> user) \<Rightarrow> db \<Rightarrow> db" where
  "update_user i f d = d\<lparr>users := upd_where (\<lambda>u. user_id u = i) f (users d)\<rparr>"

lemma update_user_frame [simp]:
  "workspaces (update_user i f d) = workspaces d"
  "db_settings (update_user i f d) = db_settings d"
  "audit_events (update_user i f d) = audit_events d"
  "users (update_user i f d) = upd_where (\<lambda>u. user_id u = i) f (users d)"
  by (simp_all add: update_user_def)

lemma find_user_update [row_simps]:
  assumes "\<And>u. user_id (f u) = user_id u"
  shows "find_user j (update_user i f d) =
    (if j = i then map_option f (find_user j d) else find_user j d)"
proof (cases "find_user j d")
  case (Some u)
  then have "user_id u = j" by (auto simp: find_user_def dest: find_row_Some)
  then show ?thesis using user_table.lookup_update [of "\<lambda>u. user_id u = i" f j d] assms Some
    by (auto simp: find_user_def update_user_def)
next
  case None
  then show ?thesis using user_table.lookup_update [of "\<lambda>u. user_id u = i" f j d] assms
    by (auto simp: find_user_def update_user_def)
qed

lemma find_user_recordAudit [simp]: "find_user i (recordAudit e d) = find_user i d"
  by (simp add: find_user_def)

definition auth_audit :: "audit_event \<Rightarrow> auth_db \<Rightarrow> auth_db" where
  "auth_audit e a = a\<lparr>core := recordAudit e (core a)\<rparr>"

definition actor_of :: "uuid \<Rightarrow> string" where
  "actor_of i = ''user:'' @ i"

fun role_text :: "user_role \<Rightarrow> string" where
  "role_text Student = ''student''"
| "role_text Instructor = ''instructor''"
| "role_text Administrator = ''administrator''"

section \<open>Deleting sessions\<close>

text \<open>\<open>DELETE FROM sessions WHERE \<dots>\<close> with its cascades.\<close>

definition delete_sessions :: "(session \<Rightarrow> bool) \<Rightarrow> auth_db \<Rightarrow> auth_db" where
  "delete_sessions P a =
     (let gone = sess_id ` set (filter P (sessions a))
      in a\<lparr>sessions := filter (\<lambda>s. \<not> P s) (sessions a),
           preview_sessions := filter (\<lambda>p. prev_session_id p \<notin> gone) (preview_sessions a),
           link_intents := filter (\<lambda>i. intent_session_id i \<notin> gone) (link_intents a)\<rparr>)"

text \<open>Ends every preview session of an account that is still open.\<close>

definition revoke_previews :: "uuid \<Rightarrow> millis \<Rightarrow> auth_db \<Rightarrow> auth_db" where
  "revoke_previews i t a =
     a\<lparr>preview_sessions := upd_where (\<lambda>p. prev_user_id p = i \<and> prev_revoked_at p = None)
        (\<lambda>p. p\<lparr>prev_revoked_at := Some t\<rparr>) (preview_sessions a)\<rparr>"

definition endSessions :: "uuid \<Rightarrow> millis \<Rightarrow> auth_db \<Rightarrow> auth_db" where
  "endSessions i t a = revoke_previews i t (delete_sessions (\<lambda>s. sess_user_id s = i) a)"

lemma delete_sessions_frame [simp]:
  "core (delete_sessions P a) = core a" "sessions (delete_sessions P a) = filter (\<lambda>s. \<not> P s) (sessions a)"
  "second_factors (delete_sessions P a) = second_factors a" "recovery_codes (delete_sessions P a) = recovery_codes a"
  "account_links (delete_sessions P a) = account_links a" "invitations (delete_sessions P a) = invitations a"
  "memberships (delete_sessions P a) = memberships a" "email_tokens (delete_sessions P a) = email_tokens a"
  by (simp_all add: delete_sessions_def Let_def)

lemma revoke_previews_frame [simp]:
  "core (revoke_previews i t a) = core a" "sessions (revoke_previews i t a) = sessions a"
  "second_factors (revoke_previews i t a) = second_factors a" "recovery_codes (revoke_previews i t a) = recovery_codes a"
  "account_links (revoke_previews i t a) = account_links a" "link_intents (revoke_previews i t a) = link_intents a"
  "invitations (revoke_previews i t a) = invitations a" "memberships (revoke_previews i t a) = memberships a"
  "email_tokens (revoke_previews i t a) = email_tokens a"
  by (simp_all add: revoke_previews_def)

lemma auth_audit_frame [simp]:
  "core (auth_audit e a) = recordAudit e (core a)" "sessions (auth_audit e a) = sessions a"
  "preview_sessions (auth_audit e a) = preview_sessions a" "second_factors (auth_audit e a) = second_factors a"
  "recovery_codes (auth_audit e a) = recovery_codes a" "account_links (auth_audit e a) = account_links a"
  "link_intents (auth_audit e a) = link_intents a" "invitations (auth_audit e a) = invitations a"
  "memberships (auth_audit e a) = memberships a" "email_tokens (auth_audit e a) = email_tokens a"
  by (simp_all add: auth_audit_def)

section \<open>Emailed links\<close>

definition TOKEN_LIFETIME_MS :: "email_purpose \<Rightarrow> millis" where
  "TOKEN_LIFETIME_MS p = (case p of ResetLink \<Rightarrow> 30 * 60000 | InviteLink \<Rightarrow> 7 * 24 * 60 * 60000)"

definition live_token :: "email_token \<Rightarrow> bool" where
  "live_token k \<longleftrightarrow> tok_used_at k = None \<and> tok_revoked_at k = None"

definition issueAccountEmailToken ::
  "uuid \<Rightarrow> string \<Rightarrow> uuid \<Rightarrow> email_purpose \<Rightarrow> millis \<Rightarrow> auth_db \<Rightarrow> auth_db" where
  "issueAccountEmailToken new_id hashed userId purpose t a =
     a\<lparr>email_tokens := email_tokens a @
        [\<lparr>tok_id = new_id, tok_user_id = userId, tok_purpose = purpose, tok_hash = hashed, tok_created_at = t,
          tok_expires_at = t + TOKEN_LIFETIME_MS purpose, tok_used_at = None, tok_revoked_at = None\<rparr>]\<rparr>"

definition supersedeAccountEmailTokens :: "uuid \<Rightarrow> email_purpose \<Rightarrow> uuid \<Rightarrow> millis \<Rightarrow> auth_db \<Rightarrow> auth_db" where
  "supersedeAccountEmailTokens userId purpose keepId t a =
     (let purposes = (if purpose = ResetLink then [ResetLink, InviteLink] else [InviteLink]);
          kept = map_option tok_created_at (find_row tok_id keepId (email_tokens a))
      in a\<lparr>email_tokens := upd_where
            (\<lambda>k. tok_user_id k = userId \<and> tok_purpose k \<in> set purposes \<and> tok_id k \<noteq> keepId \<and>
                 sql_lt (Some (tok_created_at k)) kept \<and> live_token k)
            (\<lambda>k. k\<lparr>tok_revoked_at := Some t\<rparr>) (email_tokens a)\<rparr>)"

definition TOKEN_SHAPE :: "string \<Rightarrow> bool" where
  "TOKEN_SHAPE s \<longleftrightarrow> length s = 43 \<and> list_all (\<lambda>c. c \<in> set BASE64URL) s"

text \<open>\<open>hash\<close> is SHA-256 in hexadecimal, from \<open>node:crypto\<close>.\<close>

definition consumeAccountEmailToken ::
  "(string \<Rightarrow> string) \<Rightarrow> string \<Rightarrow> email_purpose \<Rightarrow> millis \<Rightarrow> auth_db \<Rightarrow> (uuid \<times> uuid) option \<times> auth_db" where
  "consumeAccountEmailToken hash token purpose t a =
     (if \<not> TOKEN_SHAPE token then (None, a)
      else
        let hit = (\<lambda>k. tok_hash k = hash token \<and> tok_purpose k = purpose \<and> live_token k \<and> t < tok_expires_at k)
        in (map_option (\<lambda>k. (tok_id k, tok_user_id k)) (find hit (email_tokens a)),
            a\<lparr>email_tokens := upd_where hit (\<lambda>k. k\<lparr>tok_used_at := Some t\<rparr>) (email_tokens a)\<rparr>))"

definition revokeAccountEmailTokens :: "uuid \<Rightarrow> millis \<Rightarrow> auth_db \<Rightarrow> auth_db" where
  "revokeAccountEmailTokens userId t a =
     a\<lparr>email_tokens := upd_where (\<lambda>k. tok_user_id k = userId \<and> live_token k)
        (\<lambda>k. k\<lparr>tok_revoked_at := Some t\<rparr>) (email_tokens a)\<rparr>"

definition pruneEndedAccountEmailTokens :: "millis \<Rightarrow> auth_db \<Rightarrow> auth_db" where
  "pruneEndedAccountEmailTokens t a =
     a\<lparr>email_tokens := filter (\<lambda>k. \<not> (tok_expires_at k \<le> t \<or> tok_used_at k \<noteq> None \<or> tok_revoked_at k \<noteq> None))
        (email_tokens a)\<rparr>"

lemma revoke_tokens_frame [simp]:
  "core (revokeAccountEmailTokens i t a) = core a" "sessions (revokeAccountEmailTokens i t a) = sessions a"
  "preview_sessions (revokeAccountEmailTokens i t a) = preview_sessions a"
  "second_factors (revokeAccountEmailTokens i t a) = second_factors a"
  "recovery_codes (revokeAccountEmailTokens i t a) = recovery_codes a"
  "account_links (revokeAccountEmailTokens i t a) = account_links a"
  "link_intents (revokeAccountEmailTokens i t a) = link_intents a"
  "invitations (revokeAccountEmailTokens i t a) = invitations a"
  "memberships (revokeAccountEmailTokens i t a) = memberships a"
  by (simp_all add: revokeAccountEmailTokens_def)

lemma consume_token_frame [simp]:
  "core (snd (consumeAccountEmailToken h k p t a)) = core a" "sessions (snd (consumeAccountEmailToken h k p t a)) = sessions a"
  "preview_sessions (snd (consumeAccountEmailToken h k p t a)) = preview_sessions a"
  "second_factors (snd (consumeAccountEmailToken h k p t a)) = second_factors a"
  "recovery_codes (snd (consumeAccountEmailToken h k p t a)) = recovery_codes a"
  "account_links (snd (consumeAccountEmailToken h k p t a)) = account_links a"
  "link_intents (snd (consumeAccountEmailToken h k p t a)) = link_intents a"
  "invitations (snd (consumeAccountEmailToken h k p t a)) = invitations a"
  "memberships (snd (consumeAccountEmailToken h k p t a)) = memberships a"
  by (simp_all add: consumeAccountEmailToken_def Let_def)

end
