(* ===== verification/Roles.thy ===== *)
theory Roles
  imports Auth_Db
begin

text \<open>
  Roles: the one the identity provider or the launch gave, the one Portikus granted, and the higher of
  the two, which every check reads. The grants (\<open>packages/auth/src/roles.ts\<close>), the routes that make
  them (\<open>apps/api/src/routes/admin.ts\<close>, \<open>apps/api/src/admin/install-admin.ts\<close>), and disabling and
  enabling an account (\<open>apps/api/src/admin/users.ts\<close>). Each function is one transaction.
\<close>

section \<open>The order of roles\<close>

fun RANK :: "user_role \<Rightarrow> nat" where
  "RANK Student = 0"
| "RANK Instructor = 1"
| "RANK Administrator = 2"

definition higher :: "user_role \<Rightarrow> user_role \<Rightarrow> user_role" where
  "higher a b = (if RANK b \<le> RANK a then a else b)"

instantiation user_role :: linorder
begin

definition less_eq_user_role :: "user_role \<Rightarrow> user_role \<Rightarrow> bool" where
  "a \<le> b \<longleftrightarrow> RANK a \<le> RANK b"

definition less_user_role :: "user_role \<Rightarrow> user_role \<Rightarrow> bool" where
  "a < b \<longleftrightarrow> RANK a < RANK b"

instance
proof
  fix a b :: user_role
  assume "a \<le> b" "b \<le> a"
  then show "a = b" by (cases a; cases b) (simp_all add: less_eq_user_role_def)
qed (auto simp: less_eq_user_role_def less_user_role_def)

end

lemma role_le_simps [simp]:
  "Student \<le> r" "r \<le> Administrator" "r \<le> Student \<longleftrightarrow> r = Student" "Administrator \<le> r \<longleftrightarrow> r = Administrator"
  "Instructor \<le> r \<longleftrightarrow> r \<noteq> Student" "r \<le> Instructor \<longleftrightarrow> r \<noteq> Administrator"
  by (cases r; simp add: less_eq_user_role_def)+

lemma higher_max: "higher a b = max b a"
  by (simp add: higher_def max_def less_eq_user_role_def)

text \<open>What \<open>users.role\<close> has to be: the higher of the grant, if any, and the provider's role.\<close>

definition effective_role :: "user_role option \<Rightarrow> user_role \<Rightarrow> user_role" where
  "effective_role g p = (case g of None \<Rightarrow> p | Some r \<Rightarrow> max r p)"

lemma effective_role_simps [simp]:
  "effective_role None p = p" "effective_role (Some Administrator) p = Administrator"
  "effective_role (Some Instructor) p = (if p = Administrator then Administrator else Instructor)"
  "effective_role (Some Student) p = p"
  by (cases p; simp add: effective_role_def max_def)+

section \<open>Grants\<close>

datatype role_refusal =
    NoSuchUser | CourseAccount | ActsOnSelf | ProviderAdministrator | NotAdministrator
  | LastAdministrator | GrantedAdministrator | NotGranted

text \<open>A change of the effective role, from and to; the same twice when nothing is written.\<close>

type_synonym role_change = "user_role \<times> user_role"

definition set_roles :: "user_role option \<Rightarrow> user_role \<Rightarrow> user \<Rightarrow> user" where
  "set_roles g r u = u\<lparr>granted_role := g, user_role := r\<rparr>"

definition grantAdministrator :: "uuid \<Rightarrow> db \<Rightarrow> role_refusal + role_change \<times> db" where
  "grantAdministrator targetId d =
     (case find_user targetId d of
        None \<Rightarrow> Inl NoSuchUser
      | Some u \<Rightarrow>
          if isCourseIssuer (oidc_issuer u) then Inl CourseAccount
          else if user_role u = Administrator then Inr ((Administrator, Administrator), d)
          else Inr ((user_role u, Administrator),
                    update_user targetId (set_roles (Some Administrator) Administrator) d))"

text \<open>The rows a demotion or a disable locks: the target and every enabled administrator.\<close>

definition locked_users :: "uuid \<Rightarrow> db \<Rightarrow> user list" where
  "locked_users targetId d =
     sort_key user_id (filter (\<lambda>u. user_id u = targetId \<or> user_role u = Administrator \<and> disabled_at u = None) (users d))"

definition other_admins :: "uuid \<Rightarrow> db \<Rightarrow> user list" where
  "other_admins targetId d =
     filter (\<lambda>u. user_id u \<noteq> targetId \<and> user_role u = Administrator \<and> disabled_at u = None)
       (locked_users targetId d)"

definition revokeAdministrator :: "uuid \<Rightarrow> uuid \<Rightarrow> db \<Rightarrow> role_refusal + role_change \<times> db" where
  "revokeAdministrator actorId targetId d =
     (if actorId = targetId then Inl ActsOnSelf
      else case find (\<lambda>u. user_id u = targetId) (locked_users targetId d) of
        None \<Rightarrow> Inl NoSuchUser
      | Some u \<Rightarrow>
          if granted_role u \<noteq> Some Administrator
          then Inl (if user_role u = Administrator then ProviderAdministrator else NotAdministrator)
          else if other_admins targetId d = [] then Inl LastAdministrator
          else Inr ((user_role u, provider_role u), update_user targetId (set_roles None (provider_role u)) d))"

definition grantInstructor :: "uuid \<Rightarrow> db \<Rightarrow> role_refusal + role_change \<times> db" where
  "grantInstructor targetId d =
     (case find_user targetId d of
        None \<Rightarrow> Inl NoSuchUser
      | Some u \<Rightarrow>
          if isCourseIssuer (oidc_issuer u) then Inl CourseAccount
          else if granted_role u = Some Administrator then Inl GrantedAdministrator
          else if user_role u \<noteq> Student then Inr ((user_role u, user_role u), d)
          else Inr ((user_role u, Instructor),
                    update_user targetId (set_roles (Some Instructor) Instructor) d))"

definition revokeInstructor :: "uuid \<Rightarrow> db \<Rightarrow> role_refusal + role_change \<times> db" where
  "revokeInstructor targetId d =
     (case find_user targetId d of
        None \<Rightarrow> Inl NoSuchUser
      | Some u \<Rightarrow>
          if granted_role u \<noteq> Some Instructor then Inl NotGranted
          else Inr ((user_role u, provider_role u), update_user targetId (set_roles None (provider_role u)) d))"

section \<open>The install administrator\<close>

definition LOCAL_ADMIN_USER_ID :: string where "LOCAL_ADMIN_USER_ID = ''local-admin''"

definition isInstallAdmin :: "uuid \<Rightarrow> db \<Rightarrow> bool" where
  "isInstallAdmin i d =
     (case find_user i d of
        None \<Rightarrow> False
      | Some u \<Rightarrow> oidc_issuer u = DEX_ACCOUNT_ISSUER \<and> Some (oidc_subject u) = dexLocalSubject LOCAL_ADMIN_USER_ID)"

type_synonym metadata_fields = "(string \<times> json) list"

definition refuseInstallAdminChange ::
  "uuid \<Rightarrow> uuid \<Rightarrow> string \<Rightarrow> metadata_fields \<Rightarrow> auth_db \<Rightarrow> bool \<times> auth_db" where
  "refuseInstallAdminChange actorId targetId act meta a =
     (if actorId = targetId \<or> \<not> isInstallAdmin targetId (core a) then (False, a)
      else (True, auth_audit (audit (actor_of actorId) targetId act ResRefused
              (Some ((''reason'', JStr ''install_administrator'') # meta))) a))"

section \<open>The role routes\<close>

datatype role_action = Promote | Demote | MakeInstructor | RemoveInstructor

datatype role_answer = RoleChanged role_change | RoleRefused role_refusal | InstallAdminRefused

fun apply_role :: "role_action \<Rightarrow> uuid \<Rightarrow> uuid \<Rightarrow> db \<Rightarrow> role_refusal + role_change \<times> db" where
  "apply_role Promote actorId targetId d = grantAdministrator targetId d"
| "apply_role Demote actorId targetId d = revokeAdministrator actorId targetId d"
| "apply_role MakeInstructor actorId targetId d = grantInstructor targetId d"
| "apply_role RemoveInstructor actorId targetId d = revokeInstructor targetId d"

text \<open>The transaction of a role route.\<close>

definition role_transaction ::
  "role_action \<Rightarrow> uuid \<Rightarrow> uuid \<Rightarrow> metadata_fields \<Rightarrow> auth_db \<Rightarrow> role_answer \<times> auth_db" where
  "role_transaction act actorId targetId meta a =
     (case apply_role act actorId targetId (core a) of
        Inl r \<Rightarrow> (RoleRefused r, a)
      | Inr ((r, s), d) \<Rightarrow>
          (RoleChanged (r, s),
           (if r \<noteq> s then
              auth_audit (audit (actor_of actorId) targetId ''user.role_changed'' ResOk
                (Some ([(''from'', JStr (role_text r)), (''to'', JStr (role_text s)), (''source'', JStr ''admin'')] @ meta)))
            else (\<lambda>a. a)) (a\<lparr>core := d\<rparr>)))"

definition roleRoute ::
  "role_action \<Rightarrow> uuid \<Rightarrow> uuid \<Rightarrow> metadata_fields \<Rightarrow> auth_db \<Rightarrow> role_answer \<times> auth_db" where
  "roleRoute act actorId targetId meta a =
     (case refuseInstallAdminChange actorId targetId ''user.role_changed'' meta a of
        (True, a) \<Rightarrow> (InstallAdminRefused, a)
      | (False, a) \<Rightarrow> role_transaction act actorId targetId meta a)"

section \<open>Disable and enable\<close>

datatype disable_refusal = DisableSelf | DisableUnknown | DisableLastAdministrator

text \<open>
  The transaction of a disable. \<open>before\<close> is what an earlier statement read of \<open>disabled_at\<close>; when it
  was set, the column is left alone. \<open>also\<close> runs last and undoes everything when it fails.
\<close>

definition disable_transaction ::
  "uuid \<Rightarrow> uuid \<Rightarrow> millis option \<Rightarrow> millis \<Rightarrow> metadata_fields \<Rightarrow> (auth_db \<Rightarrow> auth_db option) \<Rightarrow>
    auth_db \<Rightarrow> (disable_refusal + auth_db) option" where
  "disable_transaction actorId targetId before t meta also a =
     (let d = core a;
          target = find (\<lambda>u. user_id u = targetId) (locked_users targetId d)
      in if (case target of None \<Rightarrow> False | Some u \<Rightarrow> user_role u = Administrator \<and> disabled_at u = None) \<and>
            other_admins targetId d = []
         then Some (Inl DisableLastAdministrator)
         else
           let d = update_user targetId (\<lambda>u. if before \<noteq> None then u else u\<lparr>disabled_at := Some t\<rparr>) d;
               d = update_workspaces (\<lambda>w. owner_user_id w = targetId)
                     (\<lambda>w. w\<lparr>ws_desired := WantStopped, updated_at := t\<rparr>) d;
               a = endSessions targetId t (a\<lparr>core := d\<rparr>);
               a = revokeAccountEmailTokens targetId t a;
               a = auth_audit (audit (actor_of actorId) targetId ''user.disabled'' ResOk (Some meta)) a
           in map_option Inr (also a))"

definition disableUser ::
  "uuid \<Rightarrow> uuid \<Rightarrow> millis \<Rightarrow> metadata_fields \<Rightarrow> (auth_db \<Rightarrow> auth_db option) \<Rightarrow>
    auth_db \<Rightarrow> (disable_refusal + auth_db) option" where
  "disableUser actorId targetId t meta also a =
     (if targetId = actorId then Some (Inl DisableSelf)
      else case find_user targetId (core a) of
        None \<Rightarrow> Some (Inl DisableUnknown)
      | Some u \<Rightarrow> disable_transaction actorId targetId (disabled_at u) t meta also a)"

definition enable_user :: "uuid \<Rightarrow> uuid \<Rightarrow> millis \<Rightarrow> metadata_fields \<Rightarrow> auth_db \<Rightarrow> auth_db option" where
  "enable_user actorId targetId t meta a =
     (case find_user targetId (core a) of
        None \<Rightarrow> None
      | Some u \<Rightarrow>
          Some (auth_audit (audit (actor_of actorId) targetId ''user.enabled'' ResOk (Some meta))
            (revokeAccountEmailTokens targetId t
              (a\<lparr>core := update_user targetId (\<lambda>u. u\<lparr>disabled_at := None\<rparr>) (core a)\<rparr>))))"

end
