(* ===== verification/Sessions.thy ===== *)
theory Sessions
  imports Roles
begin

text \<open>
  Sessions (\<open>packages/auth/src/sessions.ts\<close>): creating one and resolving one to its user. What the
  session owes the second factor is decided here too (\<open>second-factor.ts\<close>: who needs one).
\<close>

section \<open>Creating a session\<close>

record session_origin =
  origin_method :: session_method
  origin_course_user :: "uuid option"

definition createSession :: "string \<Rightarrow> uuid \<Rightarrow> millis \<Rightarrow> session_origin \<Rightarrow> millis \<Rightarrow> auth_db \<Rightarrow> auth_db" where
  "createSession new_id userId ttlSeconds origin t a =
     (let a = delete_sessions (\<lambda>s. sess_expires_at s < t) a
      in a\<lparr>sessions := sessions a @
            [\<lparr>sess_id = new_id, sess_user_id = userId, sess_created_at = t, sess_expires_at = t + ttlSeconds * 1000,
              sess_method = origin_method origin, sess_course_user_id = origin_course_user origin,
              second_factor_at = None\<rparr>]\<rparr>)"

definition deleteSession :: "string \<Rightarrow> auth_db \<Rightarrow> auth_db" where
  "deleteSession i a = delete_sessions (\<lambda>s. sess_id s = i) a"

definition sessionOrigin :: "string \<Rightarrow> auth_db \<Rightarrow> session_origin option" where
  "sessionOrigin i a =
     map_option (\<lambda>s. \<lparr>origin_method = sess_method s, origin_course_user = sess_course_user_id s\<rparr>)
       (find_row sess_id i (sessions a))"

section \<open>Who needs a second factor\<close>

definition accountNeedsSecondFactor :: "user \<Rightarrow> bool" where
  "accountNeedsSecondFactor u \<longleftrightarrow> \<not> isCourseIssuer (oidc_issuer u) \<and> dexLocalUserId (oidc_subject u) \<noteq> None"

definition secondFactorApplies :: "user \<Rightarrow> session_method \<Rightarrow> bool" where
  "secondFactorApplies u m \<longleftrightarrow> m \<noteq> Lti \<and> accountNeedsSecondFactor u"

section \<open>Resolving a session\<close>

definition ELEVATED_SESSION_MAX_SECONDS :: int where
  "ELEVATED_SESSION_MAX_SECONDS = 12 * 3600"

definition roleFromProvider :: "user \<Rightarrow> session_method \<Rightarrow> bool" where
  "roleFromProvider u m \<longleftrightarrow>
     user_role u \<noteq> Student \<and> granted_role u \<noteq> Some (user_role u) \<and> m \<noteq> Lti \<and>
     dexLocalUserId (oidc_subject u) = None"

datatype owed_factor = EnrolFirst | VerifyFirst

record session_user = auth_user +
  su_email :: "string option"
  su_display_name :: string
  mustChangePassword :: bool
  mustAcceptUse :: bool
  su_second_factor :: "owed_factor option"
  su_second_factor_applies :: bool

definition is_linked_course :: "uuid \<Rightarrow> auth_db \<Rightarrow> bool" where
  "is_linked_course i a \<longleftrightarrow> i \<in> link_course_user_id ` set (account_links a)"

definition has_link :: "uuid \<Rightarrow> uuid \<Rightarrow> auth_db \<Rightarrow> bool" where
  "has_link course i a \<longleftrightarrow>
     (course, i) \<in> (\<lambda>l. (link_course_user_id l, link_user_id l)) ` set (account_links a)"

definition has_second_factor :: "uuid \<Rightarrow> auth_db \<Rightarrow> bool" where
  "has_second_factor i a \<longleftrightarrow> i \<in> factor_user_id ` set (second_factors a)"

text \<open>The rows the query's \<open>WHERE\<close> lets through.\<close>

definition session_visible :: "session \<Rightarrow> user \<Rightarrow> auth_db \<Rightarrow> bool" where
  "session_visible s u a \<longleftrightarrow>
     (sess_method s \<noteq> Lti \<or> user_role u \<noteq> Administrator) \<and>
     \<not> is_linked_course (user_id u) a \<and>
     (sess_method s \<noteq> Lti \<or> sess_course_user_id s = None \<or>
      has_link (the (sess_course_user_id s)) (sess_user_id s) a)"

definition session_row :: "string \<Rightarrow> auth_db \<Rightarrow> (session \<times> user) option" where
  "session_row i a =
     (case find_row sess_id i (sessions a) of
        None \<Rightarrow> None
      | Some s \<Rightarrow>
          (case find_user (sess_user_id s) (core a) of
             None \<Rightarrow> None
           | Some u \<Rightarrow> if session_visible s u a then Some (s, u) else None))"

definition session_ended :: "session \<Rightarrow> user \<Rightarrow> millis \<Rightarrow> bool" where
  "session_ended s u t \<longleftrightarrow>
     sess_expires_at s \<le> t \<or>
     roleFromProvider u (sess_method s) \<and> ELEVATED_SESSION_MAX_SECONDS * 1000 \<le> t - sess_created_at s"

definition resolved_user :: "session \<Rightarrow> user \<Rightarrow> auth_db \<Rightarrow> session_user" where
  "resolved_user s u a =
     (let applies = secondFactorApplies u (sess_method s);
          version = nullish (map_option set_acceptable_use_version (db_settings (core a))) 1
      in \<lparr>auth_id = user_id u, auth_role = user_role u, su_email = email u, su_display_name = display_name u,
          mustChangePassword = must_change_password u,
          mustAcceptUse = (accepted_use_version u \<noteq> Some version),
          su_second_factor =
            (if second_factor_at s \<noteq> None \<or> \<not> applies then None
             else if has_second_factor (user_id u) a then Some VerifyFirst else Some EnrolFirst),
          su_second_factor_applies = applies\<rparr>)"

definition loadSessionById :: "string \<Rightarrow> millis \<Rightarrow> auth_db \<Rightarrow> session_user option \<times> auth_db" where
  "loadSessionById i t a =
     (case session_row i a of
        None \<Rightarrow> (None, a)
      | Some (s, u) \<Rightarrow>
          if session_ended s u t then (None, deleteSession i a)
          else if disabled_at u \<noteq> None then (None, a)
          else (Some (resolved_user s u a), a))"

definition loadSession :: "(string \<Rightarrow> string) \<Rightarrow> string \<Rightarrow> millis \<Rightarrow> auth_db \<Rightarrow> session_user option \<times> auth_db" where
  "loadSession hash token t a = loadSessionById (hash token) t a"

lemma createSession_frame [simp]:
  "core (createSession n i ttl m t a) = core a" "second_factors (createSession n i ttl m t a) = second_factors a"
  "recovery_codes (createSession n i ttl m t a) = recovery_codes a"
  "account_links (createSession n i ttl m t a) = account_links a"
  "invitations (createSession n i ttl m t a) = invitations a"
  "memberships (createSession n i ttl m t a) = memberships a"
  "email_tokens (createSession n i ttl m t a) = email_tokens a"
  by (simp_all add: createSession_def Let_def)

lemma loadSession_Some:
  "fst (loadSessionById i t a) = Some su \<longleftrightarrow>
    (\<exists>s u. session_row i a = Some (s, u) \<and> \<not> session_ended s u t \<and> disabled_at u = None \<and> su = resolved_user s u a)"
  by (auto simp: loadSessionById_def split: option.splits prod.splits)

lemma resolved_simps [simp]:
  "auth_id (resolved_user s u a) = user_id u" "auth_role (resolved_user s u a) = user_role u"
  "su_second_factor_applies (resolved_user s u a) = secondFactorApplies u (sess_method s)"
  "mustChangePassword (resolved_user s u a) = must_change_password u"
  by (simp_all add: resolved_user_def Let_def)

end
