(* ===== verification/Sign_In.thy ===== *)
theory Sign_In
  imports Sessions
begin

text \<open>
  Signing in. The account of an identity (\<open>upsertUser\<close>, \<open>packages/auth/src/sessions.ts\<close>), the
  invitation a first sign-in needs (\<open>apps/api/src/sessions/invitations.ts\<close>), the shared tail of both
  ways in (\<open>apps/api/src/sessions/start-session.ts\<close>) and the launch from a course
  (\<open>apps/api/src/routes/lti.ts\<close>, \<open>packages/auth/src/links.ts\<close>). The identity is what the provider's
  token or the launch said; the role comes with it.
\<close>

record identity =
  id_issuer :: string
  id_subject :: string
  id_email :: "string option"
  id_display_name :: string
  id_preferred_username :: "string option"

definition find_identity :: "string \<Rightarrow> string \<Rightarrow> db \<Rightarrow> user option" where
  "find_identity issuer subject d =
     find_row (\<lambda>u. (oidc_issuer u, oidc_subject u)) (issuer, subject) (users d)"

section \<open>The role a sign-in gives\<close>

text \<open>The groups claim of an ID token: absent or of another type, one group, or a list of values.\<close>

datatype groups_claim = NoGroups | OneGroup string | GroupList "string option list"

record role_options =
  groups_claim_name :: string
  student_group :: string
  admin_group :: string
  instructor_group :: string
  default_student :: bool

definition claimed_groups :: "role_options \<Rightarrow> (string \<Rightarrow> groups_claim) \<Rightarrow> string list" where
  "claimed_groups opts claims =
     (if groups_claim_name opts = [] then []
      else case claims (groups_claim_name opts) of
        NoGroups \<Rightarrow> [] | OneGroup g \<Rightarrow> [g] | GroupList gs \<Rightarrow> List.map_filter (\<lambda>g. g) gs)"

definition mapRole :: "role_options \<Rightarrow> (string \<Rightarrow> groups_claim) \<Rightarrow> user_role option" where
  "mapRole opts claims =
     (let groups = claimed_groups opts claims
      in if admin_group opts \<in> set groups then Some Administrator
         else if instructor_group opts \<in> set groups then Some Instructor
         else if student_group opts \<in> set groups then Some Student
         else if default_student opts then Some Student else None)"

definition LIS :: string where "LIS = ''http://purl.imsglobal.org/vocab/lis/v2/''"

definition STAFF :: "string list" where
  "STAFF = [''Instructor'', ''TeachingAssistant'', ''ContentDeveloper'', ''Administrator'']"

definition STAFF_PRINCIPALS :: "string list" where "STAFF_PRINCIPALS = [''Instructor'', ''ContentDeveloper'']"

definition SHORT_FORMS :: "string list" where
  "SHORT_FORMS = [''Instructor'', ''TeachingAssistant'', ''ContentDeveloper'']"

definition isInstructorRole :: "string \<Rightarrow> bool" where
  "isInstructorRole role \<longleftrightarrow>
     role \<in> set SHORT_FORMS \<or>
     startsWith role LIS \<and>
     (let rest = drop (length LIS) role
      in if startsWith rest ''membership#'' then drop (length ''membership#'') rest \<in> set STAFF
         else if startsWith rest ''membership/''
         then hd (split CHR ''#'' (drop (length ''membership/'') rest)) \<in> set STAFF_PRINCIPALS
         else rest = ''institution/person#Administrator'' \<or> rest = ''system/person#Administrator'')"

text \<open>The roles claim: \<open>None\<close> when it is not an array; an entry that is not a string is \<open>None\<close>.\<close>

definition mapLtiRoles :: "string option list option \<Rightarrow> user_role" where
  "mapLtiRoles roles =
     (case roles of
        None \<Rightarrow> Student
      | Some rs \<Rightarrow> if \<exists>r\<in>set rs. r \<noteq> None \<and> isInstructorRole (the r) then Instructor else Student)"

section \<open>The user row\<close>

definition new_user :: "uuid \<Rightarrow> identity \<Rightarrow> user_role \<Rightarrow> user_role \<Rightarrow> user_role option \<Rightarrow> millis option \<Rightarrow> user" where
  "new_user new_id idn role prov granted login =
     \<lparr>user_id = new_id, oidc_issuer = id_issuer idn, oidc_subject = id_subject idn, email = id_email idn,
      display_name = id_display_name idn, preferred_username = id_preferred_username idn, user_role = role,
      provider_role = prov, granted_role = granted, disabled_at = None, must_change_password = False,
      accepted_use_version = None, last_login_at = login, user_shutdown_grace_seconds = None,
      editor_timezone = None\<rparr>"

text \<open>The \<open>CASE\<close> of the conflict branch.\<close>

definition upserted_role :: "user_role option \<Rightarrow> user_role \<Rightarrow> user_role" where
  "upserted_role granted prov =
     (if granted = Some Administrator \<or> prov = Administrator then Administrator
      else if granted = Some Instructor \<or> prov = Instructor then Instructor
      else Student)"

definition refresh_user :: "identity \<Rightarrow> user_role \<Rightarrow> millis \<Rightarrow> user \<Rightarrow> user" where
  "refresh_user idn role t u =
     u\<lparr>email := id_email idn,
       display_name := (if Some (id_display_name idn) = preferred_username u then display_name u
                        else id_display_name idn),
       preferred_username := coalesce (id_preferred_username idn) (preferred_username u),
       provider_role := role, user_role := upserted_role (granted_role u) role, last_login_at := Some t\<rparr>"

text \<open>The insert; the id of the row it made or refreshed.\<close>

definition upsert_user :: "uuid \<Rightarrow> identity \<Rightarrow> user_role \<Rightarrow> millis \<Rightarrow> db \<Rightarrow> uuid \<times> db" where
  "upsert_user new_id idn role t d =
     (case find_identity (id_issuer idn) (id_subject idn) d of
        None \<Rightarrow> (new_id, d\<lparr>users := users d @ [new_user new_id idn role role None (Some t)]\<rparr>)
      | Some u \<Rightarrow> (user_id u, update_user (user_id u) (refresh_user idn role t) d))"

section \<open>Invitations\<close>

definition waiting :: "invitation \<Rightarrow> bool" where
  "waiting v \<longleftrightarrow> inv_claimed_at v = None \<and> inv_revoked_at v = None"

definition non_empty :: "string option \<Rightarrow> string option" where
  "non_empty s = (case s of None \<Rightarrow> None | Some x \<Rightarrow> if x = [] then None else Some x)"

definition claim_text :: "string option \<Rightarrow> string option" where
  "claim_text s = non_empty (map_option (\<lambda>x. toLowerCase (trim x)) s)"

definition matches_invitation :: "identity \<Rightarrow> bool \<Rightarrow> invitation \<Rightarrow> bool" where
  "matches_invitation idn emailVerified v =
     (let connector = dexConnectorId (id_subject idn);
          username = claim_text (id_preferred_username idn);
          verified = (if emailVerified then claim_text (id_email idn) else None)
      in if connector = Some ''entra''
         then username \<noteq> None \<and> coalesce (inv_username v) (Some (inv_email v)) = username
         else if connector = Some ''ldap''
         then username \<noteq> None \<and> inv_username v = username \<or> verified \<noteq> None \<and> Some (inv_email v) = verified
         else verified \<noteq> None \<and> Some (inv_email v) = verified)"

definition claim_candidate :: "identity \<Rightarrow> bool \<Rightarrow> auth_db \<Rightarrow> uuid option" where
  "claim_candidate idn emailVerified a =
     map_option inv_id (find (\<lambda>_. True)
       (sort_key inv_created_at (filter (\<lambda>v. waiting v \<and> matches_invitation idn emailVerified v) (invitations a))))"

text \<open>
  The rest of the transaction, which looks again under the row's lock. \<open>Inl ()\<close> is the unique
  violation of an identity that got its account meanwhile; it throws and undoes everything.
\<close>

definition claim_row ::
  "uuid \<Rightarrow> uuid \<Rightarrow> identity \<Rightarrow> user_role \<Rightarrow> millis \<Rightarrow> auth_db \<Rightarrow> unit + uuid option \<times> auth_db" where
  "claim_row candidate new_id idn providerRole t a =
     (case find (\<lambda>v. inv_id v = candidate \<and> waiting v) (invitations a) of
        None \<Rightarrow> Inr (None, a)
      | Some v \<Rightarrow>
          if find_identity (id_issuer idn) (id_subject idn) (core a) \<noteq> None then Inl ()
          else
            let invited = inv_role v;
                u = new_user new_id idn (higher invited providerRole) providerRole
                      (if invited = Student then None else Some invited) None;
                a = a\<lparr>core := (core a)\<lparr>users := users (core a) @ [u]\<rparr>,
                      invitations := upd_where (\<lambda>v. inv_id v = candidate)
                        (\<lambda>v. v\<lparr>inv_claimed_at := Some t, inv_claimed_by := Some new_id\<rparr>) (invitations a)\<rparr>
            in Inr (Some new_id,
                 auth_audit (audit (actor_of new_id) new_id ''auth.invitation_claimed'' ResOk
                   (Some [(''invitationId'', JStr (inv_id v)), (''role'', JStr (role_text invited))])) a))"

definition claimInvitation ::
  "uuid \<Rightarrow> identity \<Rightarrow> user_role \<Rightarrow> bool \<Rightarrow> millis \<Rightarrow> auth_db \<Rightarrow> unit + uuid option \<times> auth_db" where
  "claimInvitation new_id idn providerRole emailVerified t a =
     (case claim_candidate idn emailVerified a of
        None \<Rightarrow> Inr (None, a)
      | Some c \<Rightarrow> claim_row c new_id idn providerRole t a)"

definition createInvitation ::
  "uuid \<Rightarrow> uuid \<Rightarrow> string \<Rightarrow> string option \<Rightarrow> string \<Rightarrow> user_role \<Rightarrow> millis \<Rightarrow> metadata_fields \<Rightarrow> auth_db \<Rightarrow> auth_db option" where
  "createInvitation new_id actorId mail username name role t meta a =
     (if \<exists>v\<in>set (invitations a). waiting v \<and> inv_email v = mail then None
      else Some (auth_audit (audit (actor_of actorId) (''invitation:'' @ new_id) ''admin.invitation_created'' ResOk
             (Some ((''role'', JStr (role_text role)) # meta)))
           (a\<lparr>invitations := invitations a @
              [\<lparr>inv_id = new_id, inv_email = mail, inv_username = username, inv_display_name = name, inv_role = role,
                inv_created_at = t, inv_claimed_at = None, inv_claimed_by = None, inv_revoked_at = None\<rparr>]\<rparr>)))"

definition revoke_invitation :: "uuid \<Rightarrow> uuid \<Rightarrow> millis \<Rightarrow> metadata_fields \<Rightarrow> auth_db \<Rightarrow> auth_db option" where
  "revoke_invitation actorId i t meta a =
     (if \<exists>v\<in>set (invitations a). inv_id v = i \<and> waiting v
      then Some (auth_audit (audit (actor_of actorId) (''invitation:'' @ i) ''admin.invitation_revoked'' ResOk (Some meta))
             (a\<lparr>invitations := upd_where (\<lambda>v. inv_id v = i \<and> waiting v) (\<lambda>v. v\<lparr>inv_revoked_at := Some t\<rparr>)
                (invitations a)\<rparr>))
      else None)"

section \<open>The shared tail\<close>

datatype sign_in_result = SignedIn uuid | NotInvited | SignInDisabled uuid

record sign_in =
  si_identity :: identity
  si_role :: user_role
  si_method :: session_method
  si_email_verified :: bool
  si_metadata :: metadata_fields
  si_role_metadata :: metadata_fields

text \<open>Whether the identity may sign in without an invitation.\<close>

definition known_identity :: "identity \<Rightarrow> db \<Rightarrow> bool" where
  "known_identity idn d \<longleftrightarrow>
     find_identity (id_issuer idn) (id_subject idn) d \<noteq> None \<or> dexLocalUserId (id_subject idn) \<noteq> None"

definition admitted :: "uuid \<Rightarrow> sign_in \<Rightarrow> millis \<Rightarrow> auth_db \<Rightarrow> unit + bool \<times> auth_db" where
  "admitted new_id si t a =
     (if known_identity (si_identity si) (core a) then Inr (True, a)
      else case claimInvitation new_id (si_identity si) (si_role si) (si_email_verified si) t a of
        Inl x \<Rightarrow> Inl x
      | Inr (claimed, a) \<Rightarrow> Inr (claimed \<noteq> None, a))"

definition not_invited_audit :: "sign_in \<Rightarrow> auth_db \<Rightarrow> auth_db" where
  "not_invited_audit si =
     auth_audit (audit (''subject:'' @ id_subject (si_identity si)) (id_subject (si_identity si)) ''auth.login'' ResRefused
       (Some (si_metadata si @ [(''reason'', JStr ''not_invited'')])))"

definition role_changed_audit :: "uuid \<Rightarrow> user_role option \<Rightarrow> sign_in \<Rightarrow> auth_db \<Rightarrow> auth_db" where
  "role_changed_audit i previous si a =
     (case (previous, find_user i (core a)) of
        (Some r, Some u) \<Rightarrow>
          if r \<noteq> user_role u then
            auth_audit (audit ''identity-provider'' i ''user.role_changed'' ResOk
              (Some ([(''from'', JStr (role_text r)), (''to'', JStr (role_text (user_role u)))] @ si_role_metadata si))) a
          else a
      | _ \<Rightarrow> a)"

definition login_audit :: "uuid \<Rightarrow> audit_result \<Rightarrow> metadata_fields \<Rightarrow> auth_db \<Rightarrow> auth_db" where
  "login_audit i res meta = auth_audit (audit (actor_of i) i ''auth.login'' res (Some meta))"

text \<open>The previous role, the upsert and its audit row; then the row decides.\<close>

definition upsert_step :: "uuid \<Rightarrow> sign_in \<Rightarrow> millis \<Rightarrow> auth_db \<Rightarrow> uuid \<times> bool \<times> auth_db" where
  "upsert_step new_id si t a =
     (let idn = si_identity si;
          previous = map_option user_role (find_identity (id_issuer idn) (id_subject idn) (core a));
          (i, d) = upsert_user new_id idn (si_role si) t (core a);
          a = role_changed_audit i previous si (a\<lparr>core := d\<rparr>)
      in (i, (case find_user i d of None \<Rightarrow> False | Some u \<Rightarrow> disabled_at u \<noteq> None), a))"

definition completeSignIn ::
  "uuid \<Rightarrow> string \<Rightarrow> millis \<Rightarrow> sign_in \<Rightarrow> millis \<Rightarrow> auth_db \<Rightarrow> unit + sign_in_result \<times> auth_db" where
  "completeSignIn new_id new_session ttl si t a =
     (case (if si_method si = Oidc then admitted new_id si t a else Inr (True, a)) of
        Inl x \<Rightarrow> Inl x
      | Inr (False, a) \<Rightarrow> Inr (NotInvited, not_invited_audit si a)
      | Inr (True, a) \<Rightarrow>
          (case upsert_step new_id si t a of
             (i, True, a) \<Rightarrow> Inr (SignInDisabled i, login_audit i ResRefused (si_metadata si) a)
           | (i, False, a) \<Rightarrow>
               (let a = createSession new_session i ttl
                          \<lparr>origin_method = si_method si, origin_course_user = None\<rparr> t a
                in Inr (SignedIn i, login_audit i ResOk (si_metadata si) a))))"

section \<open>A launch from a course\<close>

definition resolveIdentity :: "string \<Rightarrow> string \<Rightarrow> auth_db \<Rightarrow> (uuid \<times> uuid option) option" where
  "resolveIdentity issuer subject a =
     (case find_identity issuer subject (core a) of
        None \<Rightarrow> None
      | Some u \<Rightarrow>
          (case find_row link_course_user_id (user_id u) (account_links a) of
             None \<Rightarrow> Some (user_id u, None)
           | Some l \<Rightarrow> Some (link_user_id l, Some (user_id u))))"

text \<open>The course is the id of its row in \<open>lti_contexts\<close>; a launch may come without one.\<close>

definition recordMembership :: "uuid option \<Rightarrow> user_role \<Rightarrow> uuid \<Rightarrow> millis \<Rightarrow> auth_db \<Rightarrow> auth_db" where
  "recordMembership course role i t a =
     (case course of
        None \<Rightarrow> a
      | Some c \<Rightarrow>
          let hit = (\<lambda>m. mem_context_id m = c \<and> mem_user_id m = i)
          in a\<lparr>memberships :=
               (if \<exists>m\<in>set (memberships a). hit m
                then upd_where hit (\<lambda>m. m\<lparr>mem_role := role, mem_last_launch_at := t\<rparr>) (memberships a)
                else memberships a @
                  [\<lparr>mem_context_id = c, mem_user_id = i, mem_role = role, mem_last_launch_at = t\<rparr>])\<rparr>)"

datatype launch_result = LaunchedAs uuid | LaunchRefused

text \<open>A linked course identity signs in to the account it is linked to, never an administrator's.\<close>

definition linked_checked ::
  "uuid option \<Rightarrow> user_role \<Rightarrow> uuid \<Rightarrow> metadata_fields \<Rightarrow> metadata_fields \<Rightarrow> millis \<Rightarrow> auth_db \<Rightarrow> bool \<times> auth_db" where
  "linked_checked course role i base request t a =
     (case find_user i (core a) of
        None \<Rightarrow> (False, a)
      | Some u \<Rightarrow>
          if disabled_at u \<noteq> None
          then (False, login_audit i ResRefused
                  (base @ [(''reason'', JStr ''disabled''), (''linked'', JBool True)] @ request) a)
          else
            let a = recordMembership course role i t a
            in if user_role u = Administrator
               then (False, login_audit i ResRefused (base @ [(''reason'', JStr ''administrator'')] @ request) a)
               else (True, a))"

definition linkedLaunch ::
  "string \<Rightarrow> millis \<Rightarrow> uuid option \<Rightarrow> user_role \<Rightarrow> uuid \<Rightarrow> uuid \<Rightarrow> metadata_fields \<Rightarrow> metadata_fields \<Rightarrow> millis \<Rightarrow>
    auth_db \<Rightarrow> launch_result \<times> auth_db" where
  "linkedLaunch new_session ttl course role i courseUserId base request t a =
     (case linked_checked course role i base request t a of
        (False, a) \<Rightarrow> (LaunchRefused, a)
      | (True, a) \<Rightarrow>
          (let a = createSession new_session i ttl \<lparr>origin_method = Lti, origin_course_user = Some courseUserId\<rparr> t a
           in (LaunchedAs i,
               login_audit i ResOk
                 (base @ [(''role'', JStr (role_text role)), (''linked'', JBool True)] @ request) a)))"

definition course_launch ::
  "uuid \<Rightarrow> string \<Rightarrow> millis \<Rightarrow> uuid option \<Rightarrow> metadata_fields \<Rightarrow> metadata_fields \<Rightarrow> sign_in \<Rightarrow> millis \<Rightarrow>
    auth_db \<Rightarrow> unit + launch_result \<times> auth_db" where
  "course_launch new_id new_session ttl course base request si t a =
     (let idn = si_identity si
      in case resolveIdentity (id_issuer idn) (id_subject idn) a of
        Some (i, Some courseUserId) \<Rightarrow>
          Inr (linkedLaunch new_session ttl course (si_role si) i courseUserId base request t a)
      | _ \<Rightarrow>
          (case completeSignIn new_id new_session ttl si t a of
             Inl x \<Rightarrow> Inl x
           | Inr (SignedIn i, a) \<Rightarrow> Inr (LaunchedAs i, recordMembership course (si_role si) i t a)
           | Inr (_, a) \<Rightarrow> Inr (LaunchRefused, a)))"

end
