(* ===== verification/Second_Factor.thy ===== *)
theory Second_Factor
  imports Sessions
begin

text \<open>
  The second factor of accounts with a Dex password (\<open>packages/auth/src/second-factor.ts\<close>): codes of an
  authenticator app, single-use recovery codes, enrolling and resetting. Sealing a secret and hashing a
  code are \<open>node:crypto\<close>'s; what the code relies on is that opening what was sealed for an account
  gives the secret back, so the sealed secret is opened by the argument \<open>unseal\<close>.
\<close>

section \<open>Recovery codes\<close>

definition RECOVERY_CODE_COUNT :: nat where "RECOVERY_CODE_COUNT = 10"

definition RECOVERY_ALPHABET :: string where "RECOVERY_ALPHABET = ''ABCDEFGHJKMNPQRSTUVWXYZ23456789''"

definition normalRecoveryCode :: "string \<Rightarrow> string" where
  "normalRecoveryCode given = map upper_char (filter (\<lambda>c. \<not> is_space c \<and> c \<noteq> CHR ''-'') given)"

definition isRecoveryCodeShape :: "string \<Rightarrow> bool" where
  "isRecoveryCodeShape given \<longleftrightarrow>
     length (normalRecoveryCode given) = 16 \<and> list_all (\<lambda>c. c \<in> set RECOVERY_ALPHABET) (normalRecoveryCode given)"

text \<open>Sixteen letters drawn from the alphabet, in groups of four; the draws are an argument.\<close>

definition recoveryCode :: "nat list \<Rightarrow> string" where
  "recoveryCode draws =
     (let raw = map (\<lambda>n. RECOVERY_ALPHABET ! n) draws
      in join ''-'' (map (\<lambda>i. take 4 (drop (4 * i) raw)) [0..<length raw div 4]))"

text \<open>What was accepted, if anything.\<close>

datatype second_factor_check = Passed string | Failed

definition useRecoveryCode ::
  "(string \<Rightarrow> string) \<Rightarrow> uuid \<Rightarrow> string \<Rightarrow> millis \<Rightarrow> auth_db \<Rightarrow> second_factor_check \<times> auth_db" where
  "useRecoveryCode hash userId given t a =
     (let hit = (\<lambda>r. rec_user_id r = userId \<and> code_hash r = hash (normalRecoveryCode given) \<and> rec_used_at r = None)
      in (if \<exists>r\<in>set (recovery_codes a). hit r then Passed ''recovery_code'' else Failed,
          a\<lparr>recovery_codes := upd_where hit (\<lambda>r. r\<lparr>rec_used_at := Some t\<rparr>) (recovery_codes a)\<rparr>))"

definition writeRecoveryCodes :: "uuid \<Rightarrow> string list \<Rightarrow> auth_db \<Rightarrow> auth_db" where
  "writeRecoveryCodes userId hashes a =
     a\<lparr>recovery_codes := filter (\<lambda>r. rec_user_id r \<noteq> userId) (recovery_codes a) @
        map (\<lambda>h. \<lparr>rec_user_id = userId, code_hash = h, rec_used_at = None\<rparr>) hashes\<rparr>"

section \<open>Enrolling\<close>

record new_factor =
  nf_user_id :: uuid
  nf_kind :: factor_kind
  nf_secret :: string
  nf_label :: string
  nf_last_step :: int
  nf_session_id :: string
  nf_actor :: string
  nf_metadata :: metadata_fields

definition kind_text :: "factor_kind \<Rightarrow> string" where
  "kind_text k = (case k of TotpFactor \<Rightarrow> ''totp'' | PasskeyFactor \<Rightarrow> ''webauthn'')"

definition mark_session :: "string \<Rightarrow> millis option \<Rightarrow> auth_db \<Rightarrow> auth_db" where
  "mark_session i stamp a =
     a\<lparr>sessions := upd_where (\<lambda>s. sess_id s = i) (\<lambda>s. s\<lparr>second_factor_at := stamp\<rparr>) (sessions a)\<rparr>"

definition storeFactor :: "uuid \<Rightarrow> string list \<Rightarrow> new_factor \<Rightarrow> millis \<Rightarrow> auth_db \<Rightarrow> auth_db" where
  "storeFactor new_id hashes nf t a =
     (let a = a\<lparr>second_factors := second_factors a @
                [\<lparr>factor_id = new_id, factor_user_id = nf_user_id nf, factor_kind = nf_kind nf,
                  factor_secret = nf_secret nf, factor_label = nf_label nf, last_step = Some (nf_last_step nf),
                  last_used_at = Some t\<rparr>]\<rparr>;
          a = writeRecoveryCodes (nf_user_id nf) hashes a;
          a = mark_session (nf_session_id nf) (Some t) a
      in auth_audit (audit (nf_actor nf) (nf_user_id nf) ''auth.second_factor_enrolled'' ResOk
           (Some (nf_metadata nf @ [(''kind'', JStr (kind_text (nf_kind nf))), (''factorId'', JStr new_id)]))) a)"

definition replaceRecoveryCodes ::
  "uuid \<Rightarrow> string list \<Rightarrow> string \<Rightarrow> metadata_fields \<Rightarrow> auth_db \<Rightarrow> auth_db option" where
  "replaceRecoveryCodes userId hashes who meta a =
     (if \<not> has_second_factor userId a then None
      else Some (auth_audit (audit who userId ''auth.second_factor_recovery_codes_replaced'' ResOk (Some meta))
             (writeRecoveryCodes userId hashes a)))"

definition markSecondFactorPassed :: "string \<Rightarrow> millis \<Rightarrow> auth_db \<Rightarrow> auth_db" where
  "markSecondFactorPassed i t = mark_session i (Some t)"

definition resetSecondFactor :: "uuid \<Rightarrow> string \<Rightarrow> auth_db \<Rightarrow> auth_db" where
  "resetSecondFactor userId who a =
     auth_audit (audit who userId ''auth.second_factor_reset'' ResOk (Some []))
       (a\<lparr>second_factors := filter (\<lambda>f. factor_user_id f \<noteq> userId) (second_factors a),
          recovery_codes := filter (\<lambda>r. rec_user_id r \<noteq> userId) (recovery_codes a),
          sessions := upd_where (\<lambda>s. sess_user_id s = userId) (\<lambda>s. s\<lparr>second_factor_at := None\<rparr>) (sessions a)\<rparr>)"

section \<open>Checking a given\<close>

type_synonym unseal = "uuid \<Rightarrow> string \<Rightarrow> byte list option"

text \<open>The factors as an earlier statement read them.\<close>

definition totp_factors :: "uuid \<Rightarrow> auth_db \<Rightarrow> second_factor list" where
  "totp_factors userId a =
     filter (\<lambda>f. factor_user_id f = userId \<and> factor_kind f = TotpFactor) (second_factors a)"

text \<open>The conditional update that uses a step up: whether it hit a row.\<close>

definition use_step :: "uuid \<Rightarrow> int \<Rightarrow> millis \<Rightarrow> auth_db \<Rightarrow> bool \<times> auth_db" where
  "use_step i step t a =
     (let hit = (\<lambda>f. factor_id f = i \<and> (last_step f = None \<or> sql_lt (last_step f) (Some step)))
      in (\<exists>f\<in>set (second_factors a). hit f,
          a\<lparr>second_factors := upd_where hit (\<lambda>f. f\<lparr>last_step := Some step, last_used_at := Some t\<rparr>) (second_factors a)\<rparr>))"

definition factor_match :: "hmac \<Rightarrow> unseal \<Rightarrow> uuid \<Rightarrow> string \<Rightarrow> millis \<Rightarrow> second_factor \<Rightarrow> int option" where
  "factor_match hmac unseal userId typed nowMs f =
     (case unseal userId (factor_secret f) of
        None \<Rightarrow> None | Some secret \<Rightarrow> matchTotp hmac secret typed nowMs (last_step f))"

text \<open>\<open>for (const factor of factors)\<close>: the first whose code matches and whose step is still unused.\<close>

fun check_factors ::
  "hmac \<Rightarrow> unseal \<Rightarrow> uuid \<Rightarrow> string \<Rightarrow> millis \<Rightarrow> second_factor list \<Rightarrow> auth_db \<Rightarrow> second_factor_check \<times> auth_db" where
  "check_factors hmac unseal userId typed nowMs [] a = (Failed, a)"
| "check_factors hmac unseal userId typed nowMs (f # fs) a =
     (case factor_match hmac unseal userId typed nowMs f of
        None \<Rightarrow> check_factors hmac unseal userId typed nowMs fs a
      | Some step \<Rightarrow>
          (case use_step (factor_id f) step nowMs a of
             (True, a) \<Rightarrow> (Passed ''totp'', a)
           | (False, a) \<Rightarrow> check_factors hmac unseal userId typed nowMs fs a))"

definition typed_code :: "string \<Rightarrow> string" where
  "typed_code given = filter (\<lambda>c. \<not> is_space c) given"

definition checkSecondFactor ::
  "hmac \<Rightarrow> unseal \<Rightarrow> (string \<Rightarrow> string) \<Rightarrow> uuid \<Rightarrow> string \<Rightarrow> millis \<Rightarrow> auth_db \<Rightarrow> second_factor_check \<times> auth_db" where
  "checkSecondFactor hmac unseal hash userId given nowMs a =
     (let typed = typed_code given
      in if six_digits typed
         then check_factors hmac unseal userId typed nowMs (totp_factors userId a) a
         else useRecoveryCode hash userId typed nowMs a)"

section \<open>The routes that check and enrol\<close>

text \<open>
  \<open>POST /me/second-factor/verify\<close> (\<open>apps/api/src/routes/me-second-factor.ts\<close>) after the throttle let
  the try through; \<open>counted\<close> is false for a try let past a refused count, which may only be a recovery code.
\<close>

datatype verify_answer = NothingOwed | SetUpFirst | WrongCode | Verified

definition bypass_mark :: "bool \<Rightarrow> metadata_fields" where
  "bypass_mark counted = (if counted then [] else [(''bypass'', JBool True)])"

definition passed_check ::
  "string \<Rightarrow> uuid \<Rightarrow> bool \<Rightarrow> string \<Rightarrow> metadata_fields \<Rightarrow> millis \<Rightarrow> auth_db \<Rightarrow> auth_db" where
  "passed_check sessionId userId counted way meta t a =
     auth_audit (audit (actor_of userId) userId ''auth.second_factor_verified'' ResOk
       (Some (meta @ [(''method'', JStr way)] @ bypass_mark counted)))
       (markSecondFactorPassed sessionId t a)"

definition verify_route ::
  "hmac \<Rightarrow> unseal \<Rightarrow> (string \<Rightarrow> string) \<Rightarrow> session_user \<Rightarrow> string \<Rightarrow> bool \<Rightarrow> string \<Rightarrow> metadata_fields \<Rightarrow> millis \<Rightarrow>
    auth_db \<Rightarrow> verify_answer \<times> auth_db" where
  "verify_route hmac unseal hash su sessionId counted given meta t a =
     (case su_second_factor su of
        None \<Rightarrow> (NothingOwed, a)
      | Some EnrolFirst \<Rightarrow> (SetUpFirst, a)
      | Some VerifyFirst \<Rightarrow>
          (case (if counted then checkSecondFactor hmac unseal hash (auth_id su) given t a
                 else useRecoveryCode hash (auth_id su) given t a) of
             (Passed way, a) \<Rightarrow> (Verified, passed_check sessionId (auth_id su) counted way meta t a)
           | (Failed, a) \<Rightarrow>
               (WrongCode, auth_audit (audit (actor_of (auth_id su)) (auth_id su) ''auth.second_factor_failed'' ResFailed
                  (Some (meta @ bypass_mark counted))) a)))"

datatype enrol_answer = NotManaged | VerifyFirstAnswer | SetupExpired | WrongEnrolCode | Enrolled

text \<open>\<open>pending\<close> opens the token of a started enrolment; \<open>seal\<close> seals the secret for the account.\<close>

definition enrol_route ::
  "hmac \<Rightarrow> (string \<Rightarrow> byte list option) \<Rightarrow> (byte list \<Rightarrow> string) \<Rightarrow> uuid \<Rightarrow> string list \<Rightarrow> session_user \<Rightarrow> string \<Rightarrow>
    string \<Rightarrow> string \<Rightarrow> string \<Rightarrow> metadata_fields \<Rightarrow> millis \<Rightarrow> auth_db \<Rightarrow> enrol_answer \<times> auth_db" where
  "enrol_route hmac pending seal new_id hashes su sessionId token given label meta t a =
     (if \<not> su_second_factor_applies su then (NotManaged, a)
      else if su_second_factor su = Some VerifyFirst then (VerifyFirstAnswer, a)
      else case pending token of
        None \<Rightarrow> (SetupExpired, a)
      | Some secret \<Rightarrow>
          (case matchTotp hmac secret given t None of
             None \<Rightarrow> (WrongEnrolCode, a)
           | Some step \<Rightarrow>
               (Enrolled,
                storeFactor new_id hashes
                  \<lparr>nf_user_id = auth_id su, nf_kind = TotpFactor, nf_secret = seal secret, nf_label = label,
                   nf_last_step = step, nf_session_id = sessionId, nf_actor = actor_of (auth_id su), nf_metadata = meta\<rparr>
                  t a)))"

section \<open>Keeping the factors\<close>

text \<open>A session from a course may not change the factors of a linked account.\<close>

definition refuseLaunch :: "session_user \<Rightarrow> string \<Rightarrow> auth_db \<Rightarrow> bool" where
  "refuseLaunch su sessionId a \<longleftrightarrow>
     \<not> su_second_factor_applies su \<and> map_option origin_method (sessionOrigin sessionId a) = Some Lti"

datatype factor_answer = CourseSession | FactorMissing | LastFactor | FactorRenamed | FactorRemoved

definition rename_factor :: "session_user \<Rightarrow> string \<Rightarrow> uuid \<Rightarrow> string \<Rightarrow> auth_db \<Rightarrow> factor_answer \<times> auth_db" where
  "rename_factor su sessionId i label a =
     (let hit = (\<lambda>f. factor_id f = i \<and> factor_user_id f = auth_id su)
      in if refuseLaunch su sessionId a then (CourseSession, a)
         else (if \<exists>f\<in>set (second_factors a). hit f then FactorRenamed else FactorMissing,
               a\<lparr>second_factors := upd_where hit (\<lambda>f. f\<lparr>factor_label := label\<rparr>) (second_factors a)\<rparr>))"

definition recovery_codes_route ::
  "session_user \<Rightarrow> string list \<Rightarrow> metadata_fields \<Rightarrow> auth_db \<Rightarrow> enrol_answer + auth_db option" where
  "recovery_codes_route su hashes meta a =
     (if \<not> su_second_factor_applies su then Inl NotManaged
      else Inr (replaceRecoveryCodes (auth_id su) hashes (actor_of (auth_id su)) meta a))"

text \<open>The transaction of a removal, which locks the factors.\<close>

definition remove_factor :: "uuid \<Rightarrow> uuid \<Rightarrow> metadata_fields \<Rightarrow> auth_db \<Rightarrow> factor_answer \<times> auth_db" where
  "remove_factor userId i meta a =
     (let factors = filter (\<lambda>f. factor_user_id f = userId) (second_factors a)
      in case find (\<lambda>f. factor_id f = i) factors of
        None \<Rightarrow> (FactorMissing, a)
      | Some f \<Rightarrow>
          if length factors = 1 then (LastFactor, a)
          else (FactorRemoved,
                auth_audit (audit (actor_of userId) userId ''auth.second_factor_removed'' ResOk
                  (Some (meta @ [(''factorId'', JStr i), (''kind'', JStr (kind_text (factor_kind f)))])))
                  (a\<lparr>second_factors := filter (\<lambda>f. factor_id f \<noteq> i) (second_factors a)\<rparr>)))"

definition remove_factor_route ::
  "session_user \<Rightarrow> string \<Rightarrow> uuid \<Rightarrow> metadata_fields \<Rightarrow> auth_db \<Rightarrow> factor_answer \<times> auth_db" where
  "remove_factor_route su sessionId i meta a =
     (if refuseLaunch su sessionId a then (CourseSession, a) else remove_factor (auth_id su) i meta a)"

end
