(* ===== verification/Account_Links.thy ===== *)
theory Account_Links
  imports Sign_In Second_Factor
begin

text \<open>
  Linking a course account to the account its person signs in with (\<open>packages/auth/src/links.ts\<close>), the
  callback and the routes that do it (\<open>apps/api/src/routes/auth.ts\<close>, \<open>links.ts\<close>) and an
  administrator's links (\<open>admin-account-links.ts\<close>). Names of platforms and notices are left out.
\<close>

section \<open>The window and the intent\<close>

definition LINK_WINDOW_SECONDS :: int where "LINK_WINDOW_SECONDS = 15 * 60"
definition LINK_INTENT_TTL_SECONDS :: int where "LINK_INTENT_TTL_SECONDS = 10 * 60"

definition platformIssuerOf :: "string \<Rightarrow> string" where
  "platformIssuerOf issuer = drop 4 issuer"

record link_window =
  win_course_user :: uuid
  link_until :: millis
  win_open :: bool

definition sessionLinkState :: "string \<Rightarrow> millis \<Rightarrow> auth_db \<Rightarrow> (session_origin \<times> link_window option) option" where
  "sessionLinkState i t a =
     (case find_row sess_id i (sessions a) of
        None \<Rightarrow> None
      | Some s \<Rightarrow>
          (case find_user (sess_user_id s) (core a) of
             None \<Rightarrow> None
           | Some u \<Rightarrow>
               Some (\<lparr>origin_method = sess_method s, origin_course_user = sess_course_user_id s\<rparr>,
                 (if \<not> isCourseIssuer (oidc_issuer u) \<or> is_linked_course (user_id u) a then None
                  else
                    let until = sess_created_at s + LINK_WINDOW_SECONDS * 1000
                    in Some \<lparr>win_course_user = user_id u, link_until = until, win_open = (t < until)\<rparr>))))"

definition courseLinkWindow :: "string \<Rightarrow> millis \<Rightarrow> auth_db \<Rightarrow> link_window option" where
  "courseLinkWindow i t a = Option.bind (sessionLinkState i t a) snd"

definition saveLinkIntent :: "string \<Rightarrow> string \<Rightarrow> uuid \<Rightarrow> millis \<Rightarrow> auth_db \<Rightarrow> auth_db" where
  "saveLinkIntent stateHash sessionId courseUserId t a =
     (let live = filter (\<lambda>n. \<not> intent_expires_at n \<le> t) (link_intents a);
          row = \<lparr>intent_state_hash = stateHash, intent_session_id = sessionId, intent_course_user_id = courseUserId,
                 intent_user_id = None, intent_expires_at = t + LINK_INTENT_TTL_SECONDS * 1000\<rparr>
      in a\<lparr>link_intents :=
           (if \<exists>n\<in>set live. intent_session_id n = sessionId
            then upd_where (\<lambda>n. intent_session_id n = sessionId) (\<lambda>_. row) live
            else live @ [row])\<rparr>)"

definition findLinkIntent :: "string \<Rightarrow> auth_db \<Rightarrow> link_intent option" where
  "findLinkIntent stateHash a = find (\<lambda>n. intent_state_hash n = stateHash) (link_intents a)"

text \<open>The conditional update; whether it hit exactly one row.\<close>

definition bindLinkIntent :: "string \<Rightarrow> string \<Rightarrow> uuid \<Rightarrow> millis \<Rightarrow> auth_db \<Rightarrow> bool \<times> auth_db" where
  "bindLinkIntent stateHash sessionId userId t a =
     (let hit = (\<lambda>n. intent_state_hash n = stateHash \<and> intent_session_id n = sessionId \<and>
                     intent_user_id n = None \<and> t < intent_expires_at n)
      in (length (filter hit (link_intents a)) = 1,
          a\<lparr>link_intents := upd_where hit (\<lambda>n. n\<lparr>intent_user_id := Some userId\<rparr>) (link_intents a)\<rparr>))"

definition bound_intent :: "string \<Rightarrow> millis \<Rightarrow> link_intent \<Rightarrow> bool" where
  "bound_intent sessionId t n \<longleftrightarrow>
     intent_session_id n = sessionId \<and> intent_user_id n \<noteq> None \<and> t < intent_expires_at n"

text \<open>The two accounts of an intent: course, then SSO.\<close>

definition intent_accounts :: "link_intent \<Rightarrow> (uuid \<times> uuid) option" where
  "intent_accounts n = map_option (\<lambda>i. (intent_course_user_id n, i)) (intent_user_id n)"

definition pendingLinkIntent :: "string \<Rightarrow> millis \<Rightarrow> auth_db \<Rightarrow> (uuid \<times> uuid) option" where
  "pendingLinkIntent sessionId t a =
     Option.bind (find (bound_intent sessionId t) (link_intents a)) intent_accounts"

definition consumeLinkIntent :: "string \<Rightarrow> millis \<Rightarrow> auth_db \<Rightarrow> (uuid \<times> uuid) option \<times> auth_db" where
  "consumeLinkIntent sessionId t a =
     (pendingLinkIntent sessionId t a,
      a\<lparr>link_intents := filter (\<lambda>n. \<not> bound_intent sessionId t n) (link_intents a)\<rparr>)"

section \<open>Linking\<close>

datatype link_refusal =
    LinkNotFound | NotCourseAccount | NotSsoAccount | NotAuthorized | AlreadyLinked | RoleHigher

record link_done =
  done_platform_issuer :: string
  done_workspace :: "uuid option"

text \<open>A link moves the course memberships, a later launch winning over an earlier one.\<close>

definition move_membership :: "uuid \<Rightarrow> membership \<Rightarrow> membership list \<Rightarrow> membership list" where
  "move_membership i m ms =
     (let same = (\<lambda>n. mem_context_id n = mem_context_id m \<and> mem_user_id n = i)
      in if \<exists>n\<in>set ms. same n
         then upd_where (\<lambda>n. same n \<and> mem_last_launch_at n < mem_last_launch_at m)
                (\<lambda>n. n\<lparr>mem_role := mem_role m, mem_last_launch_at := mem_last_launch_at m\<rparr>) ms
         else ms @ [m\<lparr>mem_user_id := i\<rparr>])"

definition move_memberships :: "uuid \<Rightarrow> uuid \<Rightarrow> membership list \<Rightarrow> membership list" where
  "move_memberships course i ms =
     filter (\<lambda>m. mem_user_id m \<noteq> course)
       (foldl (\<lambda>ms m. move_membership i m ms) ms (filter (\<lambda>m. mem_user_id m = course) ms))"

definition link_exists :: "uuid \<Rightarrow> uuid \<Rightarrow> string \<Rightarrow> auth_db \<Rightarrow> bool" where
  "link_exists course sso platform a \<longleftrightarrow>
     (\<exists>l\<in>set (account_links a). link_course_user_id l = course \<or> link_course_user_id l = sso \<or>
        link_user_id l = sso \<and> link_platform_issuer l = platform)"

definition link_refused :: "user option \<Rightarrow> user option \<Rightarrow> auth_db \<Rightarrow> link_refusal option" where
  "link_refused course sso a =
     (case (course, sso) of
        (Some c, Some s) \<Rightarrow>
          if user_id c = user_id s then Some LinkNotFound
          else if \<not> isCourseIssuer (oidc_issuer c) then Some NotCourseAccount
          else if isCourseIssuer (oidc_issuer s) then Some NotSsoAccount
          else if disabled_at s \<noteq> None \<or> user_role s = Administrator then Some NotAuthorized
          else if link_exists (user_id c) (user_id s) (platformIssuerOf (oidc_issuer c)) a then Some AlreadyLinked
          else None
      | _ \<Rightarrow> Some LinkNotFound)"

definition linkAccounts :: "uuid \<Rightarrow> uuid \<Rightarrow> millis \<Rightarrow> auth_db \<Rightarrow> link_refusal + link_done \<times> auth_db" where
  "linkAccounts courseUserId userId t a =
     (let d = core a; course = find_user courseUserId d; sso = find_user userId d
      in case link_refused course sso a of
        Some r \<Rightarrow> Inl r
      | None \<Rightarrow>
          (let platform = platformIssuerOf (oidc_issuer (the course));
               open_ws = (\<lambda>w. owner_user_id w = courseUserId \<and> archived_at w = None);
               archived = find open_ws (workspaces d);
               d = update_workspaces open_ws
                     (\<lambda>w. w\<lparr>archived_at := Some t, ws_desired := WantStopped, updated_at := t\<rparr>) d;
               a = a\<lparr>core := d,
                     account_links := account_links a @
                       [\<lparr>link_course_user_id = courseUserId, link_user_id = userId, link_platform_issuer = platform,
                         link_archived_at = map_option (\<lambda>_. t) archived\<rparr>],
                     memberships := move_memberships courseUserId userId (memberships a)\<rparr>
           in Inr (\<lparr>done_platform_issuer = platform, done_workspace = map_option ws_id archived\<rparr>,
                   delete_sessions (\<lambda>s. sess_user_id s = courseUserId) a)))"

definition unlinkAccount :: "uuid \<Rightarrow> uuid \<Rightarrow> millis \<Rightarrow> auth_db \<Rightarrow> (link_done \<times> auth_db) option" where
  "unlinkAccount userId courseUserId t a =
     (let hit = (\<lambda>l. link_course_user_id l = courseUserId \<and> link_user_id l = userId)
      in case find hit (account_links a) of
        None \<Rightarrow> None
      | Some l \<Rightarrow>
          (let a = a\<lparr>account_links := filter (\<lambda>l. \<not> hit l) (account_links a)\<rparr>;
               a = delete_sessions (\<lambda>s. sess_user_id s = userId \<and> sess_course_user_id s = Some courseUserId) a;
               carries = (\<lambda>w. link_archived_at l \<noteq> None \<and> owner_user_id w = courseUserId \<and>
                              archived_at w = link_archived_at l);
               back_ws = find carries (workspaces (core a));
               d = update_workspaces carries (\<lambda>w. w\<lparr>archived_at := None, updated_at := t\<rparr>) (core a)
           in Some (\<lparr>done_platform_issuer = link_platform_issuer l, done_workspace = map_option ws_id back_ws\<rparr>,
                    a\<lparr>core := d\<rparr>)))"

section \<open>The callback in link mode\<close>

datatype callback_answer =
    CallbackBound | SessionChanged | CallbackExpired | CallbackFailed | CallbackNotAuthorized | NoAccount | Taken

definition link_callback_refusal :: "callback_answer \<Rightarrow> string \<times> audit_result" where
  "link_callback_refusal r =
     (case r of SessionChanged \<Rightarrow> (''session_changed'', ResFailed) | CallbackExpired \<Rightarrow> (''expired'', ResFailed)
      | CallbackFailed \<Rightarrow> (''failed'', ResFailed) | CallbackNotAuthorized \<Rightarrow> (''not_authorized'', ResRefused)
      | NoAccount \<Rightarrow> (''no_account'', ResRefused) | Taken \<Rightarrow> (''already_linked'', ResRefused)
      | CallbackBound \<Rightarrow> ([], ResOk))"

definition refuse_callback ::
  "callback_answer \<Rightarrow> link_intent \<Rightarrow> uuid option \<Rightarrow> metadata_fields \<Rightarrow> auth_db \<Rightarrow> callback_answer \<times> auth_db" where
  "refuse_callback r n ssoUserId meta a =
     (let who = nullish ssoUserId (intent_course_user_id n); (reason, res) = link_callback_refusal r
      in (r, auth_audit (audit (actor_of who) who ''user.linked'' res
            (Some ([(''reason'', JStr reason), (''courseUserId'', JStr (intent_course_user_id n))] @ meta))) a))"

text \<open>
  \<open>login\<close> is what the provider answered: \<open>None\<close> when the login failed, else the identity and the role
  its groups give. The intent is the row the callback read; the rest runs on the database of later.
\<close>

definition linkCallback ::
  "link_intent \<Rightarrow> string option \<Rightarrow> (identity \<times> user_role option) option \<Rightarrow> metadata_fields \<Rightarrow> millis \<Rightarrow>
    auth_db \<Rightarrow> callback_answer \<times> auth_db" where
  "linkCallback n sessionId login meta t a =
     (if Some (intent_session_id n) \<noteq> sessionId then refuse_callback SessionChanged n None meta a
      else if intent_user_id n \<noteq> None \<or> intent_expires_at n \<le> t then refuse_callback CallbackExpired n None meta a
      else case login of
        None \<Rightarrow> refuse_callback CallbackFailed n None meta a
      | Some (_, None) \<Rightarrow> refuse_callback CallbackNotAuthorized n None meta a
      | Some (idn, Some _) \<Rightarrow>
          (case find_identity (id_issuer idn) (id_subject idn) (core a) of
             None \<Rightarrow> refuse_callback NoAccount n None meta a
           | Some sso \<Rightarrow>
               if disabled_at sso \<noteq> None then refuse_callback CallbackNotAuthorized n (Some (user_id sso)) meta a
               else if (case find_user (intent_course_user_id n) (core a) of
                          None \<Rightarrow> False
                        | Some c \<Rightarrow>
                            \<exists>l\<in>set (account_links a). link_user_id l = user_id sso \<and>
                              link_platform_issuer l = platformIssuerOf (oidc_issuer c))
               then refuse_callback Taken n (Some (user_id sso)) meta a
               else case bindLinkIntent (intent_state_hash n) (intent_session_id n) (user_id sso) t a of
                 (True, a) \<Rightarrow> (CallbackBound, a)
               | (False, a) \<Rightarrow> refuse_callback CallbackExpired n (Some (user_id sso)) meta a))"

section \<open>Confirming\<close>

datatype confirm_outcome = NoIntent | TooLate "uuid \<times> uuid" | LinkRefused "uuid \<times> uuid" link_refusal | Linked "uuid \<times> uuid"

definition secondFactorOwed :: "uuid \<Rightarrow> auth_db \<Rightarrow> owed_factor option" where
  "secondFactorOwed i a =
     (case find_user i (core a) of
        None \<Rightarrow> None
      | Some u \<Rightarrow> if \<not> accountNeedsSecondFactor u then None
                  else if has_second_factor i a then Some VerifyFirst else Some EnrolFirst)"

text \<open>
  The confirm transaction. \<open>pending\<close> is what was read before the code was checked; the intent that is
  used up is looked at again. The platform's name in the audit row is an argument.
\<close>

definition confirm_transaction ::
  "string \<Rightarrow> (uuid \<times> uuid) option \<Rightarrow> (string \<Rightarrow> string) \<Rightarrow> metadata_fields \<Rightarrow> millis \<Rightarrow> auth_db \<Rightarrow>
    confirm_outcome \<times> auth_db" where
  "confirm_transaction sessionId pending platformName meta t a =
     (case consumeLinkIntent sessionId t a of
        (None, a) \<Rightarrow> (NoIntent, a)
      | (Some (course, sso), a) \<Rightarrow>
          if map_option snd pending \<noteq> Some sso then (NoIntent, a)
          else case courseLinkWindow sessionId t a of
            None \<Rightarrow> (TooLate (course, sso), a)
          | Some w \<Rightarrow>
              if \<not> win_open w \<or> win_course_user w \<noteq> course then (TooLate (course, sso), a)
              else case linkAccounts course sso t a of
                Inl r \<Rightarrow> (LinkRefused (course, sso) r, a)
              | Inr (fin, a) \<Rightarrow>
                  (let a = auth_audit (audit (actor_of sso) sso ''user.linked'' ResOk
                             (Some ([(''platform'', JStr (platformName (done_platform_issuer fin))),
                                     (''courseUserId'', JStr course)] @ meta))) a
                   in (Linked (course, sso),
                       (case done_workspace fin of
                          None \<Rightarrow> a
                        | Some w \<Rightarrow> auth_audit (audit (actor_of sso) w ''workspace.archived'' ResOk
                            (Some [(''reason'', JStr ''account_linked'')])) a))))"

text \<open>What the second factor of a link answered: not needed, passed, or refused with no link made.\<close>

datatype link_check = CheckNotNeeded | CheckPassed | CheckRefused

definition check_for_link ::
  "hmac \<Rightarrow> unseal \<Rightarrow> (string \<Rightarrow> string) \<Rightarrow> uuid \<Rightarrow> string option \<Rightarrow> bool option \<Rightarrow> metadata_fields \<Rightarrow> millis \<Rightarrow> auth_db \<Rightarrow>
    link_check \<times> auth_db" where
  "check_for_link hmac unseal hash i given allowance meta t a =
     (case secondFactorOwed i a of
        None \<Rightarrow> (CheckNotNeeded, a)
      | Some EnrolFirst \<Rightarrow> (CheckRefused, a)
      | Some VerifyFirst \<Rightarrow>
          (case (given, allowance) of
             (Some typed, Some counted) \<Rightarrow>
               (case (if counted then checkSecondFactor hmac unseal hash i typed t a
                      else useRecoveryCode hash i typed t a) of
                  (Passed way, a) \<Rightarrow>
                    (CheckPassed, auth_audit (audit (actor_of i) i ''auth.second_factor_verified'' ResOk
                       (Some (meta @ [(''method'', JStr way)] @ bypass_mark counted @ [(''flow'', JStr ''link'')]))) a)
                | (Failed, a) \<Rightarrow>
                    (CheckRefused, auth_audit (audit (actor_of i) i ''auth.second_factor_failed'' ResFailed
                       (Some (meta @ bypass_mark counted @ [(''flow'', JStr ''link'')]))) a))
           | _ \<Rightarrow> (CheckRefused, a)))"

text \<open>
  After the transaction: a refusal is audited, a link starts a session of the account, which has passed
  its second factor when the link asked for it.
\<close>

definition link_refusal_text :: "link_refusal \<Rightarrow> string" where
  "link_refusal_text r =
     (case r of LinkNotFound \<Rightarrow> ''not_found'' | NotCourseAccount \<Rightarrow> ''not_course_account''
      | NotSsoAccount \<Rightarrow> ''not_sso_account'' | NotAuthorized \<Rightarrow> ''not_authorized''
      | AlreadyLinked \<Rightarrow> ''already_linked'' | RoleHigher \<Rightarrow> ''role_higher'')"

definition after_confirm ::
  "string \<Rightarrow> millis \<Rightarrow> link_check \<Rightarrow> metadata_fields \<Rightarrow> millis \<Rightarrow> confirm_outcome \<Rightarrow> auth_db \<Rightarrow> auth_db" where
  "after_confirm new_session ttl checked meta t outcome a =
     (let denied = (\<lambda>course sso reason. auth_audit (audit (actor_of sso) sso ''user.linked'' ResRefused
              (Some ([(''reason'', JStr reason), (''courseUserId'', JStr course)] @ meta))) a)
      in case outcome of
        NoIntent \<Rightarrow> a
      | TooLate (course, sso) \<Rightarrow> denied course sso ''expired''
      | LinkRefused (course, sso) r \<Rightarrow> denied course sso (link_refusal_text r)
      | Linked (course, sso) \<Rightarrow>
          (let a = createSession new_session sso ttl \<lparr>origin_method = Link, origin_course_user = None\<rparr> t a;
               a = (if checked = CheckPassed then markSecondFactorPassed new_session t a else a)
           in auth_audit (audit (actor_of sso) sso ''auth.login'' ResOk
                (Some ((''method'', JStr ''link'') # meta))) a))"

section \<open>An administrator's links\<close>

definition ssoRoleIsHigher :: "uuid \<Rightarrow> uuid \<Rightarrow> auth_db \<Rightarrow> bool" where
  "ssoRoleIsHigher courseUserId userId a =
     (case (find_user courseUserId (core a), find_user userId (core a)) of
        (Some c, Some s) \<Rightarrow> user_role s \<noteq> Administrator \<and> RANK (provider_role c) < RANK (user_role s)
      | _ \<Rightarrow> False)"

definition admin_link :: "uuid \<Rightarrow> uuid \<Rightarrow> millis \<Rightarrow> auth_db \<Rightarrow> link_refusal + link_done \<times> auth_db" where
  "admin_link courseUserId userId t a =
     (if ssoRoleIsHigher courseUserId userId a then Inl RoleHigher else linkAccounts courseUserId userId t a)"

end
