(* ===== verification/Accounts.thy ===== *)
theory Accounts
  imports Account_Links
begin

text \<open>
  The other changes of an account: the local administrator (\<open>packages/auth/src/local-admin.ts\<close>), accounts
  with a Dex password (\<open>apps/api/src/routes/admin-dex-users.ts\<close>, \<open>apps/api/src/admin/dex-accounts.ts\<close>),
  changing one's password (\<open>me-password.ts\<close>), resetting it by an emailed link (\<open>password-reset.ts\<close>),
  accepting the acceptable-use statement, and the disable routes. Dex holds the passwords; what it
  answers is an argument, and a call that fails undoes its transaction.
\<close>

section \<open>Telling the account's holder\<close>

datatype reset_kind = ResetPassword | ResetFactor | ResetBoth

definition RESET_NOTICE_TITLES :: "reset_kind \<Rightarrow> string" where
  "RESET_NOTICE_TITLES k =
     (case k of ResetPassword \<Rightarrow> ''An administrator reset your password''
      | ResetFactor \<Rightarrow> ''An administrator reset your two-factor sign-in''
      | ResetBoth \<Rightarrow> ''An administrator reset your password and two-factor sign-in'')"

definition WHAT :: "reset_kind \<Rightarrow> string" where
  "WHAT k =
     (case k of ResetPassword \<Rightarrow> ''your password'' | ResetFactor \<Rightarrow> ''your two-factor sign-in''
      | ResetBoth \<Rightarrow> ''your password and your two-factor sign-in'')"

definition notifyCredentialReset :: "uuid \<Rightarrow> uuid \<Rightarrow> reset_kind \<Rightarrow> string \<Rightarrow> millis \<Rightarrow> db \<Rightarrow> db" where
  "notifyCredentialReset new_id userId kind date t d =
     (let other = (if kind = ResetPassword then ResetFactor else ResetPassword);
          folds = (\<lambda>n. notif_user_id n = userId \<and> notif_read_at n = None \<and>
                       notif_title n \<in> {RESET_NOTICE_TITLES other, RESET_NOTICE_TITLES ResetBoth});
          which = (if \<exists>n\<in>set (notifications d). folds n then ResetBoth else kind);
          d = d\<lparr>notifications := filter (\<lambda>n. \<not> folds n) (notifications d)\<rparr>
      in recordNotification new_id t userId
           \<lparr>notice_tone = Warning, notice_title = RESET_NOTICE_TITLES which,
            notice_body = ''An administrator reset '' @ WHAT which @ '' on '' @ date @
              ''. If you did not ask for this, tell your instructor or the site administrator.''\<rparr>
           False True d)"

section \<open>New accounts with a Dex password\<close>

definition precreateDexAccount ::
  "uuid \<Rightarrow> string \<Rightarrow> string \<Rightarrow> string \<Rightarrow> string \<Rightarrow> user_role \<Rightarrow> bool \<Rightarrow> db \<Rightarrow> (uuid \<times> db) option" where
  "precreateDexAccount new_id dexUserId mail username name role mustChange d =
     (case dexLocalSubject dexUserId of
        None \<Rightarrow> None
      | Some subject \<Rightarrow>
          if find_identity DEX_ACCOUNT_ISSUER subject d \<noteq> None then None
          else Some (new_id, d\<lparr>users := users d @
            [(new_user new_id \<lparr>id_issuer = DEX_ACCOUNT_ISSUER, id_subject = subject, id_email = Some mail,
                 id_display_name = name, id_preferred_username = Some username\<rparr>
               role Student (if role = Student then None else Some role) None)
             \<lparr>must_change_password := mustChange\<rparr>]\<rparr>))"

datatype dex_answer = DexDone | DexExists | DexMissing | DexDown

datatype account_answer = AccountDone | AccountExists | AccountUnavailable

definition createDexAccount ::
  "uuid \<Rightarrow> string \<Rightarrow> uuid \<Rightarrow> string \<Rightarrow> string \<Rightarrow> string \<Rightarrow> user_role \<Rightarrow> dex_answer \<Rightarrow> metadata_fields \<Rightarrow> auth_db \<Rightarrow>
    account_answer \<times> auth_db" where
  "createDexAccount new_id dexUserId actorId mail username name role dex meta a =
     (case precreateDexAccount new_id dexUserId mail username name role True (core a) of
        None \<Rightarrow> (AccountUnavailable, a)
      | Some (i, d) \<Rightarrow>
          (let a' = auth_audit (audit (actor_of actorId) i ''dex_user.created'' ResOk
                      (Some ((''role'', JStr (role_text role)) # meta))) (a\<lparr>core := d\<rparr>)
           in case dex of
             DexDone \<Rightarrow> (AccountDone, a')
           | DexExists \<Rightarrow> (AccountExists, a)
           | _ \<Rightarrow> (AccountUnavailable, a)))"

section \<open>The local administrator\<close>

definition local_admin_account :: "auth_db \<Rightarrow> user option" where
  "local_admin_account a =
     (case dexLocalSubject LOCAL_ADMIN_USER_ID of
        None \<Rightarrow> None | Some subject \<Rightarrow> find_identity DEX_ACCOUNT_ISSUER subject (core a))"

definition restore_admin :: "user \<Rightarrow> user" where
  "restore_admin u =
     u\<lparr>disabled_at := None, granted_role := Some Administrator, user_role := Administrator, must_change_password := True\<rparr>"

text \<open>\<open>Inl True\<close>: it exists, and whether the flag is set; \<open>Inr\<close>: the new database, or undone.\<close>

definition resetLocalAdmin ::
  "uuid \<Rightarrow> bool \<Rightarrow> string \<Rightarrow> dex_answer \<Rightarrow> millis \<Rightarrow> auth_db \<Rightarrow> bool + auth_db option" where
  "resetLocalAdmin new_id ifMissing mail dex t a =
     (case (local_admin_account a, ifMissing) of
        (Some u, True) \<Rightarrow> Inl (must_change_password u)
      | (account, _) \<Rightarrow>
          Inr (case (case account of
                  Some u \<Rightarrow> Some (user_id u, a\<lparr>core := update_user (user_id u) restore_admin (core a)\<rparr>)
                | None \<Rightarrow> map_option (\<lambda>(i, d). (i, a\<lparr>core := d\<rparr>))
                    (precreateDexAccount new_id LOCAL_ADMIN_USER_ID mail ''admin'' ''Local administrator'' Administrator
                       True (core a))) of
             None \<Rightarrow> None
           | Some (i, a') \<Rightarrow>
               (let a' = (if account \<noteq> None then resetSecondFactor i ''host:root'' a' else a');
                    a' = endSessions i t a';
                    a' = auth_audit (audit ''host:root'' i
                           (if account \<noteq> None then ''local_admin.reset'' else ''local_admin.created'') ResOk (Some [])) a'
                in if dex = DexDown \<or> dex = DexExists then None else Some a')))"

section \<open>An administrator resets a credential\<close>

text \<open>What was found of the account's Dex password: the list is read before the transaction.\<close>

datatype found_password = FoundAccountless | FoundNotLocal | Found

datatype reset_answer = ResetSelf | ResetInstallAdmin | ResetNoAccount | ResetNotLocal | ResetUnavailable | ResetDone

definition findDexPassword :: "uuid \<Rightarrow> bool \<Rightarrow> auth_db \<Rightarrow> found_password" where
  "findDexPassword i listed a =
     (case find_user i (core a) of
        None \<Rightarrow> FoundAccountless
      | Some u \<Rightarrow>
          if localDexUserId (oidc_issuer u) (oidc_subject u) = None \<or> \<not> listed then FoundNotLocal else Found)"

text \<open>
  \<open>listed\<close> is \<open>None\<close> when Dex does not answer the list, else whether it holds a password of the account;
  \<open>update\<close> is its answer to the new password. A password that is gone by then does not undo the
  transaction.
\<close>

definition reset_password_route ::
  "uuid \<Rightarrow> uuid \<Rightarrow> bool option \<Rightarrow> dex_answer \<Rightarrow> uuid \<Rightarrow> string \<Rightarrow> metadata_fields \<Rightarrow> millis \<Rightarrow> auth_db \<Rightarrow>
    reset_answer \<times> auth_db" where
  "reset_password_route actorId i listed update notice_id date meta t a =
     (if i = actorId then (ResetSelf, a)
      else case refuseInstallAdminChange actorId i ''dex_user.password_reset'' meta a of
        (True, a) \<Rightarrow> (ResetInstallAdmin, a)
      | (False, a) \<Rightarrow>
          (case map_option (\<lambda>l. findDexPassword i l a) listed of
             None \<Rightarrow> (ResetUnavailable, a)
           | Some FoundAccountless \<Rightarrow> (ResetNoAccount, a)
           | Some FoundNotLocal \<Rightarrow> (ResetNotLocal, a)
           | Some Found \<Rightarrow>
               (let a' = revokeAccountEmailTokens i t (endSessions i t a);
                    a' = a'\<lparr>core := update_user i (\<lambda>u. u\<lparr>must_change_password := True\<rparr>) (core a')\<rparr>;
                    a' = auth_audit (audit (actor_of actorId) i ''dex_user.password_reset'' ResOk (Some meta)) a';
                    a' = a'\<lparr>core := notifyCredentialReset notice_id i ResetPassword date t (core a')\<rparr>
                in case update of
                  DexDown \<Rightarrow> (ResetUnavailable, a)
                | DexMissing \<Rightarrow> (ResetNotLocal, a')
                | _ \<Rightarrow> (ResetDone, a'))))"

definition reset_second_factor_route ::
  "uuid \<Rightarrow> uuid \<Rightarrow> bool option \<Rightarrow> uuid \<Rightarrow> string \<Rightarrow> metadata_fields \<Rightarrow> millis \<Rightarrow> auth_db \<Rightarrow> reset_answer \<times> auth_db" where
  "reset_second_factor_route actorId i listed notice_id date meta t a =
     (if i = actorId then (ResetSelf, a)
      else case refuseInstallAdminChange actorId i ''auth.second_factor_reset'' meta a of
        (True, a) \<Rightarrow> (ResetInstallAdmin, a)
      | (False, a) \<Rightarrow>
          (case map_option (\<lambda>l. findDexPassword i l a) listed of
             None \<Rightarrow> (ResetUnavailable, a)
           | Some FoundAccountless \<Rightarrow> (ResetNoAccount, a)
           | Some FoundNotLocal \<Rightarrow> (ResetNotLocal, a)
           | Some Found \<Rightarrow>
               (let a' = revokeAccountEmailTokens i t (endSessions i t (resetSecondFactor i (actor_of actorId) a))
                in (ResetDone, a'\<lparr>core := notifyCredentialReset notice_id i ResetFactor date t (core a')\<rparr>))))"

section \<open>Disabling through the routes\<close>

datatype disable_answer = DisableInstallAdmin | DisableRefused disable_refusal | DisableUnavailable | DisableDone

definition disable_route :: "uuid \<Rightarrow> uuid \<Rightarrow> metadata_fields \<Rightarrow> millis \<Rightarrow> auth_db \<Rightarrow> disable_answer \<times> auth_db" where
  "disable_route actorId i meta t a =
     (case refuseInstallAdminChange actorId i ''user.disabled'' meta a of
        (True, a) \<Rightarrow> (DisableInstallAdmin, a)
      | (False, a) \<Rightarrow>
          (case disableUser actorId i t meta Some a of
             None \<Rightarrow> (DisableUnavailable, a)
           | Some (Inl r) \<Rightarrow> (DisableRefused r, a)
           | Some (Inr a) \<Rightarrow> (DisableDone, a)))"

text \<open>Remove: disable, then delete the Dex passwords, which fails when Dex is down.\<close>

definition remove_transaction :: "uuid \<Rightarrow> uuid \<Rightarrow> dex_answer \<Rightarrow> metadata_fields \<Rightarrow> auth_db \<Rightarrow> auth_db option" where
  "remove_transaction actorId i dex meta a =
     (if dex = DexDown then None
      else Some (auth_audit (audit (actor_of actorId) i ''dex_user.removed'' ResOk (Some meta)) a))"

definition remove_route ::
  "uuid \<Rightarrow> uuid \<Rightarrow> bool option \<Rightarrow> dex_answer \<Rightarrow> metadata_fields \<Rightarrow> millis \<Rightarrow> auth_db \<Rightarrow>
    (found_password + disable_answer) \<times> auth_db" where
  "remove_route actorId i listed dex meta t a =
     (case refuseInstallAdminChange actorId i ''dex_user.removed'' meta a of
        (True, a) \<Rightarrow> (Inr DisableInstallAdmin, a)
      | (False, a) \<Rightarrow>
          (case map_option (\<lambda>l. findDexPassword i l a) listed of
             None \<Rightarrow> (Inr DisableUnavailable, a)
           | Some Found \<Rightarrow>
               (case disableUser actorId i t meta (remove_transaction actorId i dex meta) a of
                  None \<Rightarrow> (Inr DisableUnavailable, a)
                | Some (Inl r) \<Rightarrow> (Inr (DisableRefused r), a)
                | Some (Inr a) \<Rightarrow> (Inr DisableDone, a))
           | Some f \<Rightarrow> (Inl f, a)))"

section \<open>Changing one's own password\<close>

definition password_changed ::
  "uuid \<Rightarrow> string \<Rightarrow> dex_answer \<Rightarrow> metadata_fields \<Rightarrow> millis \<Rightarrow> auth_db \<Rightarrow> auth_db option" where
  "password_changed i currentSession update meta t a =
     (let a = a\<lparr>core := update_user i (\<lambda>u. u\<lparr>must_change_password := False\<rparr>) (core a)\<rparr>;
          a = delete_sessions (\<lambda>s. sess_user_id s = i \<and> sess_id s \<noteq> currentSession) a;
          a = a\<lparr>preview_sessions := upd_where
                (\<lambda>p. prev_user_id p = i \<and> prev_session_id p \<noteq> currentSession \<and> prev_revoked_at p = None)
                (\<lambda>p. p\<lparr>prev_revoked_at := Some t\<rparr>) (preview_sessions a)\<rparr>;
          a = revokeAccountEmailTokens i t a;
          a = auth_audit (audit (actor_of i) i ''user.password_changed'' ResOk (Some meta)) a
      in if update = DexDone then Some a else None)"

section \<open>Resetting a password by an emailed link\<close>

text \<open>\<open>listed\<close>: Dex's list holds a password with the account's subject. \<open>None\<close> undoes the transaction.\<close>

definition complete_reset ::
  "(string \<Rightarrow> string) \<Rightarrow> string \<Rightarrow> bool option \<Rightarrow> dex_answer \<Rightarrow> metadata_fields \<Rightarrow> millis \<Rightarrow> auth_db \<Rightarrow>
    (uuid option \<times> auth_db) option" where
  "complete_reset hash token listed update meta t a =
     (let first_try = consumeAccountEmailToken hash token ResetLink t a;
          (used, purpose, a1) =
            (case first_try of
               (Some k, a1) \<Rightarrow> (Some k, ResetLink, a1)
             | (None, a1) \<Rightarrow>
                 (case consumeAccountEmailToken hash token InviteLink t a1 of (k, a2) \<Rightarrow> (k, InviteLink, a2)))
      in case used of
        None \<Rightarrow> Some (None, a1)
      | Some (tokenId, i) \<Rightarrow>
          (case find_user i (core a1) of
             None \<Rightarrow> None
           | Some u \<Rightarrow>
               if oidc_issuer u \<noteq> DEX_ACCOUNT_ISSUER \<or> disabled_at u \<noteq> None \<or>
                  Some (oidc_subject u) = dexLocalSubject LOCAL_ADMIN_USER_ID \<or> listed \<noteq> Some True \<or> update \<noteq> DexDone
               then None
               else
                 (let a2 = revokeAccountEmailTokens i t (endSessions i t a1);
                      a2 = a2\<lparr>core := update_user i (\<lambda>u. u\<lparr>must_change_password := False\<rparr>) (core a2)\<rparr>
                  in Some (Some i, auth_audit (audit (actor_of i) i ''user.password_reset_by_email'' ResOk
                       (Some ([(''tokenId'', JStr tokenId),
                               (''purpose'', JStr (if purpose = ResetLink then ''reset'' else ''invite''))] @ meta))) a2))))"

section \<open>Accepting the acceptable-use statement\<close>

definition accept_use :: "uuid \<Rightarrow> nat \<Rightarrow> auth_db \<Rightarrow> auth_db option" where
  "accept_use i version a =
     (if version \<noteq> nullish (map_option set_acceptable_use_version (db_settings (core a))) 1 \<or>
         find_user i (core a) = None
      then None
      else Some (auth_audit (audit (actor_of i) i ''user.acceptable_use_accepted'' ResOk
             (Some [(''version'', JNum (of_nat version))]))
             (a\<lparr>core := update_user i (\<lambda>u. u\<lparr>accepted_use_version := Some version\<rparr>) (core a)\<rparr>)))"

end
