(* ===== verification/Auth_Users.thy ===== *)
theory Auth_Users
  imports Accounts
begin

text \<open>
  What every change of an account keeps: the stored role is the higher of the grant and the provider's
  role, a course account never has a grant nor an administrator's role, ids and identities are unique;
  and which changes keep an enabled administrator.
\<close>

section \<open>Accounts in order\<close>

definition user_ok :: "user \<Rightarrow> bool" where
  "user_ok u \<longleftrightarrow>
     user_role u = effective_role (granted_role u) (provider_role u) \<and> granted_role u \<noteq> Some Student \<and>
     (isCourseIssuer (oidc_issuer u) \<longrightarrow> granted_role u = None \<and> provider_role u \<noteq> Administrator)"

definition identity_of :: "user \<Rightarrow> string \<times> string" where
  "identity_of u = (oidc_issuer u, oidc_subject u)"

definition users_ok :: "user list \<Rightarrow> bool" where
  "users_ok us \<longleftrightarrow> distinct (map user_id us) \<and> distinct (map identity_of us) \<and> list_all user_ok us"

lemma user_ok_flags [simp]:
  "user_ok (u\<lparr>disabled_at := x\<rparr>) = user_ok u" "user_ok (u\<lparr>must_change_password := b\<rparr>) = user_ok u"
  "user_ok (u\<lparr>accepted_use_version := v\<rparr>) = user_ok u"
  "identity_of (u\<lparr>disabled_at := x\<rparr>) = identity_of u" "identity_of (u\<lparr>must_change_password := b\<rparr>) = identity_of u"
  "identity_of (u\<lparr>accepted_use_version := v\<rparr>) = identity_of u"
  by (simp_all add: user_ok_def identity_of_def)

lemma users_ok_upd:
  assumes "users_ok us"
    and "\<And>u. user_id (f u) = user_id u" and "\<And>u. identity_of (f u) = identity_of u"
    and "\<And>u. u \<in> set us \<Longrightarrow> P u \<Longrightarrow> user_ok u \<Longrightarrow> user_ok (f u)"
  shows "users_ok (upd_where P f us)"
proof -
  have "map user_id (upd_where P f us) = map user_id us" "map identity_of (upd_where P f us) = map identity_of us"
    using assms(2,3) by (simp_all add: map_upd_where_frame)
  then show ?thesis using assms(1,4) by (auto simp: users_ok_def list_all_iff set_upd_where)
qed

lemma found_user_ok: "users_ok (users d) \<Longrightarrow> find_user i d = Some u \<Longrightarrow> user_ok u \<and> user_id u = i"
  by (auto simp: users_ok_def find_user_def list_all_iff dest: find_row_Some)

lemma only_user:
  assumes "users_ok (users d)" "find_user i d = Some u" "v \<in> set (users d)" "user_id v = i"
  shows "v = u"
proof -
  have "u \<in> set (users d)" "user_id u = i" using assms(2) by (auto simp: find_user_def dest: find_row_Some)
  then show ?thesis using assms by (auto simp: users_ok_def distinct_map inj_on_def)
qed

lemma users_ok_append:
  assumes "users_ok (users d)" "user_ok u" "user_id u \<notin> user_id ` set (users d)"
    and "find_identity (oidc_issuer u) (oidc_subject u) d = None"
  shows "users_ok (users d @ [u])"
  using assms by (simp add: users_ok_def list_all_iff find_identity_def find_row_None identity_of_def image_iff)

lemma set_roles_keeps [simp]:
  "user_id (set_roles g r u) = user_id u" "identity_of (set_roles g r u) = identity_of u"
  "oidc_issuer (set_roles g r u) = oidc_issuer u" "disabled_at (set_roles g r u) = disabled_at u"
  "user_role (set_roles g r u) = r" "granted_role (set_roles g r u) = g" "provider_role (set_roles g r u) = provider_role u"
  by (simp_all add: set_roles_def identity_of_def)

lemma found_locked:
  assumes "find (\<lambda>u. user_id u = i) (locked_users i d) = Some u"
  shows "u \<in> set (users d)" "user_id u = i"
proof -
  have "u \<in> set (locked_users i d) \<and> user_id u = i" using assms by (auto simp: find_Some_iff)
  then show "u \<in> set (users d)" "user_id u = i" by (auto simp: locked_users_def)
qed

lemma put_roles_ok:
  assumes ok: "users_ok (users d)" and u: "u \<in> set (users d)" "user_id u = i" "user_ok (set_roles g r u)"
  shows "users_ok (users (update_user i (set_roles g r) d))"
proof -
  have "inj_on user_id (set (users d))" using ok by (simp add: users_ok_def distinct_map)
  then have "v = u" if "v \<in> set (users d)" "user_id v = i" for v
    using u(1,2) that by (simp add: inj_onD)
  then have "user_ok (set_roles g r v)" if "v \<in> set (users d)" "user_id v = i" for v using u(3) that by metis
  then show ?thesis unfolding update_user_frame by (intro users_ok_upd [OF ok]) simp_all
qed

lemma found_user_in: "find_user i d = Some u \<Longrightarrow> u \<in> set (users d) \<and> user_id u = i"
  by (auto simp: find_user_def dest: find_row_Some)

lemma grants_ok:
  assumes ok: "users_ok (users d)"
  shows "grantAdministrator i d = Inr (c, d') \<Longrightarrow> users_ok (users d')"
    and "grantInstructor i d = Inr (c, d') \<Longrightarrow> users_ok (users d')"
    and "revokeInstructor i d = Inr (c, d') \<Longrightarrow> users_ok (users d')"
    and "revokeAdministrator j i d = Inr (c, d') \<Longrightarrow> users_ok (users d')"
proof -
  note put = put_roles_ok [OF ok]
  assume "grantAdministrator i d = Inr (c, d')"
  then obtain u where u: "find_user i d = Some u" "\<not> isCourseIssuer (oidc_issuer u)"
    and d': "d' = d \<or> d' = update_user i (set_roles (Some Administrator) Administrator) d"
    by (auto simp: grantAdministrator_def split: option.splits if_splits)
  have "user_ok (set_roles (Some Administrator) Administrator u)" using u by (simp add: user_ok_def)
  then show "users_ok (users d')" using d' ok put found_user_in [OF u(1)] by blast
next
  assume "grantInstructor i d = Inr (c, d')"
  then obtain u where u: "find_user i d = Some u" "\<not> isCourseIssuer (oidc_issuer u)"
    and d': "d' = d \<or> user_role u = Student \<and> d' = update_user i (set_roles (Some Instructor) Instructor) d"
    by (auto simp: grantInstructor_def split: option.splits if_splits)
  have "provider_role u = Student" if "user_role u = Student"
    using found_user_ok [OF ok u(1)] that
    by (cases "granted_role u"; cases "provider_role u") (auto simp: user_ok_def effective_role_def max_def split: if_splits)
  then have "user_ok (set_roles (Some Instructor) Instructor u)" if "user_role u = Student"
    using u that by (simp add: user_ok_def)
  then show "users_ok (users d')" using d' ok put_roles_ok [OF ok] found_user_in [OF u(1)] by blast
next
  assume "revokeInstructor i d = Inr (c, d')"
  then obtain u where u: "find_user i d = Some u" and d': "d' = update_user i (set_roles None (provider_role u)) d"
    by (auto simp: revokeInstructor_def split: option.splits if_splits)
  have "user_ok (set_roles None (provider_role u) u)" using found_user_ok [OF ok u] by (simp add: user_ok_def)
  then show "users_ok (users d')" using d' put_roles_ok [OF ok] found_user_in [OF u] by blast
next
  assume "revokeAdministrator j i d = Inr (c, d')"
  then obtain u where u: "find (\<lambda>u. user_id u = i) (locked_users i d) = Some u"
    and d': "d' = update_user i (set_roles None (provider_role u)) d"
    by (auto simp: revokeAdministrator_def split: option.splits if_splits)
  have "user_ok u" using ok found_locked(1) [OF u] by (simp add: users_ok_def list_all_iff)
  then have "user_ok (set_roles None (provider_role u) u)" by (simp add: user_ok_def)
  then show "users_ok (users d')" using d' put_roles_ok [OF ok] found_locked [OF u] by blast
qed

lemma apply_role_ok:
  "users_ok (users d) \<Longrightarrow> apply_role act actorId i d = Inr (c, d') \<Longrightarrow> users_ok (users d')"
  by (cases act; simp only: apply_role.simps; blast intro: grants_ok)

lemma upserted_role_effective: "g \<noteq> Some Student \<Longrightarrow> upserted_role g p = effective_role g p"
  by (cases g; cases "the g"; cases p) (auto simp: upserted_role_def)

lemma refresh_user_keeps [simp]:
  "user_id (refresh_user idn r t u) = user_id u" "identity_of (refresh_user idn r t u) = identity_of u"
  "disabled_at (refresh_user idn r t u) = disabled_at u" "oidc_issuer (refresh_user idn r t u) = oidc_issuer u"
  "granted_role (refresh_user idn r t u) = granted_role u" "provider_role (refresh_user idn r t u) = r"
  "user_role (refresh_user idn r t u) = upserted_role (granted_role u) r"
  by (simp_all add: refresh_user_def identity_of_def)

text \<open>What a sign-in may give: administrators come from the provider of this site, never from a launch.\<close>

definition sign_in_ok :: "identity \<Rightarrow> user_role \<Rightarrow> bool" where
  "sign_in_ok idn role \<longleftrightarrow> (isCourseIssuer (id_issuer idn) \<longrightarrow> role \<noteq> Administrator)"

lemma new_user_simps [simp]:
  "user_id (new_user i idn r p g l) = i" "identity_of (new_user i idn r p g l) = (id_issuer idn, id_subject idn)"
  "oidc_issuer (new_user i idn r p g l) = id_issuer idn" "oidc_subject (new_user i idn r p g l) = id_subject idn"
  "user_role (new_user i idn r p g l) = r"
  "provider_role (new_user i idn r p g l) = p" "granted_role (new_user i idn r p g l) = g"
  "disabled_at (new_user i idn r p g l) = None"
  by (simp_all add: new_user_def identity_of_def)

lemma upsert_user_ok:
  assumes ok: "users_ok (users d)" and si: "sign_in_ok idn role"
    and fresh: "find_identity (id_issuer idn) (id_subject idn) d = None \<Longrightarrow> new_id \<notin> user_id ` set (users d)"
    and up: "upsert_user new_id idn role t d = (i, d')"
  shows "users_ok (users d')"
proof (cases "find_identity (id_issuer idn) (id_subject idn) d")
  case None
  then show ?thesis using assms None
    by (auto simp: upsert_user_def user_ok_def sign_in_ok_def intro!: users_ok_append)
next
  case (Some u)
  have "identity_of u = (id_issuer idn, id_subject idn)"
    using Some by (auto simp: find_identity_def identity_of_def dest: find_row_Some)
  moreover have "u \<in> set (users d)" using Some by (auto simp: find_identity_def dest: find_row_Some)
  ultimately have "oidc_issuer v = id_issuer idn" if "v \<in> set (users d)" "user_id v = user_id u" for v
    using ok that by (auto simp: users_ok_def distinct_map inj_on_def identity_of_def)
  then have "users_ok (upd_where (\<lambda>v. user_id v = user_id u) (refresh_user idn role t) (users d))"
    using si by (intro users_ok_upd [OF ok])
      (auto simp: user_ok_def sign_in_ok_def upserted_role_effective)
  then show ?thesis using Some up by (auto simp: upsert_user_def)
qed

lemma claim_row_ok:
  assumes ok: "users_ok (users (core a))" and idn: "\<not> isCourseIssuer (id_issuer idn)"
    and fresh: "new_id \<notin> user_id ` set (users (core a))"
    and claim: "claim_row c new_id idn prov t a = Inr (r, a')"
  shows "users_ok (users (core a'))"
proof -
  have "user_ok (new_user new_id idn (higher Student prov) prov None None)"
    "x \<noteq> Student \<Longrightarrow> user_ok (new_user new_id idn (higher x prov) prov (Some x) None)" for x
    using idn by (simp_all add: user_ok_def higher_max effective_role_def max.commute)
  then show ?thesis using assms
    by (auto simp: claim_row_def Let_def split: option.splits if_splits intro!: users_ok_append)
qed

lemma DEX_not_course: "\<not> isCourseIssuer DEX_ACCOUNT_ISSUER"
  by (simp add: DEX_ACCOUNT_ISSUER_def isCourseIssuer_def startsWith_def)

lemma precreate_ok:
  assumes ok: "users_ok (users d)" and fresh: "new_id \<notin> user_id ` set (users d)"
    and pre: "precreateDexAccount new_id dexId mail un name role must d = Some (i, d')"
  shows "users_ok (users d')" "i = new_id"
proof -
  have "user_ok (new_user new_id \<lparr>id_issuer = DEX_ACCOUNT_ISSUER, id_subject = s, id_email = e, id_display_name = n,
      id_preferred_username = p\<rparr> role Student (if role = Student then None else Some role) None)" for s e n p
    using DEX_not_course by (cases role) (simp_all add: user_ok_def effective_role_def)
  then show "users_ok (users d')" "i = new_id" using assms
    by (auto simp: precreateDexAccount_def split: option.splits if_splits intro!: users_ok_append)
qed

lemma restore_admin_ok:
  assumes "users_ok (users (core a))" "local_admin_account a = Some u"
  shows "users_ok (upd_where (\<lambda>v. user_id v = user_id u) restore_admin (users (core a)))"
proof -
  have "identity_of u = (DEX_ACCOUNT_ISSUER, the (dexLocalSubject LOCAL_ADMIN_USER_ID))" "u \<in> set (users (core a))"
    using assms(2) by (auto simp: local_admin_account_def find_identity_def identity_of_def split: option.splits
        dest: find_row_Some)
  then have "oidc_issuer v = DEX_ACCOUNT_ISSUER" if "v \<in> set (users (core a))" "user_id v = user_id u" for v
    using assms(1) that by (auto simp: users_ok_def distinct_map inj_on_def identity_of_def)
  then show ?thesis
    using DEX_not_course
    by (intro users_ok_upd [OF assms(1)]) (auto simp: restore_admin_def identity_of_def user_ok_def)
qed

end
