(* ===== verification/Auth_Gate.thy ===== *)
theory Auth_Gate
  imports Sessions Rate_Limit
begin

text \<open>
  What every request passes before its route (\<open>packages/auth/src/plugin.ts\<close>): the origin checks, the
  session behind the cookie with the guard of made-up cookies asked before and after
  (\<open>apps/api/src/rate-limit.ts\<close>), deny by default, and the gates a signed-in account owes. The route
  is the one Fastify matched, absent when there is none; the clock is read three times.
\<close>

section \<open>Headers\<close>

datatype header_value = OneValue string | ValueList "string list"

type_synonym headers = "(string \<times> header_value) list"

definition headerValue :: "headers \<Rightarrow> string \<Rightarrow> string option" where
  "headerValue hs name =
     (case map_of hs name of
        Some (OneValue v) \<Rightarrow> Some v
      | Some (ValueList (v # _)) \<Rightarrow> Some v
      | _ \<Rightarrow> None)"

definition checkCsrf :: "headers \<Rightarrow> string \<Rightarrow> bool" where
  "checkCsrf hs publicOrigin \<longleftrightarrow>
     (case headerValue hs ''sec-fetch-site'' of
        Some site \<Rightarrow> site = ''same-origin'' \<or> site = ''none''
      | None \<Rightarrow> headerValue hs ''origin'' = Some publicOrigin)"

definition checkWsOrigin :: "headers \<Rightarrow> string \<Rightarrow> bool" where
  "checkWsOrigin hs publicOrigin \<longleftrightarrow> headerValue hs ''origin'' = Some publicOrigin"

section \<open>Routes\<close>

record api_request =
  req_method :: string
  route_url :: "string option"
  req_headers :: headers
  session_cookie :: "string option"
  client_key :: string

definition STATE_CHANGING :: "string list" where
  "STATE_CHANGING = [''POST'', ''PUT'', ''PATCH'', ''DELETE'']"

definition DEX_PASSWORD_ROUTE :: string where "DEX_PASSWORD_ROUTE = ''/dex/auth/*''"

definition isCsrfExempt :: "api_request \<Rightarrow> bool" where
  "isCsrfExempt r \<longleftrightarrow>
     req_method r = ''POST'' \<and> (route_url r = Some ''/lti/login'' \<or> route_url r = Some ''/lti/launch'')"

definition isExempt :: "api_request \<Rightarrow> bool" where
  "isExempt r \<longleftrightarrow>
     (case route_url r of
        None \<Rightarrow> False
      | Some url \<Rightarrow>
          url \<noteq> [] \<and>
          (req_method r = ''GET'' \<and> url = ''/health'' \<or>
           startsWith url ''/auth/'' \<or>
           url = ''/lti/login'' \<or> url = ''/lti/launch'' \<or> url = ''/lti/jwks'' \<or>
           req_method r = ''POST'' \<and> url = ''/lti/deep-link'' \<or>
           req_method r = ''POST'' \<and> url = DEX_PASSWORD_ROUTE \<or>
           req_method r = ''GET'' \<and> startsWith url ''/__portikus/'' \<or>
           req_method r = ''GET'' \<and> url = ''/preview/authorize''))"

section \<open>Gates\<close>

datatype gate_code = SECOND_FACTOR_REQUIRED | PASSWORD_CHANGE_REQUIRED | ACCEPTABLE_USE_REQUIRED

record gate =
  gate_code :: gate_code
  gate_message :: string
  gate_holds :: "session_user \<Rightarrow> bool"
  gate_allows :: "string list"

definition SECOND_FACTOR_ROUTES :: "string list" where
  "SECOND_FACTOR_ROUTES =
     [''GET /me/second-factor'', ''POST /me/second-factor/totp/start'', ''POST /me/second-factor/totp'',
      ''POST /me/second-factor/verify'', ''POST /me/second-factor/webauthn/start'', ''POST /me/second-factor/webauthn'',
      ''POST /me/second-factor/webauthn/verify/start'', ''POST /me/second-factor/webauthn/verify'']"

definition GATES :: "gate list" where
  "GATES =
     [\<lparr>gate_code = SECOND_FACTOR_REQUIRED, gate_message = ''Enter a code from your authenticator app to continue.'',
       gate_holds = (\<lambda>u. su_second_factor u = Some VerifyFirst), gate_allows = SECOND_FACTOR_ROUTES\<rparr>,
      \<lparr>gate_code = PASSWORD_CHANGE_REQUIRED, gate_message = ''Choose a new password to continue.'',
       gate_holds = mustChangePassword, gate_allows = [''POST /me/password'']\<rparr>,
      \<lparr>gate_code = SECOND_FACTOR_REQUIRED, gate_message = ''Set up two-step sign-in to continue.'',
       gate_holds = (\<lambda>u. su_second_factor u = Some EnrolFirst), gate_allows = SECOND_FACTOR_ROUTES\<rparr>,
      \<lparr>gate_code = ACCEPTABLE_USE_REQUIRED, gate_message = ''Accept the acceptable-use statement to continue.'',
       gate_holds = mustAcceptUse, gate_allows = [''GET /me/acceptable-use'', ''POST /me/acceptable-use'']\<rparr>]"

definition firstGate :: "session_user \<Rightarrow> gate option" where
  "firstGate u = find (\<lambda>g. gate_holds g u) GATES"

text \<open>A template string prints an absent route as \<open>undefined\<close>.\<close>

definition route_name :: "api_request \<Rightarrow> string" where
  "route_name r = req_method r @ '' '' @ nullish (route_url r) ''undefined''"

definition passesGate :: "api_request \<Rightarrow> gate \<Rightarrow> bool" where
  "passesGate r g \<longleftrightarrow> isExempt r \<or> route_name r \<in> set (gate_allows g)"

definition sessionGate :: "session_user \<Rightarrow> (gate_code \<times> string) option" where
  "sessionGate u = map_option (\<lambda>g. (gate_code g, gate_message g)) (firstGate u)"

section \<open>The hook\<close>

datatype hook_answer =
    OriginRefused | TooManyRequests | AuthenticationRequired | GateRefused gate_code | Proceeds "session_user option"

type_synonym gate_state = "session_guard \<times> auth_db"

definition guard_through :: "limit_answer \<Rightarrow> bool" where
  "guard_through x \<longleftrightarrow> x = Through"

text \<open>The user behind the cookie: \<open>None\<close> when the guard answered the request.\<close>

definition resolveSession ::
  "(string \<Rightarrow> string) \<Rightarrow> (string \<Rightarrow> string) \<Rightarrow> api_request \<Rightarrow> string \<Rightarrow> millis \<Rightarrow> millis \<Rightarrow> millis \<Rightarrow> gate_state \<Rightarrow>
    session_user option option \<times> gate_state" where
  "resolveSession hash missKey r token t1 t2 t3 s =
     (let anonymous = isAnonymousRoute (req_method r) (route_url r)
      in case beforeLookup missKey anonymous (client_key r) token t1 t2 (fst s) of
        (before, g) \<Rightarrow>
          if \<not> guard_through before then (None, (g, snd s))
          else case loadSession hash token t2 (snd s) of
            (Some u, a) \<Rightarrow> (Some (Some u), (g, a))
          | (None, a) \<Rightarrow>
              (case unknownSession missKey anonymous (client_key r) token t2 t3 g of
                 (after, g) \<Rightarrow> (if guard_through after then Some None else None, (g, a))))"

definition isUpgrade :: "api_request \<Rightarrow> bool" where
  "isUpgrade r \<longleftrightarrow> map_option toLowerCase (headerValue (req_headers r) ''upgrade'') = Some ''websocket''"

definition origin_refused :: "string \<Rightarrow> api_request \<Rightarrow> bool" where
  "origin_refused publicOrigin r \<longleftrightarrow>
     (if isUpgrade r then \<not> checkWsOrigin (req_headers r) publicOrigin
      else req_method r \<in> set STATE_CHANGING \<and> \<not> isCsrfExempt r \<and> \<not> checkCsrf (req_headers r) publicOrigin)"

definition authPlugin ::
  "string \<Rightarrow> (string \<Rightarrow> string) \<Rightarrow> (string \<Rightarrow> string) \<Rightarrow> api_request \<Rightarrow> millis \<Rightarrow> millis \<Rightarrow> millis \<Rightarrow> gate_state \<Rightarrow>
    hook_answer \<times> gate_state" where
  "authPlugin publicOrigin hash missKey r t1 t2 t3 s =
     (if origin_refused publicOrigin r then (OriginRefused, s)
      else case (case session_cookie r of
                   None \<Rightarrow> (Some None, s)
                 | Some token \<Rightarrow>
                     if token = [] then (Some None, s) else resolveSession hash missKey r token t1 t2 t3 s) of
        (None, s) \<Rightarrow> (TooManyRequests, s)
      | (Some user, s) \<Rightarrow>
          (if user = None \<and> \<not> isExempt r then AuthenticationRequired
           else case Option.bind user firstGate of
             None \<Rightarrow> Proceeds user
           | Some g \<Rightarrow> if passesGate r g then Proceeds user else GateRefused (gate_code g), s))"

text \<open>\<open>requireRole\<close>, the pre-handler of a route for one role: whether it lets the request on.\<close>

definition requireRole :: "user_role \<Rightarrow> session_user option \<Rightarrow> bool" where
  "requireRole role u \<longleftrightarrow> map_option auth_role u = Some role"

end
