(* ===== verification/Auth_Steps.thy ===== *)
theory Auth_Steps
  imports Auth_Users
begin

text \<open>
  Sign-in as one system: every transaction or statement that writes the tables of \<open>Auth_Db\<close> is a step
  with an event. What a handler read before (a candidate invitation, the account a callback found, the
  time it noted) is arbitrary here, so every interleaving of the handlers is a run of these steps. A new
  id is one its table does not hold, as a primary key promises.
\<close>

section \<open>Steps\<close>

datatype auth_event =
    Bookkeeping
  | RoleSet role_action
  | AccountDisabled uuid | AccountEnabled uuid
  | InvitationMade uuid | InvitationClaimed uuid | InvitationRevoked uuid
  | SignedInAs uuid
  | SessionStarted string | SessionsEnded
  | IntentSaved string | IntentBound string | Confirmed string confirm_outcome
  | AdminLinked uuid uuid | LinkRemoved uuid uuid
  | StepUsed uuid int | CodeUsed uuid string | FactorMarked string
  | FactorStored uuid uuid | CodesWritten uuid | FactorsReset uuid | FactorLost uuid
  | AccountMade uuid | AdminRestored
  | PasswordReset uuid | PasswordChanged uuid
  | EmailLinkSent string | EmailLinkUsed string

definition user_ids :: "auth_db \<Rightarrow> uuid set" where
  "user_ids a = user_id ` set (users (core a))"

inductive auth_step :: "auth_event \<Rightarrow> auth_db \<Rightarrow> auth_db \<Rightarrow> bool" where
  audited: "auth_step Bookkeeping a (auth_audit e a)"
| member: "auth_step Bookkeeping a (recordMembership course r i t a)"
| accepted: "accept_use i v a = Some a' \<Longrightarrow> auth_step Bookkeeping a a'"
| renamed: "rename_factor su s i label a = (ans, a') \<Longrightarrow> auth_step Bookkeeping a a'"
| superseded: "auth_step Bookkeeping a (supersedeAccountEmailTokens i p k t a)"
| revoked: "auth_step Bookkeeping a (revokeAccountEmailTokens i t a)"
| pruned: "auth_step Bookkeeping a (pruneEndedAccountEmailTokens t a)"
| role_set: "role_transaction act adm i meta a = (ans, a') \<Longrightarrow> auth_step (RoleSet act) a a'"
| disabled:
    "extra = Some \<or> extra = remove_transaction adm i dex meta \<Longrightarrow>
     disable_transaction adm i before t meta extra a = Some (Inr a') \<Longrightarrow> auth_step (AccountDisabled i) a a'"
| enabled: "enable_user adm i t meta a = Some a' \<Longrightarrow> auth_step (AccountEnabled i) a a'"
| invited:
    "v \<notin> inv_id ` set (invitations a) \<Longrightarrow>
     createInvitation v adm mail un name r t meta a = Some a' \<Longrightarrow> auth_step (InvitationMade v) a a'"
| uninvited: "revoke_invitation adm v t meta a = Some a' \<Longrightarrow> auth_step (InvitationRevoked v) a a'"
| claimed:
    "\<not> isCourseIssuer (id_issuer idn) \<Longrightarrow> i \<notin> user_ids a \<Longrightarrow>
     claim_row v i idn prov t a = Inr (Some i', a') \<Longrightarrow> auth_step (InvitationClaimed v) a a'"
| signed_in:
    "sign_in_ok (si_identity si) (si_role si) \<Longrightarrow>
     (find_identity (id_issuer (si_identity si)) (id_subject (si_identity si)) (core a) = None \<Longrightarrow> i \<notin> user_ids a) \<Longrightarrow>
     upsert_step i si t a = (j, off, a') \<Longrightarrow> auth_step (SignedInAs j) a a'"
| started:
    "s \<notin> sess_id ` set (sessions a) \<Longrightarrow> i \<in> user_ids a \<Longrightarrow>
     auth_step (SessionStarted s) a (createSession s i ttl origin t a)"
| loaded: "auth_step SessionsEnded a (snd (loadSessionById s t a))"
| logged_out: "auth_step SessionsEnded a (deleteSession s a)"
| all_ended: "auth_step SessionsEnded a (endSessions i t a)"
| intent_saved:
    "h \<notin> intent_state_hash ` set (link_intents a) \<Longrightarrow> s \<in> sess_id ` set (sessions a) \<Longrightarrow>
     auth_step (IntentSaved s) a (saveLinkIntent h s course t a)"
| intent_bound: "bindLinkIntent h s i t a = (b, a') \<Longrightarrow> auth_step (IntentBound s) a a'"
| confirmed:
    "confirm_transaction s pending platformName meta t a = (outcome, a') \<Longrightarrow> auth_step (Confirmed s outcome) a a'"
| admin_linked: "admin_link course sso t a = Inr (fin, a') \<Longrightarrow> auth_step (AdminLinked course sso) a a'"
| unlinked: "unlinkAccount sso course t a = Some (fin, a') \<Longrightarrow> auth_step (LinkRemoved course sso) a a'"
| step_used: "use_step f n t a = (True, a') \<Longrightarrow> auth_step (StepUsed f n) a a'"
| code_used:
    "useRecoveryCode hash i given t a = (Passed way, a') \<Longrightarrow>
     auth_step (CodeUsed i (hash (normalRecoveryCode given))) a a'"
| marked: "auth_step (FactorMarked s) a (markSecondFactorPassed s t a)"
| stored:
    "f \<notin> factor_id ` set (second_factors a) \<Longrightarrow>
     auth_step (FactorStored f (nf_user_id nf)) a (storeFactor f hashes nf t a)"
| codes_written: "replaceRecoveryCodes i hashes who meta a = Some a' \<Longrightarrow> auth_step (CodesWritten i) a a'"
| factors_reset: "auth_step (FactorsReset i) a (resetSecondFactor i who a)"
| factor_lost: "remove_factor i f meta a = (ans, a') \<Longrightarrow> auth_step (FactorLost f) a a'"
| account_made:
    "i \<notin> user_ids a \<Longrightarrow>
     createDexAccount i dexId adm mail un name r dex meta a = (AccountDone, a') \<Longrightarrow> auth_step (AccountMade i) a a'"
| admin_restored:
    "i \<notin> user_ids a \<Longrightarrow> resetLocalAdmin i ifMissing mail dex t a = Inr (Some a') \<Longrightarrow> auth_step AdminRestored a a'"
| password_reset:
    "reset_password_route adm i listed dex nid date meta t a = (ans, a') \<Longrightarrow> auth_step (PasswordReset i) a a'"
| factor_reset_by_admin:
    "reset_second_factor_route adm i listed nid date meta t a = (rans, a') \<Longrightarrow> auth_step (FactorsReset i) a a'"
| password_changed: "password_changed i s dex meta t a = Some a' \<Longrightarrow> auth_step (PasswordChanged i) a a'"
| link_sent:
    "h \<notin> tok_hash ` set (email_tokens a) \<Longrightarrow> auth_step (EmailLinkSent h) a (issueAccountEmailToken k h i p t a)"
| link_used:
    "complete_reset hash token listed dex meta t a = Some (Some i, a') \<Longrightarrow> auth_step (EmailLinkUsed (hash token)) a a'"

text \<open>A run: the events in order.\<close>

fun event_run :: "('e \<Rightarrow> 's \<Rightarrow> 's \<Rightarrow> bool) \<Rightarrow> 'e list \<Rightarrow> 's \<Rightarrow> 's \<Rightarrow> bool" where
  "event_run step [] s t \<longleftrightarrow> t = s"
| "event_run step (e # es) s u \<longleftrightarrow> (\<exists>t. step e s t \<and> event_run step es t u)"

lemma event_run_append:
  "event_run step (es @ fs) s u \<longleftrightarrow> (\<exists>t. event_run step es s t \<and> event_run step fs t u)"
  by (induction es arbitrary: s) auto

abbreviation auth_run :: "auth_event list \<Rightarrow> auth_db \<Rightarrow> auth_db \<Rightarrow> bool" where
  "auth_run \<equiv> event_run auth_step"

end
