(* ===== verification/Auth_Invariants.thy ===== *)
theory Auth_Invariants
  imports Auth_Steps
begin

text \<open>
  What every step of sign-in keeps: accounts in order (\<open>Auth_Users\<close>), no user removed or given another
  identity, unique columns unique, and links flat: a course account is linked once, to an account of
  this site's own provider, and such an account has one link per platform.
\<close>

section \<open>Emailed links\<close>

definition link_hit :: "string \<Rightarrow> email_purpose \<Rightarrow> millis \<Rightarrow> email_token \<Rightarrow> bool" where
  "link_hit h p t k \<longleftrightarrow> tok_hash k = h \<and> tok_purpose k = p \<and> live_token k \<and> t < tok_expires_at k"

definition use_links :: "string \<Rightarrow> email_purpose \<Rightarrow> millis \<Rightarrow> email_token list \<Rightarrow> email_token list" where
  "use_links h p t ks = upd_where (link_hit h p t) (\<lambda>k. k\<lparr>tok_used_at := Some t\<rparr>) ks"

lemma use_links_none: "find (link_hit h p t) ks = None \<Longrightarrow> use_links h p t ks = ks"
  by (simp add: use_links_def find_None_iff upd_where_none)

lemma consumed:
  "consumeAccountEmailToken hash token p t a =
    (if TOKEN_SHAPE token
     then (map_option (\<lambda>k. (tok_id k, tok_user_id k)) (find (link_hit (hash token) p t) (email_tokens a)),
           a\<lparr>email_tokens := use_links (hash token) p t (email_tokens a)\<rparr>)
     else (None, a))"
  by (simp add: consumeAccountEmailToken_def Let_def use_links_def link_hit_def [abs_def])

lemma complete_reset_shape:
  assumes "complete_reset hash token listed dex meta t a = Some (Some i, a')"
  obtains p n where "\<exists>k\<in>set (email_tokens a). link_hit (hash token) p t k" "find_user i (core a) \<noteq> None"
    "a' = auth_audit (audit (actor_of i) i ''user.password_reset_by_email'' ResOk n)
       (let b = revokeAccountEmailTokens i t (endSessions i t
                  (a\<lparr>email_tokens := use_links (hash token) p t (email_tokens a)\<rparr>))
        in b\<lparr>core := update_user i (\<lambda>u. u\<lparr>must_change_password := False\<rparr>) (core a)\<rparr>)"
proof -
  have found: "\<exists>k\<in>set ks. link_hit h p t k" if "find (link_hit h p t) ks = Some k" for h p ks k
    using that by (auto simp: find_Some_iff)
  show ?thesis using assms
    by (auto simp: complete_reset_def consumed use_links_none Let_def endSessions_def
        split: option.splits if_splits prod.splits intro: that dest!: found)
qed

section \<open>Accounts\<close>

definition who_is :: "user \<Rightarrow> uuid \<times> string \<times> string" where
  "who_is u = (user_id u, oidc_issuer u, oidc_subject u)"

definition idents :: "db \<Rightarrow> (uuid \<times> string \<times> string) list" where
  "idents d = map who_is (users d)"

lemma who_is_keeps [simp]:
  "who_is (set_roles g r u) = who_is u" "who_is (refresh_user idn r t u) = who_is u" "who_is (restore_admin u) = who_is u"
  "who_is (u\<lparr>disabled_at := x\<rparr>) = who_is u" "who_is (u\<lparr>must_change_password := b\<rparr>) = who_is u"
  "who_is (u\<lparr>accepted_use_version := v\<rparr>) = who_is u"
  by (simp_all add: who_is_def set_roles_def refresh_user_def restore_admin_def)

lemma idents_update [simp]: "(\<And>u. who_is (f u) = who_is u) \<Longrightarrow> idents (update_user i f d) = idents d"
  by (simp add: idents_def map_upd_where_frame)

lemma notify_users [simp]: "users (notifyCredentialReset n i kind date tm d) = users d"
  by (simp add: notifyCredentialReset_def Let_def)

lemma idents_frame [simp]:
  "idents (recordAudit e d) = idents d" "idents (update_workspaces P g d) = idents d"
  "idents (recordNotification n c u t x k d) = idents d" "idents (notifyCredentialReset n i kind date tm d) = idents d"
  "idents (d\<lparr>users := users d @ us\<rparr>) = idents d @ map who_is us"
  by (simp_all add: idents_def)

lemma same_users_idents: "users d' = users d \<Longrightarrow> \<exists>us. idents d' = idents d @ us"
  by (simp add: idents_def)

lemma upd_users_idents:
  "users d' = upd_where P (\<lambda>u. u\<lparr>must_change_password := b\<rparr>) (users d) \<Longrightarrow> \<exists>us. idents d' = idents d @ us"
  by (simp add: idents_def map_upd_where_frame)

lemma apply_role_idents: "apply_role act who i d = Inr (c, d') \<Longrightarrow> idents d' = idents d"
  by (cases act) (auto simp: grantAdministrator_def revokeAdministrator_def grantInstructor_def revokeInstructor_def
      split: option.splits if_splits)

lemma upsert_idents: "upsert_user n idn r t d = (i, d') \<Longrightarrow> \<exists>us. idents d' = idents d @ us"
  by (auto simp: upsert_user_def split: option.splits)

lemma precreate_idents: "precreateDexAccount n dx mail un name r must d = Some (i, d') \<Longrightarrow> \<exists>us. idents d' = idents d @ us"
  by (auto simp: precreateDexAccount_def split: option.splits if_splits)

section \<open>What the steps leave alone\<close>

lemma subseq_distinct_map: "subseq xs ys \<Longrightarrow> distinct (map g ys) \<Longrightarrow> distinct (map g xs)"
proof (induction rule: list_emb.induct)
  case (list_emb_Cons2 x y xs ys)
  then show ?case by (auto dest: list_emb_set)
qed simp_all

text \<open>A table with rows deleted is a subsequence of what it was.\<close>

lemma map_filter_subseq [simp]: "subseq (map g (filter P xs)) (map g xs)"
  by (simp add: subseq_map)

lemma map_filter_upd_subseq [simp]:
  "(\<And>r. g (f r) = g r) \<Longrightarrow> subseq (map g (filter P (upd_where Q f xs))) (map g xs)"
  using map_filter_subseq [of g P "upd_where Q f xs"] by (simp add: map_upd_where_frame)

lemma subseq_distinct: "subseq xs ys \<Longrightarrow> distinct ys \<Longrightarrow> distinct xs"
  using subseq_distinct_map [of xs ys "\<lambda>x. x"] by simp

lemma delete_sessions_intents [simp]: "subseq (link_intents a) ns \<Longrightarrow> subseq (link_intents (delete_sessions P a)) ns"
  using subseq_order.order_trans [OF subseq_filter_left] by (simp add: delete_sessions_def Let_def)

lemma endSessions_frame [simp]:
  "core (endSessions i t a) = core a" "sessions (endSessions i t a) = filter (\<lambda>s. sess_user_id s \<noteq> i) (sessions a)"
  "second_factors (endSessions i t a) = second_factors a" "recovery_codes (endSessions i t a) = recovery_codes a"
  "account_links (endSessions i t a) = account_links a" "invitations (endSessions i t a) = invitations a"
  "email_tokens (endSessions i t a) = email_tokens a"
  "subseq (link_intents a) ns \<Longrightarrow> subseq (link_intents (endSessions i t a)) ns"
  by (simp_all add: endSessions_def)

lemma resetSecondFactor_frame [simp]:
  "core (resetSecondFactor i who a) = recordAudit (audit who i ''auth.second_factor_reset'' ResOk (Some [])) (core a)"
  "second_factors (resetSecondFactor i who a) = filter (\<lambda>f. factor_user_id f \<noteq> i) (second_factors a)"
  "recovery_codes (resetSecondFactor i who a) = filter (\<lambda>r. rec_user_id r \<noteq> i) (recovery_codes a)"
  "sessions (resetSecondFactor i who a) =
    upd_where (\<lambda>s. sess_user_id s = i) (\<lambda>s. s\<lparr>second_factor_at := None\<rparr>) (sessions a)"
  "account_links (resetSecondFactor i who a) = account_links a" "invitations (resetSecondFactor i who a) = invitations a"
  "email_tokens (resetSecondFactor i who a) = email_tokens a" "link_intents (resetSecondFactor i who a) = link_intents a"
  by (simp_all add: resetSecondFactor_def)

lemma createSession_tables [simp]:
  "sessions (createSession n i ttl m t a) = filter (\<lambda>s. \<not> sess_expires_at s < t) (sessions a) @
    [\<lparr>sess_id = n, sess_user_id = i, sess_created_at = t, sess_expires_at = t + ttl * 1000,
      sess_method = origin_method m, sess_course_user_id = origin_course_user m, second_factor_at = None\<rparr>]"
  "subseq (link_intents a) ns \<Longrightarrow> subseq (link_intents (createSession n i ttl m t a)) ns"
  by (simp_all add: createSession_def Let_def)

lemma revoke_tokens_table [simp]:
  "email_tokens (revokeAccountEmailTokens i t a) =
    upd_where (\<lambda>k. tok_user_id k = i \<and> live_token k) (\<lambda>k. k\<lparr>tok_revoked_at := Some t\<rparr>) (email_tokens a)"
  by (simp add: revokeAccountEmailTokens_def)

text \<open>The transactions with many branches, seen from the tables they write.\<close>

lemma role_shape:
  "role_transaction act who i meta a = (ans, a') \<Longrightarrow>
    sessions a' = sessions a \<and> second_factors a' = second_factors a \<and> recovery_codes a' = recovery_codes a \<and>
    account_links a' = account_links a \<and> link_intents a' = link_intents a \<and> invitations a' = invitations a \<and>
    email_tokens a' = email_tokens a \<and> idents (core a') = idents (core a)"
  by (auto simp: role_transaction_def split: sum.splits prod.splits if_splits dest: apply_role_idents)

lemma disable_shape:
  "extra = Some \<or> extra = remove_transaction adm i dex meta \<Longrightarrow>
   disable_transaction adm i before t meta extra a = Some (Inr a') \<Longrightarrow>
    sessions a' = filter (\<lambda>s. sess_user_id s \<noteq> i) (sessions a) \<and> subseq (link_intents a') (link_intents a) \<and>
    email_tokens a' = email_tokens (revokeAccountEmailTokens i t a) \<and>
    second_factors a' = second_factors a \<and> recovery_codes a' = recovery_codes a \<and>
    account_links a' = account_links a \<and> invitations a' = invitations a \<and> idents (core a') = idents (core a)"
  by (auto simp: disable_transaction_def remove_transaction_def Let_def
      split: if_splits)

lemma confirm_shape:
  "confirm_transaction s pending pn meta t a = (outcome, a') \<Longrightarrow>
    subseq (map sess_id (sessions a')) (map sess_id (sessions a)) \<and> subseq (link_intents a') (link_intents a) \<and>
    second_factors a' = second_factors a \<and> recovery_codes a' = recovery_codes a \<and>
    invitations a' = invitations a \<and> email_tokens a' = email_tokens a \<and> users (core a') = users (core a)"
  by (auto simp: confirm_transaction_def consumeLinkIntent_def linkAccounts_def Let_def
      split: option.splits sum.splits if_splits)

lemma link_shape:
  "linkAccounts course sso t a = Inr (fin, a') \<Longrightarrow>
    subseq (map sess_id (sessions a')) (map sess_id (sessions a)) \<and> subseq (link_intents a') (link_intents a) \<and>
    second_factors a' = second_factors a \<and> recovery_codes a' = recovery_codes a \<and>
    invitations a' = invitations a \<and> email_tokens a' = email_tokens a \<and> users (core a') = users (core a)"
  by (auto simp: linkAccounts_def Let_def split: option.splits)

lemma claim_shape:
  "claim_row v i idn prov t a = Inr (Some i', a') \<Longrightarrow>
    sessions a' = sessions a \<and> second_factors a' = second_factors a \<and> recovery_codes a' = recovery_codes a \<and>
    account_links a' = account_links a \<and> link_intents a' = link_intents a \<and> email_tokens a' = email_tokens a \<and>
    invitations a' = upd_where (\<lambda>x. inv_id x = v) (\<lambda>x. x\<lparr>inv_claimed_at := Some t, inv_claimed_by := Some i\<rparr>) (invitations a) \<and>
    (\<exists>x\<in>set (invitations a). inv_id x = v \<and> waiting x) \<and> (\<exists>us. idents (core a') = idents (core a) @ us)"
  by (auto simp: claim_row_def Let_def find_Some_iff split: option.splits if_splits)

lemma upsert_shape:
  "upsert_step i si t a = (j, off, a') \<Longrightarrow>
    sessions a' = sessions a \<and> second_factors a' = second_factors a \<and> recovery_codes a' = recovery_codes a \<and>
    account_links a' = account_links a \<and> link_intents a' = link_intents a \<and> invitations a' = invitations a \<and>
    email_tokens a' = email_tokens a \<and> (\<exists>us. idents (core a') = idents (core a) @ us)"
  by (auto simp: upsert_step_def role_changed_audit_def Let_def split: prod.splits option.splits if_splits
      dest: upsert_idents)

lemma reset_admin_shape:
  "resetLocalAdmin n ifMissing mail dex t a = Inr (Some a') \<Longrightarrow>
    subseq (map sess_id (sessions a')) (map sess_id (sessions a)) \<and>
    subseq (link_intents a') (link_intents a) \<and> subseq (second_factors a') (second_factors a) \<and>
    subseq (recovery_codes a') (recovery_codes a) \<and>
    account_links a' = account_links a \<and> invitations a' = invitations a \<and> email_tokens a' = email_tokens a \<and>
    (\<exists>us. idents (core a') = idents (core a) @ us)"
  by (auto simp: resetLocalAdmin_def Let_def
      split: option.splits bool.splits if_splits dest!: precreate_idents)

lemma password_route_shape:
  "reset_password_route adm i listed dex nid date meta t a = (ans, a') \<Longrightarrow>
    subseq (map sess_id (sessions a')) (map sess_id (sessions a)) \<and> subseq (link_intents a') (link_intents a) \<and>
    (email_tokens a' = email_tokens a \<or> email_tokens a' = email_tokens (revokeAccountEmailTokens i t a)) \<and>
    second_factors a' = second_factors a \<and> recovery_codes a' = recovery_codes a \<and>
    account_links a' = account_links a \<and> invitations a' = invitations a \<and> 
    (users (core a') = users (core a) \<or>
     users (core a') = upd_where (\<lambda>u. user_id u = i) (\<lambda>u. u\<lparr>must_change_password := True\<rparr>) (users (core a)))"
  by (auto simp: reset_password_route_def refuseInstallAdminChange_def
      Let_def split: option.splits if_splits found_password.splits dex_answer.splits
     )

lemma factor_route_shape:
  "reset_second_factor_route adm i listed nid date meta t a = (ans, a') \<Longrightarrow>
    subseq (map sess_id (sessions a')) (map sess_id (sessions a)) \<and>
    subseq (link_intents a') (link_intents a) \<and> subseq (second_factors a') (second_factors a) \<and>
    subseq (recovery_codes a') (recovery_codes a) \<and>
    (email_tokens a' = email_tokens a \<or> email_tokens a' = email_tokens (revokeAccountEmailTokens i t a)) \<and>
    account_links a' = account_links a \<and> invitations a' = invitations a \<and> users (core a') = users (core a)"
  by (auto simp: reset_second_factor_route_def refuseInstallAdminChange_def
      Let_def
      split: option.splits if_splits found_password.splits)

lemma account_shape:
  "createDexAccount n dexId adm mail un name r dex meta a = (AccountDone, a') \<Longrightarrow>
    sessions a' = sessions a \<and> second_factors a' = second_factors a \<and> recovery_codes a' = recovery_codes a \<and>
    account_links a' = account_links a \<and> link_intents a' = link_intents a \<and> invitations a' = invitations a \<and>
    email_tokens a' = email_tokens a \<and> (\<exists>us. idents (core a') = idents (core a) @ us)"
  by (auto simp: createDexAccount_def Let_def split: option.splits dex_answer.splits dest!: precreate_idents)

lemmas step_defs = accept_use_def rename_factor_def supersedeAccountEmailTokens_def
  pruneEndedAccountEmailTokens_def enable_user_def createInvitation_def revoke_invitation_def loadSessionById_def
  deleteSession_def saveLinkIntent_def bindLinkIntent_def admin_link_def unlinkAccount_def
  use_step_def useRecoveryCode_def markSecondFactorPassed_def mark_session_def storeFactor_def writeRecoveryCodes_def
  replaceRecoveryCodes_def remove_factor_def password_changed_def issueAccountEmailToken_def
  recordMembership_def use_links_def Let_def
lemmas step_splits = option.splits if_splits prod.splits
lemmas disable_shapes = disable_shape [OF disjI1, OF refl] disable_shape [OF disjI2, OF refl]
lemmas step_shapes = role_shape disable_shapes confirm_shape link_shape claim_shape upsert_shape reset_admin_shape
  password_route_shape factor_route_shape account_shape

text \<open>No step removes a user or changes who one is.\<close>

lemma step_idents: "auth_step e a a' \<Longrightarrow> \<exists>us. idents (core a') = idents (core a) @ us"
  by (erule auth_step.cases)
    (auto simp: step_defs split: step_splits elim!: complete_reset_shape dest!: step_shapes
      intro: same_users_idents upd_users_idents)

lemma users_ok_update:
  assumes "users_ok (users d)" "\<And>u. who_is (f u) = who_is u"
    "\<And>u. u \<in> set (users d) \<Longrightarrow> user_id u = i \<Longrightarrow> user_ok u \<Longrightarrow> user_ok (f u)"
  shows "users_ok (users (update_user i f d))"
proof -
  have "user_id (f u) = user_id u" "identity_of (f u) = identity_of u" for u
    using assms(2) [of u] by (simp_all add: who_is_def identity_of_def)
  then show ?thesis using assms(3) by (simp, intro users_ok_upd [OF assms(1)]) auto
qed

lemma users_ok_flags [intro]:
  assumes "users_ok (users d)"
  shows "users_ok (upd_where P (\<lambda>u. u\<lparr>disabled_at := x\<rparr>) (users d))"
    "users_ok (upd_where P (\<lambda>u. if b then u else u\<lparr>disabled_at := x\<rparr>) (users d))"
    "users_ok (upd_where P (\<lambda>u. u\<lparr>must_change_password := b\<rparr>) (users d))"
    "users_ok (upd_where P (\<lambda>u. u\<lparr>accepted_use_version := v\<rparr>) (users d))"
  by (intro users_ok_upd [OF assms]; simp)+

lemma disabled_users:
  assumes "disable_transaction adm i before t meta also a = Some (Inr a')"
    and "also = Some \<or> also = remove_transaction adm i dex meta"
  shows "users (core a') = (if before = None then upd_where (\<lambda>u. user_id u = i) (\<lambda>u. u\<lparr>disabled_at := Some t\<rparr>) (users (core a))
    else users (core a))"
proof -
  have "upd_where P (\<lambda>u. u) us = us" for P and us :: "user list" by (induction us) auto
  then show ?thesis using assms
    by (cases before) (auto simp: disable_transaction_def remove_transaction_def Let_def endSessions_def
        split: if_splits option.splits)
qed

lemma reset_admin_users:
  assumes "resetLocalAdmin n ifMissing mail dex t a = Inr (Some a')"
  obtains u where "local_admin_account a = Some u"
      "users (core a') = upd_where (\<lambda>v. user_id v = user_id u) restore_admin (users (core a))"
    | d i where "precreateDexAccount n LOCAL_ADMIN_USER_ID mail ''admin'' ''Local administrator'' Administrator True (core a)
        = Some (i, d)" "users (core a') = users d"
  using assms
  by (auto simp: resetLocalAdmin_def resetSecondFactor_def endSessions_def Let_def split: option.splits bool.splits if_splits)

lemma createDexAccount_users:
  assumes "createDexAccount n dexId adm mail un name r dex meta a = (AccountDone, a')"
  obtains d where "precreateDexAccount n dexId mail un name r True (core a) = Some (n, d)" "users (core a') = users d"
  using assms
  by (auto simp: createDexAccount_def precreateDexAccount_def Let_def split: option.splits dex_answer.splits if_splits)

lemma upsert_step_users:
  assumes "upsert_step n si t a = (i, off, a')"
  obtains d where "upsert_user n (si_identity si) (si_role si) t (core a) = (i, d)" "users (core a') = users d"
  using assms by (auto simp: upsert_step_def role_changed_audit_def Let_def split: prod.splits option.splits if_splits)

lemma role_transaction_users:
  assumes "role_transaction act who i meta a = (ans, a')"
  obtains "a' = a" | c d where "apply_role act who i (core a) = Inr (c, d)" "users (core a') = users d"
  using assms by (auto simp: role_transaction_def split: sum.splits prod.splits if_splits)

lemma step_users_ok:
  assumes "auth_step e a a'" "users_ok (users (core a))"
  shows "users_ok (users (core a'))"
  using assms(1)
proof (cases rule: auth_step.cases)
  case (role_set act adm i meta ans)
  then show ?thesis using assms(2) by (auto elim!: role_transaction_users intro: apply_role_ok)
next
  case (disabled extra adm i dex meta before t)
  then show ?thesis using assms(2) disabled_users by fastforce
next
  case (claimed idn i v prov t i')
  then show ?thesis using assms(2) claim_row_ok by (auto simp: user_ids_def)
next
  case (signed_in si i t j off)
  then show ?thesis using assms(2) upsert_user_ok by (fastforce simp: user_ids_def elim!: upsert_step_users)
next
  case (account_made i adm dexId mail un name r dex meta)
  then show ?thesis using assms(2) precreate_ok(1) by (fastforce simp: user_ids_def elim!: createDexAccount_users)
next
  case (admin_restored i ifMissing mail dex t)
  then show ?thesis using assms(2) precreate_ok(1) restore_admin_ok
    by (fastforce simp: user_ids_def elim!: reset_admin_users)
qed (insert assms(2), auto simp: step_defs split: step_splits elim!: complete_reset_shape
    dest!: confirm_shape link_shape password_route_shape factor_route_shape)

section \<open>Unique columns\<close>

definition keys_ok :: "auth_db \<Rightarrow> bool" where
  "keys_ok a \<longleftrightarrow> distinct (map sess_id (sessions a)) \<and> distinct (map intent_session_id (link_intents a)) \<and>
     distinct (map tok_hash (email_tokens a)) \<and> distinct (map factor_id (second_factors a)) \<and>
     distinct (map inv_id (invitations a))"

lemma distinct_map_filtered [simp]: "distinct (map f xs) \<Longrightarrow> distinct (map f (filter P xs))"
  by (simp add: distinct_map_filter)

lemma map_upd_where_const [simp]: "(\<And>r. g (f r) = g r) \<Longrightarrow> map g (upd_where P f xs) = map g xs"
  by (simp add: map_upd_where_frame)

lemma map_upd_where_key [simp]: "g row = k \<Longrightarrow> map g (upd_where (\<lambda>n. g n = k) (\<lambda>_. row) xs) = map g xs"
  by (induction xs) auto

text \<open>Only the steps that insert add a key.\<close>

lemma step_sessions:
  "auth_step e a a' \<Longrightarrow> (\<And>s. e \<noteq> SessionStarted s) \<Longrightarrow> subseq (map sess_id (sessions a')) (map sess_id (sessions a))"
  by (erule auth_step.cases)
    (auto simp: step_defs split: step_splits elim!: complete_reset_shape dest!: step_shapes)

lemma step_invitations:
  "auth_step e a a' \<Longrightarrow> (\<And>v. e \<noteq> InvitationMade v) \<Longrightarrow> map inv_id (invitations a') = map inv_id (invitations a)"
  by (erule auth_step.cases)
    (auto simp: step_defs split: step_splits elim!: complete_reset_shape dest!: step_shapes)

lemma step_factors:
  "auth_step e a a' \<Longrightarrow> (\<And>f i. e \<noteq> FactorStored f i) \<Longrightarrow>
    subseq (map factor_id (second_factors a')) (map factor_id (second_factors a))"
  by (erule auth_step.cases)
    (auto simp: step_defs subseq_map split: step_splits elim!: complete_reset_shape dest!: step_shapes)

lemma step_tokens:
  "auth_step e a a' \<Longrightarrow> (\<And>h. e \<noteq> EmailLinkSent h) \<Longrightarrow>
    subseq (map tok_hash (email_tokens a')) (map tok_hash (email_tokens a))"
  by (erule auth_step.cases)
    (auto simp: step_defs split: step_splits elim!: complete_reset_shape dest!: step_shapes)

lemma step_intents:
  "auth_step e a a' \<Longrightarrow> (\<And>s. e \<noteq> IntentSaved s) \<Longrightarrow> (\<And>s. e \<noteq> IntentBound s) \<Longrightarrow>
    subseq (link_intents a') (link_intents a)"
  by (erule auth_step.cases)
    (auto simp: step_defs split: step_splits elim!: complete_reset_shape dest!: step_shapes)

inductive_cases insert_stepsE:
  "auth_step (SessionStarted s) a a'" "auth_step (InvitationMade v) a a'" "auth_step (FactorStored f i) a a'"
  "auth_step (EmailLinkSent h) a a'" "auth_step (IntentSaved s) a a'" "auth_step (IntentBound s) a a'"

lemma saved_intent_keys:
  assumes "distinct (map intent_session_id (link_intents a))"
  shows "distinct (map intent_session_id (link_intents (saveLinkIntent h s course t a)))"
proof (cases "\<exists>n\<in>set (filter (\<lambda>n. \<not> intent_expires_at n \<le> t) (link_intents a)). intent_session_id n = s")
  case True
  then show ?thesis using assms by (simp add: saveLinkIntent_def Let_def)
next
  case False
  then have "s \<notin> intent_session_id ` set (filter (\<lambda>n. \<not> intent_expires_at n \<le> t) (link_intents a))" by auto
  then show ?thesis using assms False by (simp add: saveLinkIntent_def Let_def)
qed

lemma step_keys_ok:
  assumes "auth_step e a a'" "keys_ok a"
  shows "keys_ok a'"
proof -
  have "distinct (map sess_id (sessions a'))"
    using assms step_sessions [OF assms(1)] subseq_distinct
    by (cases "\<exists>s. e = SessionStarted s") (auto simp: keys_ok_def elim!: insert_stepsE)
  moreover have "distinct (map inv_id (invitations a'))"
    using assms step_invitations [OF assms(1)]
    by (cases "\<exists>v. e = InvitationMade v")
      (auto simp: keys_ok_def createInvitation_def split: if_splits elim!: insert_stepsE)
  moreover have "distinct (map factor_id (second_factors a'))"
    using assms step_factors [OF assms(1)] subseq_distinct
    by (cases "\<exists>f i. e = FactorStored f i")
      (auto simp: keys_ok_def storeFactor_def writeRecoveryCodes_def mark_session_def Let_def elim!: insert_stepsE)
  moreover have "distinct (map tok_hash (email_tokens a'))"
    using assms step_tokens [OF assms(1)] subseq_distinct
    by (cases "\<exists>h. e = EmailLinkSent h") (auto simp: keys_ok_def issueAccountEmailToken_def elim!: insert_stepsE)
  moreover have "distinct (map intent_session_id (link_intents a'))"
    using assms step_intents [OF assms(1)] subseq_distinct_map
    by (cases "\<exists>s. e = IntentSaved s \<or> e = IntentBound s")
      (auto simp: keys_ok_def saved_intent_keys bindLinkIntent_def Let_def elim!: insert_stepsE)
  ultimately show ?thesis by (simp add: keys_ok_def)
qed

section \<open>Links\<close>

definition link_ok :: "db \<Rightarrow> account_link \<Rightarrow> bool" where
  "link_ok d l \<longleftrightarrow>
     (\<exists>iss sub. (link_course_user_id l, iss, sub) \<in> set (idents d) \<and> isCourseIssuer iss \<and>
        link_platform_issuer l = platformIssuerOf iss) \<and>
     (\<exists>iss sub. (link_user_id l, iss, sub) \<in> set (idents d) \<and> \<not> isCourseIssuer iss)"

definition links_ok :: "auth_db \<Rightarrow> bool" where
  "links_ok a \<longleftrightarrow> distinct (map link_course_user_id (account_links a)) \<and>
     distinct (map (\<lambda>l. (link_user_id l, link_platform_issuer l)) (account_links a)) \<and>
     (\<forall>l\<in>set (account_links a). link_ok (core a) l)"

lemma find_user_ident:
  "find_user i d = Some u \<Longrightarrow> (i, oidc_issuer u, oidc_subject u) \<in> set (idents d)"
  by (auto simp: find_user_def idents_def who_is_def image_iff dest!: find_row_Some)

lemma link_refused_None:
  assumes "link_refused (find_user course d) (find_user sso d) a = None"
  obtains c s where "find_user course d = Some c" "find_user sso d = Some s" "course \<noteq> sso"
    "isCourseIssuer (oidc_issuer c)" "\<not> isCourseIssuer (oidc_issuer s)" "disabled_at s = None"
    "user_role s \<noteq> Administrator" "\<not> link_exists course sso (platformIssuerOf (oidc_issuer c)) a"
proof -
  obtain c s where cs: "find_user course d = Some c" "find_user sso d = Some s"
    using assms by (auto simp: link_refused_def split: option.splits)
  moreover have "user_id c = course" "user_id s = sso" using cs by (auto simp: find_user_def dest: find_row_Some)
  ultimately show ?thesis using assms that by (auto simp: link_refused_def split: if_splits)
qed

lemma linkAccounts_shape:
  assumes "linkAccounts course sso t a = Inr (fin, a')"
  obtains c s w where "find_user course (core a) = Some c" "find_user sso (core a) = Some s" "course \<noteq> sso"
    "isCourseIssuer (oidc_issuer c)" "\<not> isCourseIssuer (oidc_issuer s)" "disabled_at s = None"
    "user_role s \<noteq> Administrator" "\<not> link_exists course sso (platformIssuerOf (oidc_issuer c)) a"
    "account_links a' = account_links a @
       [\<lparr>link_course_user_id = course, link_user_id = sso, link_platform_issuer = platformIssuerOf (oidc_issuer c),
         link_archived_at = w\<rparr>]"
    "users (core a') = users (core a)"
proof -
  obtain r where "link_refused (find_user course (core a)) (find_user sso (core a)) a = r" by blast
  moreover have "r = None" using assms calculation by (cases r) (auto simp: linkAccounts_def Let_def)
  ultimately have "link_refused (find_user course (core a)) (find_user sso (core a)) a = None" by simp
  then obtain c s where cs: "find_user course (core a) = Some c" "find_user sso (core a) = Some s" "course \<noteq> sso"
    "isCourseIssuer (oidc_issuer c)" "\<not> isCourseIssuer (oidc_issuer s)" "disabled_at s = None"
    "user_role s \<noteq> Administrator" "\<not> link_exists course sso (platformIssuerOf (oidc_issuer c)) a"
    by (rule link_refused_None)
  moreover obtain w where "account_links a' = account_links a @
       [\<lparr>link_course_user_id = course, link_user_id = sso, link_platform_issuer = platformIssuerOf (oidc_issuer c),
         link_archived_at = w\<rparr>]" "users (core a') = users (core a)"
    using assms cs(1) by (auto simp: linkAccounts_def Let_def split: option.splits)
  ultimately show ?thesis by (rule that)
qed

lemma linkAccounts_links_ok:
  assumes "linkAccounts course sso t a = Inr (fin, a')" "links_ok a"
  shows "links_ok a'"
  using assms(1)
proof (rule linkAccounts_shape)
  fix c s w
  assume c: "find_user course (core a) = Some c" and s: "find_user sso (core a) = Some s"
    and "course \<noteq> sso" "isCourseIssuer (oidc_issuer c)" "\<not> isCourseIssuer (oidc_issuer s)"
      "\<not> link_exists course sso (platformIssuerOf (oidc_issuer c)) a"
      "account_links a' = account_links a @
       [\<lparr>link_course_user_id = course, link_user_id = sso, link_platform_issuer = platformIssuerOf (oidc_issuer c),
         link_archived_at = w\<rparr>]"
      "users (core a') = users (core a)"
  moreover have "idents (core a') = idents (core a)" using calculation by (simp add: idents_def)
  ultimately show ?thesis using assms(2) find_user_ident [OF c] find_user_ident [OF s]
    by (auto simp: links_ok_def link_exists_def link_ok_def)
qed

lemma link_ok_more: "link_ok d l \<Longrightarrow> idents d' = idents d @ us \<Longrightarrow> link_ok d' l"
  by (auto simp: link_ok_def)

lemma links_ok_fewer:
  assumes "links_ok a" "account_links a' = filter P (account_links a)" "idents (core a') = idents (core a) @ us"
  shows "links_ok a'"
  using assms link_ok_more [of "core a" _ "core a'" us] by (auto simp: links_ok_def distinct_map_filter)

lemma links_ok_same:
  assumes "links_ok a" "account_links a' = account_links a" "idents (core a') = idents (core a) @ us"
  shows "links_ok a'"
  using links_ok_fewer [OF assms(1), of a' "\<lambda>_. True"] assms(2,3) by simp

lemma links_ok_frame [simp]:
  "links_ok (auth_audit e a) = links_ok a" "links_ok (a\<lparr>link_intents := ns\<rparr>) = links_ok a"
  by (simp_all add: links_ok_def link_ok_def)

lemma other_steps_links:
  assumes "auth_step e a a'" "\<nexists>s outcome. e = Confirmed s outcome" "\<nexists>course sso. e = AdminLinked course sso"
  shows "\<exists>P. account_links a' = filter P (account_links a)"
  using assms(1)
proof (cases rule: auth_step.cases)
  case (unlinked sso course t fin)
  then show ?thesis by (auto simp: unlinkAccount_def Let_def split: option.splits)
next
  case (confirmed s pending platformName meta t outcome)
  then show ?thesis using assms(2) by blast
next
  case (admin_linked course sso t fin)
  then show ?thesis using assms(3) by blast
qed (auto simp: step_defs split: step_splits elim!: complete_reset_shape dest!: step_shapes
    intro!: exI [of _ "\<lambda>_. True"])

lemma step_links_ok:
  assumes "auth_step e a a'" "links_ok a"
  shows "links_ok a'"
proof (cases "(\<exists>s outcome. e = Confirmed s outcome) \<or> (\<exists>course sso. e = AdminLinked course sso)")
  case True
  show ?thesis using assms(1)
  proof (cases rule: auth_step.cases)
    case (confirmed s pending platformName meta t outcome)
    then show ?thesis using assms(2) linkAccounts_links_ok
      by (fastforce simp: confirm_transaction_def consumeLinkIntent_def Let_def split: option.splits sum.splits if_splits)
  next
    case (admin_linked course sso t fin)
    then show ?thesis using assms(2) linkAccounts_links_ok by (auto simp: admin_link_def split: if_splits)
  qed (use True in auto)
next
  case False
  then obtain P where "account_links a' = filter P (account_links a)" using other_steps_links [OF assms(1)] by blast
  moreover obtain us where "idents (core a') = idents (core a) @ us" using step_idents [OF assms(1)] by blast
  ultimately show ?thesis by (rule links_ok_fewer [OF assms(2)])
qed
section \<open>The invariant\<close>

definition auth_ok :: "auth_db \<Rightarrow> bool" where
  "auth_ok a \<longleftrightarrow> users_ok (users (core a)) \<and> links_ok a \<and> keys_ok a"

definition auth_start :: "auth_db \<Rightarrow> bool" where
  "auth_start a \<longleftrightarrow> users (core a) = [] \<and> sessions a = [] \<and> second_factors a = [] \<and> account_links a = [] \<and>
     link_intents a = [] \<and> invitations a = [] \<and> email_tokens a = []"

interpretation auth: step_system auth_start "\<lambda>a b. \<exists>e. auth_step e a b" auth_ok
proof
  fix a :: auth_db
  assume "auth_start a"
  then show "auth_ok a" by (simp add: auth_start_def auth_ok_def users_ok_def links_ok_def keys_ok_def)
next
  fix a b :: auth_db
  assume "auth_ok a" "\<exists>e. auth_step e a b"
  then show "auth_ok b"
    by (auto simp: auth_ok_def intro: step_users_ok step_links_ok step_keys_ok)
qed

lemma auth_run_steps: "auth_run es a b \<Longrightarrow> (\<lambda>a b. \<exists>e. auth_step e a b)\<^sup>*\<^sup>* a b"
  by (induction es arbitrary: a) (auto intro: converse_rtranclp_into_rtranclp)

lemmas run_ok = auth.inv_steps [OF auth_run_steps]

lemmas reached_ok = auth.inv_reachable [OF _ auth_run_steps]

end
