(* ===== verification/Auth_Samples.thy ===== *)
theory Auth_Samples
  imports Auth_Invariants
begin

text \<open>Small concrete states of sign-in, for the witnesses of \<open>Auth_Once\<close>, \<open>Auth_System\<close>, \<open>Auth_Access\<close> and \<open>Auth_Runs\<close>.\<close>

definition sample_site :: auth_db where
  "sample_site =
     \<lparr>core = \<lparr>workspaces = [], workspace_connections = [], terminals = [], projects = [], users = [], db_settings = None,
        audit_events = [], usage_samples = [], notifications = [], egress_entries = [], egress_blocked_entries = [],
        backup_requests = []\<rparr>,
      sessions = [], preview_sessions = [], second_factors = [], recovery_codes = [], account_links = [],
      link_intents = [], invitations = [], memberships = [], email_tokens = []\<rparr>"

lemma sample_site_start: "auth_start sample_site" "auth_ok sample_site"
proof -
  show "auth_start sample_site" by (simp add: auth_start_def sample_site_def)
  then show "auth_ok sample_site" by (rule auth.inv_start)
qed

definition sample_sign_in :: "string \<Rightarrow> user_role \<Rightarrow> sign_in" where
  "sample_sign_in subject role =
     \<lparr>si_identity = \<lparr>id_issuer = ''https://idp'', id_subject = subject, id_email = None, id_display_name = subject,
        id_preferred_username = None\<rparr>,
      si_role = role, si_method = Oidc, si_email_verified = False, si_metadata = [], si_role_metadata = []\<rparr>"

text \<open>An administrator signed in, with a session, and the acceptable-use statement accepted.\<close>

definition sample_ada :: auth_db where
  "sample_ada = snd (snd (upsert_step ''a'' (sample_sign_in ''ada'' Administrator) 0 sample_site))"

definition sample_session :: auth_db where
  "sample_session = createSession ''s'' ''a'' 3600 \<lparr>origin_method = Oidc, origin_course_user = None\<rparr> 0 sample_ada"

definition sample_accepted :: auth_db where
  "sample_accepted = the (accept_use ''a'' 1 sample_session)"

lemma sample_steps:
  "auth_step (SignedInAs ''a'') sample_site sample_ada"
  "auth_step (SessionStarted ''s'') sample_ada sample_session"
  "auth_step Bookkeeping sample_session sample_accepted"
proof -
  let ?si = "sample_sign_in ''ada'' Administrator"
  have "sign_in_ok (si_identity ?si) (si_role ?si)"
    by code_simp
  moreover have "''a'' \<notin> user_ids sample_site" by (simp add: user_ids_def sample_site_def)
  moreover have "upsert_step ''a'' ?si 0 sample_site = (''a'', False, sample_ada)"
    unfolding sample_ada_def by (rule prod_eqI; (rule prod_eqI)?; code_simp)
  ultimately show "auth_step (SignedInAs ''a'') sample_site sample_ada" by (blast intro: signed_in)
  show "auth_step (SessionStarted ''s'') sample_ada sample_session"
    unfolding sample_session_def by (rule started; code_simp)
  have "accept_use ''a'' 1 sample_session \<noteq> None" by code_simp
  then have "accept_use ''a'' 1 sample_session = Some sample_accepted" by (simp add: sample_accepted_def)
  then show "auth_step Bookkeeping sample_session sample_accepted" by (rule accepted)
qed

end
