(* ===== verification/Auth_Once.thy ===== *)
theory Auth_Once
  imports Auth_Samples
begin

text \<open>
  What may be used once: a step of an authenticator app, a recovery code, an emailed link, an
  invitation and the intent of a link. Each is spent by its use, stays spent until something new is
  written in its place, and a spent one is refused, whatever runs in between.
\<close>

section \<open>Using once\<close>

locale single_use =
  fixes step :: "'e \<Rightarrow> 's \<Rightarrow> 's \<Rightarrow> bool" and inv :: "'s \<Rightarrow> bool" and spent :: "'s \<Rightarrow> bool"
    and uses :: "'e \<Rightarrow> bool" and again :: "'e \<Rightarrow> bool" and renews :: "'e \<Rightarrow> bool"
  assumes inv_kept: "inv s \<Longrightarrow> step e s t \<Longrightarrow> inv t"
    and use_spends: "inv s \<Longrightarrow> step e s t \<Longrightarrow> uses e \<Longrightarrow> spent t"
    and spent_kept: "spent s \<Longrightarrow> step e s t \<Longrightarrow> \<not> renews e \<Longrightarrow> spent t"
    and spent_blocks: "inv s \<Longrightarrow> spent s \<Longrightarrow> step e s t \<Longrightarrow> \<not> again e"
begin

lemma inv_run: "event_run step es s t \<Longrightarrow> inv s \<Longrightarrow> inv t"
  by (induction es arbitrary: s) (auto intro: inv_kept)

lemma spent_run: "event_run step es s t \<Longrightarrow> spent s \<Longrightarrow> (\<And>e. e \<in> set es \<Longrightarrow> \<not> renews e) \<Longrightarrow> spent t"
proof (induction es arbitrary: s)
  case (Cons e es)
  then obtain u where "step e s u" "event_run step es u t" by auto
  moreover have "spent u" using spent_kept [OF Cons.prems(2) calculation(1)] Cons.prems(3) by simp
  ultimately show ?case using Cons.IH Cons.prems(3) by simp
qed simp

lemma used_again:
  assumes "event_run step (xs @ e # ys @ e' # zs) s t" "inv s" "uses e" "again e'"
  shows "\<exists>r\<in>set ys. renews r"
proof (rule ccontr)
  assume "\<not> (\<exists>r\<in>set ys. renews r)"
  moreover obtain u v w x where "event_run step xs s u" "step e u v" "event_run step ys v w" "step e' w x"
    using assms(1) by (auto simp: event_run_append)
  moreover have "inv u" using inv_run [OF \<open>event_run step xs s u\<close> assms(2)] .
  moreover have "spent v" "inv v" using use_spends inv_kept calculation assms(3) by blast+
  ultimately show False using spent_run [of ys v w] inv_run [of ys v w] spent_blocks assms(4) by blast
qed

end

lemma step_auth_ok: "auth_ok a \<Longrightarrow> auth_step e a b \<Longrightarrow> auth_ok b"
  using auth.inv_step by blast

section \<open>Authenticator steps\<close>

definition code_spent :: "uuid \<Rightarrow> string \<Rightarrow> auth_db \<Rightarrow> bool" where
  "code_spent i h a \<longleftrightarrow> (\<forall>r\<in>set (recovery_codes a). rec_user_id r = i \<and> code_hash r = h \<longrightarrow> rec_used_at r \<noteq> None)"


definition step_spent :: "uuid \<Rightarrow> int \<Rightarrow> auth_db \<Rightarrow> bool" where
  "step_spent f n a \<longleftrightarrow> (\<forall>r\<in>set (second_factors a). factor_id r = f \<longrightarrow> (\<exists>m. last_step r = Some m \<and> n \<le> m))"

lemma subseq_set: "subseq xs ys \<Longrightarrow> x \<in> set xs \<Longrightarrow> x \<in> set ys"
  by (auto dest: list_emb_set)

lemma step_factor_rows:
  "auth_step e a a' \<Longrightarrow> (\<And>f n. e \<noteq> StepUsed f n) \<Longrightarrow> (\<And>f i. e \<noteq> FactorStored f i) \<Longrightarrow> r' \<in> set (second_factors a') \<Longrightarrow>
    \<exists>r\<in>set (second_factors a). factor_id r = factor_id r' \<and> last_step r = last_step r'"
  by (erule auth_step.cases)
    (auto simp: step_defs set_upd_where split: step_splits elim!: complete_reset_shape
      dest!: step_shapes dest: subseq_set)

inductive_cases useE: "auth_step (StepUsed f n) a a'" "auth_step (CodeUsed i h) a a'"
  "auth_step (EmailLinkUsed h) a a'" "auth_step (InvitationClaimed v) a a'" "auth_step (Confirmed s r) a a'"

text \<open>What a use needs and does.\<close>

lemma used_stepE:
  assumes "auth_step (StepUsed f n) a a'"
  obtains t where "second_factors a' = upd_where (\<lambda>r. factor_id r = f \<and> (last_step r = None \<or> sql_lt (last_step r) (Some n)))
      (\<lambda>r. r\<lparr>last_step := Some n, last_used_at := Some t\<rparr>) (second_factors a)"
    "\<exists>r\<in>set (second_factors a). factor_id r = f \<and> (last_step r = None \<or> sql_lt (last_step r) (Some n))"
  using assms by (rule useE(1)) (auto simp: use_step_def Let_def)

lemma used_codeE:
  assumes "auth_step (CodeUsed i h) a a'"
  obtains t where "recovery_codes a' = upd_where (\<lambda>r. rec_user_id r = i \<and> code_hash r = h \<and> rec_used_at r = None)
      (\<lambda>r. r\<lparr>rec_used_at := Some t\<rparr>) (recovery_codes a)" "\<not> code_spent i h a"
  using assms by (rule useE(2)) (auto simp: useRecoveryCode_def code_spent_def Let_def split: if_splits)


lemma step_used_spends:
  assumes "auth_step (StepUsed f n) a b"
  shows "step_spent f n b" and "step_spent g m a \<Longrightarrow> step_spent g m b" and "step_spent f m a \<Longrightarrow> \<not> n \<le> m"
proof -
  obtain t where b: "second_factors b = upd_where (\<lambda>r. factor_id r = f \<and> (last_step r = None \<or> sql_lt (last_step r) (Some n)))
      (\<lambda>r. r\<lparr>last_step := Some n, last_used_at := Some t\<rparr>) (second_factors a)"
    and hit: "\<exists>r\<in>set (second_factors a). factor_id r = f \<and> (last_step r = None \<or> sql_lt (last_step r) (Some n))"
    using assms by (rule used_stepE)
  show "step_spent f n b" unfolding step_spent_def
  proof (intro ballI impI)
    fix r' assume "r' \<in> set (second_factors b)" "factor_id r' = f"
    then obtain r where "factor_id r' = f" "r' = (if factor_id r = f \<and> (last_step r = None \<or> sql_lt (last_step r) (Some n))
        then r\<lparr>last_step := Some n, last_used_at := Some t\<rparr> else r)"
      unfolding b set_upd_where by blast
    then show "\<exists>k. last_step r' = Some k \<and> n \<le> k" by (cases "last_step r") (simp_all split: if_splits)
  qed
  show "step_spent g m b" if spent: "step_spent g m a"
    unfolding step_spent_def
  proof (intro ballI impI)
    fix r' assume "r' \<in> set (second_factors b)" "factor_id r' = g"
    then obtain r where r: "r \<in> set (second_factors a)" "factor_id r = g"
      "r' = r \<or> sql_lt (last_step r) (Some n) \<and> last_step r' = Some n \<or> last_step r = None"
      unfolding b set_upd_where by (auto split: if_splits)
    moreover obtain k where "last_step r = Some k" "m \<le> k" using spent r(1,2) by (auto simp: step_spent_def)
    ultimately show "\<exists>k. last_step r' = Some k \<and> m \<le> k" by auto
  qed
  show "\<not> n \<le> m" if spent: "step_spent f m a"
  proof -
    obtain r where "r \<in> set (second_factors a)" "factor_id r = f" "last_step r = None \<or> sql_lt (last_step r) (Some n)"
      using hit by blast
    moreover obtain k where "last_step r = Some k" "m \<le> k" using spent calculation(1,2) by (auto simp: step_spent_def)
    ultimately show ?thesis by simp
  qed
qed

lemma stored_keeps_spent:
  assumes "auth_step (FactorStored g i) a b" "g \<noteq> f" "step_spent f n a"
  shows "step_spent f n b"
proof -
  obtain r where "second_factors b = second_factors a @ [r]" "factor_id r = g"
    using assms(1) by (rule insert_stepsE) (auto simp: storeFactor_def writeRecoveryCodes_def mark_session_def Let_def)
  then show ?thesis using assms(2,3) by (auto simp: step_spent_def)
qed

interpretation totp_once: single_use auth_step auth_ok "step_spent f n" "\<lambda>e. e = StepUsed f n"
    "\<lambda>e. \<exists>m\<le>n. e = StepUsed f m" "\<lambda>e. \<exists>i. e = FactorStored f i" for f n
proof
  show "auth_ok s \<Longrightarrow> auth_step e s t \<Longrightarrow> auth_ok t" for s e t by (rule step_auth_ok)
  show "auth_step e s t \<Longrightarrow> e = StepUsed f n \<Longrightarrow> step_spent f n t" for s e t using step_used_spends(1) by blast
  show "step_spent f n s \<Longrightarrow> auth_step e s t \<Longrightarrow> \<not> (\<exists>m\<le>n. e = StepUsed f m)" for s e t
    using step_used_spends(3) by blast
next
  fix s e t
  assume s: "step_spent f n s" and e: "auth_step e s t" "\<not> (\<exists>i. e = FactorStored f i)"
  consider (used) g m where "e = StepUsed g m" | (new) g i where "e = FactorStored g i" "g \<noteq> f"
    | (other) "\<And>g m. e \<noteq> StepUsed g m" "\<And>g i. e \<noteq> FactorStored g i" using e(2) by blast
  then show "step_spent f n t"
  proof cases
    case used
    then show ?thesis using s e(1) step_used_spends(2) by blast
  next
    case new
    then show ?thesis using s e(1) stored_keeps_spent by blast
  next
    case other
    show ?thesis unfolding step_spent_def
    proof (intro ballI impI)
      fix r'
      assume r': "r' \<in> set (second_factors t)" "factor_id r' = f"
      then obtain r where "r \<in> set (second_factors s)" "factor_id r = factor_id r'" "last_step r = last_step r'"
        using step_factor_rows [OF e(1) other] by blast
      moreover obtain m where "last_step r = Some m" "n \<le> m" using s calculation(1,2) r'(2) by (auto simp: step_spent_def)
      ultimately show "\<exists>m. last_step r' = Some m \<and> n \<le> m" by metis
    qed
  qed
qed

section \<open>Recovery codes\<close>

lemma step_code_rows:
  "auth_step e a a' \<Longrightarrow> e \<noteq> CodesWritten i \<Longrightarrow> (\<nexists>f. e = FactorStored f i) \<Longrightarrow> r \<in> set (recovery_codes a') \<Longrightarrow>
    rec_user_id r = i \<Longrightarrow> rec_used_at r = None \<Longrightarrow> r \<in> set (recovery_codes a)"
  by (erule auth_step.cases)
    (auto simp: step_defs set_upd_where split: step_splits elim!: complete_reset_shape
      dest!: step_shapes dest: subseq_set)

lemma code_used_spends: "auth_step (CodeUsed i h) a b \<Longrightarrow> code_spent i h b"
  by (erule used_codeE) (auto simp: code_spent_def set_upd_where)

interpretation code_once: single_use auth_step auth_ok "code_spent i h" "\<lambda>e. e = CodeUsed i h"
    "\<lambda>e. e = CodeUsed i h" "\<lambda>e. e = CodesWritten i \<or> (\<exists>f. e = FactorStored f i)" for i h
proof
  show "auth_ok s \<Longrightarrow> auth_step e s t \<Longrightarrow> auth_ok t" for s e t by (rule step_auth_ok)
  show "auth_step e s t \<Longrightarrow> e = CodeUsed i h \<Longrightarrow> code_spent i h t" for s e t using code_used_spends by blast
  show "code_spent i h s \<Longrightarrow> auth_step e s t \<Longrightarrow> e \<noteq> CodeUsed i h" for s e t by (blast elim: used_codeE)
next
  fix s e t
  assume s: "code_spent i h s" and e: "auth_step e s t" "\<not> (e = CodesWritten i \<or> (\<exists>f. e = FactorStored f i))"
  show "code_spent i h t" unfolding code_spent_def
  proof (intro ballI impI notI)
    fix r assume "r \<in> set (recovery_codes t)" "rec_user_id r = i \<and> code_hash r = h" "rec_used_at r = None"
    moreover have "r \<in> set (recovery_codes s)" by (rule step_code_rows [OF e(1)]) (use e(2) calculation in blast)+
    ultimately show False using s by (auto simp: code_spent_def)
  qed
qed

section \<open>Emailed links\<close>

definition link_spent :: "string \<Rightarrow> auth_db \<Rightarrow> bool" where
  "link_spent h a \<longleftrightarrow> (\<forall>k\<in>set (email_tokens a). tok_hash k = h \<longrightarrow> \<not> live_token k)"

lemma dead_token [simp]: "\<not> live_token (k\<lparr>tok_used_at := Some t\<rparr>)" "\<not> live_token (k\<lparr>tok_revoked_at := Some t\<rparr>)"
  by (simp_all add: live_token_def)

lemma step_tokens_live:
  "auth_step e a a' \<Longrightarrow> e \<noteq> EmailLinkSent h \<Longrightarrow> k \<in> set (email_tokens a') \<Longrightarrow> tok_hash k = h \<Longrightarrow> live_token k \<Longrightarrow>
    k \<in> set (email_tokens a)"
  by (erule auth_step.cases)
    (auto simp: step_defs set_upd_where split: step_splits elim!: complete_reset_shape
      dest!: step_shapes dest: subseq_set split: if_splits)

lemma link_used_spends:
  assumes "auth_step (EmailLinkUsed h) a b" "keys_ok a"
  shows "link_spent h b" "\<not> link_spent h a"
proof -
  obtain hash token listed dex meta t i where h: "h = hash token"
    and r: "complete_reset hash token listed dex meta t a = Some (Some i, b)"
    using assms(1) by (rule useE(3)) blast
  from r obtain p k where k: "k \<in> set (email_tokens a)" "link_hit h p t k"
    and b: "email_tokens b = email_tokens (revokeAccountEmailTokens i t (a\<lparr>email_tokens := use_links h p t (email_tokens a)\<rparr>))"
    unfolding h by (rule complete_reset_shape) (auto simp: Let_def)
  show "\<not> link_spent h a" using k by (auto simp: link_spent_def link_hit_def)
  show "link_spent h b" unfolding link_spent_def
  proof (intro ballI impI)
    fix k' assume "k' \<in> set (email_tokens b)" "tok_hash k' = h"
    then obtain x where x: "x \<in> set (email_tokens a)" "tok_hash x = h"
      and k': "k' = (if link_hit h p t x then x\<lparr>tok_used_at := Some t\<rparr> else x) \<or> \<not> live_token k'"
      by (auto simp: b use_links_def set_upd_where split: if_splits)
    have "x = k" using assms(2) x k by (auto simp: keys_ok_def link_hit_def distinct_map dest: inj_onD)
    then show "\<not> live_token k'" using k' k(2) by auto
  qed
qed

interpretation link_once: single_use auth_step auth_ok "link_spent h" "\<lambda>e. e = EmailLinkUsed h"
    "\<lambda>e. e = EmailLinkUsed h" "\<lambda>e. e = EmailLinkSent h" for h
proof
  show "auth_ok s \<Longrightarrow> auth_step e s t \<Longrightarrow> auth_ok t" for s e t by (rule step_auth_ok)
  show "auth_ok s \<Longrightarrow> auth_step e s t \<Longrightarrow> e = EmailLinkUsed h \<Longrightarrow> link_spent h t" for s e t
    using link_used_spends(1) by (auto simp: auth_ok_def)
  show "auth_ok s \<Longrightarrow> link_spent h s \<Longrightarrow> auth_step e s t \<Longrightarrow> e \<noteq> EmailLinkUsed h" for s e t
    using link_used_spends(2) by (auto simp: auth_ok_def)
next
  fix s e t
  assume s: "link_spent h s" and e: "auth_step e s t" "e \<noteq> EmailLinkSent h"
  show "link_spent h t" unfolding link_spent_def
  proof (intro ballI impI notI)
    fix k assume "k \<in> set (email_tokens t)" "tok_hash k = h" "live_token k"
    then have "k \<in> set (email_tokens s)" by (rule step_tokens_live [OF e])
    then show False using s \<open>tok_hash k = h\<close> \<open>live_token k\<close> by (auto simp: link_spent_def)
  qed
qed

section \<open>Invitations\<close>

definition invitation_spent :: "uuid \<Rightarrow> auth_db \<Rightarrow> bool" where
  "invitation_spent v a \<longleftrightarrow> (\<forall>x\<in>set (invitations a). inv_id x = v \<longrightarrow> \<not> waiting x)"

lemma not_waiting [simp]:
  "\<not> waiting (x\<lparr>inv_claimed_at := Some t, inv_claimed_by := c\<rparr>)" "\<not> waiting (x\<lparr>inv_revoked_at := Some t\<rparr>)"
  by (simp_all add: waiting_def)

lemma step_waiting:
  "auth_step e a a' \<Longrightarrow> e \<noteq> InvitationMade v \<Longrightarrow> x \<in> set (invitations a') \<Longrightarrow> inv_id x = v \<Longrightarrow> waiting x \<Longrightarrow>
    x \<in> set (invitations a)"
  by (erule auth_step.cases)
    (auto simp: step_defs set_upd_where split: step_splits elim!: complete_reset_shape dest!: step_shapes split: if_splits)

lemma claimed_spends:
  assumes "auth_step (InvitationClaimed v) a b"
  shows "invitation_spent v b" "\<not> invitation_spent v a"
  using assms by (auto simp: invitation_spent_def set_upd_where elim!: useE(4) dest!: claim_shape)

interpretation invitation_once: single_use auth_step auth_ok "invitation_spent v" "\<lambda>e. e = InvitationClaimed v"
    "\<lambda>e. e = InvitationClaimed v" "\<lambda>e. e = InvitationMade v" for v
proof
  show "auth_ok s \<Longrightarrow> auth_step e s t \<Longrightarrow> auth_ok t" for s e t by (rule step_auth_ok)
  show "auth_step e s t \<Longrightarrow> e = InvitationClaimed v \<Longrightarrow> invitation_spent v t" for s e t using claimed_spends(1) by blast
  show "invitation_spent v s \<Longrightarrow> auth_step e s t \<Longrightarrow> e \<noteq> InvitationClaimed v" for s e t using claimed_spends(2) by blast
next
  fix s e t
  assume s: "invitation_spent v s" and e: "auth_step e s t" "e \<noteq> InvitationMade v"
  show "invitation_spent v t" unfolding invitation_spent_def
  proof (intro ballI impI notI)
    fix x assume "x \<in> set (invitations t)" "inv_id x = v" "waiting x"
    then have "x \<in> set (invitations s)" by (rule step_waiting [OF e])
    then show False using s \<open>inv_id x = v\<close> \<open>waiting x\<close> by (auto simp: invitation_spent_def)
  qed
qed

section \<open>Intents of a link\<close>

definition intent_spent :: "string \<Rightarrow> auth_db \<Rightarrow> bool" where
  "intent_spent s a \<longleftrightarrow> s \<notin> intent_session_id ` set (link_intents a)"

lemma confirmed_intent:
  assumes "auth_step (Confirmed s r) a b" "r \<noteq> NoIntent"
  obtains t n where "n \<in> set (link_intents a)" "bound_intent s t n"
    "subseq (link_intents b) (filter (\<lambda>n. \<not> bound_intent s t n) (link_intents a))"
proof -
  obtain pending pn meta t where c: "confirm_transaction s pending pn meta t a = (r, b)"
    using assms(1) by (rule useE(5)) blast
  let ?a = "a\<lparr>link_intents := filter (\<lambda>n. \<not> bound_intent s t n) (link_intents a)\<rparr>"
  obtain course sso where p: "pendingLinkIntent s t a = Some (course, sso)"
    using c assms(2) by (cases "pendingLinkIntent s t a") (auto simp: confirm_transaction_def consumeLinkIntent_def)
  then obtain n where n: "n \<in> set (link_intents a)" "bound_intent s t n"
    by (auto simp: pendingLinkIntent_def Option.bind_eq_Some_conv find_Some_iff intro: nth_mem)
  have "subseq (link_intents b) (link_intents ?a)"
    using c p link_shape [of course sso t ?a] assms(2)
    by (auto simp: confirm_transaction_def consumeLinkIntent_def Let_def split: option.splits sum.splits if_splits)
  then show ?thesis using that n by simp
qed

lemma confirmed_spends:
  assumes "auth_step (Confirmed s r) a b" "r \<noteq> NoIntent" "keys_ok a"
  shows "intent_spent s b" "\<not> intent_spent s a"
proof -
  obtain t n where n: "n \<in> set (link_intents a)" "bound_intent s t n"
    and b: "subseq (link_intents b) (filter (\<lambda>n. \<not> bound_intent s t n) (link_intents a))"
    using assms(1,2) by (rule confirmed_intent)
  show "\<not> intent_spent s a" using n by (auto simp: intent_spent_def bound_intent_def)
  have "x = n" if "x \<in> set (link_intents a)" "intent_session_id x = s" for x
    using that n assms(3) by (auto simp: keys_ok_def bound_intent_def distinct_map dest: inj_onD)
  then show "intent_spent s b" using n(2) subseq_set [OF b] by (fastforce simp: intent_spent_def)
qed

lemma step_keeps_no_intent:
  assumes "auth_step e a b" "e \<noteq> IntentSaved s" "intent_spent s a"
  shows "intent_spent s b"
proof -
  consider (saved) r where "e = IntentSaved r" "r \<noteq> s" | (bound) r where "e = IntentBound r"
    | (other) "\<And>r. e \<noteq> IntentSaved r" "\<And>r. e \<noteq> IntentBound r" using assms(2) by blast
  then show ?thesis
  proof cases
    case saved
    then show ?thesis using assms(1,3)
      by (auto simp: intent_spent_def saveLinkIntent_def Let_def set_upd_where elim!: insert_stepsE split: if_splits)
  next
    case bound
    then show ?thesis using assms(1,3)
      by (auto simp: intent_spent_def bindLinkIntent_def Let_def set_upd_where elim!: insert_stepsE)
  next
    case other
    then show ?thesis using assms(3) step_intents [OF assms(1)] subseq_set by (fastforce simp: intent_spent_def)
  qed
qed

interpretation intent_once: single_use auth_step auth_ok "intent_spent s" "\<lambda>e. \<exists>r. r \<noteq> NoIntent \<and> e = Confirmed s r"
    "\<lambda>e. \<exists>r. r \<noteq> NoIntent \<and> e = Confirmed s r" "\<lambda>e. e = IntentSaved s" for s
proof
  show "auth_ok a \<Longrightarrow> auth_step e a b \<Longrightarrow> auth_ok b" for a e b by (rule step_auth_ok)
  show "auth_ok a \<Longrightarrow> auth_step e a b \<Longrightarrow> \<exists>r. r \<noteq> NoIntent \<and> e = Confirmed s r \<Longrightarrow> intent_spent s b" for a e b
    using confirmed_spends(1) by (auto simp: auth_ok_def)
  show "auth_ok a \<Longrightarrow> intent_spent s a \<Longrightarrow> auth_step e a b \<Longrightarrow> \<not> (\<exists>r. r \<noteq> NoIntent \<and> e = Confirmed s r)" for a e b
    using confirmed_spends(2) by (auto simp: auth_ok_def)
  show "intent_spent s a \<Longrightarrow> auth_step e a b \<Longrightarrow> e \<noteq> IntentSaved s \<Longrightarrow> intent_spent s b" for a e b
    using step_keeps_no_intent by blast
qed

section \<open>Used at most once\<close>

text \<open>Two events that would use the same thing, and the events that put a new one in its place.\<close>

definition same_use :: "auth_event \<Rightarrow> auth_event \<Rightarrow> bool" where
  "same_use e e' =
     (case e of
        StepUsed f n \<Rightarrow> (case e' of StepUsed g m \<Rightarrow> g = f \<and> m \<le> n | _ \<Rightarrow> False)
      | CodeUsed i h \<Rightarrow> e' = e
      | EmailLinkUsed h \<Rightarrow> e' = e
      | InvitationClaimed v \<Rightarrow> e' = e
      | Confirmed s r \<Rightarrow> (case e' of Confirmed s' r' \<Rightarrow> s' = s \<and> r \<noteq> NoIntent \<and> r' \<noteq> NoIntent | _ \<Rightarrow> False)
      | _ \<Rightarrow> False)"

definition renewed_by :: "auth_event \<Rightarrow> auth_event \<Rightarrow> bool" where
  "renewed_by e r =
     (case e of
        StepUsed f n \<Rightarrow> (case r of FactorStored g i \<Rightarrow> g = f | _ \<Rightarrow> False)
      | CodeUsed i h \<Rightarrow> (case r of CodesWritten j \<Rightarrow> j = i | FactorStored f j \<Rightarrow> j = i | _ \<Rightarrow> False)
      | EmailLinkUsed h \<Rightarrow> r = EmailLinkSent h
      | InvitationClaimed v \<Rightarrow> r = InvitationMade v
      | Confirmed s x \<Rightarrow> r = IntentSaved s
      | _ \<Rightarrow> False)"

text \<open>
  C9: However the transactions of sign-in interleave, one time step of an authenticator app, one recovery
  code, one emailed link, one invitation and one confirmed intent is used at most once: between two uses
  something new was enrolled, written, sent, made or saved in its place. The steps used of a factor rise.
\<close>

theorem used_once:
  assumes "auth_run (xs @ e # ys @ e' # zs) a b" "auth_ok a" "same_use e e'"
  shows "\<exists>r\<in>set ys. renewed_by e r"
proof (cases e)
  case (StepUsed f n)
  then show ?thesis using assms(3) totp_once.used_again [OF assms(1,2), of f n]
    by (auto simp: same_use_def renewed_by_def split: auth_event.splits)
next
  case (CodeUsed i h)
  then obtain r where "r \<in> set ys" "r = CodesWritten i \<or> (\<exists>f. r = FactorStored f i)"
    using assms(3) code_once.used_again [OF assms(1,2), of i h] by (auto simp: same_use_def)
  then show ?thesis using CodeUsed by (intro bexI [of _ r]) (auto simp: renewed_by_def)
next
  case (EmailLinkUsed h)
  then show ?thesis using assms(3) link_once.used_again [OF assms(1,2), of h] by (auto simp: same_use_def renewed_by_def)
next
  case (InvitationClaimed v)
  then show ?thesis using assms(3) invitation_once.used_again [OF assms(1,2), of v]
    by (auto simp: same_use_def renewed_by_def)
next
  case (Confirmed s r)
  then show ?thesis using assms(3) intent_once.used_again [OF assms(1,2), of s]
    by (auto simp: same_use_def renewed_by_def split: auth_event.splits)
qed (use assms(3) in \<open>auto simp: same_use_def\<close>)

definition sample_factor :: new_factor where
  "sample_factor = \<lparr>nf_user_id = ''a'', nf_kind = TotpFactor, nf_secret = '''', nf_label = '''', nf_last_step = 3,
     nf_session_id = ''s'', nf_actor = ''user:a'', nf_metadata = []\<rparr>"

lemma sample_step_used:
  assumes "a = storeFactor ''f'' [] sample_factor 0 b" "second_factors b = []"
  shows "auth_step (StepUsed ''f'' 5) a (snd (use_step ''f'' 5 1 a))"
proof -
  have "fst (use_step ''f'' 5 1 a)" using assms
    by (simp add: use_step_def storeFactor_def writeRecoveryCodes_def mark_session_def sample_factor_def Let_def)
  then show ?thesis by (intro step_used) (simp add: prod_eq_iff)
qed

lemma used_once_witness: "\<exists>r\<in>set [FactorsReset ''a'', FactorStored ''f'' ''a'']. renewed_by (StepUsed ''f'' 5) r"
proof -
  let ?e = "StepUsed ''f'' 5" and ?n = "FactorStored ''f'' ''a''"
  let ?b = "storeFactor ''f'' [] sample_factor 0 sample_site"
  let ?c = "snd (use_step ''f'' 5 1 ?b)"
  let ?d = "resetSecondFactor ''a'' ''user:b'' ?c"
  let ?e' = "storeFactor ''f'' [] sample_factor 0 ?d"
  have none: "second_factors sample_site = []" "second_factors ?d = []" by code_simp+
  have n: "auth_step ?n b (storeFactor ''f'' [] sample_factor 0 b)" if "second_factors b = []" for b
    using stored [of "''f''" b sample_factor "[]" 0] that by (simp add: sample_factor_def)
  have "auth_run ([?n] @ ?e # [FactorsReset ''a'', ?n] @ ?e # []) sample_site (snd (use_step ''f'' 5 1 ?e'))"
    using n [OF none(1)] n [OF none(2)] sample_step_used [OF refl none(1)] sample_step_used [OF refl none(2)]
      factors_reset [of "''a''" ?c "''user:b''"] by auto
  then show ?thesis by (rule used_once) (simp_all add: sample_site_start same_use_def)
qed

end
