(* ===== verification/Auth_System.thy ===== *)
theory Auth_System
  imports Auth_Samples Auth_Once Auth_Gate
begin

text \<open>
  What holds of sign-in as a whole: the accounts in every reachable state, the last administrator, who
  can act as an administrator, what a session that still owes a factor can reach, and how the handlers
  are runs of the steps of \<open>Auth_Steps\<close>.
\<close>

section \<open>Accounts\<close>

lemma links_flat:
  assumes "auth_ok b" "l \<in> set (account_links b)"
  shows "\<not> is_linked_course (link_user_id l) b"
proof
  have ok: "users_ok (users (core b))" "links_ok b" using assms(1) by (simp_all add: auth_ok_def)
  assume "is_linked_course (link_user_id l) b"
  then obtain m where m: "m \<in> set (account_links b)" "link_course_user_id m = link_user_id l"
    by (auto simp: is_linked_course_def)
  have "link_ok (core b) m" "link_ok (core b) l" using ok(2) m(1) assms(2) by (simp_all add: links_ok_def)
  then obtain iss sub iss' sub' where "(link_user_id l, iss, sub) \<in> set (idents (core b))" "isCourseIssuer iss"
    "(link_user_id l, iss', sub') \<in> set (idents (core b))" "\<not> isCourseIssuer iss'"
    unfolding link_ok_def m(2) by blast
  moreover have "distinct (map fst (idents (core b)))"
    using ok(1) by (simp add: users_ok_def idents_def who_is_def comp_def)
  ultimately show False using eq_key_imp_eq_value by fastforce
qed

text \<open>
  C10: In every state the transactions of sign-in reach, however they interleave: ids and identities are
  unique; a stored role is the higher of the grant and of what the provider last said; a course account
  has no grant and is never an administrator; and links are flat, so the account a linked course identity
  leads to is never itself a retired course account.
\<close>

theorem accounts_in_order:
  assumes "auth_start a" "auth_run es a b"
  shows "distinct (map user_id (users (core b))) \<and> distinct (map identity_of (users (core b))) \<and>
    (\<forall>u\<in>set (users (core b)). user_role u = effective_role (granted_role u) (provider_role u) \<and>
       (isCourseIssuer (oidc_issuer u) \<longrightarrow> granted_role u = None \<and> user_role u \<noteq> Administrator)) \<and>
    distinct (map link_course_user_id (account_links b)) \<and>
    (\<forall>l\<in>set (account_links b). \<not> is_linked_course (link_user_id l) b)"
proof -
  have ok: "users_ok (users (core b))" "links_ok b" using reached_ok [OF assms] by (simp_all add: auth_ok_def)
  have "\<not> is_linked_course (link_user_id l) b" if "l \<in> set (account_links b)" for l
    using links_flat that reached_ok [OF assms] by blast
  moreover have "user_role u \<noteq> Administrator" if "u \<in> set (users (core b))" "isCourseIssuer (oidc_issuer u)" for u
    using ok(1) that by (auto simp: users_ok_def user_ok_def list_all_iff)
  ultimately show ?thesis using ok by (auto simp: users_ok_def user_ok_def links_ok_def list_all_iff)
qed

section \<open>The last administrator\<close>

definition enabled_admin :: "user \<Rightarrow> bool" where
  "enabled_admin u \<longleftrightarrow> user_role u = Administrator \<and> disabled_at u = None"

definition has_admin :: "auth_db \<Rightarrow> bool" where
  "has_admin a \<longleftrightarrow> (\<exists>u\<in>set (users (core a)). enabled_admin u)"

lemma admin_upd:
  assumes "\<exists>u\<in>set us. enabled_admin u \<and> (P u \<longrightarrow> enabled_admin (f u))"
  shows "\<exists>u\<in>set (upd_where P f us). enabled_admin u"
  using assms by (auto simp: set_upd_where)

lemma admin_kept:
  assumes "\<exists>u\<in>set us. enabled_admin u" and "\<And>u. u \<in> set us \<Longrightarrow> P u \<Longrightarrow> enabled_admin u \<Longrightarrow> enabled_admin (f u)"
  shows "\<exists>u\<in>set (upd_where P f us). enabled_admin u"
  using assms by (intro admin_upd) blast

lemma enabled_admin_flags [simp]:
  "enabled_admin (u\<lparr>must_change_password := b\<rparr>) = enabled_admin u"
  "enabled_admin (u\<lparr>accepted_use_version := v\<rparr>) = enabled_admin u"
  "enabled_admin (u\<lparr>disabled_at := None\<rparr>) \<longleftrightarrow> user_role u = Administrator"
  "enabled_admin (set_roles g r u) \<longleftrightarrow> r = Administrator \<and> disabled_at u = None"
  "enabled_admin (restore_admin u)"
  by (simp_all add: enabled_admin_def restore_admin_def)

lemma enabled_adminD: "enabled_admin u \<Longrightarrow> user_role u = Administrator" "enabled_admin u \<Longrightarrow> disabled_at u = None"
  by (simp_all add: enabled_admin_def)

lemma other_admins_exist:
  "other_admins i d \<noteq> [] \<Longrightarrow> \<exists>u\<in>set (users d). enabled_admin u \<and> user_id u \<noteq> i"
  by (auto simp: other_admins_def locked_users_def enabled_admin_def filter_empty_conv)

lemma role_keeps_admin:
  assumes ok: "users_ok (users d)" and r: "apply_role act who i d = Inr (c, d')"
    and adm: "\<exists>u\<in>set (users d). enabled_admin u"
  shows "\<exists>u\<in>set (users d'). enabled_admin u"
proof (cases act)
  case Promote
  then show ?thesis using r adm
    by (auto simp: grantAdministrator_def split: option.splits if_splits simp: enabled_adminD intro!: admin_kept)
next
  case Demote
  then have o: "other_admins i d \<noteq> []" and d': "\<exists>x. d' = update_user i (set_roles None x) d"
    using r by (auto simp: revokeAdministrator_def split: option.splits if_splits)
  then show ?thesis using other_admins_exist [OF o] by (auto intro!: admin_upd)
next
  case MakeInstructor
  then obtain u where u: "find_user i d = Some u" and d': "d' = d \<or> user_role u = Student \<and>
      d' = update_user i (set_roles (Some Instructor) Instructor) d"
    using r by (auto simp: grantInstructor_def split: option.splits if_splits)
  have "user_id v = i \<longrightarrow> \<not> enabled_admin v" if "v \<in> set (users d)" "user_role u = Student" for v
    using only_user [OF ok u that(1)] that(2) by (auto simp: enabled_admin_def)
  then have "\<exists>v\<in>set (upd_where (\<lambda>v. user_id v = i) (set_roles (Some Instructor) Instructor) (users d)). enabled_admin v"
    if "user_role u = Student" using adm that by (intro admin_kept) blast+
  then show ?thesis using d' adm by auto
next
  case RemoveInstructor
  then obtain u where u: "find_user i d = Some u" "granted_role u = Some Instructor"
    and d': "d' = update_user i (set_roles None (provider_role u)) d"
    using r by (auto simp: revokeInstructor_def split: option.splits if_splits)
  have "provider_role u = Administrator" if "user_role u = Administrator"
    using found_user_ok [OF ok u(1)] u(2) that by (auto simp: user_ok_def split: if_splits)
  then have "enabled_admin (set_roles None (provider_role u) v)" if "v \<in> set (users d)" "user_id v = i" "enabled_admin v" for v
    using only_user [OF ok u(1) that(1,2)] that(3) by (auto simp: enabled_admin_def)
  then show ?thesis using d' adm by (auto intro!: admin_kept)
qed

lemma disable_keeps_admin:
  assumes ok: "users_ok (users (core a))" and "has_admin a"
    and x: "extra = Some \<or> extra = remove_transaction adm i dex meta"
    and d: "disable_transaction adm i before t meta extra a = Some (Inr a')"
  shows "has_admin a'"
proof -
  have guard: "\<not> ((case find (\<lambda>u. user_id u = i) (locked_users i (core a)) of None \<Rightarrow> False
      | Some u \<Rightarrow> user_role u = Administrator \<and> disabled_at u = None) \<and> other_admins i (core a) = [])"
    using d by (auto simp: disable_transaction_def Let_def split: if_splits)
  have "\<exists>u\<in>set (users (core a)). enabled_admin u \<and> user_id u \<noteq> i"
  proof (cases "other_admins i (core a) = []")
    case False
    then show ?thesis by (rule other_admins_exist)
  next
    case True
    obtain u where u: "u \<in> set (users (core a))" "enabled_admin u" using assms(2) by (auto simp: has_admin_def)
    have "user_id u \<noteq> i"
    proof
      assume i: "user_id u = i"
      then have "u \<in> set (locked_users i (core a))" using u(1) by (simp add: locked_users_def)
      then obtain v where v: "find (\<lambda>u. user_id u = i) (locked_users i (core a)) = Some v"
        using i by (cases "find (\<lambda>u. user_id u = i) (locked_users i (core a))") (auto simp: find_None_iff)
      have "v = u" using found_locked [OF v] u(1) i ok by (auto simp: users_ok_def distinct_map dest: inj_onD)
      then show False using guard True v u(2) by (simp add: enabled_admin_def)
    qed
    then show ?thesis using u by blast
  qed
  then show ?thesis using disabled_users [OF d x] by (auto simp: has_admin_def intro!: admin_upd)
qed

lemma step_keeps_admin:
  assumes e: "auth_step e a a'" and ok: "users_ok (users (core a))" and adm: "has_admin a"
    and not_sign_in: "\<nexists>j. e = SignedInAs j"
  shows "has_admin a'"
  using e
proof (cases rule: auth_step.cases)
  case (role_set act adm i meta ans)
  then show ?thesis using role_keeps_admin [OF ok] assms(3)
    by (auto simp: has_admin_def elim!: role_transaction_users)
next
  case (disabled extra adm i dex meta before t)
  then show ?thesis using disable_keeps_admin [OF ok assms(3)] by blast
next
  case (signed_in si i t j off)
  then show ?thesis using not_sign_in by blast
next
  case (claimed idn i v prov t i')
  then show ?thesis using adm
    by (auto simp: has_admin_def claim_row_def Let_def split: option.splits if_splits)
next
  case (account_made i who dexId mail un name r dex meta)
  then show ?thesis using adm
    by (fastforce simp: has_admin_def precreateDexAccount_def split: option.splits if_splits elim!: createDexAccount_users)
next
  case (admin_restored i ifMissing mail dex t)
  from this(3) show ?thesis
  proof (rule reset_admin_users)
    fix u assume "local_admin_account a = Some u"
      "users (core a') = upd_where (\<lambda>v. user_id v = user_id u) restore_admin (users (core a))"
    then show ?thesis using adm by (auto simp: has_admin_def intro!: admin_kept)
  next
    fix d j assume "precreateDexAccount i LOCAL_ADMIN_USER_ID mail ''admin'' ''Local administrator'' Administrator True (core a)
        = Some (j, d)" "users (core a') = users d"
    then show ?thesis using adm by (auto simp: has_admin_def precreateDexAccount_def split: option.splits if_splits)
  qed
next
  case (password_reset who i listed dex nid date meta t ans)
  then show ?thesis using adm by (auto simp: has_admin_def dest!: password_route_shape intro!: admin_kept)
qed (use adm in \<open>auto simp: step_defs has_admin_def split: step_splits elim!: complete_reset_shape
    dest!: confirm_shape link_shape factor_route_shape simp: enabled_adminD intro!: admin_kept\<close>)

text \<open>
  C8: Once the site has an enabled administrator it keeps one: no run of grants, revocations, disables,
  removals, resets, links or claims takes the last one away, whatever the interleaving and however stale
  what a handler read before. A sign-in is the exception, as it carries out what the identity provider says.
\<close>

theorem last_administrator_kept:
  assumes "auth_ok a" "auth_run es a b" "\<And>e j. e \<in> set es \<Longrightarrow> e \<noteq> SignedInAs j" "has_admin a"
  shows "has_admin b"
  using assms
proof (induction es arbitrary: a)
  case (Cons e es)
  then obtain c where c: "auth_step e a c" "auth_run es c b" by auto
  have "has_admin c" using step_keeps_admin [OF c(1)] Cons.prems by (auto simp: auth_ok_def)
  moreover have "auth_ok c" using step_auth_ok Cons.prems(1) c(1) by blast
  ultimately show ?case using Cons.IH c(2) Cons.prems(3) by simp
qed simp

lemma accounts_in_order_witness:
  "map (\<lambda>u. (user_id u, user_role u)) (users (core sample_ada)) = [(''a'', Administrator)] \<and>
   list_all (\<lambda>u. user_role u = effective_role (granted_role u) (provider_role u)) (users (core sample_ada))"
proof -
  have run: "auth_run [SignedInAs ''a''] sample_site sample_ada" using sample_steps(1) by simp
  have "map (\<lambda>u. (user_id u, user_role u)) (users (core sample_ada)) = [(''a'', Administrator)]" by code_simp
  moreover note accounts_in_order [OF sample_site_start(1) run]
  ultimately show ?thesis by (simp add: list_all_iff)
qed

lemma last_administrator_kept_witness:
  "\<exists>a b. auth_run [RoleSet Demote] a b \<and> fst (role_transaction Demote ''b'' ''a'' [] a) = RoleRefused ProviderAdministrator \<and> has_admin b"
proof -
  let ?b = "snd (role_transaction Demote ''b'' ''a'' [] sample_ada)"
  have ok: "auth_ok sample_ada" using auth.inv_step [OF sample_site_start(2)] sample_steps(1) by blast
  have "auth_step (RoleSet Demote) sample_ada ?b" by (rule role_set [OF prod.collapse [symmetric]])
  then have run: "auth_run [RoleSet Demote] sample_ada ?b" by simp
  have "has_admin sample_ada" by code_simp
  then have "has_admin ?b" by (intro last_administrator_kept [OF ok run]) simp_all
  moreover have "fst (role_transaction Demote ''b'' ''a'' [] sample_ada) = RoleRefused ProviderAdministrator" by code_simp
  ultimately show ?thesis using run by blast
qed

end
