(* ===== verification/Auth_Access.thy ===== *)
theory Auth_Access
  imports Auth_System
begin

text \<open>
  Who gets past the hook of \<open>Auth_Gate\<close>, in the states of \<open>Auth_System\<close>: deny by default, the second
  factor before anything else, and the routes of administrators.
\<close>

section \<open>Past the hook\<close>

lemma gates_in_order [simp]:
  "firstGate u =
    (if su_second_factor u = Some VerifyFirst then Some (GATES ! 0)
     else if mustChangePassword u then Some (GATES ! 1)
     else if su_second_factor u = Some EnrolFirst then Some (GATES ! 2)
     else if mustAcceptUse u then Some (GATES ! 3) else None)"
  by (simp add: firstGate_def GATES_def)

lemma gates_allow [simp]:
  "gate_allows (GATES ! 0) = SECOND_FACTOR_ROUTES" "gate_allows (GATES ! Suc 0) = [''POST /me/password'']"
  "gate_allows (GATES ! 2) = SECOND_FACTOR_ROUTES"
  by (simp_all add: GATES_def)

lemma resolved_more [simp]:
  "su_second_factor (resolved_user se us a) =
    (if second_factor_at se \<noteq> None \<or> \<not> secondFactorApplies us (sess_method se) then None
     else if has_second_factor (user_id us) a then Some VerifyFirst else Some EnrolFirst)"
  "mustAcceptUse (resolved_user se us a) \<longleftrightarrow>
    accepted_use_version us \<noteq> Some (nullish (map_option set_acceptable_use_version (db_settings (core a))) 1)"
  by (simp_all add: resolved_user_def Let_def)

lemma resolved_by_hook:
  assumes "resolveSession hash missKey r token t1 t2 t3 s = (Some (Some u), s')"
  shows "\<exists>a. loadSession hash token t2 (snd s) = (Some u, a)"
  using assms by (auto simp: resolveSession_def Let_def split: prod.splits if_splits option.splits)

lemma hook_proceeds:
  assumes "authPlugin origin hash missKey r t1 t2 t3 s = (Proceeds u, s')" "\<not> isExempt r"
  obtains token se us where "session_cookie r = Some token" "session_row (hash token) (snd s) = Some (se, us)"
    "\<not> session_ended se us t2" "disabled_at us = None" "u = Some (resolved_user se us (snd s))"
    "\<not> origin_refused origin r"
    "\<And>g. firstGate (resolved_user se us (snd s)) = Some g \<Longrightarrow> route_name r \<in> set (gate_allows g)"
proof -
  obtain token v where tok: "session_cookie r = Some token" "token \<noteq> []" "u = Some v"
    and res: "resolveSession hash missKey r token t1 t2 t3 s = (Some (Some v), s')"
    and o: "\<not> origin_refused origin r"
    and g: "case firstGate v of None \<Rightarrow> True | Some g \<Rightarrow> passesGate r g"
    using assms by (auto simp: authPlugin_def simp del: gates_in_order split: if_splits option.splits prod.splits)
  obtain a where "loadSession hash token t2 (snd s) = (Some v, a)" using resolved_by_hook [OF res] by blast
  then obtain se us where "session_row (hash token) (snd s) = Some (se, us)" "\<not> session_ended se us t2"
    "disabled_at us = None" "v = resolved_user se us (snd s)"
    using loadSession_Some [of "hash token" t2 "snd s" v] by (auto simp: loadSession_def)
  moreover have "route_name r \<in> set (gate_allows g)" if "firstGate v = Some g" for g
    using that g assms(2) by (simp add: passesGate_def)
  ultimately show ?thesis using that tok o by blast
qed

text \<open>
  C14: Deny by default: a request gets past the hook to a route that is not exempt only with a cookie whose
  session is live, of an account that is enabled and not retired by a link; its origin was right; and
  when a gate holds the account, the route is one that gate allows.
\<close>

theorem deny_by_default:
  assumes "authPlugin origin hash missKey r t1 t2 t3 s = (Proceeds u, s')" "\<not> isExempt r"
  shows "\<exists>token se us. session_cookie r = Some token \<and>
    find_row sess_id (hash token) (sessions (snd s)) = Some se \<and> find_user (sess_user_id se) (core (snd s)) = Some us \<and>
    t2 < sess_expires_at se \<and> disabled_at us = None \<and> \<not> is_linked_course (user_id us) (snd s) \<and>
    u = Some (resolved_user se us (snd s)) \<and> \<not> origin_refused origin r \<and>
    (\<forall>g. firstGate (resolved_user se us (snd s)) = Some g \<longrightarrow> route_name r \<in> set (gate_allows g))"
  using assms
proof (rule hook_proceeds)
  fix token se us
  assume h: "session_cookie r = Some token" "session_row (hash token) (snd s) = Some (se, us)"
    "\<not> session_ended se us t2" "disabled_at us = None" "u = Some (resolved_user se us (snd s))"
    "\<not> origin_refused origin r"
    "\<And>g. firstGate (resolved_user se us (snd s)) = Some g \<Longrightarrow> route_name r \<in> set (gate_allows g)"
  then have "find_row sess_id (hash token) (sessions (snd s)) = Some se" "find_user (sess_user_id se) (core (snd s)) = Some us"
    "\<not> is_linked_course (user_id us) (snd s)"
    by (auto simp: session_row_def session_visible_def split: option.splits if_splits)
  moreover have "t2 < sess_expires_at se" using h(3) by (simp add: session_ended_def)
  ultimately show ?thesis using h by blast
qed


section \<open>The routes of administrators\<close>

definition METHODS :: "string list" where
  "METHODS = [''GET'', ''POST'', ''PUT'', ''PATCH'', ''DELETE'']"

lemma admin_route_not_exempt:
  assumes "route_url r = Some (''/admin/'' @ rest)" "req_method r \<in> set METHODS"
  shows "\<not> isExempt r" "g \<in> set GATES \<Longrightarrow> route_name r \<notin> set (gate_allows g)"
  using assms
  by (auto simp: isExempt_def route_name_def METHODS_def GATES_def SECOND_FACTOR_ROUTES_def DEX_PASSWORD_ROUTE_def
      startsWith_def)


definition sample_request :: "string \<Rightarrow> string \<Rightarrow> api_request" where
  "sample_request how url =
     \<lparr>req_method = how, route_url = Some url, req_headers = [], session_cookie = Some ''s'', client_key = ''k''\<rparr>"

abbreviation sample_hook :: "string \<Rightarrow> auth_db \<Rightarrow> hook_answer \<times> gate_state" where
  "sample_hook url b \<equiv>
     authPlugin ''https://site'' (\<lambda>x. x) (\<lambda>x. x) (sample_request ''GET'' url) 9 9 9 (new_guard 60 0, b)"

lemma deny_by_default_witness:
  "\<exists>u s'. sample_hook ''/admin/users'' sample_accepted = (Proceeds u, s') \<and> u \<noteq> None"
proof -
  let ?h = "sample_hook ''/admin/users'' sample_accepted"
  have "case fst ?h of Proceeds u \<Rightarrow> u \<noteq> None | _ \<Rightarrow> False" by code_simp
  then obtain u s' where u: "?h = (Proceeds u, s')" by (cases ?h) (auto split: hook_answer.splits)
  moreover have "\<not> isExempt (sample_request ''GET'' ''/admin/users'')" by code_simp
  ultimately show ?thesis using deny_by_default [OF u] by auto
qed


definition sample_bob :: user where
  "sample_bob =
     (new_user ''b'' \<lparr>id_issuer = DEX_ACCOUNT_ISSUER, id_subject = the (dexLocalSubject ''bob''), id_email = None,
        id_display_name = ''bob'', id_preferred_username = None\<rparr> Student Student None None)\<lparr>must_change_password := True\<rparr>"

definition sample_waiting :: auth_db where
  "sample_waiting = createSession ''s'' ''b'' 3600 \<lparr>origin_method = Oidc, origin_course_user = None\<rparr> 0
     (sample_site\<lparr>core := core sample_site\<lparr>users := [sample_bob]\<rparr>\<rparr>)"


end
