(* ===== verification/Auth_Runs.thy ===== *)
theory Auth_Runs
  imports Auth_Once
begin

text \<open>
  The handlers refine the steps: whatever one of them does on a state, on every branch, is a run of
  steps of \<open>Auth_Steps\<close>, so what those runs keep holds across handlers, whole or interleaved.
\<close>

section \<open>Reaching by steps\<close>

definition reach :: "auth_db \<Rightarrow> auth_db \<Rightarrow> bool" where
  "reach a b \<longleftrightarrow> (\<exists>es. auth_run es a b)"

lemma reach_refl [simp, intro]: "reach a a"
  unfolding reach_def by (rule exI [of _ "[]"]) simp

lemma reach_step: "auth_step e a b \<Longrightarrow> reach b c \<Longrightarrow> reach a c"
  unfolding reach_def by (metis event_run.simps(2))

lemma reach_trans: "reach a b \<Longrightarrow> reach b c \<Longrightarrow> reach a c"
  unfolding reach_def by (metis event_run_append)

lemma reach_one: "auth_step e a b \<Longrightarrow> reach a b"
  by (blast intro: reach_step)

lemma reach_audit: "reach a b \<Longrightarrow> reach a (auth_audit x b)"
  by (blast intro: reach_trans reach_one audited)

lemmas reach_login = reach_audit [of _ _ "audit (actor_of i) i ''auth.login'' r (Some m)" for i r m, folded login_audit_def]

section \<open>Signing in\<close>

lemma upsert_users:
  assumes "upsert_step n si t a = (j, off, b)"
  shows "j \<in> user_ids b" "user_ids b \<subseteq> insert n (user_ids a)" "sessions b = sessions a"
proof -
  obtain d where d: "upsert_user n (si_identity si) (si_role si) t (core a) = (j, d)" "users (core b) = users d"
    using assms by (rule upsert_step_users)
  have "j \<in> user_id ` set (users d) \<and> user_id ` set (users d) \<subseteq> insert n (user_id ` set (users (core a)))"
  proof (cases "find_identity (id_issuer (si_identity si)) (id_subject (si_identity si)) (core a)")
    case None
    then show ?thesis using d(1) by (auto simp: upsert_user_def)
  next
    case (Some u)
    then have "user_id u \<in> user_id ` set (users (core a))" by (auto simp: find_identity_def dest: find_row_Some)
    moreover have "user_id ` set (upd_where P (refresh_user idn r t) us) = user_id ` set us" for P idn r us
      by (simp add: map_upd_where_frame flip: set_map)
    moreover have "j = user_id u" "users d = upd_where (\<lambda>v. user_id v = user_id u)
        (refresh_user (si_identity si) (si_role si) t) (users (core a))"
      using Some d(1) by (auto simp: upsert_user_def)
    ultimately show ?thesis by auto
  qed
  then show "j \<in> user_ids b" "user_ids b \<subseteq> insert n (user_ids a)" using d(2) by (auto simp: user_ids_def)
  show "sessions b = sessions a" using upsert_shape [OF assms] by blast
qed

lemma upsert_then_session:
  assumes "upsert_step n si t a = (j, off, b)" "sign_in_ok (si_identity si) (si_role si)"
    and "find_identity (id_issuer (si_identity si)) (id_subject (si_identity si)) (core a) = None \<Longrightarrow> n \<notin> user_ids a"
    and "new_session \<notin> sess_id ` set (sessions a)"
  shows "reach a b" "reach a (createSession new_session j ttl origin t b)"
proof -
  have "auth_step (SignedInAs j) a b" using assms(2,3,1) by (rule signed_in)
  then show "reach a b" by (rule reach_one)
  moreover have "auth_step (SessionStarted new_session) b (createSession new_session j ttl origin t b)"
    using assms(4) upsert_users [OF assms(1)] by (intro started) simp_all
  ultimately show "reach a (createSession new_session j ttl origin t b)" by (blast intro: reach_trans reach_one)
qed

lemma claimed_identity:
  assumes "claim_row c n idn prov t a = Inr (Some i, b)"
  shows "find_identity (id_issuer idn) (id_subject idn) (core b) \<noteq> None"
  using assms
  by (auto simp: claim_row_def Let_def find_identity_def find_row_append find_row_single split: option.splits if_splits)

lemma claim_cases: "claim_row c n idn prov t a = Inr (r, b) \<Longrightarrow> r = None \<and> b = a \<or> (\<exists>i. r = Some i)"
  by (auto simp: claim_row_def Let_def split: option.splits if_splits)

lemma admitted_reach:
  assumes "admitted n si t a = Inr (ok, b)" "\<not> isCourseIssuer (id_issuer (si_identity si))" "n \<notin> user_ids a"
  shows "reach a b" "sessions b = sessions a"
    "find_identity (id_issuer (si_identity si)) (id_subject (si_identity si)) (core b) = None \<Longrightarrow> n \<notin> user_ids b"
proof -
  have "b = a \<or> (\<exists>c r. claim_row c n (si_identity si) (si_role si) t a = Inr (r, b))"
    using assms(1) by (auto simp: admitted_def claimInvitation_def split: if_splits option.splits sum.splits prod.splits)
  then consider "b = a" | c i where "claim_row c n (si_identity si) (si_role si) t a = Inr (Some i, b)"
    using claim_cases by blast
  then have "reach a b \<and> sessions b = sessions a \<and>
    (find_identity (id_issuer (si_identity si)) (id_subject (si_identity si)) (core b) = None \<longrightarrow> n \<notin> user_ids b)"
  proof cases
    case 2
    then show ?thesis using claimed_identity [OF 2] claim_shape [OF 2] reach_one [OF claimed [OF assms(2,3) 2]] by blast
  qed (use assms(3) in simp)
  then show "reach a b" "sessions b = sessions a"
    "find_identity (id_issuer (si_identity si)) (id_subject (si_identity si)) (core b) = None \<Longrightarrow> n \<notin> user_ids b"
    by blast+
qed

lemma completeSignIn_reach:
  assumes c: "completeSignIn n new_session ttl si t a = Inr (r, a')" and ok: "sign_in_ok (si_identity si) (si_role si)"
    and oidc: "si_method si = Oidc \<longrightarrow> \<not> isCourseIssuer (id_issuer (si_identity si))"
    and fresh: "n \<notin> user_ids a" "new_session \<notin> sess_id ` set (sessions a)"
  shows "reach a a'"
proof -
  obtain through b where b: "(if si_method si = Oidc then admitted n si t a else Inr (True, a)) = Inr (through, b)"
    using c by (auto simp: completeSignIn_def split: sum.splits)
  have r: "reach a b \<and> sessions b = sessions a \<and>
    (find_identity (id_issuer (si_identity si)) (id_subject (si_identity si)) (core b) = None \<longrightarrow> n \<notin> user_ids b)"
    using b admitted_reach [of n si t a through b] oidc fresh(1) by (auto split: if_splits)
  show ?thesis
  proof (cases through)
    case False
    then have "a' = not_invited_audit si b" using c b by (auto simp: completeSignIn_def)
    then show ?thesis using r by (auto simp: not_invited_audit_def intro: reach_audit)
  next
    case True
    obtain j off d where d: "upsert_step n si t b = (j, off, d)" by (cases "upsert_step n si t b") auto
    note s = upsert_then_session [OF d ok, of new_session]
    have "reach b a'"
    proof (cases off)
      case True
      then have "a' = login_audit j ResRefused (si_metadata si) d" using c b d \<open>through\<close> by (auto simp: completeSignIn_def)
      then show ?thesis using s(1) r fresh(2) by (auto simp: login_audit_def intro: reach_audit)
    next
      case False
      then have "a' = login_audit j ResOk (si_metadata si)
          (createSession new_session j ttl \<lparr>origin_method = si_method si, origin_course_user = None\<rparr> t d)"
        using c b d \<open>through\<close> by (auto simp: completeSignIn_def Let_def)
      then show ?thesis using s(2) r fresh(2) by (auto simp: login_audit_def intro: reach_audit)
    qed
    then show ?thesis using r reach_trans by blast
  qed
qed

section \<open>Launching from a course\<close>

lemma reach_member: "reach a b \<Longrightarrow> reach a (recordMembership course r i t b)"
  by (blast intro: reach_trans reach_one member)

lemma recordMembership_frame [simp]:
  "core (recordMembership course r i t a) = core a" "sessions (recordMembership course r i t a) = sessions a"
  by (simp_all add: recordMembership_def Let_def split: option.splits)

lemma user_ids_frame [simp]:
  "user_ids (recordMembership course r i t a) = user_ids a" "user_ids (auth_audit x a) = user_ids a"
  by (simp_all add: user_ids_def)

lemma found_in_ids: "find_user i (core a) = Some u \<Longrightarrow> i \<in> user_ids a"
  by (auto simp: user_ids_def dest: found_user_in)

lemma linked_launch_reach:
  assumes "linkedLaunch new_session ttl course r i courseUser base req t a = (res, a')"
    and "new_session \<notin> sess_id ` set (sessions a)"
  shows "reach a a'"
proof -
  obtain ok b where b: "linked_checked course r i base req t a = (ok, b)" by fastforce
  have rb: "reach a b" using b
    by (auto simp: linked_checked_def login_audit_def Let_def split: option.splits if_splits intro: reach_audit reach_member)
  show ?thesis
  proof (cases ok)
    case False
    then show ?thesis using assms(1) b rb by (simp add: linkedLaunch_def)
  next
    case True
    then obtain u where u: "find_user i (core a) = Some u" "b = recordMembership course r i t a"
      using b by (auto simp: linked_checked_def Let_def split: option.splits if_splits)
    then have "auth_step (SessionStarted new_session) b
        (createSession new_session i ttl \<lparr>origin_method = Lti, origin_course_user = Some courseUser\<rparr> t b)"
      using assms(2) found_in_ids [OF u(1)] by (intro started) simp_all
    then have "reach a (createSession new_session i ttl \<lparr>origin_method = Lti, origin_course_user = Some courseUser\<rparr> t b)"
      using rb reach_one reach_trans by blast
    then show ?thesis using assms(1) b True by (auto simp: linkedLaunch_def Let_def login_audit_def intro: reach_audit)
  qed
qed

lemma course_launch_reach:
  assumes l: "course_launch n new_session ttl course base req si t a = Inr (res, a')"
    and ok: "sign_in_ok (si_identity si) (si_role si)" and m: "si_method si = Lti"
    and fresh: "n \<notin> user_ids a" "new_session \<notin> sess_id ` set (sessions a)"
  shows "reach a a'"
proof (cases "\<exists>i c. resolveIdentity (id_issuer (si_identity si)) (id_subject (si_identity si)) a = Some (i, Some c)")
  case True
  then obtain i c where "resolveIdentity (id_issuer (si_identity si)) (id_subject (si_identity si)) a = Some (i, Some c)" by blast
  then show ?thesis using l by (auto simp: course_launch_def intro: linked_launch_reach [OF _ fresh(2)])
next
  case False
  then have "course_launch n new_session ttl course base req si t a =
      (case completeSignIn n new_session ttl si t a of Inl x \<Rightarrow> Inl x
       | Inr (SignedIn i, a) \<Rightarrow> Inr (LaunchedAs i, recordMembership course (si_role si) i t a)
       | Inr (_, a) \<Rightarrow> Inr (LaunchRefused, a))"
    by (auto simp: course_launch_def Let_def split: option.splits prod.splits)
  then have "\<exists>r b. completeSignIn n new_session ttl si t a = Inr (r, b) \<and>
      (a' = b \<or> (\<exists>i. a' = recordMembership course (si_role si) i t b))"
    using l by (auto split: sum.splits sign_in_result.splits)
  then obtain r b where b: "completeSignIn n new_session ttl si t a = Inr (r, b)"
    and a': "a' = b \<or> (\<exists>i. a' = recordMembership course (si_role si) i t b)" by blast
  have "reach a b" using completeSignIn_reach [OF b ok _ fresh] m by simp
  then show ?thesis using a' by (auto intro: reach_member)
qed

section \<open>Second factors\<close>

lemma use_step_False: "use_step f n t a = (False, b) \<Longrightarrow> b = a"
  by (auto simp: use_step_def Let_def upd_where_none)

lemma check_factors_reach: "check_factors hmac unseal i typed t fs a = (r, b) \<Longrightarrow> reach a b"
proof (induction fs arbitrary: a)
  case (Cons f fs)
  show ?case
  proof (cases "factor_match hmac unseal i typed t f")
    case None
    then show ?thesis using Cons by simp
  next
    case (Some n)
    obtain used c where c: "use_step (factor_id f) n t a = (used, c)" by fastforce
    show ?thesis
    proof (cases used)
      case True
      then show ?thesis using Cons.prems Some c by (auto intro: reach_one step_used)
    next
      case False
      then have "c = a" using c use_step_False by simp
      then show ?thesis using Cons Some c False by simp
    qed
  qed
qed simp

lemma recovery_failed: "useRecoveryCode hash i given t a = (Failed, b) \<Longrightarrow> b = a"
  by (auto simp: useRecoveryCode_def Let_def upd_where_none split: if_splits)

lemma recovery_reach: "useRecoveryCode hash i given t a = (r, b) \<Longrightarrow> reach a b"
  by (cases r) (auto dest: recovery_failed intro: reach_one code_used)

lemma check_reach: "checkSecondFactor hmac unseal hash i given t a = (r, b) \<Longrightarrow> reach a b"
  by (auto simp: checkSecondFactor_def Let_def split: if_splits intro: check_factors_reach recovery_reach)

lemma verify_reach:
  assumes "verify_route hmac unseal hash su s counted given meta t a = (ans, a')"
  shows "reach a a'"
proof (cases "su_second_factor su = Some VerifyFirst")
  case True
  obtain r b where b: "(if counted then checkSecondFactor hmac unseal hash (auth_id su) given t a
      else useRecoveryCode hash (auth_id su) given t a) = (r, b)" by fastforce
  then have "reach a b" by (auto split: if_splits intro: check_reach recovery_reach)
  moreover have "reach b a'" using assms True b
    by (auto simp: verify_route_def passed_check_def split: second_factor_check.splits
        intro: reach_audit reach_one marked)
  ultimately show ?thesis by (rule reach_trans)
next
  case False
  then show ?thesis using assms by (auto simp: verify_route_def split: option.splits owed_factor.splits)
qed

lemma enrol_reach:
  assumes "enrol_route hmac pending seal n hashes su s token given label meta t a = (ans, a')"
    and "n \<notin> factor_id ` set (second_factors a)"
  shows "reach a a'"
  using assms by (auto simp: enrol_route_def split: if_splits option.splits intro!: reach_one stored)

lemma remove_factor_reach: "remove_factor_route su s i meta a = (ans, a') \<Longrightarrow> reach a a'"
  by (auto simp: remove_factor_route_def split: if_splits intro: reach_one factor_lost)

lemma recovery_codes_reach: "recovery_codes_route su hashes meta a = Inr (Some a') \<Longrightarrow> reach a a'"
  by (auto simp: recovery_codes_route_def split: if_splits intro: reach_one codes_written)

section \<open>Linking\<close>

lemma callback_reach: "linkCallback n s login meta t a = (ans, a') \<Longrightarrow> reach a a'"
  by (auto simp: linkCallback_def refuse_callback_def Let_def split: if_splits option.splits prod.splits bool.splits
      intro!: reach_audit intro: reach_one intent_bound)

lemma link_check_reach: "check_for_link hmac unseal hash i given allowance meta t a = (r, b) \<Longrightarrow> reach a b"
  by (auto simp: check_for_link_def split: option.splits owed_factor.splits prod.splits second_factor_check.splits if_splits
      intro!: reach_audit intro: check_reach recovery_reach)

lemma confirm_reach:
  assumes "confirm_transaction s pending pn meta t a = (outcome, b)" "new_session \<notin> sess_id ` set (sessions b)"
    and "\<And>course sso. outcome = Linked (course, sso) \<Longrightarrow> sso \<in> user_ids b"
  shows "reach a (after_confirm new_session ttl checked req t outcome b)"
proof -
  have ab: "reach a b" using assms(1) by (blast intro: reach_one confirmed)
  show ?thesis
  proof (cases outcome)
    case (Linked p)
    obtain course sso where p: "p = (course, sso)" by fastforce
    let ?c = "createSession new_session sso ttl \<lparr>origin_method = Link, origin_course_user = None\<rparr> t b"
    have "sso \<in> user_ids b" using assms(3) Linked p by blast
    then have "auth_step (SessionStarted new_session) b ?c" by (rule started [OF assms(2)])
    then have c: "reach a ?c" using ab by (blast intro: reach_trans reach_one)
    moreover have "reach ?c (if checked = CheckPassed then markSecondFactorPassed new_session t ?c else ?c)"
      by (auto intro: reach_one marked)
    ultimately have "reach a (if checked = CheckPassed then markSecondFactorPassed new_session t ?c else ?c)"
      by (rule reach_trans)
    then show ?thesis using Linked p by (auto simp: after_confirm_def Let_def intro!: reach_audit)
  qed (use ab in \<open>auto simp: after_confirm_def Let_def intro!: reach_audit split: prod.splits\<close>)
qed

section \<open>Administrators\<close>

lemma refuse_reach: "refuseInstallAdminChange who i act meta a = (r, b) \<Longrightarrow> reach a b \<and> (\<not> r \<longrightarrow> b = a)"
  by (auto simp: refuseInstallAdminChange_def intro: reach_audit split: if_splits)

lemma role_route_reach: "roleRoute act who i meta a = (ans, a') \<Longrightarrow> reach a a'"
  by (auto simp: roleRoute_def split: prod.splits bool.splits dest!: refuse_reach
      intro: reach_trans reach_one role_set)

lemma disable_user_reach:
  assumes "disableUser who i t meta extra a = Some (Inr b)"
    and "extra = Some \<or> extra = remove_transaction who i dex meta"
  shows "reach a b"
  using assms(1) by (auto simp: disableUser_def split: if_splits option.splits intro: reach_one disabled [OF assms(2)])

lemma disable_route_reach: "disable_route who i meta t a = (ans, a') \<Longrightarrow> reach a a'"
  by (auto simp: disable_route_def split: prod.splits bool.splits option.splits sum.splits dest!: refuse_reach
      intro: reach_trans disable_user_reach)

lemma remove_route_reach: "remove_route who i listed dex meta t a = (ans, a') \<Longrightarrow> reach a a'"
  by (auto simp: remove_route_def split: prod.splits bool.splits option.splits sum.splits found_password.splits
      dest!: refuse_reach intro: reach_trans disable_user_reach)

section \<open>The handlers\<close>

text \<open>One whole handler, run on one state; new ids are fresh, and only a provider of this site gives out administrators.\<close>

inductive handler :: "auth_db \<Rightarrow> auth_db \<Rightarrow> bool" where
  oidc: "completeSignIn n new_session ttl si t a = Inr (r, a') \<Longrightarrow> si_method si = Oidc \<Longrightarrow>
     \<not> isCourseIssuer (id_issuer (si_identity si)) \<Longrightarrow> n \<notin> user_ids a \<Longrightarrow> new_session \<notin> sess_id ` set (sessions a) \<Longrightarrow>
     handler a a'"
| launch: "course_launch n new_session ttl course base req si t a = Inr (res, a') \<Longrightarrow> si_method si = Lti \<Longrightarrow>
     si_role si = mapLtiRoles roles \<Longrightarrow> n \<notin> user_ids a \<Longrightarrow> new_session \<notin> sess_id ` set (sessions a) \<Longrightarrow> handler a a'"
| verify: "verify_route hmac unseal hash su s counted given meta t a = (va, a') \<Longrightarrow> handler a a'"
| enrol: "enrol_route hmac pending seal f hashes su s token given label meta t a = (ea, a') \<Longrightarrow>
     f \<notin> factor_id ` set (second_factors a) \<Longrightarrow> handler a a'"
| new_codes: "recovery_codes_route su hashes meta a = Inr (Some a') \<Longrightarrow> handler a a'"
| remove_one: "remove_factor_route su s f meta a = (fa, a') \<Longrightarrow> handler a a'"
| callback: "linkCallback lnk sid login meta t a = (ca, a') \<Longrightarrow> handler a a'"
| check_link: "check_for_link hmac unseal hash i given2 allowance meta t a = (lc, a') \<Longrightarrow> handler a a'"
| confirm: "confirm_transaction s pend pn meta t a = (outcome, b) \<Longrightarrow> new_session \<notin> sess_id ` set (sessions b) \<Longrightarrow>
     (\<And>course sso. outcome = Linked (course, sso) \<Longrightarrow> sso \<in> user_ids b) \<Longrightarrow>
     handler a (after_confirm new_session ttl checked req t outcome b)"
| roles: "roleRoute act who i meta a = (ra, a') \<Longrightarrow> handler a a'"
| disable: "disable_route who i meta t a = (da, a') \<Longrightarrow> handler a a'"
| remove: "remove_route who i listed dex meta t a = (xa, a') \<Longrightarrow> handler a a'"

lemma mapLtiRoles_no_admin: "mapLtiRoles roles \<noteq> Administrator"
  by (simp add: mapLtiRoles_def split: option.splits)



end
