(* ===== verification/Auth_Outcomes.thy ===== *)
theory Auth_Outcomes
  imports Auth_Access Auth_Runs
begin

text \<open>
  What the transactions of sign-in leave behind: a disabled account stays out until it is enabled, a
  launch lands on an account in order, an unlink undoes its link; and two ways an administrator's
  request ends otherwise than its answer says.
\<close>

section \<open>A disabled account stays out\<close>

definition shut_out :: "uuid \<Rightarrow> user \<Rightarrow> bool" where
  "shut_out i u \<longleftrightarrow> user_id u = i \<and> disabled_at u \<noteq> None"

lemma shut_out_flags [simp]:
  "shut_out i (u\<lparr>must_change_password := b\<rparr>) = shut_out i u"
  "shut_out i (u\<lparr>accepted_use_version := v\<rparr>) = shut_out i u"
  "shut_out i (u\<lparr>disabled_at := Some t\<rparr>) \<longleftrightarrow> user_id u = i"
  "shut_out i (set_roles g r u) = shut_out i u"
  "shut_out i (refresh_user idn r t u) = shut_out i u"
  by (simp_all add: shut_out_def set_roles_def refresh_user_def)

lemma shut_outD: "shut_out i u \<Longrightarrow> user_id u = i"
  by (simp add: shut_out_def)

lemma row_kept:
  assumes "\<exists>u\<in>set us. Q u" and "\<And>u. Q u \<Longrightarrow> P u \<Longrightarrow> Q (f u)"
  shows "\<exists>u\<in>set (upd_where P f us). Q u"
  using assms by (auto simp: set_upd_where)

lemma step_keeps_out:
  assumes e: "auth_step e a b" and out: "\<exists>u\<in>set (users (core a)). shut_out i u"
    and "e \<noteq> AccountEnabled i" "e \<noteq> AdminRestored"
  shows "\<exists>u\<in>set (users (core b)). shut_out i u"
  using e
proof (cases rule: auth_step.cases)
  case (role_set act adm j meta ans)
  then show ?thesis using out
    by (cases act) (auto elim!: role_transaction_users simp: grantAdministrator_def revokeAdministrator_def
      grantInstructor_def revokeInstructor_def split: option.splits if_splits intro!: row_kept)
next
  case (disabled extra adm j dex meta before t)
  then show ?thesis using disabled_users [OF disabled(3,2)] out by (auto intro!: row_kept dest: shut_outD)
next
  case (enabled adm j t meta)
  then have "j \<noteq> i" "users (core b) = upd_where (\<lambda>u. user_id u = j) (\<lambda>u. u\<lparr>disabled_at := None\<rparr>) (users (core a))"
    using assms(3) by (auto simp: enable_user_def split: option.splits)
  then show ?thesis using out by (auto intro!: row_kept dest: shut_outD)
next
  case (signed_in si n t j off)
  from this(4) obtain d where "upsert_user n (si_identity si) (si_role si) t (core a) = (j, d)" "users (core b) = users d"
    by (rule upsert_step_users)
  then show ?thesis using out by (auto simp: upsert_user_def split: option.splits intro!: row_kept)
next
  case (claimed idn n v prov t i')
  then show ?thesis using out by (auto simp: claim_row_def Let_def split: option.splits if_splits)
next
  case (account_made n who dexId mail un name r dex meta)
  then show ?thesis using out
    by (fastforce simp: precreateDexAccount_def split: option.splits if_splits elim!: createDexAccount_users)
next
  case (admin_restored n ifMissing mail dex t)
  then show ?thesis using assms(4) by blast
next
  case (password_reset who j listed dex nid date meta t ans)
  then show ?thesis using out by (auto dest!: password_route_shape intro!: row_kept)
qed (use out in \<open>auto simp: step_defs split: step_splits elim!: complete_reset_shape
    dest!: confirm_shape link_shape factor_route_shape intro!: row_kept\<close>)

lemma run_keeps_out:
  "auth_run es a b \<Longrightarrow> \<exists>u\<in>set (users (core a)). shut_out i u \<Longrightarrow> AccountEnabled i \<notin> set es \<Longrightarrow> AdminRestored \<notin> set es \<Longrightarrow>
    \<exists>u\<in>set (users (core b)). shut_out i u"
  by (induction es arbitrary: a) (auto dest!: step_keeps_out)

lemma known_signs_in:
  assumes ok: "users_ok (users (core b))" and w: "w \<in> set (users (core b))"
    and si: "(id_issuer (si_identity si), id_subject (si_identity si)) = identity_of w"
  shows "known_identity (si_identity si) (core b)"
    "\<exists>c. upsert_step n si t b = (user_id w, disabled_at w \<noteq> None, c) \<and> sessions c = sessions b"
proof -
  have i: "find_identity (id_issuer (si_identity si)) (id_subject (si_identity si)) (core b) = Some w"
    using ok w si by (simp add: find_identity_def find_row_Some_iff users_ok_def identity_of_def [abs_def])
  then show "known_identity (si_identity si) (core b)" by (simp add: known_identity_def)
  have "find_user (user_id w) (core b) = Some w" using ok w by (simp add: find_user_def find_row_Some_iff users_ok_def)
  then have "upsert_step n si t b = (user_id w, disabled_at w \<noteq> None, snd (snd (upsert_step n si t b)))"
    using i by (simp add: upsert_step_def upsert_user_def role_changed_audit_def find_user_update refresh_user_def Let_def
        split: option.splits)
  then show "\<exists>c. upsert_step n si t b = (user_id w, disabled_at w \<noteq> None, c) \<and> sessions c = sessions b"
    using upsert_shape by blast
qed

text \<open>
  C12: Once an account is disabled, nothing but enabling it (or the recovery of the install administrator)
  lets it in again: however sign-in, links, claims and administrators interleave, no session resolves
  to it and a sign-in with its identity starts none.
\<close>

theorem disabled_stays_out:
  assumes "auth_ok a" "auth_run es a b" "find_user i (core a) = Some u" "disabled_at u \<noteq> None"
    and "AccountEnabled i \<notin> set es" "AdminRestored \<notin> set es"
  shows "(\<exists>v. find_user i (core b) = Some v \<and> disabled_at v \<noteq> None \<and>
      (\<forall>si. (id_issuer (si_identity si), id_subject (si_identity si)) = identity_of v \<longrightarrow>
        (\<exists>c. completeSignIn n new_session ttl si t b = Inr (SignInDisabled i, c) \<and> sessions c = sessions b))) \<and>
    (\<forall>s t su. fst (loadSessionById s t b) = Some su \<longrightarrow> auth_id su \<noteq> i)"
proof -
  have "\<exists>u\<in>set (users (core a)). shut_out i u"
    using assms(3,4) by (auto simp: find_user_def shut_out_def dest: find_row_Some)
  then obtain w where w: "w \<in> set (users (core b))" "user_id w = i" "disabled_at w \<noteq> None"
    using run_keeps_out [OF assms(2)] assms(5,6) by (auto simp: shut_out_def)
  have ok: "users_ok (users (core b))" using run_ok [OF assms(2,1)] by (simp add: auth_ok_def)
  have found: "find_user i (core b) = Some w"
    using w ok by (simp add: find_user_def find_row_Some_iff users_ok_def)
  have "\<exists>c. completeSignIn n new_session ttl si t b = Inr (SignInDisabled i, c) \<and> sessions c = sessions b"
    if "(id_issuer (si_identity si), id_subject (si_identity si)) = identity_of w" for si
  proof -
    note signs = known_signs_in [OF ok w(1) that]
    obtain c where "upsert_step n si t b = (i, True, c)" "sessions c = sessions b"
      using signs(2) [of n t] w(2,3) by auto
    then show ?thesis using signs(1) w(3)
      by (simp add: completeSignIn_def admitted_def login_audit_def)
  qed
  moreover have "auth_id su \<noteq> i" if "fst (loadSessionById s t b) = Some su" for s t su
  proof -
    note load = that
    obtain se v where "session_row s b = Some (se, v)" "disabled_at v = None" "su = resolved_user se v b"
      using load by (auto simp: loadSession_Some)
    moreover from this(1) have v: "find_user (sess_user_id se) (core b) = Some v"
      by (auto simp: session_row_def split: option.splits if_splits)
    moreover have "user_id v = sess_user_id se" using found_user_ok [OF ok v] by blast
    ultimately show ?thesis using found w(3) by auto
  qed
  ultimately show ?thesis using found w(3) by blast
qed

definition sample_disabled :: auth_db where
  "sample_disabled = sample_accepted\<lparr>core := update_user ''a'' (\<lambda>u. u\<lparr>disabled_at := Some 9\<rparr>) (core sample_accepted)\<rparr>"

lemma disabled_stays_out_witness:
  "\<exists>c. completeSignIn ''x'' ''y'' 3600 (sample_sign_in ''ada'' Student) 20 (endSessions ''a'' 9 sample_disabled) =
     Inr (SignInDisabled ''a'', c) \<and> sessions c = []"
proof -
  let ?si = "sample_sign_in ''ada'' Student" and ?b = "endSessions ''a'' 9 sample_disabled"
  have run: "auth_run [SessionsEnded] sample_disabled ?b" using all_ended by auto
  have d: "case find_user ''a'' (core sample_disabled) of None \<Rightarrow> False | Some u \<Rightarrow> disabled_at u \<noteq> None" by code_simp
  then obtain u where u: "find_user ''a'' (core sample_disabled) = Some u" "disabled_at u \<noteq> None"
    by (auto split: option.splits)
  have "account_links sample_disabled = []" "users_ok (users (core sample_disabled))" "keys_ok sample_disabled" by code_simp+
  then have ok: "auth_ok sample_disabled" by (simp add: auth_ok_def links_ok_def)
  have "case find_user ''a'' (core ?b) of None \<Rightarrow> False
    | Some v \<Rightarrow> (id_issuer (si_identity ?si), id_subject (si_identity ?si)) = identity_of v" by code_simp
  moreover have "sessions ?b = []" by code_simp
  ultimately show ?thesis using disabled_stays_out [OF ok run u, of "''x''" "''y''" 3600 20] by (auto split: option.splits)
qed

section \<open>Linking and unlinking\<close>

lemma link_done_shape:
  assumes "linkAccounts course sso t a = Inr (fin, b)"
  defines "open_ws \<equiv> \<lambda>w. owner_user_id w = course \<and> archived_at w = None"
  shows "\<not> link_exists course sso (done_platform_issuer fin) a"
    "account_links b = account_links a @ [\<lparr>link_course_user_id = course, link_user_id = sso,
       link_platform_issuer = done_platform_issuer fin, link_archived_at = map_option (\<lambda>_. t) (find open_ws (workspaces (core a)))\<rparr>]"
    "workspaces (core b) = upd_where open_ws (\<lambda>w. w\<lparr>archived_at := Some t, ws_desired := WantStopped, updated_at := t\<rparr>)
       (workspaces (core a))"
    "users (core b) = users (core a)"
    "sessions b = filter (\<lambda>s. sess_user_id s \<noteq> course) (sessions a)"
    "done_workspace fin = map_option ws_id (find open_ws (workspaces (core a)))"
proof -
  have r: "link_refused (find_user course (core a)) (find_user sso (core a)) a = None"
    using assms(1) by (auto simp: linkAccounts_def Let_def split: option.splits)
  then obtain c s where cs: "find_user course (core a) = Some c" "find_user sso (core a) = Some s"
    by (auto simp: link_refused_def split: option.splits)
  have "user_id c = course" "user_id s = sso" using cs by (auto simp: find_user_def dest: find_row_Some)
  then have e: "\<not> link_exists course sso (platformIssuerOf (oidc_issuer c)) a"
    using r cs by (simp add: link_refused_def split: if_splits)
  note fb = assms(1) [unfolded linkAccounts_def Let_def r, simplified option.case sum.inject prod.inject cs option.sel]
  show "\<not> link_exists course sso (done_platform_issuer fin) a"
    "account_links b = account_links a @ [\<lparr>link_course_user_id = course, link_user_id = sso,
       link_platform_issuer = done_platform_issuer fin, link_archived_at = map_option (\<lambda>_. t) (find open_ws (workspaces (core a)))\<rparr>]"
    "workspaces (core b) = upd_where open_ws (\<lambda>w. w\<lparr>archived_at := Some t, ws_desired := WantStopped, updated_at := t\<rparr>)
       (workspaces (core a))"
    "users (core b) = users (core a)"
    "sessions b = filter (\<lambda>s. sess_user_id s \<noteq> course) (sessions a)"
    "done_workspace fin = map_option ws_id (find open_ws (workspaces (core a)))"
    using fb e by (auto simp: open_ws_def update_workspaces_def)
qed

lemma unlink_done_shape:
  assumes "unlinkAccount sso course t b = Some (fin, c)"
    and "account_links b = ls @ [l]" "link_course_user_id l = course" "link_user_id l = sso"
    and "course \<notin> link_course_user_id ` set ls"
  defines "carries \<equiv> \<lambda>w. link_archived_at l \<noteq> None \<and> owner_user_id w = course \<and> archived_at w = link_archived_at l"
  shows "account_links c = ls" "users (core c) = users (core b)"
    "workspaces (core c) = upd_where carries (\<lambda>w. w\<lparr>archived_at := None, updated_at := t\<rparr>) (workspaces (core b))"
    "sessions c = filter (\<lambda>s. \<not> (sess_user_id s = sso \<and> sess_course_user_id s = Some course)) (sessions b)"
    "done_workspace fin = map_option ws_id (find carries (workspaces (core b)))"
    "done_platform_issuer fin = link_platform_issuer l"
proof -
  have ls: "\<not> (\<exists>x\<in>set ls. link_course_user_id x = course \<and> link_user_id x = sso)" using assms(5) by auto
  then have "find (\<lambda>l. link_course_user_id l = course \<and> link_user_id l = sso) (ls @ [l]) = Some l"
    using assms(3,4) ls by (induction ls) auto
  moreover have "filter (\<lambda>l. \<not> (link_course_user_id l = course \<and> link_user_id l = sso)) ls = ls"
    using ls by (simp add: filter_id_conv)
  ultimately show "account_links c = ls" "users (core c) = users (core b)"
    "workspaces (core c) = upd_where carries (\<lambda>w. w\<lparr>archived_at := None, updated_at := t\<rparr>) (workspaces (core b))"
    "sessions c = filter (\<lambda>s. \<not> (sess_user_id s = sso \<and> sess_course_user_id s = Some course)) (sessions b)"
    "done_workspace fin = map_option ws_id (find carries (workspaces (core b)))"
    "done_platform_issuer fin = link_platform_issuer l"
    using assms(1-4) by (auto simp: unlinkAccount_def update_workspaces_def carries_def Let_def)
qed

lemma link_then_unlink:
  assumes "\<And>w. w \<in> set ws \<Longrightarrow> owner_user_id w = course \<Longrightarrow> archived_at w \<noteq> Some t"
    and "\<And>w. free w \<longleftrightarrow> owner_user_id w = course \<and> archived_at w = None"
  defines "linked \<equiv> upd_where free (\<lambda>w. w\<lparr>archived_at := Some t, ws_desired := WantStopped, updated_at := t\<rparr>) ws"
    and "carries \<equiv> \<lambda>w. (\<exists>y. find free ws = Some y) \<and> owner_user_id w = course \<and> archived_at w = Some t"
  shows "map (\<lambda>w. (ws_id w, archived_at w)) (upd_where carries (\<lambda>w. w\<lparr>archived_at := None, updated_at := t'\<rparr>) linked) =
      map (\<lambda>w. (ws_id w, archived_at w)) ws"
    "map_option ws_id (find carries linked) = map_option ws_id (find free ws)"
proof -
  let ?carries = "\<lambda>any w. any \<and> owner_user_id w = course \<and> archived_at w = Some t"
  have *: "map (\<lambda>w. (ws_id w, archived_at w)) (upd_where (?carries any) (\<lambda>w. w\<lparr>archived_at := None, updated_at := t'\<rparr>)
        (upd_where free (\<lambda>w. w\<lparr>archived_at := Some t, ws_desired := WantStopped, updated_at := t\<rparr>) xs)) =
      map (\<lambda>w. (ws_id w, archived_at w)) xs \<and>
    map_option ws_id (find (?carries any) (upd_where free (\<lambda>w. w\<lparr>archived_at := Some t, ws_desired := WantStopped, updated_at := t\<rparr>) xs)) =
      map_option ws_id (find free xs)"
    if "\<And>w. w \<in> set xs \<Longrightarrow> owner_user_id w = course \<Longrightarrow> archived_at w \<noteq> Some t" "\<And>w. w \<in> set xs \<Longrightarrow> free w \<Longrightarrow> any" for xs any
    using that by (induction xs) (auto simp: assms(2))
  have "\<exists>y. find free ws = Some y" if "w \<in> set ws" "free w" for w
    using that by (cases "find free ws") (auto simp: find_None_iff)
  then show "map (\<lambda>w. (ws_id w, archived_at w)) (upd_where carries (\<lambda>w. w\<lparr>archived_at := None, updated_at := t'\<rparr>) linked) =
      map (\<lambda>w. (ws_id w, archived_at w)) ws"
    "map_option ws_id (find carries linked) = map_option ws_id (find free ws)"
    using * [OF assms(1), of ws "\<exists>y. find free ws = Some y"] unfolding carries_def linked_def by blast+
qed

text \<open>
  C16: Unlinking undoes linking: the links are those of before, each workspace is archived as it was, the
  answer names the same workspace, and no session of the retired account or of its launches is left.
  It needs the course account to have had no workspace archived in the very millisecond of the link.
\<close>

theorem unlink_undoes_link:
  assumes "linkAccounts course sso t a = Inr (fin, b)" "unlinkAccount sso course t' b = Some (fin', c)"
    and "\<And>w. w \<in> set (workspaces (core a)) \<Longrightarrow> owner_user_id w = course \<Longrightarrow> archived_at w \<noteq> Some t"
  shows "account_links c = account_links a \<and> users (core c) = users (core a) \<and> fin' = fin \<and>
    map (\<lambda>w. (ws_id w, archived_at w)) (workspaces (core c)) = map (\<lambda>w. (ws_id w, archived_at w)) (workspaces (core a)) \<and>
    (\<forall>s\<in>set (sessions c). sess_user_id s \<noteq> course \<and> (sess_user_id s = sso \<longrightarrow> sess_course_user_id s \<noteq> Some course))"
proof -
  note l = link_done_shape [OF assms(1)]
  define free where "free = (\<lambda>w::workspace. owner_user_id w = course \<and> archived_at w = None)"
  have "course \<notin> link_course_user_id ` set (account_links a)" using l(1) by (auto simp: link_exists_def)
  note u = unlink_done_shape [OF assms(2) l(2) _ _ this, simplified, folded free_def]
  note both = link_then_unlink [of "workspaces (core a)" course t free, OF assms(3) free_def [THEN fun_cong]]
  have "map (\<lambda>w. (ws_id w, archived_at w)) (workspaces (core c)) = map (\<lambda>w. (ws_id w, archived_at w)) (workspaces (core a))"
    using both(1) [of t'] u(3) l(3) [folded free_def] by (cases "find free (workspaces (core a))") simp_all
  moreover have "fin' = fin" using both(2) u(5,6) l(3,6) [folded free_def]
    by (cases "find free (workspaces (core a))") simp_all
  ultimately show ?thesis using u l by auto
qed

section \<open>A launch\<close>

lemma links_frame [simp]:
  "is_linked_course i (auth_audit e a) = is_linked_course i a" "has_link c i (auth_audit e a) = has_link c i a"
  "is_linked_course i (createSession n j ttl m t a) = is_linked_course i a"
  "has_link c i (createSession n j ttl m t a) = has_link c i a"
  "is_linked_course i (recordMembership k r j t a) = is_linked_course i a"
  "has_link c i (recordMembership k r j t a) = has_link c i a"
  "sessions (recordMembership k r j t a) = sessions a" "core (recordMembership k r j t a) = core a"
  by (simp_all add: is_linked_course_def has_link_def recordMembership_def Let_def split: option.splits)

lemma created_row:
  "s \<notin> sess_id ` set (sessions a) \<Longrightarrow> session_row s (createSession s i ttl m t a) =
    (case find_user i (core a) of None \<Rightarrow> None
     | Some u \<Rightarrow> let se = \<lparr>sess_id = s, sess_user_id = i, sess_created_at = t, sess_expires_at = t + ttl * 1000,
          sess_method = origin_method m, sess_course_user_id = origin_course_user m, second_factor_at = None\<rparr>
        in if session_visible se u a then Some (se, u) else None)"
proof -
  let ?m = "\<lparr>sess_id = s, sess_user_id = i, sess_created_at = t, sess_expires_at = t + ttl * 1000,
    sess_method = origin_method m, sess_course_user_id = origin_course_user m, second_factor_at = None\<rparr>"
  assume "s \<notin> sess_id ` set (sessions a)"
  then have "find_row sess_id s (filter (\<lambda>s. \<not> sess_expires_at s < t) (sessions a)) = None" by (auto simp: find_row_None)
  then have "find_row sess_id s (sessions (createSession s i ttl m t a)) = Some ?m"
    by (simp add: find_row_append find_row_single)
  then show ?thesis
    by (simp add: session_row_def session_visible_def is_linked_course_def has_link_def Let_def split: option.splits)
qed

lemma session_row_frame [simp]:
  "session_row s (auth_audit e a) = session_row s a" "session_row s (recordMembership c r i t a) = session_row s a"
  by (simp_all add: session_row_def session_visible_def is_linked_course_def has_link_def recordMembership_def Let_def
      cong: option.case_cong split: option.splits)

lemma linked_launch_lands:
  assumes ok: "auth_ok a" and l: "linkedLaunch s ttl course r i c base req t a = (LaunchedAs j, b)"
    and link: "has_link c i a" and fresh: "s \<notin> sess_id ` set (sessions a)"
  shows "\<exists>se u. session_row s b = Some (se, u) \<and> user_id u = j \<and> sess_method se = Lti \<and> disabled_at u = None \<and>
    user_role u \<noteq> Administrator \<and> \<not> is_linked_course j b"
proof -
  have "j = i" and u: "\<exists>u. find_user i (core a) = Some u \<and> disabled_at u = None \<and> user_role u \<noteq> Administrator"
    and b: "\<exists>e. b = auth_audit e (createSession s i ttl \<lparr>origin_method = Lti, origin_course_user = Some c\<rparr> t
      (recordMembership course r i t a))"
    using l by (auto simp: linkedLaunch_def linked_checked_def login_audit_def Let_def
        split: option.splits prod.splits bool.splits if_splits)
  have "\<not> is_linked_course i a" using links_flat [OF ok] link by (auto simp: has_link_def)
  moreover obtain v where v: "find_user i (core a) = Some v" "disabled_at v = None" "user_role v \<noteq> Administrator"
    using u by blast
  moreover have "user_id v = i" using v(1) by (auto simp: find_user_def dest: find_row_Some)
  ultimately show ?thesis using b fresh link \<open>j = i\<close> by (auto simp: created_row session_visible_def Let_def)
qed

lemma new_not_linked:
  assumes "links_ok a" "n \<notin> user_ids a"
  shows "\<not> is_linked_course n a"
proof
  assume "is_linked_course n a"
  then obtain iss sub where "(n, iss, sub) \<in> set (idents (core a))"
    using assms(1) by (auto simp: is_linked_course_def links_ok_def link_ok_def)
  then show False using assms(2) by (auto simp: idents_def who_is_def user_ids_def)
qed

text \<open>The row a sign-in made or refreshed has the identity it came with.\<close>

lemma upserted_row:
  assumes ok: "users_ok (users d)" and up: "upsert_user n idn r t d = (i, d')" and v: "find_user i d' = Some v"
    and fresh: "n \<notin> user_id ` set (users d)"
  shows "oidc_issuer v = id_issuer idn \<and>
    (case find_identity (id_issuer idn) (id_subject idn) d of None \<Rightarrow> i = n | Some u \<Rightarrow> i = user_id u)"
proof (cases "find_identity (id_issuer idn) (id_subject idn) d")
  case None
  then have "i = n" "d' = d\<lparr>users := users d @ [new_user n idn r r None (Some t)]\<rparr>" using up by (auto simp: upsert_user_def)
  moreover have "find_row user_id n (users d) = None" using fresh by (simp add: find_row_None)
  ultimately show ?thesis using v None by (auto simp: find_user_def find_row_append find_row_single)
next
  case (Some u)
  then have u: "u \<in> set (users d)" "oidc_issuer u = id_issuer idn"
    by (auto simp: find_identity_def dest: find_row_Some)
  then have "find_user (user_id u) d = Some u" using ok by (simp add: find_user_def find_row_Some_iff users_ok_def)
  moreover have "i = user_id u" "d' = update_user (user_id u) (refresh_user idn r t) d"
    using Some up by (auto simp: upsert_user_def)
  ultimately have "v = refresh_user idn r t u" using v by (simp add: find_user_update refresh_user_def)
  then show ?thesis using Some u(2) \<open>i = user_id u\<close> by (simp add: refresh_user_def)
qed

lemma new_launch_lands:
  assumes ok: "auth_ok a" and up: "upsert_step n si t a = (i, False, c)"
    and si: "isCourseIssuer (id_issuer (si_identity si))" "si_role si \<noteq> Administrator" and fresh: "n \<notin> user_ids a"
    and free: "\<nexists>i c. resolveIdentity (id_issuer (si_identity si)) (id_subject (si_identity si)) a = Some (i, Some c)"
  obtains v where "find_user i (core c) = Some v" "user_id v = i" "disabled_at v = None" "user_role v \<noteq> Administrator"
    "\<not> is_linked_course i c" "sessions c = sessions a"
proof -
  have oka: "users_ok (users (core a))" "links_ok a" using ok by (simp_all add: auth_ok_def)
  obtain d where d: "upsert_user n (si_identity si) (si_role si) t (core a) = (i, d)" "users (core c) = users d"
    using up by (rule upsert_step_users)
  have okc: "users_ok (users (core c))"
    using upsert_user_ok [OF oka(1) _ _ d(1)] si fresh d(2) by (simp add: sign_in_ok_def user_ids_def)
  obtain v where v: "find_user i (core c) = Some v"
    using upsert_users(1) [OF up] by (cases "find_user i (core c)") (auto simp: find_user_def find_row_None user_ids_def)
  then have "find_user i d = Some v" using d(2) by (simp add: find_user_def)
  note row = upserted_row [OF oka(1) d(1) this fresh [unfolded user_ids_def]]
  have "disabled_at v = None" using up v by (auto simp: upsert_step_def role_changed_audit_def Let_def
      split: prod.splits option.splits if_splits)
  moreover have "user_role v \<noteq> Administrator" using found_user_ok [OF okc v] row si by (auto simp: user_ok_def)
  moreover have "\<not> is_linked_course i a" using row free new_not_linked [OF oka(2) fresh]
    by (auto simp: resolveIdentity_def is_linked_course_def find_row_None split: option.splits)
  moreover have "sessions c = sessions a" "account_links c = account_links a" using upsert_shape [OF up] by blast+
  ultimately show ?thesis using that v found_user_ok [OF okc v] by (auto simp: is_linked_course_def)
qed


definition sample_launch :: sign_in where
  "sample_launch = sample_sign_in ''eve'' Student\<lparr>si_identity := \<lparr>id_issuer = ''lti:https://lms'', id_subject = ''eve'',
     id_email = None, id_display_name = ''Eve'', id_preferred_username = None\<rparr>, si_method := Lti\<rparr>"

definition sample_launched :: auth_db where
  "sample_launched =
     (case course_launch ''e'' ''s'' 3600 None [] [] sample_launch 5 sample_ada of Inr (r, b) \<Rightarrow> b | Inl x \<Rightarrow> sample_ada)"

lemma sample_launched:
  "course_launch ''e'' ''s'' 3600 None [] [] sample_launch 5 sample_ada = Inr (LaunchedAs ''e'', sample_launched)"
proof -
  have "case course_launch ''e'' ''s'' 3600 None [] [] sample_launch 5 sample_ada of
    Inl x \<Rightarrow> False | Inr (r, b) \<Rightarrow> r = LaunchedAs ''e''" by code_simp
  then show ?thesis by (auto simp: sample_launched_def split: sum.splits prod.splits)
qed


definition sample_pair :: auth_db where
  "sample_pair = sample_launched\<lparr>core := (core sample_launched)\<lparr>users := users (core sample_launched) @
     [new_user ''b'' (si_identity (sample_sign_in ''bob'' Student)) Student Student None None]\<rparr>\<rparr>"

lemma unlink_undoes_link_witness:
  "\<exists>fin b c. linkAccounts ''e'' ''b'' 6 sample_pair = Inr (fin, b) \<and> unlinkAccount ''b'' ''e'' 7 b = Some (fin, c) \<and>
    account_links b \<noteq> [] \<and> account_links c = []"
proof -
  have "case linkAccounts ''e'' ''b'' 6 sample_pair of Inl r \<Rightarrow> False
    | Inr (fin, b) \<Rightarrow> unlinkAccount ''b'' ''e'' 7 b \<noteq> None \<and> account_links b \<noteq> []" by code_simp
  then obtain fin b fin' c where l: "linkAccounts ''e'' ''b'' 6 sample_pair = Inr (fin, b)"
    "unlinkAccount ''b'' ''e'' 7 b = Some (fin', c)" "account_links b \<noteq> []"
    by (auto split: sum.splits)
  have "workspaces (core sample_pair) = []" "account_links sample_pair = []" by code_simp+
  then show ?thesis using unlink_undoes_link [OF l(1,2)] l by auto
qed

section \<open>What goes wrong\<close>

text \<open>
  C18: A disable that read the account while it was disabled, overtaken by an enable, answers that it is done
  and audits it, but leaves the account enabled: only its sessions are gone.
\<close>

theorem stale_disable_leaves_enabled:
  assumes "find_user i (core a) = Some u" "disabled_at u = Some s"
    and "enable_user who i t meta a = Some b" "disable_transaction who' i (disabled_at u) t' meta' Some b = Some (Inr c)"
  shows "(\<exists>v. find_user i (core c) = Some v \<and> disabled_at v = None) \<and>
    last (audit_events (core c)) = audit (actor_of who') i ''user.disabled'' ResOk (Some meta')"
proof -
  have "find_user i (core b) = Some (u\<lparr>disabled_at := None\<rparr>)" using assms(1,3)
    by (auto simp: enable_user_def find_user_update split: option.splits)
  moreover have "users (core c) = users (core b)" using disabled_users [OF assms(4)] assms(2) by simp
  moreover have "last (audit_events (core c)) = audit (actor_of who') i ''user.disabled'' ResOk (Some meta')"
    using assms(4) by (auto simp: disable_transaction_def recordAudit_def Let_def split: if_splits)
  ultimately show ?thesis by (simp add: find_user_def)
qed

definition sample_two :: auth_db where
  "sample_two = sample_disabled\<lparr>core := (core sample_disabled)\<lparr>users := users (core sample_disabled) @
     [new_user ''d'' (si_identity (sample_sign_in ''dan'' Administrator)) Administrator Administrator None None]\<rparr>\<rparr>"

lemma stale_disable_leaves_enabled_witness:
  "\<exists>b c v. enable_user ''d'' ''a'' 10 [] sample_two = Some b \<and>
     disable_transaction ''d'' ''a'' (Some 9) 11 [] Some b = Some (Inr c) \<and>
     find_user ''a'' (core c) = Some v \<and> disabled_at v = None"
proof -
  have "case find_user ''a'' (core sample_two) of None \<Rightarrow> False | Some u \<Rightarrow> disabled_at u = Some 9" by code_simp
  then obtain u where u: "find_user ''a'' (core sample_two) = Some u" "disabled_at u = Some 9"
    by (auto split: option.splits)
  have "case enable_user ''d'' ''a'' 10 [] sample_two of None \<Rightarrow> False
    | Some b \<Rightarrow> (case disable_transaction ''d'' ''a'' (Some 9) 11 [] Some b of Some (Inr c) \<Rightarrow> True | _ \<Rightarrow> False)"
    by code_simp
  then obtain b c where d: "enable_user ''d'' ''a'' 10 [] sample_two = Some b"
    "disable_transaction ''d'' ''a'' (Some 9) 11 [] Some b = Some (Inr c)"
    by (auto split: option.splits sum.splits)
  then show ?thesis using stale_disable_leaves_enabled [OF u d(1), of "''d''" 11 "[]" c] u(2) by auto
qed

lemma notify_audits: "audit_events (notifyCredentialReset n i kind date t d) = audit_events d"
  by (simp add: notifyCredentialReset_def recordNotification_def Let_def)

text \<open>
  C17: A password reset that Dex refuses, because the password is gone by then, answers that the account is
  not one of Dex's, and yet ends its sessions, asks it for a new password and audits the reset as done.
\<close>

theorem refused_reset_commits:
  assumes "reset_password_route who i (Some True) DexMissing n date meta t a = (ResetNotLocal, b)"
    and "findDexPassword i True a = Found"
  shows "(\<exists>v. find_user i (core b) = Some v \<and> must_change_password v) \<and>
    (\<forall>s\<in>set (sessions b). sess_user_id s \<noteq> i) \<and>
    audit (actor_of who) i ''dex_user.password_reset'' ResOk (Some meta) \<in> set (audit_events (core b))"
proof -
  obtain u where u: "find_user i (core a) = Some u" using assms(2) by (auto simp: findDexPassword_def split: option.splits)
  let ?c = "revokeAccountEmailTokens i t (endSessions i t a)"
  let ?d = "?c\<lparr>core := update_user i (\<lambda>u. u\<lparr>must_change_password := True\<rparr>) (core ?c)\<rparr>"
  let ?e = "auth_audit (audit (actor_of who) i ''dex_user.password_reset'' ResOk (Some meta)) ?d"
  have "b = ?e\<lparr>core := notifyCredentialReset n i ResetPassword date t (core ?e)\<rparr>"
    using assms by (simp add: reset_password_route_def refuseInstallAdminChange_def Let_def split: if_splits)
  then have "core b = notifyCredentialReset n i ResetPassword date t (core ?e)" "sessions b = filter (\<lambda>s. sess_user_id s \<noteq> i) (sessions a)"
    by simp_all
  moreover have "find_user i (notifyCredentialReset n i ResetPassword date t (core ?e)) = Some (u\<lparr>must_change_password := True\<rparr>)"
    using find_user_update [of "\<lambda>u. u\<lparr>must_change_password := True\<rparr>" i i "core a"] u by (simp add: find_user_def)
  ultimately show ?thesis by (simp add: notify_audits recordAudit_def)
qed

lemma refused_reset_commits_witness:
  "\<exists>b. reset_password_route ''a'' ''b'' (Some True) DexMissing ''n'' ''today'' [] 10 sample_waiting = (ResetNotLocal, b) \<and>
     sessions sample_waiting \<noteq> [] \<and> sessions b = []"
proof -
  let ?r = "reset_password_route ''a'' ''b'' (Some True) DexMissing ''n'' ''today'' [] 10 sample_waiting"
  have "fst ?r = ResetNotLocal" by code_simp
  then obtain b where b: "?r = (ResetNotLocal, b)" by (cases ?r) auto
  have "findDexPassword ''b'' True sample_waiting = Found" by code_simp
  note committed = refused_reset_commits [OF b this]
  have "sessions (snd ?r) = []" "sessions sample_waiting \<noteq> []" by code_simp+
  then show ?thesis using b committed by simp
qed

end
