(* ===== verification/Spec2Isabelle.thy ===== *)
theory Spec2Isabelle
  imports Prelude Js_Text Egress Guard_Policy Db Lifecycle Calls Reconcile Drift Replace_Home
    Labels Api_Workspaces Worker Worker_States Worker_Rows Worker_Safety Worker_System
    Sweep_Rows Sweep Outcomes Paths Layout Layout_Panes Layout_Sync Layout_Schema Layout_Valid
    Egress_Admin Egress_Sync Egress_System Admin_Limits Guard_Loop Guard_Averages Guard_Rows
    Config_Sync Config_System
    Js_Map Fixed_Window Rate_Limit Session_Guard Stored_Counter Counter_System Address_Key Signin_Throttle
    Totp Dex_Subject Auth_Db Roles Sessions Sign_In Second_Factor Account_Links Accounts Auth_Users
    Auth_Gate Auth_Steps Auth_Invariants Auth_Samples Auth_Once Auth_System Auth_Access Auth_Runs Auth_Outcomes
begin

text \<open>
  Verification of Portikus, a service that gives students cloud workspaces.

  \<^bold>\<open>The program.\<close> An API server (\<open>apps/api\<close>) takes the requests of students and administrators and
  writes what they want into a PostgreSQL database. A worker (\<open>apps/worker\<close>) reads the database
  and makes it true: a reconciliation sweep, every few seconds, compares each workspace row with
  what is wanted of it and with what the controller (\<open>apps/workspace-controller\<close>) says of its
  instance, and starts the controller calls that are missing; other loops apply the egress policy
  and guard the resources. The two processes share nothing but the database. The browser
  (\<open>apps/web\<close>) keeps the layout of an editor, which the API checks and stores. The types and rules
  all of them share are in \<open>packages/contracts\<close>.

  \<^bold>\<open>How it is modelled.\<close> A table is a list of records, in \<open>Db\<close>; a column is a field, nullable when it
  is an option; a time is an \<open>int\<close> of milliseconds. A statement or transaction is a function on
  the database, an \<open>await\<close> is a point where another process may run, and what the controller
  answers is an argument. An API answer is a sum: the status and code of a refusal, or the new
  database, so that a refused transaction has written nothing. A throw inside the worker is \<open>None\<close>.
  JavaScript's null-propagating operators are \<open>nullish\<close> and friends of \<open>Prelude\<close>.

  \<^bold>\<open>Foundations.\<close>
  \<^item> \<open>Prelude\<close>: tables (\<open>upd_where\<close>, \<open>find_row\<close>, the locale \<open>row_store\<close>), loops that may throw, and the
    locale \<open>step_system\<close> of a step relation with an invariant; both are interpreted on the code's
    model wherever they are used.
  \<^item> \<open>Js_Text\<close>: \<open>split\<close>, \<open>trim\<close>, \<open>toLowerCase\<close>, prefixes and decimals on strings of 8-bit characters.
  \<^item> \<open>Db\<close> (\<open>packages/db\<close>): the tables the modelled code touches, audit rows, notifications.

  \<^bold>\<open>The worker.\<close>
  \<^item> \<open>Lifecycle\<close>, \<open>Calls\<close> (\<open>apps/worker/src/lifecycle.ts\<close>): compare-and-set writes of a workspace's
    state, create, start, stop and maintenance; the table of calls in flight, \<open>track\<close>, and the
    queue for the six slots.
  \<^item> \<open>Reconcile\<close>, \<open>Drift\<close> (\<open>reconcile.ts\<close>, \<open>reconcile-drift.ts\<close>): the steps of a sweep, query by query
    and row by row, and what it makes of the controller's list. \<open>Replace_Home\<close> (\<open>backups.ts\<close>).
  \<^item> \<open>Worker\<close>: worker, API and background calls as one transition system, in which every awaited
    statement of a sweep can be interrupted by an API write, an answer or a restart.
    \<open>Worker_States\<close>, \<open>Worker_Rows\<close>, \<open>Worker_Safety\<close> and \<open>Worker_System\<close> prove its invariant: the
    lifecycle is followed, no workspace has two calls in flight, \<open>track\<close> never throws, each call
    matches its row's state, and the slots add up.
  \<^item> \<open>Sweep_Rows\<close>, \<open>Sweep\<close>, \<open>Outcomes\<close>: what a whole sweep does to one row, that it ends, and what the
    create loop, a stop and the drift table leave behind on every branch.
  \<^item> \<open>Labels\<close>, \<open>Api_Workspaces\<close> (\<open>packages/contracts/src/workspace.ts\<close>, \<open>apps/api/src/routes\<close>): workspace
    labels and the API's writes to workspaces, which are steps of the system in \<open>Worker\<close>.
  \<^item> \<open>Guard_Policy\<close> (\<open>packages/contracts/src/guard.ts\<close>): the rules of the resource guard.
    \<open>Guard_Loop\<close> (\<open>apps/worker/src/guard.ts\<close>): a tick of the guard, row by row; \<open>Guard_Averages\<close> shows
    what its CPU average makes of the samples, \<open>Guard_Rows\<close> that after a tick the allowance of every
    listed instance is the one its row says.
  \<^item> \<open>Admin_Limits\<close> (\<open>apps/api/src/routes/admin-workspaces.ts\<close>): quota, limits and guard overrides an
    administrator sets. \<open>Config_Sync\<close> (\<open>apps/worker/src/quota.ts\<close>, \<open>limits.ts\<close>): the loops that apply
    them; \<open>Config_System\<close> runs the two against each other: volumes follow the quota, while a change of
    the limits that is taken back during its call is lost.

  \<^bold>\<open>The egress policy.\<close>
  \<^item> \<open>Egress\<close> (\<open>packages/contracts/src/egress.ts\<close>): names, addresses and ranges, why a host is allowed,
    and the expanded policy; the two agree on every input, and no private address is let through.
  \<^item> \<open>Egress_Admin\<close> (\<open>apps/api/src/routes/admin-egress.ts\<close>): the administrator's writes.
  \<^item> \<open>Egress_Sync\<close>, \<open>Egress_System\<close> (\<open>apps/worker/src/egress.ts\<close>): the loop that applies the policy,
    and both as one system, whose invariant says that the version recorded as applied is the
    policy in force, and that the controller is only asked for policies it accepts.

  \<^bold>\<open>The editor.\<close>
  \<^item> \<open>Paths\<close> (\<open>apps/web/src/files/paths.ts\<close>): path arithmetic of the file tree.
  \<^item> \<open>Layout\<close> (\<open>apps/web/src/layout/tree.ts\<close>): the split tree and every operation on it.
    \<open>Layout_Panes\<close> proves them correct against the list of a layout's leaves (locale \<open>leaf_view\<close>);
    \<open>Layout_Sync\<close> does so for changes that come from the server, a rename or another browser.
  \<^item> \<open>Layout_Schema\<close> (\<open>packages/contracts/src/project.ts\<close>): the schema of a stored layout, as a parser
    of JSON, exact in both directions. \<open>Layout_Valid\<close>: what a user can do to a layout keeps it
    acceptable, except for splits, which can go deeper than the schema allows.

  \<^bold>\<open>Rate limits and sign-in throttles\<close> (\<open>apps/api/src\<close>).
  \<^item> \<open>Js_Map\<close>: a JavaScript \<open>Map\<close> with its insertion order. \<open>Fixed_Window\<close>: the locale of a counter with
    windows of one length, and what every such counter bounds.
  \<^item> \<open>Rate_Limit\<close>, \<open>Session_Guard\<close> (\<open>rate-limit.ts\<close>): the counter in memory, which is such a counter
    and agrees with one that never drops a window; the remembered cookies that matched no session.
    \<open>Address_Key\<close>: the key a client address is counted under.
  \<^item> \<open>Stored_Counter\<close> (\<open>stored-counter.ts\<close>): the counter in a table. \<open>Counter_System\<close>: its statements,
    from any number of requests, as one transition system with its invariant.
  \<^item> \<open>Signin_Throttle\<close> (\<open>signin-throttle.ts\<close>, \<open>second-factor-throttle.ts\<close>, the counting in
    \<open>dex-password-relay.ts\<close>): password posts and second-factor tries as runs of that system.

  \<^bold>\<open>Sign-in, sessions and roles\<close> (\<open>packages/auth/src\<close> and the routes of \<open>apps/api\<close> that call it).
  \<^item> \<open>Totp\<close> (\<open>totp.ts\<close>): codes of an authenticator app, over an HMAC that is an argument.
    \<open>Dex_Subject\<close> (\<open>dex-subject.ts\<close>): the subject that tells which accounts have a Dex password.
  \<^item> \<open>Auth_Db\<close>: the tables of sign-in and the emailed links (\<open>account-email/tokens.ts\<close>). \<open>Roles\<close>
    (\<open>roles.ts\<close>, \<open>routes/admin.ts\<close>, \<open>admin/users.ts\<close>): grants, disabling and enabling. \<open>Sessions\<close>
    (\<open>sessions.ts\<close>). \<open>Sign_In\<close> (\<open>types.ts\<close>, \<open>lti/roles.ts\<close>, \<open>apps/api/src/sessions\<close>, \<open>routes/lti.ts\<close>): roles
    from groups and launches, invitations, the user row, the tail every sign-in shares, a launch.
    \<open>Second_Factor\<close> (\<open>second-factor.ts\<close>, \<open>routes/me-second-factor.ts\<close>). \<open>Account_Links\<close> (\<open>links.ts\<close>,
    \<open>routes/links.ts\<close>, \<open>routes/auth.ts\<close>): linking a course account. \<open>Accounts\<close> (\<open>local-admin.ts\<close>,
    \<open>routes/admin-dex-users.ts\<close>, \<open>me-password.ts\<close>, \<open>password-reset.ts\<close>): accounts with a Dex password.
  \<^item> \<open>Auth_Gate\<close> (\<open>plugin.ts\<close>): the hook in front of every route.
  \<^item> \<open>Auth_Steps\<close>: every transaction of these as a step of one transition system over the tables;
    \<open>Auth_Users\<close>, \<open>Auth_Invariants\<close> and \<open>Auth_System\<close> prove its invariant and that the last administrator
    is kept; \<open>Auth_Once\<close> (locale \<open>single_use\<close>, interpreted on codes, links, invitations and intents)
    that nothing is used twice; \<open>Auth_Access\<close> who gets past the hook; \<open>Auth_Outcomes\<close> what
    disabling, launching, linking and resetting leave behind. \<open>Auth_Runs\<close>: the whole handlers are runs
    of that system, on every branch. \<open>Auth_Samples\<close> holds the states of the witnesses.
  Hashes, HMACs, the opening of sealed secrets, random ids and the answers of Dex and of the identity
  provider are arguments; no theorem assumes anything of them but that new ids are new.

  \<^bold>\<open>Bounds, fuel and hypotheses.\<close> No definition takes fuel: the loops of the code are structural
  recursions over the rows a query returned, the delays of a retry schedule or a tree. The start
  retries are bounded by \<open>MAX_START_RETRIES\<close>, the slots by \<open>CONTROLLER_CONCURRENCY\<close>, and both bounds
  are theorems. Integers are unbounded except where the column's range matters (\<open>MAX_INT4\<close> in
  \<open>Egress_Admin\<close>). Pane sizes are rationals, where the code rounds doubles to two places. Ids the
  database or \<open>crypto.randomUUID\<close> makes are arguments, and the theorems that need it assume the
  new id is not in use. The controller's and the agent's answers are unconstrained arguments.

  \<^bold>\<open>Not modelled.\<close> HTTP
  and socket plumbing, response views, logging, the React components, the agent and controller
  (calls to Incus, the file system and processes), cryptography and protocol code over third-party
  libraries (OIDC, LTI), and deployment are left out: they hold no rule of their own that a
  definition here could be faithful to without modelling what they call.
\<close>

end
